(* ===== verification/Prelude.thy ===== *)
theory Prelude
  imports Complex_Main "HOL-Library.Word" "HOL-Library.AList" "HOL-Library.Sublist"
begin

text \<open>
  Shared vocabulary of the development: the Rust integer types as words, byte strings,
  decimal printing, big-endian encodings, slices, hash maps as association lists with
  distinct keys, the JSON data model, and the generic lemmas the component theories use.

  Conventions.
  \<^item> \<open>u8\<close>, \<open>u16\<close>, \<open>u32\<close>, \<open>u64\<close> are words of that width; \<open>usize\<close> lengths are \<open>nat\<close>;
    \<open>i64\<close> values are \<open>int\<close>, every narrowing cast is written out.
  \<^item> \<open>f64\<close> clock readings and time stamps are \<open>real\<close>: rounding is not modelled.
  \<^item> \<open>String\<close> and \<open>&str\<close> are lists of \<open>char\<close>, one \<open>char\<close> per UTF-8 byte, so \<open>len()\<close> is \<open>length\<close>.
  \<^item> \<open>Result<T, E>\<close> is \<open>'e + 't\<close> with \<open>Inl\<close> for \<open>Err\<close>; \<open>Option<T>\<close> is \<open>'t option\<close>.
  \<^item> \<open>HashMap\<close> is an association list with distinct keys. Where the code looks at the iteration
    order, the order is an argument of the definition.
  \<^item> Clock readings, random bytes and third-party primitives are arguments of the definitions.
\<close>

named_theorems wire_simps \<open>evaluation of wire formats and slices\<close>
named_theorems hm_simps \<open>lookup and size laws of hash maps\<close>

unbundle bit_operations_syntax

section \<open>Machine types\<close>

type_synonym u8 = "8 word"
type_synonym u16 = "16 word"
type_synonym u32 = "32 word"
type_synonym u64 = "64 word"
type_synonym bytes = "u8 list"
type_synonym ('e, 'a) result = "'e + 'a"

section \<open>Strings and bytes\<close>

definition str_bytes :: "string \<Rightarrow> bytes" where
  "str_bytes s = map (\<lambda>c. word_of_nat (of_char c)) s"

definition bytes_str :: "bytes \<Rightarrow> string" where
  "bytes_str bs = map (\<lambda>b. char_of (unat b)) bs"

definition starts_with :: "string \<Rightarrow> string \<Rightarrow> bool" where
  "starts_with p s = prefix p s"

definition strip_prefix :: "string \<Rightarrow> string \<Rightarrow> string option" where
  "strip_prefix p s = (if prefix p s then Some (drop (length p) s) else None)"

fun split_on :: "char \<Rightarrow> string \<Rightarrow> string list" where
  "split_on d [] = [[]]"
| "split_on d (c # cs) =
     (if c = d then [] # split_on d cs
      else case split_on d cs of [] \<Rightarrow> [[c]] | p # ps \<Rightarrow> (c # p) # ps)"

fun join_with :: "string \<Rightarrow> string list \<Rightarrow> string" where
  "join_with sep [] = []"
| "join_with sep [p] = p"
| "join_with sep (p # q # ps) = p @ sep @ join_with sep (q # ps)"

definition is_ascii_hexdigit :: "char \<Rightarrow> bool" where
  "is_ascii_hexdigit c =
     (let n = (of_char c :: nat)
      in (48 \<le> n \<and> n \<le> 57) \<or> (65 \<le> n \<and> n \<le> 70) \<or> (97 \<le> n \<and> n \<le> 102))"

definition ascii_upper :: "char \<Rightarrow> char" where
  "ascii_upper c = (let n = (of_char c :: nat) in if 97 \<le> n \<and> n \<le> 122 then char_of (n - 32) else c)"

definition to_uppercase :: "string \<Rightarrow> string" where
  "to_uppercase s = map ascii_upper s"

definition ascii_lower :: "char \<Rightarrow> char" where
  "ascii_lower c = (let n = (of_char c :: nat) in if 65 \<le> n \<and> n \<le> 90 then char_of (n + 32) else c)"

definition to_lowercase :: "string \<Rightarrow> string" where
  "to_lowercase s = map ascii_lower s"

text \<open>White space of ASCII text, and its removal at the ends.\<close>

definition is_space :: "char \<Rightarrow> bool" where
  "is_space c = (let n = of_char c :: nat in n = 32 \<or> 9 \<le> n \<and> n \<le> 13)"

definition trim_start :: "string \<Rightarrow> string" where
  "trim_start s = dropWhile is_space s"

definition str_trim :: "string \<Rightarrow> string" where
  "str_trim s = rev (dropWhile is_space (rev (dropWhile is_space s)))"

text \<open>\<open>str::lines\<close>: pieces between line feeds, a carriage return at the end of a line removed, no
  piece after a final line feed.\<close>

definition str_lines :: "string \<Rightarrow> string list" where
  "str_lines s =
     (let ps = split_on (CHR 0x0A) s; ls = (if last ps = [] then butlast ps else ps)
      in map (\<lambda>l. if l \<noteq> [] \<and> last l = CHR 0x0D then butlast l else l) ls)"

text \<open>\<open>str::find\<close> with a string, and \<open>trim_start_matches\<close>, which strips a prefix as often as it occurs.\<close>

fun find_str :: "string \<Rightarrow> string \<Rightarrow> nat option" where
  "find_str p [] = (if p = [] then Some 0 else None)"
| "find_str p (c # cs) = (if prefix p (c # cs) then Some 0 else map_option Suc (find_str p cs))"

function trim_start_matches :: "string \<Rightarrow> string \<Rightarrow> string" where
  "trim_start_matches p s =
     (if p \<noteq> [] \<and> prefix p s then trim_start_matches p (drop (length p) s) else s)"
  by pat_completeness auto
termination
  by (relation "measure (\<lambda>(p, s). length s)") (auto simp: prefix_def)

declare trim_start_matches.simps [simp del]

section \<open>Decimal printing\<close>

definition digit_char :: "nat \<Rightarrow> char" where
  "digit_char d = char_of (48 + d)"

fun show_nat :: "nat \<Rightarrow> string" where
  "show_nat n = (if n < 10 then [digit_char n] else show_nat (n div 10) @ [digit_char (n mod 10)])"

declare show_nat.simps [simp del]

definition show_int :: "int \<Rightarrow> string" where
  "show_int i = (if i < 0 then ''-'' @ show_nat (nat (- i)) else show_nat (nat i))"

text \<open>Parsing of unsigned decimal numbers below \<open>lim\<close>: an optional plus sign and digits.\<close>

definition is_digit_char :: "char \<Rightarrow> bool" where
  "is_digit_char c = (48 \<le> (of_char c :: nat) \<and> (of_char c :: nat) \<le> 57)"

definition digits_value :: "string \<Rightarrow> nat" where
  "digits_value s = foldl (\<lambda>acc c. acc * 10 + (of_char c - 48)) 0 s"

definition parse_below :: "nat \<Rightarrow> string \<Rightarrow> nat option" where
  "parse_below bound s =
     (let ds = (if s \<noteq> [] \<and> hd s = CHR ''+'' then tl s else s)
      in if ds = [] \<or> \<not> list_all is_digit_char ds \<or> bound \<le> digits_value ds then None
         else Some (digits_value ds))"

definition parse_u16 :: "string \<Rightarrow> u16 option" where
  "parse_u16 s = map_option word_of_nat (parse_below 65536 s)"

section \<open>Byte encodings and slices\<close>

fun be_bytes :: "nat \<Rightarrow> nat \<Rightarrow> bytes" where
  "be_bytes 0 v = []"
| "be_bytes (Suc k) v = be_bytes k (v div 256) @ [word_of_nat v]"

fun be_value :: "bytes \<Rightarrow> nat" where
  "be_value bs = foldl (\<lambda>acc b. acc * 256 + unat b) 0 bs"

definition u64_to_be_bytes :: "u64 \<Rightarrow> bytes" where
  "u64_to_be_bytes w = be_bytes 8 (unat w)"

definition u64_from_be_bytes :: "bytes \<Rightarrow> u64" where
  "u64_from_be_bytes bs = word_of_nat (be_value bs)"

definition u32_to_be_bytes :: "u32 \<Rightarrow> bytes" where
  "u32_to_be_bytes w = be_bytes 4 (unat w)"

definition u32_from_be_bytes :: "bytes \<Rightarrow> u32" where
  "u32_from_be_bytes bs = word_of_nat (be_value bs)"

definition slice :: "nat \<Rightarrow> nat \<Rightarrow> 'a list \<Rightarrow> 'a list" where
  "slice i j xs = take (j - i) (drop i xs)"

function chunks_of :: "nat \<Rightarrow> 'a list \<Rightarrow> 'a list list" where
  "chunks_of n xs = (if xs = [] \<or> n = 0 then [] else take n xs # chunks_of n (drop n xs))"
  by pat_completeness auto
termination
  by (relation "measure (\<lambda>(n, xs). length xs)") auto

declare chunks_of.simps [simp del]

section \<open>Hash maps\<close>

type_synonym ('k, 'v) hmap = "('k \<times> 'v) list"

definition hm_wf :: "('k, 'v) hmap \<Rightarrow> bool" where
  "hm_wf m = distinct (map fst m)"

definition hm_get :: "('k, 'v) hmap \<Rightarrow> 'k \<Rightarrow> 'v option" where
  "hm_get m k = map_of m k"

definition hm_contains :: "('k, 'v) hmap \<Rightarrow> 'k \<Rightarrow> bool" where
  "hm_contains m k = (hm_get m k \<noteq> None)"

definition hm_insert :: "'k \<Rightarrow> 'v \<Rightarrow> ('k, 'v) hmap \<Rightarrow> ('k, 'v) hmap" where
  "hm_insert k v m = AList.update k v m"

definition hm_remove :: "'k \<Rightarrow> ('k, 'v) hmap \<Rightarrow> ('k, 'v) hmap" where
  "hm_remove k m = AList.delete k m"

definition hm_len :: "('k, 'v) hmap \<Rightarrow> nat" where
  "hm_len m = length m"

definition hm_keys :: "('k, 'v) hmap \<Rightarrow> 'k list" where
  "hm_keys m = map fst m"

section \<open>JSON values\<close>

text \<open>
  The variants of \<open>serde_json::Value\<close> (integers and floats are the two shapes of its
  \<open>Number\<close>), with the accessors the code calls. Objects keep the first binding of a key.
\<close>

datatype json =
    JNull
  | JBool bool
  | JInt int
  | JFloat real
  | JString string
  | JArray "json list"
  | JObject "(string \<times> json) list"

definition i64_range :: "int \<Rightarrow> bool" where
  "i64_range i = (- (2 ^ 63) \<le> i \<and> i < 2 ^ 63)"

definition u64_range :: "int \<Rightarrow> bool" where
  "u64_range i = (0 \<le> i \<and> i < 2 ^ 64)"

fun as_str :: "json \<Rightarrow> string option" where
  "as_str (JString s) = Some s"
| "as_str _ = None"

fun as_i64 :: "json \<Rightarrow> int option" where
  "as_i64 (JInt i) = (if i64_range i then Some i else None)"
| "as_i64 _ = None"

fun as_u64 :: "json \<Rightarrow> u64 option" where
  "as_u64 (JInt i) = (if u64_range i then Some (word_of_int i) else None)"
| "as_u64 _ = None"

fun as_array :: "json \<Rightarrow> json list option" where
  "as_array (JArray xs) = Some xs"
| "as_array _ = None"

fun as_object :: "json \<Rightarrow> (string \<times> json) list option" where
  "as_object (JObject kvs) = Some kvs"
| "as_object _ = None"

definition json_get :: "json \<Rightarrow> string \<Rightarrow> json option" where
  "json_get v k = (case v of JObject kvs \<Rightarrow> map_of kvs k | _ \<Rightarrow> None)"

text \<open>A step returns its result and the next state; the operator \<open>?\<close> of the code is the sequence of two steps.\<close>

definition then_ok :: "('e, 'a) result \<times> 's \<Rightarrow> ('a \<Rightarrow> 's \<Rightarrow> ('e, 'b) result \<times> 's) \<Rightarrow> ('e, 'b) result \<times> 's" where
  "then_ok r f = (case r of (Inl e, st) \<Rightarrow> (Inl e, st) | (Inr x, st) \<Rightarrow> f x st)"

section \<open>Generic lemmas\<close>

subsection \<open>Strings and bytes\<close>

lemma length_str_bytes [simp]: "length (str_bytes s) = length s"
  by (simp add: str_bytes_def)

lemma length_bytes_str [simp]: "length (bytes_str bs) = length bs"
  by (simp add: bytes_str_def)

lemma bytes_str_bytes [simp]: "bytes_str (str_bytes s) = s"
proof -
  have "char_of (unat (word_of_nat (of_char c) :: u8)) = c" for c :: char
  proof -
    have "(of_char c :: nat) < 256" by simp
    then have "unat (word_of_nat (of_char c) :: u8) = of_char c"
      by (simp add: unat_of_nat)
    then show ?thesis by simp
  qed
  then show ?thesis by (simp add: bytes_str_def str_bytes_def comp_def)
qed

lemma str_bytes_str [simp]: "str_bytes (bytes_str bs) = bs"
proof -
  have "word_of_nat (of_char (char_of (unat b))) = b" for b :: u8
  proof -
    have "unat b < 256" using unsigned_less[of b, where 'a = nat] by simp
    then show ?thesis by simp
  qed
  then show ?thesis by (simp add: bytes_str_def str_bytes_def comp_def)
qed

lemma str_bytes_inj: "str_bytes s = str_bytes t \<Longrightarrow> s = t"
  by (metis bytes_str_bytes)

lemma str_bytes_append [simp]: "str_bytes (s @ t) = str_bytes s @ str_bytes t"
  by (simp add: str_bytes_def)

lemma split_on_nonempty [simp]: "split_on d s \<noteq> []"
  by (induction s) (auto split: list.splits)

lemma length_split_on: "sum_list (map length (split_on d s)) + length (split_on d s) = Suc (length s)"
  by (induction s) (auto split: list.splits)

lemma split_on_no_delim: "d \<notin> set s \<Longrightarrow> split_on d s = [s]"
  by (induction s) auto

lemma split_on_append: "d \<notin> set s \<Longrightarrow> split_on d (s @ d # t) = s # split_on d t"
  by (induction s) auto

lemma join_with_Cons: "ps \<noteq> [] \<Longrightarrow> join_with sep (p # ps) = p @ sep @ join_with sep ps"
  by (cases ps) simp_all

lemma split_on_join:
  "ps \<noteq> [] \<Longrightarrow> \<forall>p \<in> set ps. d \<notin> set p \<Longrightarrow> split_on d (join_with [d] ps) = ps"
  by (induction ps rule: list_nonempty_induct)
    (simp_all add: split_on_no_delim join_with_Cons split_on_append)

text \<open>A field that does not contain the delimiter can be read back from the front.\<close>

lemma delim_field_inj:
  "d \<notin> set a \<Longrightarrow> d \<notin> set b \<Longrightarrow> a @ d # x = b @ d # y \<Longrightarrow> a = b \<and> x = y"
  by (induction a arbitrary: b) (case_tac b; auto)+

text \<open>A field that does not contain the delimiter can be read back from the end.\<close>

lemma delim_field_inj_rev:
  assumes "d \<notin> set x" "d \<notin> set y" "a @ d # x = b @ d # y"
  shows "a = b \<and> x = y"
proof -
  have "rev x @ d # rev a = rev y @ d # rev b"
    using arg_cong[OF assms(3), of rev] by simp
  with assms(1,2) delim_field_inj[of d "rev x" "rev y" "rev a" "rev b"]
  show ?thesis by simp
qed

subsection \<open>Decimal printing\<close>

lemma digit_char_inj: "a < 10 \<Longrightarrow> b < 10 \<Longrightarrow> digit_char a = digit_char b \<Longrightarrow> a = b"
proof -
  assume ab: "a < 10" "b < 10" and eq: "digit_char a = digit_char b"
  have "(of_char (char_of (48 + a) :: char) :: nat) = of_char (char_of (48 + b) :: char)"
    using eq by (simp add: digit_char_def)
  with ab show "a = b" by simp
qed

lemma show_nat_nonempty [simp]: "show_nat n \<noteq> []"
  by (subst show_nat.simps) simp

lemma digit_char_is_digit: "d < 10 \<Longrightarrow> is_digit_char (digit_char d)"
  by (simp add: is_digit_char_def digit_char_def)

lemma show_nat_digits: "\<forall>c \<in> set (show_nat n). is_digit_char c"
proof (induction n rule: show_nat.induct)
  case (1 n)
  show ?case
  proof (cases "n < 10")
    case True
    then show ?thesis by (subst show_nat.simps) (simp add: digit_char_is_digit)
  next
    case False
    with "1.IH" show ?thesis
      by (subst show_nat.simps) (auto simp: digit_char_is_digit)
  qed
qed

lemma show_nat_inj: "show_nat m = show_nat n \<Longrightarrow> m = n"
proof (induction m arbitrary: n rule: show_nat.induct)
  case (1 m)
  note eq = "1.prems"
  have len: "length (show_nat k) = 1 \<longleftrightarrow> k < 10" for k
    by (simp add: show_nat.simps[of k])
  show ?case
  proof (cases "m < 10")
    case True
    then have "n < 10" using len[of m] len[of n] eq by simp
    with True eq show ?thesis
      by (simp add: show_nat.simps[of m] show_nat.simps[of n] digit_char_inj)
  next
    case False
    then have n: "\<not> n < 10" using len[of m] len[of n] eq by metis
    from False n eq have "show_nat (m div 10) = show_nat (n div 10)"
      and "digit_char (m mod 10) = digit_char (n mod 10)"
      by (simp_all add: show_nat.simps[of m] show_nat.simps[of n])
    then have "m div 10 = n div 10" and "m mod 10 = n mod 10"
      using "1.IH"[OF False] by (auto intro: digit_char_inj)
    then show ?thesis by (metis div_mult_mod_eq)
  qed
qed

lemma unat_bound: "unat (w :: 'a::len word) < 2 ^ LENGTH('a)"
  by (rule unsigned_less)

lemma digits_value_snoc [simp]: "digits_value (ds @ [c]) = digits_value ds * 10 + (of_char c - 48)"
  by (simp add: digits_value_def)

lemma digits_value_show_nat [simp]: "digits_value (show_nat n) = n"
proof (induction n rule: show_nat.induct)
  case (1 n)
  show ?case
  proof (cases "n < 10")
    case True
    then show ?thesis by (subst show_nat.simps) (simp add: digits_value_def digit_char_def)
  next
    case False
    with "1.IH" show ?thesis by (subst show_nat.simps) (simp add: digit_char_def)
  qed
qed

lemma parse_below_show_nat: "n < bound \<Longrightarrow> parse_below bound (show_nat n) = Some n"
proof -
  have "hd (show_nat n) \<in> set (show_nat n)" by simp
  then have "is_digit_char (hd (show_nat n))" using show_nat_digits by blast
  then have "hd (show_nat n) \<noteq> CHR ''+''" by (auto simp: is_digit_char_def)
  then show "n < bound \<Longrightarrow> ?thesis"
    using show_nat_digits[of n] by (simp add: parse_below_def list_all_iff)
qed

lemma parse_u16_show [simp]: "parse_u16 (show_nat (unat w)) = Some w"
  using unat_bound[of w] by (simp add: parse_u16_def parse_below_show_nat)

subsection \<open>Searching in strings\<close>

lemma trim_id: "list_all (\<lambda>c. \<not> is_space c) s \<Longrightarrow> str_trim s = s"
proof -
  assume s: "list_all (\<lambda>c. \<not> is_space c) s"
  have "dropWhile is_space t = t" if "list_all (\<lambda>c. \<not> is_space c) t" for t
    using that by (cases t) simp_all
  then show ?thesis using s by (simp add: str_trim_def list_all_rev)
qed

lemma find_str_None: "find_str p s = None \<Longrightarrow> \<not> prefix p s"
  by (cases s) (auto split: if_splits)

lemma find_str_bound: "find_str p s = Some i \<Longrightarrow> i + length p \<le> length s"
  by (induction s arbitrary: i) (auto split: if_splits dest: prefix_length_le)

text \<open>The first occurrence is the one after a front in which the pattern does not start.\<close>

lemma find_str_at:
  "(\<And>i. i < length a \<Longrightarrow> \<not> prefix p (drop i (a @ p @ b))) \<Longrightarrow> find_str p (a @ p @ b) = Some (length a)"
proof (induction a)
  case Nil
  have "prefix p (p @ b)" by simp
  then show ?case by (cases "p @ b") auto
next
  case (Cons c a)
  have "\<not> prefix p (c # a @ p @ b)" using Cons.prems[of 0] by simp
  moreover have "find_str p (a @ p @ b) = Some (length a)"
    using Cons.prems[of "Suc i" for i] by (intro Cons.IH) simp
  ultimately show ?case by simp
qed

lemma find_str_at_char:
  "c \<notin> set a \<Longrightarrow> p = c # q \<Longrightarrow> find_str p (a @ p @ b) = Some (length a)"
proof (rule find_str_at)
  fix i assume c: "c \<notin> set a" "p = c # q" and i: "i < length a"
  then have "drop i (a @ p @ b) = a ! i # drop (Suc i) (a @ p @ b)"
    by (simp add: Cons_nth_drop_Suc[symmetric] del: Cons_nth_drop_Suc)
  moreover have "a ! i \<noteq> c" using c i by auto
  ultimately show "\<not> prefix p (drop i (a @ p @ b))" using c by (auto simp: prefix_Cons)
qed

lemma trim_start_matches_no [simp]: "\<not> prefix p s \<Longrightarrow> trim_start_matches p s = s"
  by (simp add: trim_start_matches.simps[of p s])

lemma trim_start_matches_strip: "p \<noteq> [] \<Longrightarrow> trim_start_matches p (p @ s) = trim_start_matches p s"
  by (simp add: trim_start_matches.simps[of p "p @ s"])

lemma trim_start_matches_fix: "p \<noteq> [] \<Longrightarrow> \<not> prefix p (trim_start_matches p s)"
  by (induction p s rule: trim_start_matches.induct) (subst trim_start_matches.simps, auto)

lemma hd_split_on: "hd (split_on d s) = takeWhile (\<lambda>c. c \<noteq> d) s"
  by (induction s) (auto split: list.splits)

subsection \<open>Byte encodings and slices\<close>

lemma length_be_bytes [simp]: "length (be_bytes k v) = k"
  by (induction k arbitrary: v) simp_all

lemma be_value_snoc [simp]: "be_value (bs @ [b]) = be_value bs * 256 + unat b"
  by simp

declare be_value.simps [simp del]

lemma be_value_be_bytes: "be_value (be_bytes k v) = v mod 256 ^ k"
proof (induction k arbitrary: v)
  case 0
  then show ?case by (simp add: be_value.simps)
next
  case (Suc k)
  have "unat (word_of_nat v :: u8) = v mod 256"
    by (simp add: unat_of_nat)
  with Suc show ?case
    by (simp add: mod_mult2_eq mult.commute add.commute)
qed

lemma u64_be_roundtrip [wire_simps, simp]: "u64_from_be_bytes (u64_to_be_bytes w) = w"
proof -
  have "unat w < 256 ^ 8" using unat_bound[of w] by simp
  then show ?thesis
    by (simp add: u64_from_be_bytes_def u64_to_be_bytes_def be_value_be_bytes)
qed

lemma u32_be_roundtrip [wire_simps, simp]: "u32_from_be_bytes (u32_to_be_bytes w) = w"
proof -
  have "unat w < 256 ^ 4" using unat_bound[of w] by simp
  then show ?thesis
    by (simp add: u32_from_be_bytes_def u32_to_be_bytes_def be_value_be_bytes)
qed

lemma be_bytes_be_value: "be_bytes (length bs) (be_value bs) = bs"
proof (induction bs rule: rev_induct)
  case Nil
  then show ?case by simp
next
  case (snoc b bs)
  have "(be_value bs * 256 + unat b) div 256 = be_value bs"
    using unat_bound[of b] by simp
  moreover have "word_of_nat (be_value bs * 256 + unat b) = b"
    using unat_bound[of b] by (simp add: word_unat_eq_iff unat_of_nat del: of_nat_add of_nat_mult)
  ultimately show ?case using snoc by (simp del: of_nat_add of_nat_mult)
qed

lemma u32_to_from_be_bytes [wire_simps]:
  assumes "length bs = 4"
  shows "u32_to_be_bytes (u32_from_be_bytes bs) = bs"
proof -
  have "be_value bs < 256 ^ length bs"
    by (metis be_bytes_be_value be_value_be_bytes mod_less_divisor zero_less_numeral zero_less_power)
  then have "unat (u32_from_be_bytes bs) = be_value bs"
    using assms by (simp add: u32_from_be_bytes_def unat_of_nat)
  then show ?thesis using be_bytes_be_value[of bs] assms by (simp add: u32_to_be_bytes_def)
qed

lemma length_u64_to_be_bytes [wire_simps, simp]: "length (u64_to_be_bytes w) = 8"
  by (simp add: u64_to_be_bytes_def)

lemma length_u32_to_be_bytes [wire_simps, simp]: "length (u32_to_be_bytes w) = 4"
  by (simp add: u32_to_be_bytes_def)

lemma length_slice [wire_simps, simp]: "length (slice i j xs) = min (j - i) (length xs - i)"
  by (simp add: slice_def min.commute)

lemma slice_append_exact [wire_simps]:
  "i = length a \<Longrightarrow> j = length a + length b \<Longrightarrow> slice i j (a @ b @ c) = b"
  by (simp add: slice_def)

lemma chunks_of_Nil [simp]: "chunks_of n [] = []"
  by (simp add: chunks_of.simps)

lemma chunks_of_step: "xs \<noteq> [] \<Longrightarrow> 0 < n \<Longrightarrow> chunks_of n xs = take n xs # chunks_of n (drop n xs)"
  by (simp add: chunks_of.simps[of n xs])

lemma concat_chunks_of [simp]: "0 < n \<Longrightarrow> concat (chunks_of n xs) = xs"
proof (induction n xs rule: chunks_of.induct)
  case (1 n xs)
  then show ?case by (cases "xs = []") (simp_all add: chunks_of_step)
qed

lemma chunks_of_length_le: "0 < n \<Longrightarrow> c \<in> set (chunks_of n xs) \<Longrightarrow> length c \<le> n"
proof (induction n xs rule: chunks_of.induct)
  case (1 n xs)
  then show ?case by (cases "xs = []") (auto simp: chunks_of_step)
qed

lemma length_chunks_of: "0 < n \<Longrightarrow> length (chunks_of n xs) = (length xs + n - 1) div n"
proof (induction n xs rule: chunks_of.induct)
  case (1 n xs)
  show ?case
  proof (cases "xs = []")
    case True
    with "1.prems" show ?thesis by simp
  next
    case False
    then have IH: "length (chunks_of n (drop n xs)) = (length xs - n + n - 1) div n"
      using 1 by simp
    have pos: "0 < length xs" using False by simp
    show ?thesis
    proof (cases "length xs < n")
      case True
      then have "(length xs + n - 1) div n = 1"
        using pos "1.prems" by (intro div_nat_eqI) (auto simp: Suc_le_eq simp flip: length_greater_0_conv)
      with True False "1.prems" IH show ?thesis by (simp add: chunks_of_step)
    next
      case f: False
      have eq: "length xs + n - 1 = (length xs - 1) + n"
        using pos by linarith
      have "(length xs + n - 1) div n = Suc ((length xs - 1) div n)"
        unfolding eq using "1.prems" by (metis div_add_self2 not_gr0 Suc_eq_plus1)
      with f False "1.prems" IH show ?thesis by (simp add: chunks_of_step)
    qed
  qed
qed

lemma nth_chunks_of:
  "0 < n \<Longrightarrow> i < length (chunks_of n xs) \<Longrightarrow> chunks_of n xs ! i = take n (drop (i * n) xs)"
proof (induction n xs arbitrary: i rule: chunks_of.induct)
  case (1 n xs)
  show ?case
  proof (cases "xs = []")
    case True
    with "1.prems" show ?thesis by simp
  next
    case False
    with 1 show ?thesis
      by (cases i) (auto simp: chunks_of_step add.commute)
  qed
qed

subsection \<open>XOR\<close>

lemma xor_self_left [simp]: "x XOR (x XOR y) = (y :: 'a::len word)"
  by (simp flip: xor.assoc)

lemma xor_eq_left_iff [simp]: "x XOR y = x \<longleftrightarrow> y = (0 :: 'a::len word)"
  by (metis xor_self_left xor_self_eq xor.right_neutral)

lemma xor_eq_0_iff_eq [simp]: "x XOR y = 0 \<longleftrightarrow> x = (y :: 'a::len word)"
  by (metis xor_self_left xor_self_eq xor.right_neutral)

lemma xor_eq_iff: "x XOR y = z \<longleftrightarrow> y = x XOR (z :: 'a::len word)"
  by (metis xor_self_left)

subsection \<open>Hash maps\<close>

lemma hm_wf_Nil [simp]: "hm_wf []"
  by (simp add: hm_wf_def)

lemma hm_get_Nil [simp, hm_simps]: "hm_get [] k = None"
  by (simp add: hm_get_def)

lemma hm_get_Cons [simp, hm_simps]: "hm_get ((k, v) # m) k' = (if k' = k then Some v else hm_get m k')"
  by (simp add: hm_get_def)

lemma hm_len_simps [simp, hm_simps]: "hm_len [] = 0" "hm_len (kv # m) = Suc (hm_len m)"
  by (simp_all add: hm_len_def)

lemma hm_get_insert [simp, hm_simps]: "hm_get (hm_insert k v m) k' = (if k' = k then Some v else hm_get m k')"
  by (simp add: hm_get_def hm_insert_def update_conv')

lemma hm_get_remove [simp, hm_simps]: "hm_get (hm_remove k m) k' = (if k' = k then None else hm_get m k')"
  by (simp add: hm_get_def hm_remove_def delete_conv')

lemma hm_wf_insert [simp]: "hm_wf m \<Longrightarrow> hm_wf (hm_insert k v m)"
  by (simp add: hm_wf_def hm_insert_def distinct_update)

lemma hm_wf_remove [simp]: "hm_wf m \<Longrightarrow> hm_wf (hm_remove k m)"
  by (simp add: hm_wf_def hm_remove_def distinct_delete)

lemma hm_contains_iff: "hm_contains m k \<longleftrightarrow> k \<in> set (hm_keys m)"
  by (auto simp: hm_contains_def hm_get_def hm_keys_def map_of_eq_None_iff)

lemma hm_keys_insert: "set (hm_keys (hm_insert k v m)) = insert k (set (hm_keys m))"
  by (auto simp: hm_keys_def hm_insert_def update_keys)

lemma hm_keys_remove: "set (hm_keys (hm_remove k m)) = set (hm_keys m) - {k}"
  by (auto simp: hm_keys_def hm_remove_def delete_keys)

lemma hm_len_card: "hm_wf m \<Longrightarrow> hm_len m = card (set (hm_keys m))"
  by (metis hm_len_def hm_keys_def hm_wf_def distinct_card length_map)

lemma hm_len_insert [hm_simps]:
  "hm_wf m \<Longrightarrow> hm_len (hm_insert k v m) = (if hm_contains m k then hm_len m else Suc (hm_len m))"
  by (simp add: hm_len_card hm_keys_insert hm_contains_iff card_insert_if)

lemma hm_len_remove [hm_simps]:
  "hm_wf m \<Longrightarrow> hm_len (hm_remove k m) = (if hm_contains m k then hm_len m - 1 else hm_len m)"
  by (simp add: hm_len_card hm_keys_remove hm_contains_iff card_Diff_singleton_if)

lemma hm_get_fold_remove [simp, hm_simps]: "hm_get (fold hm_remove ks m) k = (if k \<in> set ks then None else hm_get m k)"
  by (induction ks arbitrary: m) auto

lemma hm_wf_fold_remove [simp]: "hm_wf m \<Longrightarrow> hm_wf (fold hm_remove ks m)"
  by (induction ks arbitrary: m) auto

lemma hm_len_insert_le: "hm_len (hm_insert k v m) \<le> Suc (hm_len m)"
  by (simp add: hm_len_def hm_insert_def) (induction m; force)

lemma hm_len_remove_le: "hm_len (hm_remove k m) \<le> hm_len m"
  by (simp add: hm_len_def hm_remove_def length_delete_le)

lemma hm_len_fold_remove_le: "hm_len (fold hm_remove ks m) \<le> hm_len m"
  by (induction ks arbitrary: m) (auto intro: order_trans[OF _ hm_len_remove_le])

lemma hm_len_update: "hm_wf m \<Longrightarrow> hm_get m k = Some v \<Longrightarrow> hm_len (hm_insert k v' m) = hm_len m"
  by (simp add: hm_len_insert hm_contains_def)

lemma hm_get_map_values [simp]: "hm_get (map (\<lambda>(k, v). (k, f v)) m) k = map_option f (hm_get m k)"
  by (simp add: hm_get_def map_of_map)

lemma hm_wf_map_values [simp]: "hm_wf (map (\<lambda>(k, v). (k, f v)) m) = hm_wf m"
  by (simp add: hm_wf_def comp_def case_prod_beta)

lemma hm_len_map_values [simp]: "hm_len (map (\<lambda>(k, v). (k, f v)) m) = hm_len m"
  by (simp add: hm_len_def)

lemma hm_get_filter_keys: "hm_wf m \<Longrightarrow> k \<in> set (map fst (filter (\<lambda>(k, v). P v) m)) \<longleftrightarrow> (\<exists>v. hm_get m k = Some v \<and> P v)"
  by (force simp: hm_get_def hm_wf_def map_of_eq_Some_iff)

lemma succ_no_wrap: "(v :: 'a::len word) < w \<Longrightarrow> unat (v + 1) = Suc (unat v)"
proof -
  assume "v < w"
  then have "unat v < unat w" by (simp add: word_less_nat_alt)
  then have "Suc (unat v) < 2 ^ LENGTH('a)" using unat_bound[of w] by linarith
  then show ?thesis by (simp add: unat_word_ariths)
qed

subsection \<open>Steps\<close>

lemma then_ok_Inr: "then_ok r f = (Inr y, s) \<longleftrightarrow> (\<exists>x s1. r = (Inr x, s1) \<and> f x s1 = (Inr y, s))"
  by (cases r rule: prod.exhaust, cases "fst r") (auto simp: then_ok_def split: prod.splits sum.splits)

lemma then_ok_simps [simp]: "then_ok (Inr x, s) f = f x s" "then_ok (Inl e, s) f = (Inl e, s)"
  by (simp_all add: then_ok_def)

lemma then_ok_keeps:
  assumes "J (snd r)" "\<And>x s. J s \<Longrightarrow> J (snd (f x s))"
  shows "J (snd (then_ok r f))"
  using assms by (cases r) (auto simp: then_ok_def split: sum.splits)

end
