(* ===== verification/SnapshotDefense.thy ===== *)
theory SnapshotDefense
  imports Prelude
begin

text \<open>
  The snapshot defence of \<open>crypto/src/snapshot_defense.rs\<close>: arithmetic in GF(256), the 2-of-3
  Shamir split of a volatile AES key, its reconstruction, and the boot kit that persists one
  shard per provider directory and recovers from any two of them.

  Memory pinning (\<open>mlock\<close>, \<open>madvise\<close>) and zeroising have no effect on the values and are not
  modelled. The random coefficients of a split and the generated key are arguments. The provider
  directories are a function from the provider index to the file content, if any; a failing
  \<open>fs::write\<close> is an argument of the writing loop.
\<close>

section \<open>Definitions\<close>

definition KEY_LEN :: nat where "KEY_LEN = 32"
definition SHARD_LEN :: nat where "SHARD_LEN = 1 + KEY_LEN"
definition GF_POLY :: u8 where "GF_POLY = 0x1D"
definition TMPFS_MAGIC :: int where "TMPFS_MAGIC = 0x01021994"

datatype SnapError =
    InvalidPath
  | StatFs int
  | NotEphemeral int
  | InsufficientShards nat
  | Persist nat
  | KeyLength nat
  | Aes string

subsection \<open>GF(256)\<close>

definition gf_xtime :: "u8 \<Rightarrow> u8" where
  "gf_xtime a =
     (let hi = a AND 0x80; a' = push_bit 1 a
      in if hi \<noteq> 0 then a' XOR GF_POLY else a')"

fun gf_loop :: "nat \<Rightarrow> u8 \<Rightarrow> u8 \<Rightarrow> u8 \<Rightarrow> u8" where
  "gf_loop 0 a b p = p"
| "gf_loop (Suc n) a b p =
     gf_loop n (gf_xtime a) (drop_bit 1 b) (if b AND 1 = 1 then p XOR a else p)"

definition gf_mul :: "u8 \<Rightarrow> u8 \<Rightarrow> u8" where
  "gf_mul a b = gf_loop 8 a b 0"

text \<open>The \<open>debug_assert!\<close> on a zero argument is absent from release builds, where the search falls
  through to 0.\<close>

definition gf_inv :: "u8 \<Rightarrow> u8" where
  "gf_inv a =
     (case find (\<lambda>i. gf_mul a (word_of_nat i) = 1) [1..<256] of
        Some i \<Rightarrow> word_of_nat i
      | None \<Rightarrow> 0)"

definition gf_div :: "u8 \<Rightarrow> u8 \<Rightarrow> u8" where
  "gf_div a b = gf_mul a (gf_inv b)"

subsection \<open>Keys and shards\<close>

definition VolatileKey_from_bytes :: "bytes \<Rightarrow> (SnapError, bytes) result" where
  "VolatileKey_from_bytes bs = (if length bs \<noteq> KEY_LEN then Inl (KeyLength (length bs)) else Inr bs)"

definition VolatileKey_seal ::
    "(bytes \<Rightarrow> bytes \<Rightarrow> bytes \<Rightarrow> bytes option) \<Rightarrow> bytes \<Rightarrow> bytes \<Rightarrow> bytes \<Rightarrow> (SnapError, bytes \<times> bytes) result" where
  "VolatileKey_seal aes_enc nonce key pt =
     (case aes_enc key nonce pt of None \<Rightarrow> Inl (Aes ''encrypt'') | Some ct \<Rightarrow> Inr (nonce, ct))"

definition VolatileKey_open ::
    "(bytes \<Rightarrow> bytes \<Rightarrow> bytes \<Rightarrow> bytes option) \<Rightarrow> bytes \<Rightarrow> bytes \<Rightarrow> bytes \<Rightarrow> (SnapError, bytes) result" where
  "VolatileKey_open aes_dec nonce ct key =
     (if length nonce \<noteq> 12 then Inl (Aes (''bad nonce length '' @ show_nat (length nonce)))
      else case aes_dec key nonce ct of None \<Rightarrow> Inl (Aes ''decrypt'') | Some pt \<Rightarrow> Inr pt)"

definition Shard_new :: "u8 \<Rightarrow> bytes \<Rightarrow> bytes" where
  "Shard_new x y = x # y"

definition Shard_x :: "bytes \<Rightarrow> u8" where
  "Shard_x s = s ! 0"

definition Shard_y :: "bytes \<Rightarrow> bytes" where
  "Shard_y s = drop 1 s"

definition Shard_from_bytes :: "bytes \<Rightarrow> (SnapError, bytes) result" where
  "Shard_from_bytes bs = (if length bs \<noteq> SHARD_LEN then Inl (KeyLength (length bs)) else Inr bs)"

subsection \<open>Split and reconstruct\<close>

definition split_key :: "bytes \<Rightarrow> bytes \<Rightarrow> bytes list" where
  "split_key a key =
     map (\<lambda>x. Shard_new x (map (\<lambda>i. (key ! i) XOR gf_mul (a ! i) x) [0..<KEY_LEN])) [1, 2, 3]"

definition reconstruct :: "bytes list \<Rightarrow> (SnapError, bytes) result" where
  "reconstruct shards =
     (if length shards < 2 then Inl (InsufficientShards (length shards))
      else
        let a = shards ! 0; b = shards ! 1;
            xa = Shard_x a; xb = Shard_x b;
            denom = xa XOR xb;
            lambda_a = gf_div xb denom;
            lambda_b = gf_div xa denom;
            ya = Shard_y a; yb = Shard_y b
        in VolatileKey_from_bytes
             (map (\<lambda>i. gf_mul (ya ! i) lambda_a XOR gf_mul (yb ! i) lambda_b) [0..<KEY_LEN]))"

subsection \<open>The boot kit\<close>

text \<open>\<open>statfs\<close> returns either an error number or the file-system magic.\<close>

definition verify_ephemeral_mount :: "(int, int) result \<Rightarrow> (SnapError, unit) result" where
  "verify_ephemeral_mount stat =
     (case stat of
        Inl e \<Rightarrow> Inl (StatFs e)
      | Inr f_type \<Rightarrow> if f_type \<noteq> TMPFS_MAGIC then Inl (NotEphemeral f_type) else Inr ())"

datatype boot_policy = BootOk | BootWarn | BootPanic

definition enforce_ephemeral_storage :: "bool \<Rightarrow> (int, int) result \<Rightarrow> boot_policy" where
  "enforce_ephemeral_storage strict stat =
     (case verify_ephemeral_mount stat of
        Inr _ \<Rightarrow> BootOk
      | Inl (NotEphemeral f) \<Rightarrow> if strict then BootPanic else BootWarn
      | Inl _ \<Rightarrow> BootWarn)"

type_synonym provider_fs = "nat \<Rightarrow> bytes option"

record SecKit =
  sk_key :: bytes
  sk_shards :: "bytes list"

text \<open>Write shard \<open>i\<close> to provider \<open>i\<close> for \<open>i = 0, 1, 2\<close>; the first failing write ends the loop and
  leaves the earlier files replaced.\<close>

fun persist_shards :: "(nat \<Rightarrow> bool) \<Rightarrow> nat \<Rightarrow> bytes list \<Rightarrow> provider_fs \<Rightarrow> (SnapError, unit) result \<times> provider_fs" where
  "persist_shards wfail i [] fs = (Inr (), fs)"
| "persist_shards wfail i (s # ss) fs =
     (if wfail i then (Inl (Persist i), fs)
      else persist_shards wfail (Suc i) ss (fs(i \<mapsto> s)))"

definition SecKit_bootstrap ::
    "bool \<Rightarrow> (int, int) result \<Rightarrow> bytes \<Rightarrow> bytes \<Rightarrow> (nat \<Rightarrow> bool) \<Rightarrow> provider_fs
     \<Rightarrow> (SnapError, SecKit) result \<times> provider_fs" where
  "SecKit_bootstrap require_tmpfs stat fresh_key coeff wfail fs =
     (case (if require_tmpfs then verify_ephemeral_mount stat else Inr ()) of
        Inl e \<Rightarrow> (Inl e, fs)
      | Inr _ \<Rightarrow>
          let shards = split_key coeff fresh_key in
          case persist_shards wfail 0 shards fs of
            (Inl e, fs') \<Rightarrow> (Inl e, fs')
          | (Inr _, fs') \<Rightarrow> (Inr \<lparr>sk_key = fresh_key, sk_shards = shards\<rparr>, fs'))"

text \<open>The scan over the provider directories stops as soon as two shards were found.\<close>

fun find_shards :: "provider_fs \<Rightarrow> nat list \<Rightarrow> bytes list \<Rightarrow> bytes list" where
  "find_shards fs [] found = found"
| "find_shards fs (d # ds) found =
     (let found' = (case fs d of
                      None \<Rightarrow> found
                    | Some bs \<Rightarrow> (case Shard_from_bytes bs of Inl _ \<Rightarrow> found | Inr s \<Rightarrow> found @ [s]))
      in if length found' \<ge> 2 then found' else find_shards fs ds found')"

definition SecKit_recover_or_bootstrap ::
    "bool \<Rightarrow> (int, int) result \<Rightarrow> bytes \<Rightarrow> bytes \<Rightarrow> (nat \<Rightarrow> bool) \<Rightarrow> provider_fs
     \<Rightarrow> (SnapError, SecKit) result \<times> provider_fs" where
  "SecKit_recover_or_bootstrap require_tmpfs stat fresh_key coeff wfail fs =
     (let found = find_shards fs [0, 1, 2] [] in
      if length found < 2 then SecKit_bootstrap require_tmpfs stat fresh_key coeff wfail fs
      else case reconstruct found of
             Inl e \<Rightarrow> (Inl e, fs)
           | Inr key \<Rightarrow>
               let shards = split_key coeff key in
               case persist_shards wfail 0 shards fs of
                 (Inl e, fs') \<Rightarrow> (Inl e, fs')
               | (Inr _, fs') \<Rightarrow> (Inr \<lparr>sk_key = key, sk_shards = shards\<rparr>, fs'))"

section \<open>GF(256) facts\<close>

text \<open>Maps that are additive for XOR. The contract is what interpolation needs of
  multiplication by a fixed coefficient.\<close>

locale xor_additive =
  fixes f :: "u8 \<Rightarrow> u8"
  assumes add: "f (a XOR b) = f a XOR f b"
begin

lemma zero: "f 0 = 0"
  using add[of 0 0] by simp

lemma kernel_inj:
  assumes "\<And>a. f a = 0 \<Longrightarrow> a = 0"
  shows "f a = f b \<longleftrightarrow> a = b"
proof
  assume "f a = f b"
  then have "f (a XOR b) = 0" by (simp add: add)
  with assms have "a XOR b = 0" by blast
  then show "a = b" by simp
qed simp

end

lemma gf_xtime_alt: "gf_xtime a = push_bit 1 a XOR (if bit a 7 then GF_POLY else 0)"
  using and_exp_eq_0_iff_not_bit[of a 7] by (simp add: gf_xtime_def Let_def)

lemma gf_xtime_xor: "gf_xtime (a XOR b) = gf_xtime a XOR gf_xtime b"
proof -
  have "push_bit 1 (a XOR b) = push_bit 1 a XOR push_bit 1 b"
    by (rule push_bit_xor)
  moreover have "(if bit (a XOR b) 7 then GF_POLY else 0)
      = (if bit a 7 then GF_POLY else 0) XOR (if bit b 7 then GF_POLY else 0)"
    by (simp add: bit_xor_iff)
  ultimately show ?thesis by (simp only: gf_xtime_alt ac_simps)
qed

lemma gf_loop_xor: "gf_loop n (a XOR a') b (p XOR p') = gf_loop n a b p XOR gf_loop n a' b p'"
proof (induction n arbitrary: a a' b p p')
  case 0
  show ?case by simp
next
  case (Suc n)
  have "(p XOR p') XOR (a XOR a') = (p XOR a) XOR (p' XOR a')"
    by (simp only: ac_simps)
  then show ?case by (simp add: gf_xtime_xor Suc.IH)
qed

interpretation gf_scale: xor_additive "\<lambda>a. gf_mul a c" for c
  by unfold_locales (use gf_loop_xor[of 8 _ _ c 0 0] in \<open>simp add: gf_mul_def\<close>)

text \<open>Multiplication as a sum over the bits of the second factor.\<close>

primrec xsum :: "(nat \<Rightarrow> u8) \<Rightarrow> nat \<Rightarrow> u8" where
  "xsum f 0 = 0"
| "xsum f (Suc n) = f 0 XOR xsum (\<lambda>i. f (Suc i)) n"

lemma gf_loop_xsum:
  "gf_loop n a b p = p XOR xsum (\<lambda>i. if bit b i then (gf_xtime ^^ i) a else 0) n"
proof (induction n arbitrary: a b p)
  case 0
  show ?case by simp
next
  case (Suc n)
  have odd: "b AND 1 = 1 \<longleftrightarrow> bit b 0"
    by (simp add: and_one_eq odd_iff_mod_2_eq_one bit_0)
  have bits: "bit (drop_bit 1 b) i = bit b (Suc i)" for i
    by (simp add: bit_drop_bit_eq)
  have shift: "(\<lambda>i. if bit (drop_bit 1 b) i then (gf_xtime ^^ i) (gf_xtime a) else 0)
      = (\<lambda>i. if bit b (Suc i) then (gf_xtime ^^ Suc i) a else 0)"
    by (rule ext) (simp only: bits funpow.simps comp_apply funpow_swap1[of gf_xtime])
  show ?case
    unfolding gf_loop.simps Suc.IH xsum.simps shift using odd by (simp add: xor.assoc)
qed

lemma gf_mul_xsum: "gf_mul a b = xsum (\<lambda>i. if bit b i then (gf_xtime ^^ i) a else 0) 8"
  by (simp add: gf_mul_def gf_loop_xsum)

lemma xsum_cong: "(\<And>i. i < n \<Longrightarrow> f i = g i) \<Longrightarrow> xsum f n = xsum g n"
proof (induction n arbitrary: f g)
  case 0
  show ?case by simp
next
  case (Suc n)
  have "xsum (\<lambda>i. f (Suc i)) n = xsum (\<lambda>i. g (Suc i)) n"
    by (rule Suc.IH) (simp add: Suc.prems)
  with Suc.prems[of 0] show ?case by simp
qed

context xor_additive
begin

lemma xsum_map: "f (xsum g n) = xsum (\<lambda>i. f (g i)) n"
  by (induction n arbitrary: g) (simp_all add: add zero)

lemma xsum_select: "f (xsum (\<lambda>i. if P i then g i else 0) n) = xsum (\<lambda>i. if P i then f (g i) else 0) n"
  unfolding xsum_map by (rule xsum_cong) (simp add: zero)

end

lemma gf_xtime_pow_xor: "(gf_xtime ^^ k) (a XOR b) = (gf_xtime ^^ k) a XOR (gf_xtime ^^ k) b"
  by (induction k) (simp_all add: gf_xtime_xor)

interpretation gf_shift: xor_additive "gf_xtime ^^ k" for k
  by unfold_locales (rule gf_xtime_pow_xor)

lemma gf_xtime_pow_commute: "(gf_xtime ^^ k) ((gf_xtime ^^ i) a) = (gf_xtime ^^ i) ((gf_xtime ^^ k) a)"
  by (metis funpow_add add.commute comp_apply)

lemma gf_xtime_mul: "(gf_xtime ^^ k) (gf_mul a b) = gf_mul ((gf_xtime ^^ k) a) b"
  unfolding gf_mul_xsum gf_shift.xsum_select
  by (rule xsum_cong) (simp only: gf_xtime_pow_commute[of k])

lemma byte_bits_eqI:
  assumes "\<And>k. k < 8 \<Longrightarrow> bit (x :: u8) k = bit y k"
  shows "x = y"
  using assms by (intro bit_word_eqI) simp

lemma gf_xtime_powers:
  "(gf_xtime ^^ 0) 1 = 1" "(gf_xtime ^^ 1) 1 = 2" "(gf_xtime ^^ 2) 1 = 4" "(gf_xtime ^^ 3) 1 = 8"
  "(gf_xtime ^^ 4) 1 = 16" "(gf_xtime ^^ 5) 1 = 32" "(gf_xtime ^^ 6) 1 = 64" "(gf_xtime ^^ 7) 1 = 128"
  by code_simp+

lemma gf_xtime_pow_exp: "k < 8 \<Longrightarrow> (gf_xtime ^^ k) 1 = 2 ^ k"
  using gf_xtime_powers by (auto simp: less_Suc_eq numeral_eq_Suc)

lemma byte_xsum: "b = xsum (\<lambda>i. if bit b i then 2 ^ i else 0) 8"
proof (rule byte_bits_eqI)
  fix k :: nat
  assume "k < 8"
  then consider "k = 0" | "k = 1" | "k = 2" | "k = 3" | "k = 4" | "k = 5" | "k = 6" | "k = 7"
    by linarith
  then show "bit b k = bit (xsum (\<lambda>i. if bit b i then 2 ^ i else 0) 8) k"
    by cases (simp_all add: eval_nat_numeral bit_simps)
qed

lemma gf_mul_one_left [simp]: "gf_mul 1 b = b"
proof -
  have "gf_mul 1 b = xsum (\<lambda>i. if bit b i then 2 ^ i else 0) 8"
    unfolding gf_mul_xsum by (rule xsum_cong) (simp add: gf_xtime_pow_exp)
  then show ?thesis using byte_xsum[of b] by simp
qed

lemma gf_mul_exp_left: "k < 8 \<Longrightarrow> gf_mul (2 ^ k) b = (gf_xtime ^^ k) b"
  using gf_xtime_mul[of k 1 b] by (simp add: gf_xtime_pow_exp)

theorem gf_mul_commute: "gf_mul a b = gf_mul b a"
proof -
  have "gf_mul a b = gf_mul (xsum (\<lambda>i. if bit a i then 2 ^ i else 0) 8) b"
    using byte_xsum[of a] by simp
  also have "\<dots> = xsum (\<lambda>i. if bit a i then gf_mul (2 ^ i) b else 0) 8"
    by (rule gf_scale.xsum_select)
  also have "\<dots> = gf_mul b a"
    unfolding gf_mul_xsum[of b a] by (rule xsum_cong) (simp add: gf_mul_exp_left)
  finally show ?thesis .
qed

lemma gf_mul_one_right [simp]: "gf_mul a 1 = a"
  by (simp add: gf_mul_commute[of a])

interpretation gf_scale_right: xor_additive "gf_mul a" for a
  by unfold_locales (metis gf_mul_commute gf_scale.add)

theorem gf_mul_assoc: "gf_mul (gf_mul a b) c = gf_mul a (gf_mul b c)"
proof -
  have shift: "(gf_xtime ^^ k) (gf_mul a b) = gf_mul a ((gf_xtime ^^ k) b)" for k
    by (metis gf_xtime_mul gf_mul_commute)
  show ?thesis
    unfolding gf_mul_xsum[of b c] gf_scale_right.xsum_select gf_mul_xsum[of "gf_mul a b" c] shift ..
qed

lemmas gf_mul_ac = gf_mul_assoc gf_mul_commute
  and gf_mul_xor = gf_scale.add gf_scale_right.add
  and gf_mul_zero [simp] = gf_scale.zero gf_scale_right.zero

text \<open>The brute-force search returns an inverse whenever there is one.\<close>

lemma gf_inv_correct:
  assumes "gf_mul a c = 1"
  shows "gf_mul a (gf_inv a) = 1"
proof -
  have "c \<noteq> 0" using assms by (metis gf_mul_zero(2) zero_neq_one)
  then have "unat c \<in> set [1..<256]"
    using unat_bound[of c] by (simp add: Suc_le_eq unat_gt_0)
  moreover have "gf_mul a (word_of_nat (unat c)) = 1" using assms by simp
  ultimately have "find (\<lambda>i. gf_mul a (word_of_nat i) = 1) [1..<256] \<noteq> None"
    by (metis (mono_tags, lifting) find_None_iff)
  then obtain i where i: "find (\<lambda>i. gf_mul a (word_of_nat i) = 1) [1..<256] = Some i"
    by blast
  then have "gf_mul a (word_of_nat i) = 1" by (auto simp: find_Some_iff)
  with i show ?thesis by (simp add: gf_inv_def)
qed

lemma gf_inv_zero: "gf_inv 0 = 0"
  by (simp add: gf_inv_def find_None_iff[THEN iffD2])

lemma gf_share_invertible: "gf_mul 1 1 = 1" "gf_mul 2 142 = 1" "gf_mul 3 244 = 1"
  by code_simp+

text \<open>Two distinct share indices differ by an index again, which has an inverse.\<close>

lemma share_index_cases:
  assumes "xa \<in> {1, 2, 3}" "xb \<in> {1, 2, 3}" "xa \<noteq> xb"
  shows "xa XOR xb \<in> {1, 2, 3 :: u8}"
  using assms by auto

lemma share_inv: "d \<in> {1, 2, 3} \<Longrightarrow> gf_mul d (gf_inv d) = 1"
  using gf_share_invertible by (auto intro: gf_inv_correct)

lemma share_mul_eq_zero: "d \<in> {1, 2, 3} \<Longrightarrow> gf_mul a d = 0 \<Longrightarrow> a = 0"
  by (metis share_inv gf_mul_assoc gf_mul_one_right gf_mul_zero(1))

section \<open>Interpolation\<close>

lemma lagrange_torn:
  assumes d: "gf_mul (xa XOR xb) (gf_inv (xa XOR xb)) = 1"
  shows "gf_mul (s XOR gf_mul a xa) (gf_div xb (xa XOR xb))
           XOR gf_mul (s XOR gf_mul a' xb) (gf_div xa (xa XOR xb))
         = s XOR gf_mul (a XOR a') (gf_mul (gf_mul xa xb) (gf_inv (xa XOR xb)))"
proof -
  let ?i = "gf_inv (xa XOR xb)"
  have one: "gf_mul s (gf_mul xb ?i) XOR gf_mul s (gf_mul xa ?i) = s"
    using d by (metis gf_mul_xor gf_mul_one_right xor.commute)
  have ea: "gf_mul (gf_mul a xa) (gf_mul xb ?i) = gf_mul a (gf_mul (gf_mul xa xb) ?i)"
    by (simp add: gf_mul_assoc)
  have eb: "gf_mul (gf_mul a' xb) (gf_mul xa ?i) = gf_mul a' (gf_mul (gf_mul xa xb) ?i)"
    by (simp add: gf_mul_assoc) (metis gf_mul_assoc gf_mul_commute)
  have swap: "(p XOR q) XOR (r XOR t) = (p XOR r) XOR (q XOR t)" for p q r t :: u8
    by (simp only: ac_simps)
  show ?thesis
    unfolding gf_div_def gf_mul_xor ea eb swap one ..
qed

lemma lagrange_line:
  assumes "gf_mul (xa XOR xb) (gf_inv (xa XOR xb)) = 1"
  shows "gf_mul (s XOR gf_mul a xa) (gf_div xb (xa XOR xb))
           XOR gf_mul (s XOR gf_mul a xb) (gf_div xa (xa XOR xb)) = s"
  using lagrange_torn[OF assms, of s a a] by simp

lemma length_split_key [simp]: "length (split_key a key) = 3"
  by (simp add: split_key_def)

definition share_x :: "nat \<Rightarrow> u8" where
  "share_x i = word_of_nat (Suc i)"

lemma split_key_nth:
  "i < 3 \<Longrightarrow> split_key a key ! i =
     Shard_new (share_x i) (map (\<lambda>k. (key ! k) XOR gf_mul (a ! k) (share_x i)) [0..<KEY_LEN])"
  by (auto simp: split_key_def share_x_def less_Suc_eq numeral_eq_Suc)

lemma Shard_parts [simp]: "Shard_x (Shard_new x y) = x" "Shard_y (Shard_new x y) = y"
  by (simp_all add: Shard_x_def Shard_y_def Shard_new_def)

lemma share_index: "i < 3 \<Longrightarrow> share_x i \<in> {1, 2, 3}"
  by (auto simp: share_x_def less_Suc_eq numeral_eq_Suc)

lemma share_index_inj: "i < 3 \<Longrightarrow> j < 3 \<Longrightarrow> share_x i = share_x j \<Longrightarrow> i = j"
  by (auto simp: share_x_def less_Suc_eq numeral_eq_Suc)

lemma share_diff_inv:
  assumes "i < 3" "j < 3" "i \<noteq> j"
  shows "gf_mul (share_x i XOR share_x j) (gf_inv (share_x i XOR share_x j)) = 1"
proof -
  from assms share_index_inj have "share_x i \<noteq> share_x j" by metis
  with assms have "share_x i XOR share_x j \<in> {1, 2, 3}"
    by (intro share_index_cases share_index)
  then show ?thesis by (rule share_inv)
qed

text \<open>Reconstruction from two shares of possibly different lines through the same secret.\<close>

definition torn_key :: "nat \<Rightarrow> nat \<Rightarrow> bytes \<Rightarrow> bytes \<Rightarrow> bytes \<Rightarrow> bytes" where
  "torn_key i j a a' key =
     map (\<lambda>k. (key ! k) XOR gf_mul (a ! k XOR a' ! k)
       (gf_mul (gf_mul (share_x i) (share_x j)) (gf_inv (share_x i XOR share_x j)))) [0..<KEY_LEN]"

lemma reconstruct_torn:
  assumes "i < 3" "j < 3" "i \<noteq> j"
  shows "reconstruct (split_key a key ! i # split_key a' key ! j # rest) = Inr (torn_key i j a a' key)"
  using assms
  by (simp add: reconstruct_def split_key_nth Let_def VolatileKey_from_bytes_def torn_key_def
      lagrange_torn[OF share_diff_inv[OF assms]] cong: map_cong)

lemma torn_key_same: "length key = KEY_LEN \<Longrightarrow> torn_key i j a a key = key"
  by (metis (mono_tags, lifting) torn_key_def gf_mul_zero(1) map_cong map_nth xor.right_neutral xor_self_eq)

lemma reconstruct_shares:
  assumes "length key = KEY_LEN" "i < 3" "j < 3" "i \<noteq> j"
  shows "reconstruct (split_key a key ! i # split_key a key ! j # rest) = Inr key"
  using reconstruct_torn[OF assms(2-4), of a key a rest] torn_key_same[OF assms(1)] by simp

lemma length_torn_key [simp]: "length (torn_key i j a a' key) = KEY_LEN"
  by (simp add: torn_key_def)

lemma torn_key_differs:
  assumes "length a = KEY_LEN" "length a' = KEY_LEN" "length key = KEY_LEN" "a \<noteq> a'"
    and ij: "i < 3" "j < 3" "i \<noteq> j"
  shows "torn_key i j a a' key \<noteq> key"
proof
  let ?m = "gf_mul (gf_mul (share_x i) (share_x j)) (gf_inv (share_x i XOR share_x j))"
  assume eq: "torn_key i j a a' key = key"
  have "a ! k = a' ! k" if k: "k < KEY_LEN" for k
  proof -
    from eq k have "(key ! k) XOR gf_mul (a ! k XOR a' ! k) ?m = key ! k"
      by (metis (no_types, lifting) torn_key_def nth_map_upt add_0 diff_zero)
    then have "gf_mul (a ! k XOR a' ! k) ?m = 0"
      by simp
    then have "gf_mul (gf_mul (a ! k XOR a' ! k) ?m) (share_x i XOR share_x j) = 0"
      by simp
    moreover have "gf_mul (gf_mul (a ! k XOR a' ! k) ?m) (share_x i XOR share_x j)
        = gf_mul (gf_mul (a ! k XOR a' ! k) (gf_mul (share_x i) (share_x j)))
            (gf_mul (share_x i XOR share_x j) (gf_inv (share_x i XOR share_x j)))"
      by (simp only: gf_mul_assoc gf_mul_commute[of "gf_inv _" "share_x i XOR share_x j"])
    ultimately have "gf_mul (gf_mul (a ! k XOR a' ! k) (share_x i)) (share_x j) = 0"
      using share_diff_inv[OF ij] by (simp add: gf_mul_assoc)
    then have "a ! k XOR a' ! k = 0"
      using share_mul_eq_zero share_index ij by blast
    then show ?thesis by simp
  qed
  with assms(1,2) have "a = a'" by (simp add: nth_equalityI)
  with \<open>a \<noteq> a'\<close> show False ..
qed

text \<open>A share and a candidate key determine the coefficients.\<close>

lemma share_coefficients_unique:
  assumes "length key = KEY_LEN" "length key' = KEY_LEN" "length a = KEY_LEN" "i < 3"
  shows "\<exists>!a'. length a' = KEY_LEN \<and> split_key a' key' ! i = split_key a key ! i"
proof -
  let ?x = "share_x i"
  let ?inv = "gf_inv ?x"
  let ?a = "map (\<lambda>k. gf_mul ((key ! k XOR key' ! k) XOR gf_mul (a ! k) ?x) ?inv) [0..<KEY_LEN]"
  have inv: "gf_mul ?inv ?x = 1" using share_inv[OF share_index[OF assms(4)]] by (simp add: gf_mul_commute)
  have cancel: "gf_mul (gf_mul v ?inv) ?x = v" for v by (simp add: gf_mul_assoc inv)
  have cancel': "gf_mul (gf_mul v ?x) ?inv = v" for v
    using inv by (simp add: gf_mul_assoc gf_mul_commute[of ?x])
  have mv: "key' ! k XOR u = key ! k XOR v \<longleftrightarrow> u = (key ! k XOR key' ! k) XOR v" for k u v
    unfolding xor_eq_iff[of "key' ! k"] by (simp only: ac_simps)
  have share_eq: "split_key a' key' ! i = split_key a key ! i \<longleftrightarrow>
      (\<forall>k<KEY_LEN. gf_mul (a' ! k) ?x = (key ! k XOR key' ! k) XOR gf_mul (a ! k) ?x)" for a'
    using assms(4) by (simp add: split_key_nth Shard_new_def mv Ball_def)
  show ?thesis
  proof (rule ex1I[of _ ?a])
    show "length ?a = KEY_LEN \<and> split_key ?a key' ! i = split_key a key ! i"
      by (simp add: share_eq cancel)
    fix b
    assume b: "length b = KEY_LEN \<and> split_key b key' ! i = split_key a key ! i"
    then have "b ! k = ?a ! k" if "k < KEY_LEN" for k
      using that share_eq[of b] cancel'[of "b ! k"] by simp
    then show "b = ?a" using b by (intro nth_equalityI) simp_all
  qed
qed

section \<open>Recovery\<close>

lemma split_key_from_bytes: "i < 3 \<Longrightarrow> Shard_from_bytes (split_key a key ! i) = Inr (split_key a key ! i)"
  by (simp add: split_key_nth Shard_from_bytes_def Shard_new_def SHARD_LEN_def)

lemma persist_shards_all:
  assumes "\<forall>i. \<not> wfail i"
  shows "fst (persist_shards wfail i ss fs) = Inr ()"
  using assms by (induction wfail i ss fs rule: persist_shards.induct) simp_all

text \<open>The scan finds two shares of the split when at most one provider lost its share.\<close>

lemma find_shards_two:
  assumes fs: "\<forall>d<3. d \<noteq> l \<longrightarrow> fs d = Some (split_key a key ! d)"
    and l: "fs l = None \<or> fs l = Some (split_key a key ! l)"
  shows "\<exists>i j. i < 3 \<and> j < 3 \<and> i \<noteq> j \<and>
           find_shards fs [0, 1, 2] [] = [split_key a key ! i, split_key a key ! j]"
proof -
  have val: "fs d = None \<and> d = l \<or> fs d = Some (split_key a key ! d)" if "d < 3" for d
    using that fs l by (cases "d = l") auto
  note v = val[of 0] val[of 1] val[of 2]
  have sb: "Shard_from_bytes (split_key a key ! 0) = Inr (split_key a key ! 0)"
    "Shard_from_bytes (split_key a key ! 1) = Inr (split_key a key ! 1)"
    "Shard_from_bytes (split_key a key ! 2) = Inr (split_key a key ! 2)"
    by (simp_all add: split_key_from_bytes)
  consider "fs 0 = None" "fs 1 = Some (split_key a key ! 1)" "fs 2 = Some (split_key a key ! 2)"
    | "fs 0 = Some (split_key a key ! 0)" "fs 1 = None" "fs 2 = Some (split_key a key ! 2)"
    | "fs 0 = Some (split_key a key ! 0)" "fs 1 = Some (split_key a key ! 1)"
    using v by fastforce
  then show ?thesis
  proof cases
    case 1 then show ?thesis by (intro exI[of _ 1] exI[of _ 2]) (simp add: sb[unfolded One_nat_def])
  next
    case 2 then show ?thesis by (intro exI[of _ 0] exI[of _ 2]) (simp add: sb[unfolded One_nat_def])
  next
    case 3 then show ?thesis by (intro exI[of _ 0] exI[of _ 1]) (simp add: sb[unfolded One_nat_def])
  qed
qed

lemma recover_found:
  assumes "find_shards fs [0, 1, 2] [] = found" "2 \<le> length found" "reconstruct found = Inr key"
  shows "SecKit_recover_or_bootstrap rt stat fresh_key coeff wfail fs =
    (case persist_shards wfail 0 (split_key coeff key) fs of
       (Inl e, fs') \<Rightarrow> (Inl e, fs')
     | (Inr _, fs') \<Rightarrow> (Inr \<lparr>sk_key = key, sk_shards = split_key coeff key\<rparr>, fs'))"
  unfolding SecKit_recover_or_bootstrap_def assms(1) using assms(2,3) by (simp add: Let_def)

lemma persist_torn:
  assumes "\<not> wfail 0" "wfail 1"
  shows "persist_shards wfail 0 (split_key a key) fs = (Inl (Persist 1), fs(0 \<mapsto> split_key a key ! 0))"
proof -
  obtain s0 s1 s2 where "split_key a key = [s0, s1, s2]" by (simp add: split_key_def)
  then show ?thesis using assms by simp
qed

section \<open>Properties\<close>

text \<open>C35: Any two of the three shares of a split give back the key, in either order.\<close>

theorem split_reconstruct_roundtrip:
  assumes "length key = 32" "i < 3" "j < 3" "i \<noteq> j"
  shows "reconstruct [split_key a key ! i, split_key a key ! j] = Inr key"
  using reconstruct_shares[of key i j a "[]"] assms by (simp add: KEY_LEN_def)

theorem split_reconstruct_roundtrip_witness:
  "reconstruct [split_key (replicate 32 7) (replicate 32 9) ! 2, split_key (replicate 32 7) (replicate 32 9) ! 0]
     = Inr (replicate 32 9)"
  by (rule split_reconstruct_roundtrip) simp_all

text \<open>C37: One share says nothing about the key: for every other key there is exactly one choice of
  the random coefficients that produces the same share.\<close>

theorem single_share_perfectly_hiding:
  assumes "length key = 32" "length key' = 32" "length a = 32" "i < 3"
  shows "\<exists>!a'. length a' = 32 \<and> split_key a' key' ! i = split_key a key ! i"
  using share_coefficients_unique[of key key' a i] assms by (simp add: KEY_LEN_def)

theorem single_share_perfectly_hiding_witness:
  "\<exists>!a'. length a' = 32 \<and> split_key a' (replicate 32 1) ! 1 = split_key (replicate 32 5) (replicate 32 200) ! 1"
  by (rule single_share_perfectly_hiding) simp_all

text \<open>A restart recovers the key after any one provider lost its share: if the provider files
  hold the shares of a split of the key, at most one of them missing, and the writes succeed, then
  recovery returns that key with a fresh split of it.\<close>

theorem recover_any_two:
  assumes "length key = 32"
    and "\<forall>d<3. d \<noteq> l \<longrightarrow> fs d = Some (split_key a key ! d)"
    and "fs l = None \<or> fs l = Some (split_key a key ! l)"
    and "\<forall>i. \<not> wfail i"
  shows "fst (SecKit_recover_or_bootstrap require_tmpfs stat fresh_key coeff wfail fs)
           = Inr \<lparr>sk_key = key, sk_shards = split_key coeff key\<rparr>"
proof -
  obtain i j where ij: "i < 3" "j < 3" "i \<noteq> j"
    and found: "find_shards fs [0, 1, 2] [] = [split_key a key ! i, split_key a key ! j]"
    using find_shards_two[OF assms(2,3)] by blast
  have rec: "reconstruct [split_key a key ! i, split_key a key ! j] = Inr key"
    using reconstruct_shares[OF _ ij, of key a "[]"] assms(1) by (simp add: KEY_LEN_def)
  have "fst (persist_shards wfail 0 (split_key coeff key) fs) = Inr ()"
    by (rule persist_shards_all[OF assms(4)])
  then show ?thesis
    unfolding recover_found[OF found _ rec, simplified] by (auto split: prod.splits sum.splits)
qed

theorem recover_any_two_witness:
  "fst (SecKit_recover_or_bootstrap True (Inr 0) [] (replicate 32 1) (\<lambda>_. False)
          (\<lambda>d. if d = 0 then None else Some (split_key (replicate 32 7) (replicate 32 9) ! d)))
     = Inr \<lparr>sk_key = replicate 32 9, sk_shards = split_key (replicate 32 1) (replicate 32 9)\<rparr>"
  by (rule recover_any_two[where l = 0 and a = "replicate 32 7"]) simp_all

text \<open>Recovery rewrites the shares in place, so an interruption corrupts the key silently: if the
  refresh fails at the second write, with coefficients different from the old ones, the next
  recovery succeeds and returns a key other than the one that was split.\<close>

theorem torn_refresh_loses_key:
  assumes "length key = 32" "length a = 32" "length coeff = 32" "coeff \<noteq> a"
    and "\<forall>d<3. fs d = Some (split_key a key ! d)"
    and "\<not> wfail 0" "wfail 1" "\<forall>i. \<not> wfail' i"
    and "snd (SecKit_recover_or_bootstrap rt stat fresh_key coeff wfail fs) = fs'"
  shows "\<exists>kit. fst (SecKit_recover_or_bootstrap rt' stat' fresh_key' coeff' wfail' fs') = Inr kit
           \<and> sk_key kit \<noteq> key"
proof -
  have sb: "Shard_from_bytes (split_key b k ! 0) = Inr (split_key b k ! 0)"
    "Shard_from_bytes (split_key b k ! Suc 0) = Inr (split_key b k ! Suc 0)" for b k
    by (simp_all add: split_key_from_bytes)
  have fs01: "fs 0 = Some (split_key a key ! 0)" "fs (Suc 0) = Some (split_key a key ! Suc 0)"
    using assms(5) by simp_all
  have rec: "reconstruct [split_key a key ! 0, split_key a key ! Suc 0] = Inr key"
    using reconstruct_shares[of key 0 1 a "[]"] assms(1) by (simp add: KEY_LEN_def)
  have "find_shards fs [0, 1, 2] [] = [split_key a key ! 0, split_key a key ! Suc 0]"
    by (simp add: fs01 sb)
  from recover_found[OF this _ rec, of rt stat fresh_key coeff wfail]
  have "fs' = fs(0 \<mapsto> split_key coeff key ! 0)"
    using assms(9) persist_torn[OF assms(6,7), of coeff key fs] by simp
  then have found: "find_shards fs' [0, 1, 2] [] = [split_key coeff key ! 0, split_key a key ! Suc 0]"
    by (simp add: fs01 sb)
  let ?k = "torn_key 0 1 coeff a key"
  have torn: "reconstruct [split_key coeff key ! 0, split_key a key ! Suc 0] = Inr ?k"
    using reconstruct_torn[of 0 1 coeff key a "[]"] by simp
  have "?k \<noteq> key"
    using assms(1-4) by (intro torn_key_differs) (simp_all add: KEY_LEN_def)
  moreover have "fst (persist_shards wfail' 0 (split_key coeff' ?k) fs') = Inr ()"
    by (rule persist_shards_all[OF assms(8)])
  ultimately show ?thesis
    unfolding recover_found[OF found _ torn, simplified] by (auto split: prod.splits sum.splits)
qed

theorem torn_refresh_loses_key_witness:
  "\<exists>kit. fst (SecKit_recover_or_bootstrap False (Inr 0) [] [] (\<lambda>_. False)
            (snd (SecKit_recover_or_bootstrap False (Inr 0) [] (replicate 32 1) (\<lambda>i. i = 1)
              (\<lambda>d. Some (split_key (replicate 32 7) (replicate 32 9) ! d))))) = Inr kit
         \<and> sk_key kit \<noteq> replicate 32 9"
  by (rule torn_refresh_loses_key[where a = "replicate 32 7" and coeff = "replicate 32 1" and wfail = "\<lambda>i. i = 1"
        and fs = "\<lambda>d. Some (split_key (replicate 32 7) (replicate 32 9) ! d)", OF _ _ _ _ _ _ _ _ refl])
     (simp_all add: replicate_eq_replicate)

text \<open>Two copies of the same share are accepted: in a release build the reconstruction of a
  duplicated share returns the all-zero key instead of an error.\<close>

theorem duplicate_share_gives_zero_key:
  "reconstruct (s # s # rest) = Inr (replicate 32 0)"
  by (simp add: reconstruct_def Let_def gf_div_def gf_inv_zero VolatileKey_from_bytes_def KEY_LEN_def
      map_replicate_const)

end
