(* ===== verification/Envelope.thy ===== *)
theory Envelope
  imports Prelude
begin

text \<open>
  The wire protocol of \<open>protocol/src/envelope.rs\<close>: the JSON envelope, its payload accessors, the
  domain-separated signing data, the DHT payload parsers and the response builders.

  JSON text, float printing and OpenPGP are third-party code: the printers and the detached
  signature scheme are arguments. Message identifiers and time stamps, drawn from the random
  generator and the clock, are arguments of the builders.
\<close>

section \<open>Definitions\<close>

definition STORE_TTL :: int where "STORE_TTL = 86400"
definition MAX_TTL :: int where "MAX_TTL = 604800"
definition MAX_KEY_SIZE :: nat where "MAX_KEY_SIZE = 256"
definition ADDR_TTL :: int where "ADDR_TTL = 7200"
definition POW_MAX_AGE :: int where "POW_MAX_AGE = 300"
definition MAX_VALUE_SIZE :: nat where "MAX_VALUE_SIZE = 16384"
definition MAX_TOTAL_KEYS :: nat where "MAX_TOTAL_KEYS = 1000000"
definition DHT_POW_DIFFICULTY :: nat where "DHT_POW_DIFFICULTY = 16"
definition MIN_POW_DIFFICULTY :: nat where "MIN_POW_DIFFICULTY = 8"
definition ADDR_POW_DIFFICULTY :: nat where "ADDR_POW_DIFFICULTY = 8"

record DhtPut =
  put_key :: string
  put_value :: string
  put_salt :: string
  put_seq :: int
  put_ttl :: int
  put_nonce :: int
  put_publisher_cert :: string

record DhtGet =
  get_key :: string

record DhtAddrRecord =
  ar_null_id :: string
  ar_address :: string
  ar_ttl :: int
  ar_publisher_fp :: string
  ar_publisher_cert :: string

record WireEnvelope =
  msg_type :: string
  payload :: json
  msg_id :: string
  ts :: real
  sig :: string

definition context_table :: "(string \<times> string) list" where
  "context_table =
    [(''dht-put'', ''add-dht-put-v1''),
     (''dht-get'', ''add-dht-get-v1''),
     (''dht-found'', ''add-dht-found-v1''),
     (''dht-error'', ''add-dht-error-v1''),
     (''dht-addr-record'', ''add-dht-addr-record-v1''),
     (''p2p-hello'', ''add-p2p-hello-v1''),
     (''p2p-hello-ack'', ''add-p2p-hello-ack-v1''),
     (''relay-store'', ''add-relay-store-v1''),
     (''relay-fetch'', ''add-relay-fetch-v1''),
     (''relay-ack'', ''add-relay-ack-v1''),
     (''relay-delete'', ''add-relay-delete-v1''),
     (''relay-purge'', ''add-relay-purge-v1''),
     (''relay-read-receipt'', ''add-relay-read-receipt-v1''),
     (''route-advertise'', ''add-fed-route-advertise-v1''),
     (''peer-auth'', ''add-fed-peer-auth-v1''),
     (''peer-auth-reply'', ''add-fed-peer-auth-reply-v1''),
     (''relay-forward'', ''add-fed-relay-forward-v1''),
     (''relay-forward-ack'', ''add-fed-relay-forward-ack-v1'')]"

definition signing_context :: "string \<Rightarrow> string" where
  "signing_context t = (case map_of context_table t of Some c \<Rightarrow> c | None \<Rightarrow> ''add-unknown-v1'')"

definition payload_field :: "WireEnvelope \<Rightarrow> string \<Rightarrow> json option" where
  "payload_field env key =
     (case as_object (payload env) of None \<Rightarrow> None | Some kvs \<Rightarrow> map_of kvs key)"

definition payload_str :: "WireEnvelope \<Rightarrow> string \<Rightarrow> string option" where
  "payload_str env key = Option.bind (payload_field env key) as_str"

definition payload_i64 :: "WireEnvelope \<Rightarrow> string \<Rightarrow> int option" where
  "payload_i64 env key = Option.bind (payload_field env key) as_i64"

definition unwrap_or :: "'a \<Rightarrow> 'a option \<Rightarrow> 'a" where
  "unwrap_or d x = (case x of None \<Rightarrow> d | Some v \<Rightarrow> v)"

text \<open>The printers of a JSON value and of a float, as \<open>Display\<close> renders them.\<close>

record printers =
  show_json :: "json \<Rightarrow> string"
  show_f64 :: "real \<Rightarrow> string"

definition signing_data :: "printers \<Rightarrow> WireEnvelope \<Rightarrow> string" where
  "signing_data P env =
     signing_context (msg_type env) @ ''|'' @ msg_type env @ ''|'' @ show_json P (payload env)
       @ ''|'' @ msg_id env @ ''|'' @ show_f64 P (ts env)"

definition set_signature :: "WireEnvelope \<Rightarrow> string \<Rightarrow> WireEnvelope" where
  "set_signature env s = env\<lparr>sig := s\<rparr>"

definition sign_gpg ::
    "(string \<Rightarrow> 'cert \<Rightarrow> (string, string) result) \<Rightarrow> printers \<Rightarrow> WireEnvelope \<Rightarrow> 'cert \<Rightarrow> (string, WireEnvelope) result" where
  "sign_gpg sign_detached P env cert =
     (case sign_detached (signing_data P env) cert of Inl e \<Rightarrow> Inl e | Inr s \<Rightarrow> Inr (env\<lparr>sig := s\<rparr>))"

definition verify_gpg ::
    "(string \<Rightarrow> string \<Rightarrow> 'cert \<Rightarrow> (string, bool) result) \<Rightarrow> printers \<Rightarrow> WireEnvelope \<Rightarrow> 'cert \<Rightarrow> (string, bool) result" where
  "verify_gpg verify_detached P env cert =
     (if sig env = [] then Inr False else verify_detached (sig env) (signing_data P env) cert)"

definition is_signed :: "WireEnvelope \<Rightarrow> bool" where
  "is_signed env = (sig env \<noteq> [])"

definition parse_dht_put :: "WireEnvelope \<Rightarrow> DhtPut option" where
  "parse_dht_put env =
     (case payload_str env ''key'' of None \<Rightarrow> None | Some k \<Rightarrow>
      case payload_str env ''value'' of None \<Rightarrow> None | Some v \<Rightarrow>
      case payload_str env ''salt'' of None \<Rightarrow> None | Some s \<Rightarrow>
        Some \<lparr>put_key = k, put_value = v, put_salt = s,
              put_seq = unwrap_or 0 (payload_i64 env ''seq''),
              put_ttl = unwrap_or STORE_TTL (payload_i64 env ''ttl''),
              put_nonce = unwrap_or 0 (payload_i64 env ''nonce''),
              put_publisher_cert = unwrap_or [] (payload_str env ''publisher_cert'')\<rparr>)"

definition parse_dht_get :: "WireEnvelope \<Rightarrow> DhtGet option" where
  "parse_dht_get env = map_option (\<lambda>k. \<lparr>get_key = k\<rparr>) (payload_str env ''key'')"

definition parse_dht_addr_record :: "WireEnvelope \<Rightarrow> DhtAddrRecord option" where
  "parse_dht_addr_record env =
     (case payload_str env ''null_id'' of None \<Rightarrow> None | Some n \<Rightarrow>
      case payload_str env ''address'' of None \<Rightarrow> None | Some a \<Rightarrow>
      case payload_str env ''publisher_fp'' of None \<Rightarrow> None | Some fp \<Rightarrow>
        Some \<lparr>ar_null_id = n, ar_address = a,
              ar_ttl = unwrap_or ADDR_TTL (payload_i64 env ''ttl''),
              ar_publisher_fp = fp,
              ar_publisher_cert = unwrap_or [] (payload_str env ''publisher_cert'')\<rparr>)"

definition build_dht_found :: "string \<Rightarrow> real \<Rightarrow> string \<Rightarrow> string \<Rightarrow> string \<Rightarrow> int \<Rightarrow> WireEnvelope" where
  "build_dht_found uuid now key v salt seq =
     \<lparr>msg_type = ''dht-found'',
      payload = JObject [(''key'', JString key), (''value'', JString v), (''salt'', JString salt), (''seq'', JInt seq)],
      msg_id = uuid, ts = now, sig = []\<rparr>"

definition build_dht_error :: "string \<Rightarrow> real \<Rightarrow> string \<Rightarrow> string \<Rightarrow> WireEnvelope" where
  "build_dht_error uuid now key message =
     \<lparr>msg_type = ''dht-error'',
      payload = JObject [(''key'', JString key), (''message'', JString message)],
      msg_id = uuid, ts = now, sig = []\<rparr>"

section \<open>Lemmas\<close>

lemma unwrap_or_simps [simp]: "unwrap_or d None = d" "unwrap_or d (Some v) = v"
  by (simp_all add: unwrap_or_def)

lemma context_no_bar: "CHR ''|'' \<notin> set (signing_context t)"
proof -
  have "list_all (\<lambda>(_, c). CHR ''|'' \<notin> set c) context_table"
    by (simp add: context_table_def)
  then show ?thesis
    by (auto simp: signing_context_def list_all_iff split: option.splits dest!: map_of_SomeD)
qed

lemma context_values_distinct: "distinct (''add-unknown-v1'' # map snd context_table)"
  by (simp add: context_table_def)

lemma context_known_inj:
  assumes eq: "signing_context t = signing_context u" and known: "map_of context_table t \<noteq> None"
  shows "t = u"
proof -
  from known obtain c where c: "map_of context_table t = Some c" by blast
  then have t: "(t, c) \<in> set context_table" by (rule map_of_SomeD)
  with context_values_distinct have "c \<noteq> ''add-unknown-v1''" by force
  with eq c have "map_of context_table u = Some c"
    by (auto simp: signing_context_def split: option.splits)
  then have u: "(u, c) \<in> set context_table" by (rule map_of_SomeD)
  from context_values_distinct have "inj_on snd (set context_table)"
    by (simp add: distinct_map)
  from inj_onD[OF this _ t u] show ?thesis by simp
qed

lemma signing_data_context:
  assumes "signing_data P e = signing_data P e'"
  shows "signing_context (msg_type e) = signing_context (msg_type e')"
proof -
  from assms obtain x y where
    "signing_context (msg_type e) @ CHR ''|'' # x = signing_context (msg_type e') @ CHR ''|'' # y"
    by (simp add: signing_data_def)
  from delim_field_inj[OF context_no_bar context_no_bar this] show ?thesis by simp
qed

section \<open>Properties\<close>

text \<open>Signatures are domain separated by message type: when the signing data of two envelopes
  agree and the type of one of them is known, both have that type, whatever the other fields.\<close>

theorem signing_data_domain_separated:
  assumes "signing_data P e = signing_data P e'" and "msg_type e \<in> fst ` set context_table"
  shows "msg_type e = msg_type e'"
proof (rule context_known_inj)
  show "signing_context (msg_type e) = signing_context (msg_type e')"
    by (rule signing_data_context[OF assms(1)])
  show "map_of context_table (msg_type e) \<noteq> None"
    using assms(2) by (simp add: map_of_eq_None_iff)
qed

theorem signing_data_domain_separated_witness:
  "msg_type \<lparr>msg_type = ''dht-put'', payload = JNull, msg_id = [], ts = 0, sig = ''a''\<rparr>
   = msg_type \<lparr>msg_type = ''dht-put'', payload = JNull, msg_id = [], ts = 0, sig = ''b''\<rparr>"
  by (rule signing_data_domain_separated[where P = "\<lparr>show_json = \<lambda>_. ''null'', show_f64 = \<lambda>_. ''0''\<rparr>"])
    (simp_all add: signing_data_def context_table_def)

end
