(* ===== verification/Pow.thy ===== *)
theory Pow
  imports Envelope
begin

text \<open>
  Argon2id proof of work, \<open>protocol/src/pow.rs\<close>. Argon2 is third-party: \<open>argon\<close> stands for
  \<open>Params::new\<close> followed by \<open>hash_password_into\<close>, either a parameter error or a function from the
  secret and the salt to an error or the hash. The wall clock of the solver is the argument
  \<open>elapsed\<close>, the seconds since the start read after the attempt with the given nonce.
\<close>

section \<open>Definitions\<close>

definition POW_SALT :: bytes where "POW_SALT = str_bytes ''add-dht-pow''"

datatype PowError =
    Argon2Params string
  | Argon2Hash string
  | DifficultyTooHigh
  | Timeout
  | DifficultyTooLow nat nat

type_synonym argon = "(string, bytes \<Rightarrow> bytes \<Rightarrow> (string, bytes) result) result"

lemma lz_measure:
  assumes "(b :: u8) \<noteq> 0" "b AND 0x80 = 0"
  shows "unat b < unat (push_bit 1 b)"
proof -
  have nb: "\<not> bit b 7" using assms(2) and_exp_eq_0_iff_not_bit[of b 7] by simp
  have "unat b < 128"
  proof (rule ccontr)
    assume "\<not> unat b < 128"
    moreover have "unat b < 256" using unat_bound[of b] by simp
    ultimately have "unat b div 128 = 1" by (intro div_nat_eqI) simp_all
    then have "bit (unat b) 7" by (simp add: bit_iff_odd)
    then have "bit b 7" by (simp add: bit_unsigned_iff)
    with nb show False ..
  qed
  then have "unat (push_bit 1 b) = 2 * unat b"
    by (simp add: unat_word_ariths)
  with assms(1) show ?thesis by (simp add: unat_gt_0)
qed

text \<open>The inner loop counts the leading zeros of the first non-zero byte.\<close>

function byte_zeros :: "u8 \<Rightarrow> nat \<Rightarrow> nat" where
  "byte_zeros b bits = (if b \<noteq> 0 \<and> b AND 0x80 = 0 then byte_zeros (push_bit 1 b) (bits + 1) else bits)"
  by pat_completeness auto
termination
  by (relation "measure (\<lambda>(b, bits). 256 - unat b)")
    (use lz_measure unat_bound[where 'a = 8] in \<open>auto intro!: diff_less_mono2 simp del: push_bit_Suc\<close>)

declare byte_zeros.simps [simp del]

fun zero_bits_loop :: "bytes \<Rightarrow> nat \<Rightarrow> nat" where
  "zero_bits_loop [] bits = bits"
| "zero_bits_loop (b # bs) bits = (if b = 0 then zero_bits_loop bs (bits + 8) else byte_zeros b bits)"

definition leading_zero_bits :: "bytes \<Rightarrow> nat" where
  "leading_zero_bits hash = zero_bits_loop hash 0"

definition node_pow_salt :: "bytes \<Rightarrow> bytes" where
  "node_pow_salt node_secret = POW_SALT @ node_secret"

definition pow_secret :: "string \<Rightarrow> u64 \<Rightarrow> string" where
  "pow_secret data nonce = data @ '':'' @ show_nat (unat nonce)"

definition pow_check :: "argon \<Rightarrow> string \<Rightarrow> u64 \<Rightarrow> nat \<Rightarrow> bytes \<Rightarrow> (PowError, bool) result" where
  "pow_check argon data nonce difficulty node_secret =
     (if difficulty < MIN_POW_DIFFICULTY then Inl (DifficultyTooLow difficulty MIN_POW_DIFFICULTY)
      else case argon of
        Inl e \<Rightarrow> Inl (Argon2Params e)
      | Inr hasher \<Rightarrow>
          (case hasher (str_bytes (pow_secret data nonce)) (node_pow_salt node_secret) of
             Inl e \<Rightarrow> Inl (Argon2Hash e)
           | Inr raw \<Rightarrow> Inr (difficulty \<le> leading_zero_bits raw)))"

function solve_loop ::
    "(bytes \<Rightarrow> bytes \<Rightarrow> (string, bytes) result) \<Rightarrow> (nat \<Rightarrow> real) \<Rightarrow> string \<Rightarrow> nat \<Rightarrow> bytes \<Rightarrow> nat \<Rightarrow> nat
     \<Rightarrow> (PowError, u64 option) result" where
  "solve_loop hasher elapsed data difficulty salt nonce max_attempts =
     (if nonce < max_attempts then
        (case hasher (str_bytes (pow_secret data (word_of_nat nonce))) salt of
           Inl e \<Rightarrow> Inl (Argon2Hash e)
         | Inr raw \<Rightarrow>
             if difficulty \<le> leading_zero_bits raw then Inr (Some (word_of_nat nonce))
             else if nonce mod 1024 = 0 \<and> elapsed nonce > 30 then Inl Timeout
             else solve_loop hasher elapsed data difficulty salt (nonce + 1) max_attempts)
      else Inr None)"
  by pat_completeness auto
termination
  by (relation "measure (\<lambda>(_, _, _, _, _, nonce, max_attempts). max_attempts - nonce)") auto

declare solve_loop.simps [simp del]

definition pow_solve ::
    "argon \<Rightarrow> (nat \<Rightarrow> real) \<Rightarrow> string \<Rightarrow> nat \<Rightarrow> u64 \<Rightarrow> bytes \<Rightarrow> (PowError, u64 option) result" where
  "pow_solve argon elapsed data difficulty max_attempts node_secret =
     (if difficulty < MIN_POW_DIFFICULTY then Inl (DifficultyTooLow difficulty MIN_POW_DIFFICULTY)
      else case argon of
        Inl e \<Rightarrow> Inl (Argon2Params e)
      | Inr hasher \<Rightarrow>
          solve_loop hasher elapsed data difficulty (node_pow_salt node_secret) 0 (unat max_attempts))"

section \<open>Leading zero bits\<close>

definition byte_bits :: "u8 \<Rightarrow> bool list" where
  "byte_bits b = map (\<lambda>i. bit b (7 - i)) [0..<8]"

lemma byte_bits_explicit:
  "byte_bits b = [bit b 7, bit b 6, bit b 5, bit b 4, bit b 3, bit b 2, bit b 1, bit b 0]"
  by (simp add: byte_bits_def upt_rec)

lemma byte_bits_shift: "byte_bits (push_bit 1 b) = tl (byte_bits b) @ [False]"
  unfolding byte_bits_explicit bit_push_bit_iff by simp

lemma byte_bits_zero: "b = 0 \<longleftrightarrow> True \<notin> set (byte_bits b)"
proof
  assume n: "True \<notin> set (byte_bits b)"
  show "b = 0"
  proof (rule bit_word_eqI)
    fix k
    assume "k < LENGTH(8)"
    then consider "k = 0" | "k = 1" | "k = 2" | "k = 3" | "k = 4" | "k = 5" | "k = 6" | "k = 7"
      by fastforce
    then show "bit b k = bit 0 k" using n by cases (auto simp: byte_bits_explicit)
  qed
qed (simp add: byte_bits_explicit)

lemma takeWhile_not_tl_snoc:
  assumes "xs \<noteq> []" "\<not> hd xs" "True \<in> set xs"
  shows "length (takeWhile Not xs) = Suc (length (takeWhile Not (tl xs @ [False])))"
  using assms by (cases xs) (auto simp: takeWhile_append1[where x = True])

lemma byte_zeros_spec: "b \<noteq> 0 \<Longrightarrow> byte_zeros b bits = bits + length (takeWhile Not (byte_bits b))"
proof (induction b bits rule: byte_zeros.induct)
  case (1 b bits)
  have hd: "hd (byte_bits b) \<longleftrightarrow> b AND 0x80 \<noteq> 0"
    using and_exp_eq_0_iff_not_bit[of b 7] by (simp add: byte_bits_explicit)
  show ?case
  proof (cases "b AND 0x80 = 0")
    case True
    with "1.prems" lz_measure[of b] have nz: "push_bit 1 b \<noteq> 0" by force
    have "length (takeWhile Not (byte_bits b)) = Suc (length (takeWhile Not (byte_bits (push_bit 1 b))))"
      unfolding byte_bits_shift
      using "1.prems" True hd byte_bits_zero[of b]
      by (intro takeWhile_not_tl_snoc) (auto simp: byte_bits_explicit)
    with True "1.prems" "1.IH" nz show ?thesis by (simp add: byte_zeros.simps[of b bits])
  next
    case False
    with hd show ?thesis by (simp add: byte_zeros.simps[of b bits]) (simp add: byte_bits_explicit)
  qed
qed

lemma zero_bits_loop_spec:
  "zero_bits_loop bs bits = bits + length (takeWhile Not (concat (map byte_bits bs)))"
proof (induction bs bits rule: zero_bits_loop.induct)
  case (2 b bs bits)
  show ?case
  proof (cases "b = 0")
    case True
    with 2 show ?thesis by (simp add: byte_bits_explicit)
  next
    case False
    then have "True \<in> set (byte_bits b)" using byte_bits_zero by blast
    with False show ?thesis by (simp add: byte_zeros_spec takeWhile_append1[where x = True])
  qed
qed simp

section \<open>Solver\<close>

lemma pow_check_hasher:
  "\<not> difficulty < MIN_POW_DIFFICULTY \<Longrightarrow>
   pow_check (Inr h) data n difficulty sec =
     (case h (str_bytes (pow_secret data n)) (node_pow_salt sec) of
        Inl e \<Rightarrow> Inl (Argon2Hash e) | Inr raw \<Rightarrow> Inr (difficulty \<le> leading_zero_bits raw))"
  by (simp add: pow_check_def)

text \<open>What one run of the loop guarantees, from any starting nonce.\<close>

definition first_ok :: "(nat \<Rightarrow> (PowError, bool) result) \<Rightarrow> nat \<Rightarrow> nat \<Rightarrow> u64 option \<Rightarrow> bool" where
  "first_ok chk n mx r =
     (case r of
        Some w \<Rightarrow> (\<exists>k. n \<le> k \<and> k < mx \<and> w = word_of_nat k \<and> chk k = Inr True
                    \<and> (\<forall>i. n \<le> i \<and> i < k \<longrightarrow> chk i = Inr False))
      | None \<Rightarrow> (\<forall>i. n \<le> i \<and> i < mx \<longrightarrow> chk i = Inr False))"

lemma first_ok_here: "n < mx \<Longrightarrow> chk n = Inr True \<Longrightarrow> first_ok chk n mx (Some (word_of_nat n))"
  unfolding first_ok_def by auto

lemma first_ok_next: "chk n = Inr False \<Longrightarrow> first_ok chk (Suc n) mx r \<Longrightarrow> first_ok chk n mx r"
  unfolding first_ok_def
  by (cases r) (auto simp: Suc_le_eq, metis le_neq_implies_less, metis le_neq_implies_less less_imp_le)

lemma solve_loop_result:
  assumes d: "\<not> d < MIN_POW_DIFFICULTY"
  shows "solve_loop h elapsed data d (node_pow_salt sec) n mx = Inr r \<Longrightarrow>
    first_ok (\<lambda>i. pow_check (Inr h) data (word_of_nat i) d sec) n mx r"
proof (induction "mx - n" arbitrary: n)
  case 0
  then show ?case by (auto simp: solve_loop.simps[of h] first_ok_def)
next
  case (Suc k)
  let ?chk = "\<lambda>i. pow_check (Inr h) data (word_of_nat i) d sec"
  note step = solve_loop.simps[of h elapsed data d "node_pow_salt sec" n mx]
  from Suc.hyps(2) have lt: "n < mx" by simp
  with Suc.prems obtain raw where
    raw: "h (str_bytes (pow_secret data (word_of_nat n))) (node_pow_salt sec) = Inr raw"
    unfolding step by (auto split: sum.splits)
  then have chk: "?chk n = Inr (d \<le> leading_zero_bits raw)"
    by (simp add: pow_check_hasher[OF d])
  show ?case
  proof (cases "d \<le> leading_zero_bits raw")
    case True
    with Suc.prems lt raw have "r = Some (word_of_nat n)" by (simp add: step)
    with first_ok_here[of n mx ?chk] lt chk True show ?thesis by simp
  next
    case False
    with Suc.prems[unfolded step] lt raw
    have "solve_loop h elapsed data d (node_pow_salt sec) (Suc n) mx = Inr r"
      by (simp split: if_splits)
    from Suc.hyps(1)[OF _ this] Suc.hyps(2) have "first_ok ?chk (Suc n) mx r" by simp
    with chk False show ?thesis by (simp add: first_ok_next)
  qed
qed

lemma pow_solve_hasher:
  assumes "pow_solve argon elapsed data d mx sec = Inr r"
  obtains h where "argon = Inr h" "\<not> d < MIN_POW_DIFFICULTY"
    "solve_loop h elapsed data d (node_pow_salt sec) 0 (unat mx) = Inr r"
  using assms by (auto simp: pow_solve_def split: if_splits sum.splits)

lemma pow_solve_least:
  assumes "pow_solve argon elapsed data d mx sec = Inr (Some w)"
  shows "pow_check argon data w d sec = Inr True \<and> w < mx
       \<and> (\<forall>v. v < w \<longrightarrow> pow_check argon data v d sec = Inr False)"
proof -
  obtain h where h: "argon = Inr h" "\<not> d < MIN_POW_DIFFICULTY"
    and loop: "solve_loop h elapsed data d (node_pow_salt sec) 0 (unat mx) = Inr (Some w)"
    by (rule pow_solve_hasher[OF assms])
  from solve_loop_result[OF h(2) loop] obtain k where
    k: "k < unat mx" "w = word_of_nat k" "pow_check (Inr h) data w d sec = Inr True"
      "\<forall>i<k. pow_check (Inr h) data (word_of_nat i) d sec = Inr False"
    by (auto simp: first_ok_def)
  have "k < 2 ^ 64" using k(1) unat_bound[of mx] by simp
  then have uw: "unat w = k" using k(2) by (simp add: unat_of_nat)
  then have "w < mx" using k(1) by (simp add: word_less_nat_alt)
  moreover have "pow_check argon data v d sec = Inr False" if "v < w" for v
  proof -
    from that uw have "unat v < k" by (simp add: word_less_nat_alt)
    with k(4) have "pow_check (Inr h) data (word_of_nat (unat v)) d sec = Inr False" by blast
    with h(1) show ?thesis by simp
  qed
  ultimately show ?thesis using k(3) h(1) by blast
qed

section \<open>Properties\<close>

text \<open>The counter of leading zero bits is the length of the zero prefix of the hash read as a
  bit string, most significant bit first.\<close>

theorem leading_zero_bits_correct:
  "leading_zero_bits hash = length (takeWhile Not (concat (map (\<lambda>b. map (\<lambda>i. bit b (7 - i)) [0..<8]) hash)))"
  using zero_bits_loop_spec[of hash 0] by (simp add: leading_zero_bits_def byte_bits_def[abs_def])

text \<open>A nonce the solver returns is accepted by the checker under the same difficulty and
  secret, lies below the attempt bound, and is the least one that is accepted.\<close>

theorem pow_solve_sound:
  assumes "pow_solve argon elapsed data d mx sec = Inr (Some w)"
  shows "pow_check argon data w d sec = Inr True \<and> w < mx
       \<and> (\<forall>v. v < w \<longrightarrow> pow_check argon data v d sec = Inr False)"
  by (rule pow_solve_least[OF assms])

definition const_hasher :: "bytes \<Rightarrow> bytes \<Rightarrow> (string, bytes) result" where
  "const_hasher secret salt = Inr (replicate 32 0)"

lemma zero_hash_bits: "leading_zero_bits (replicate 32 0) = 256"
  by code_simp

theorem pow_solve_sound_witness: "pow_check (Inr const_hasher) ''x'' 0 8 [] = Inr True \<and> (0 :: u64) < 5"
proof -
  have "pow_solve (Inr const_hasher) (\<lambda>_. 0) ''x'' 8 5 [] = Inr (Some 0)"
    by (simp add: pow_solve_def solve_loop.simps[of const_hasher] const_hasher_def MIN_POW_DIFFICULTY_def
        zero_hash_bits)
  from pow_solve_sound[OF this] show ?thesis by blast
qed

text \<open>The delimiter of the hashed secret makes the pair of data and nonce unambiguous: equal
  secrets come from equal data and equal nonces.\<close>

theorem pow_secret_injective:
  assumes "pow_secret d n = pow_secret d' n'"
  shows "d = d' \<and> n = n'"
proof -
  have colon: "CHR '':'' \<notin> set (show_nat k)" for k
    using show_nat_digits[of k] by (auto simp: is_digit_char_def)
  from assms have "d @ CHR '':'' # show_nat (unat n) = d' @ CHR '':'' # show_nat (unat n')"
    by (simp add: pow_secret_def)
  from delim_field_inj_rev[OF colon colon this] have "d = d'" "unat n = unat n'"
    by (auto intro: show_nat_inj)
  then show ?thesis by (simp add: word_unat_eq_iff)
qed

theorem pow_secret_injective_witness: "''ab'' = (''ab'' :: string) \<and> (12 :: u64) = 12"
  by (rule pow_secret_injective) (rule refl)

end
