(* ===== verification/Braid.thy ===== *)
theory Braid
  imports Envelope "HOL-Library.Multiset"
begin

text \<open>
  The SPQR braid of \<open>protocol/src/braid.rs\<close>: an encapsulation key is split into 64-byte chunks,
  carried in envelopes, collected by a handshake state machine and reassembled. SHA-512 is an
  argument. The main result is that the receiver rebuilds the key from its chunks in any order.
\<close>

section \<open>Definitions\<close>

record BraidChunk =
  chunk_num :: u32
  total_chunks :: u32
  chunk_ek_hash :: bytes
  chunk_seed :: bytes
  chunk_payload :: bytes

record BraidHandshake =
  hs_total_chunks :: u32
  received_chunks :: "BraidChunk list"
  seen_chunks :: "u32 set"
  ek_hash :: bytes
  complete :: bool

definition CHUNK_SIZE :: nat where "CHUNK_SIZE = 64"
definition MAX_TOTAL_CHUNKS :: u32 where "MAX_TOTAL_CHUNKS = 64"
definition MLKEM1024_EK_LEN :: nat where "MLKEM1024_EK_LEN = 1568"
definition MSG_P2P_BRAID_CHUNK :: string where "MSG_P2P_BRAID_CHUNK = ''p2p-braid-chunk''"

definition BraidHandshake_new :: BraidHandshake where
  "BraidHandshake_new =
     \<lparr>hs_total_chunks = 0, received_chunks = [], seen_chunks = {}, ek_hash = replicate 64 0, complete = False\<rparr>"

definition add_chunk :: "BraidChunk \<Rightarrow> BraidHandshake \<Rightarrow> (string, bool) result \<times> BraidHandshake" where
  "add_chunk c hs =
     (if chunk_num c \<ge> total_chunks c then
        (Inl (''chunk_num '' @ show_nat (unat (chunk_num c)) @ '' >= total_chunks '' @ show_nat (unat (total_chunks c))), hs)
      else if total_chunks c = 0 \<or> total_chunks c > MAX_TOTAL_CHUNKS then
        (Inl (''total_chunks '' @ show_nat (unat (total_chunks c)) @ '' out of allowed range (1..=''
              @ show_nat (unat MAX_TOTAL_CHUNKS) @ '')''), hs)
      else
        let hs1 = (if hs_total_chunks hs = 0
                   then hs\<lparr>hs_total_chunks := total_chunks c, ek_hash := chunk_ek_hash c\<rparr> else hs)
        in if ek_hash hs1 \<noteq> chunk_ek_hash c then (Inl ''ek_hash mismatch'', hs1)
           else if chunk_num c \<in> seen_chunks hs1 then (Inl ''duplicate chunk'', hs1)
           else
             let hs2 = hs1\<lparr>seen_chunks := insert (chunk_num c) (seen_chunks hs1),
                           received_chunks := received_chunks hs1 @ [c]\<rparr>;
                 hs3 = (if length (received_chunks hs2) = unat (hs_total_chunks hs2)
                        then hs2\<lparr>complete := True\<rparr> else hs2)
             in (Inr (complete hs3), hs3))"

definition expected_ek_hash :: "BraidHandshake \<Rightarrow> bytes" where
  "expected_ek_hash hs = ek_hash hs"

definition write_slice :: "nat \<Rightarrow> 'a list \<Rightarrow> 'a list \<Rightarrow> 'a list" where
  "write_slice start xs key = take start key @ xs @ drop (start + length xs) key"

definition place_chunk :: "bytes \<Rightarrow> BraidChunk \<Rightarrow> bytes" where
  "place_chunk key c =
     (let start = unat (chunk_num c) * CHUNK_SIZE;
          stop = start + min (length (chunk_payload c)) CHUNK_SIZE
      in if stop \<le> length key then write_slice start (take (stop - start) (chunk_payload c)) key else key)"

definition reconstruct_enc_key :: "BraidHandshake \<Rightarrow> nat \<Rightarrow> bytes" where
  "reconstruct_enc_key hs key_len = foldl place_chunk (replicate key_len 0) (received_chunks hs)"

definition split_key_to_chunks :: "(bytes \<Rightarrow> bytes) \<Rightarrow> bytes \<Rightarrow> BraidChunk list" where
  "split_key_to_chunks sha512 key =
     (let total = (length key + CHUNK_SIZE - 1) div CHUNK_SIZE;
          h = sha512 key;
          seed = take (min 32 (length key)) key
      in map (\<lambda>(i, chunk). \<lparr>chunk_num = word_of_nat i, total_chunks = word_of_nat total,
                           chunk_ek_hash = h, chunk_seed = seed, chunk_payload = chunk\<rparr>)
           (enumerate 0 (chunks_of CHUNK_SIZE key)))"

definition json_byte :: "json \<Rightarrow> u8 option" where
  "json_byte v = (case as_u64 v of None \<Rightarrow> None | Some b \<Rightarrow> if b \<le> 255 then Some (ucast b) else None)"

fun collect_option :: "('a \<Rightarrow> 'b option) \<Rightarrow> 'a list \<Rightarrow> 'b list option" where
  "collect_option f [] = Some []"
| "collect_option f (x # xs) =
     (case f x of None \<Rightarrow> None | Some y \<Rightarrow> map_option ((#) y) (collect_option f xs))"

definition json_bytes :: "json \<Rightarrow> bytes option" where
  "json_bytes v = (case as_array v of None \<Rightarrow> None | Some xs \<Rightarrow> collect_option json_byte xs)"

definition parse_braid_chunk :: "WireEnvelope \<Rightarrow> BraidChunk option" where
  "parse_braid_chunk env =
     (if msg_type env \<noteq> MSG_P2P_BRAID_CHUNK then None
      else case as_object (payload env) of None \<Rightarrow> None | Some p \<Rightarrow>
        case Option.bind (map_of p ''chunk_num'') as_u64 of None \<Rightarrow> None | Some n \<Rightarrow>
        case Option.bind (map_of p ''total_chunks'') as_u64 of None \<Rightarrow> None | Some t \<Rightarrow>
        case Option.bind (map_of p ''ek_hash'') json_bytes of None \<Rightarrow> None | Some h \<Rightarrow>
        case Option.bind (map_of p ''seed'') json_bytes of None \<Rightarrow> None | Some s \<Rightarrow>
        case Option.bind (map_of p ''payload'') json_bytes of None \<Rightarrow> None | Some pl \<Rightarrow>
          Some \<lparr>chunk_num = ucast n, total_chunks = ucast t, chunk_ek_hash = h, chunk_seed = s, chunk_payload = pl\<rparr>)"

definition bytes_json :: "bytes \<Rightarrow> json" where
  "bytes_json bs = JArray (map (\<lambda>b. JInt (uint b)) bs)"

definition build_braid_chunk_msg :: "string \<Rightarrow> real \<Rightarrow> BraidChunk \<Rightarrow> WireEnvelope" where
  "build_braid_chunk_msg uuid now c =
     \<lparr>msg_type = MSG_P2P_BRAID_CHUNK,
      payload = JObject
        [(''chunk_num'', JInt (uint (chunk_num c))),
         (''total_chunks'', JInt (uint (total_chunks c))),
         (''ek_hash'', bytes_json (chunk_ek_hash c)),
         (''seed'', bytes_json (chunk_seed c)),
         (''payload'', bytes_json (chunk_payload c))],
      msg_id = uuid, ts = now, sig = []\<rparr>"

section \<open>The envelope of a chunk\<close>

lemma uint_widen_u8: "uint (ucast (b :: u8) :: u64) = uint b"
proof -
  have "uint b < 256" using uint_bounded[of b] by simp
  then show ?thesis by (simp add: unsigned_ucast_eq take_bit_int_eq_self_iff)
qed

lemma json_byte_uint: "json_byte (JInt (uint (b :: u8))) = Some b"
proof -
  have lt: "uint b < 256" using uint_bounded[of b] by simp
  then have "(ucast b :: u64) \<le> 255"
    by (simp add: word_le_def uint_widen_u8)
  moreover have "ucast (ucast b :: u64) = b"
    by (simp add: ucast_down_ucast_id is_down)
  ultimately show ?thesis using lt by (simp add: json_byte_def u64_range_def)
qed

lemma json_bytes_roundtrip: "json_bytes (bytes_json bs) = Some bs"
proof -
  have "collect_option json_byte (map (\<lambda>b. JInt (uint b)) bs) = Some bs"
    by (induction bs) (simp_all add: json_byte_uint)
  then show ?thesis by (simp add: json_bytes_def bytes_json_def)
qed

lemma as_u64_u32: "as_u64 (JInt (uint (w :: u32))) = Some (ucast w)"
proof -
  have "uint w < 2 ^ 32" using uint_bounded[of w] by simp
  then have "u64_range (uint w)" by (simp add: u64_range_def)
  then show ?thesis by simp
qed

lemma narrow_widen_u32: "ucast (ucast (w :: u32) :: u64) = w"
  by (simp add: ucast_down_ucast_id is_down)

lemma parse_build_braid_chunk: "parse_braid_chunk (build_braid_chunk_msg uuid now c) = Some c"
  by (simp add: parse_braid_chunk_def build_braid_chunk_msg_def as_u64_u32 json_bytes_roundtrip
      narrow_widen_u32 del: as_u64.simps)

section \<open>The receiver\<close>

text \<open>The invariant of the state machine under any sequence of chunks, hostile ones included.\<close>

definition hs_inv :: "BraidHandshake \<Rightarrow> bool" where
  "hs_inv hs \<longleftrightarrow>
     seen_chunks hs = set (map chunk_num (received_chunks hs))
   \<and> distinct (map chunk_num (received_chunks hs))
   \<and> (\<forall>c \<in> set (received_chunks hs). chunk_num c < 64 \<and> chunk_ek_hash c = ek_hash hs)
   \<and> hs_total_chunks hs \<le> 64
   \<and> (hs_total_chunks hs = 0 \<longrightarrow> received_chunks hs = [])"

lemma hs_inv_new: "hs_inv BraidHandshake_new"
  by (simp add: hs_inv_def BraidHandshake_new_def)

lemma hs_inv_add_chunk:
  assumes "hs_inv hs"
  shows "hs_inv (snd (add_chunk c hs))"
proof -
  have "chunk_num c < 64" if "\<not> total_chunks c \<le> chunk_num c" "\<not> 64 < total_chunks c"
    using that by (metis linorder_not_le order.strict_trans2)
  with assms show ?thesis
    unfolding add_chunk_def hs_inv_def Let_def MAX_TOTAL_CHUNKS_def
    by (auto simp: linorder_not_le linorder_not_less)
qed

lemma hs_inv_length:
  assumes "hs_inv hs"
  shows "length (received_chunks hs) \<le> 64"
proof -
  let ?ns = "map chunk_num (received_chunks hs)"
  have "unat ` set ?ns \<subseteq> {..<64}"
    using assms by (auto simp: hs_inv_def word_less_nat_alt)
  then have "card (unat ` set ?ns) \<le> 64"
    using card_mono[of "{..<64::nat}"] by simp
  moreover have "card (unat ` set ?ns) = length ?ns"
    using assms by (simp add: hs_inv_def card_image inj_on_def word_unat_eq_iff distinct_card del: set_map)
  ultimately show ?thesis by simp
qed

section \<open>Reassembly\<close>

definition num_chunks :: "bytes \<Rightarrow> nat" where
  "num_chunks key = (length key + CHUNK_SIZE - 1) div CHUNK_SIZE"

definition chunk_at :: "(bytes \<Rightarrow> bytes) \<Rightarrow> bytes \<Rightarrow> nat \<Rightarrow> BraidChunk" where
  "chunk_at sha512 key i =
     \<lparr>chunk_num = word_of_nat i, total_chunks = word_of_nat (num_chunks key), chunk_ek_hash = sha512 key,
      chunk_seed = take (min 32 (length key)) key, chunk_payload = take CHUNK_SIZE (drop (i * CHUNK_SIZE) key)\<rparr>"

lemma split_key_chunk_at: "split_key_to_chunks sha512 key = map (chunk_at sha512 key) [0..<num_chunks key]"
  by (rule nth_equalityI)
    (simp_all add: split_key_to_chunks_def Let_def length_chunks_of nth_enumerate_eq nth_chunks_of
      chunk_at_def num_chunks_def CHUNK_SIZE_def)

lemma num_chunks_bound: "length key \<le> 4096 \<Longrightarrow> num_chunks key \<le> 64"
  by (simp add: num_chunks_def CHUNK_SIZE_def)

lemma num_chunks_pos: "key \<noteq> [] \<Longrightarrow> 0 < num_chunks key"
  by (cases key) (simp_all add: num_chunks_def CHUNK_SIZE_def)

lemma unat_small_u32: "i < 2 ^ 32 \<Longrightarrow> unat (word_of_nat i :: u32) = i"
  by (simp add: unat_of_nat)

lemma small_u32_less: "i < j \<Longrightarrow> j \<le> 64 \<Longrightarrow> (word_of_nat i :: u32) < word_of_nat j"
  by (simp add: word_less_nat_alt unat_small_u32)

lemma small_u32_inj:
  assumes "i \<le> 64" "j \<le> 64" "(word_of_nat i :: u32) = word_of_nat j"
  shows "i = j"
proof -
  have "unat (word_of_nat i :: u32) = i" "unat (word_of_nat j :: u32) = j"
    using assms(1,2) by (intro unat_small_u32; simp)+
  with arg_cong[OF assms(3), of unat] show ?thesis by linarith
qed

text \<open>The state after the chunks with the given indices arrived, in that order.\<close>

definition state_after :: "(bytes \<Rightarrow> bytes) \<Rightarrow> bytes \<Rightarrow> nat list \<Rightarrow> BraidHandshake" where
  "state_after sha512 key is =
     (if is = [] then BraidHandshake_new
      else \<lparr>hs_total_chunks = word_of_nat (num_chunks key), received_chunks = map (chunk_at sha512 key) is,
            seen_chunks = word_of_nat ` set is, ek_hash = sha512 key, complete = (length is = num_chunks key)\<rparr>)"

lemma add_chunk_state_after:
  assumes "distinct (is @ [i])" "set (is @ [i]) \<subseteq> {..<num_chunks key}" "num_chunks key \<le> 64"
  shows "add_chunk (chunk_at sha512 key i) (state_after sha512 key is)
       = (Inr (Suc (length is) = num_chunks key), state_after sha512 key (is @ [i]))"
proof -
  let ?N = "num_chunks key"
  have i: "i < ?N" and le: "i \<le> 64" "?N \<le> 64" using assms by auto
  have lt: "(word_of_nat i :: u32) < word_of_nat ?N" using i le by (intro small_u32_less)
  have pos: "(word_of_nat ?N :: u32) \<noteq> 0" using lt by auto
  have cap: "\<not> MAX_TOTAL_CHUNKS < word_of_nat ?N"
    using le(2) by (simp add: MAX_TOTAL_CHUNKS_def word_less_nat_alt unat_small_u32)
  have uN: "unat (word_of_nat ?N :: u32) = ?N" using le(2) by (intro unat_small_u32) simp
  have fresh: "(word_of_nat i :: u32) \<notin> word_of_nat ` set is"
  proof
    assume "(word_of_nat i :: u32) \<in> word_of_nat ` set is"
    then obtain j where j: "j \<in> set is" "(word_of_nat i :: u32) = word_of_nat j" by blast
    moreover have "j \<le> 64" using j(1) assms(2,3) by force
    ultimately have "i = j" using le(1) small_u32_inj by blast
    with j(1) assms(1) show False by simp
  qed
  have len: "length is < ?N"
  proof -
    have "length (is @ [i]) = card (set (is @ [i]))" using assms(1) by (metis distinct_card)
    also have "\<dots> \<le> ?N" using card_mono[OF _ assms(2)] by simp
    finally show ?thesis by simp
  qed
  show ?thesis
  proof (cases "is = []")
    case True
    then show ?thesis
      using lt pos cap uN
      by (simp add: add_chunk_def state_after_def chunk_at_def BraidHandshake_new_def Let_def)
  next
    case False
    then show ?thesis
      using lt pos cap uN fresh len
      by (simp add: add_chunk_def state_after_def Let_def chunk_at_def)
  qed
qed

lemma feed_state_after:
  assumes "distinct (is @ js)" "set (is @ js) \<subseteq> {..<num_chunks key}" "num_chunks key \<le> 64"
  shows "foldl (\<lambda>hs c. snd (add_chunk c hs)) (state_after sha512 key is) (map (chunk_at sha512 key) js)
       = state_after sha512 key (is @ js)"
  using assms
proof (induction js arbitrary: "is")
  case (Cons j js)
  then show ?case
    using add_chunk_state_after[of "is" j key sha512] Cons.IH[of "is @ [j]"] by simp
qed simp

text \<open>Placing chunks writes exactly the bytes of their positions.\<close>

lemma nth_write_slice:
  assumes "start + length xs \<le> length key" "p < length key"
  shows "write_slice start xs key ! p = (if start \<le> p \<and> p < start + length xs then xs ! (p - start) else key ! p)"
  using assms by (auto simp: write_slice_def nth_append)

lemma length_place_chunk [simp]: "length (place_chunk buf c) = length buf"
  by (simp add: place_chunk_def Let_def write_slice_def)

lemma place_chunk_at:
  assumes "i < num_chunks key" "num_chunks key \<le> 64" "length buf = length key" "p < length key"
  shows "place_chunk buf (chunk_at sha512 key i) ! p = (if p div CHUNK_SIZE = i then key ! p else buf ! p)"
proof -
  let ?s = "i * CHUNK_SIZE" and ?pl = "take CHUNK_SIZE (drop (i * CHUNK_SIZE) key)"
  have ui: "unat (word_of_nat i :: u32) = i" using assms(1,2) by (intro unat_small_u32) simp
  have s: "?s < length key" using assms(1) by (auto simp: num_chunks_def CHUNK_SIZE_def)
  have fit: "?s + length ?pl \<le> length buf" using s assms(3) by simp
  have eq: "place_chunk buf (chunk_at sha512 key i) = write_slice ?s ?pl buf"
    using fit s assms(3) by (simp add: place_chunk_def chunk_at_def Let_def ui min_def)
  have range: "p div CHUNK_SIZE = i \<longleftrightarrow> ?s \<le> p \<and> p < ?s + length ?pl"
    using assms(4) s by (auto simp: CHUNK_SIZE_def)
  have byte: "?pl ! (p - ?s) = key ! p" if "?s \<le> p \<and> p < ?s + length ?pl"
  proof -
    have "p - ?s < CHUNK_SIZE" "?s + (p - ?s) = p" using that by (auto simp: min_def split: if_splits)
    then show ?thesis using s by simp
  qed
  show ?thesis
  proof (cases "?s \<le> p \<and> p < ?s + length ?pl")
    case True
    then show ?thesis
      unfolding eq nth_write_slice[OF fit assms(4)[folded assms(3)]] range by (simp only: byte if_True)
  next
    case False
    then show ?thesis
      unfolding eq nth_write_slice[OF fit assms(4)[folded assms(3)]] range by (simp only: if_False)
  qed
qed

lemma place_chunks_nth:
  assumes "set is \<subseteq> {..<num_chunks key}" "num_chunks key \<le> 64" "length buf = length key" "p < length key"
  shows "foldl place_chunk buf (map (chunk_at sha512 key) is) ! p
       = (if p div CHUNK_SIZE \<in> set is then key ! p else buf ! p)"
  using assms by (induction "is" arbitrary: buf) (simp_all add: place_chunk_at)

lemma length_place_chunks [simp]: "length (foldl place_chunk buf cs) = length buf"
  by (induction cs arbitrary: buf) simp_all

lemma reconstruct_state_after:
  assumes "set is = {..<num_chunks key}" "num_chunks key \<le> 64" "is \<noteq> []"
  shows "reconstruct_enc_key (state_after sha512 key is) (length key) = key"
proof (rule nth_equalityI)
  show "length (reconstruct_enc_key (state_after sha512 key is) (length key)) = length key"
    by (simp add: reconstruct_enc_key_def)
  fix p
  assume "p < length (reconstruct_enc_key (state_after sha512 key is) (length key))"
  then have p: "p < length key" by (simp add: reconstruct_enc_key_def)
  then have "p div CHUNK_SIZE < num_chunks key"
    by (simp add: num_chunks_def CHUNK_SIZE_def less_eq_div_iff_mult_less_eq[symmetric] div_le_mono Suc_le_eq)
  then show "reconstruct_enc_key (state_after sha512 key is) (length key) ! p = key ! p"
    using assms p place_chunks_nth[of "is" key "replicate (length key) 0" p sha512]
    by (simp add: reconstruct_enc_key_def state_after_def)
qed

lemma permuted_map_indices:
  assumes "mset cs = mset (map f xs)"
  shows "\<exists>ys. cs = map f ys \<and> mset ys = mset xs"
  using assms
proof (induction cs arbitrary: xs)
  case Nil
  then show ?case by simp
next
  case (Cons c cs)
  then have "c \<in> set (map f xs)" by (metis list.set_intros(1) mset_eq_setD)
  then obtain x where x: "x \<in> set xs" "c = f x" by auto
  then have "mset cs = mset (map f (remove1 x xs))"
    using Cons.prems by (simp add: image_mset_Diff) (metis add_mset_remove_trivial)
  with Cons.IH obtain ys where "cs = map f ys" "mset ys = mset (remove1 x xs)" by blast
  with x show ?case by (intro exI[of _ "x # ys"]) simp
qed

lemma feed_all_chunks:
  assumes "mset cs = mset (split_key_to_chunks sha512 key)" "key \<noteq> []" "length key \<le> 4096"
  obtains "is" where "foldl (\<lambda>hs c. snd (add_chunk c hs)) BraidHandshake_new cs = state_after sha512 key is"
    "set is = {..<num_chunks key}" "length is = num_chunks key" "is \<noteq> []"
proof -
  obtain "is" where cs: "cs = map (chunk_at sha512 key) is" and m: "mset is = mset [0..<num_chunks key]"
    using permuted_map_indices[OF assms(1)[unfolded split_key_chunk_at]] by blast
  have st: "set is = {..<num_chunks key}" using mset_eq_setD[OF m] by (simp only: set_upt atLeast0LessThan)
  have di: "distinct is" using mset_eq_imp_distinct_iff[OF m] by simp
  have len: "length is = num_chunks key" using mset_eq_length[OF m] by simp
  have ne: "is \<noteq> []" using len num_chunks_pos[OF assms(2)] by auto
  have "foldl (\<lambda>hs c. snd (add_chunk c hs)) (state_after sha512 key []) cs = state_after sha512 key ([] @ is)"
    unfolding cs using di st num_chunks_bound[OF assms(3)] by (intro feed_state_after) simp_all
  then show thesis using that[OF _ st len ne] by (simp add: state_after_def)
qed

definition feed_chunks :: "BraidHandshake \<Rightarrow> BraidChunk list \<Rightarrow> BraidHandshake" where
  "feed_chunks hs cs = foldl (\<lambda>hs c. snd (add_chunk c hs)) hs cs"

section \<open>Properties\<close>

text \<open>C20: A non-empty key of at most 4096 bytes is rebuilt exactly from its chunks, whatever the order
  in which they arrive, and the handshake reports completion and the hash of the key.\<close>

theorem braid_any_order:
  assumes "mset cs = mset (split_key_to_chunks sha512 key)" "key \<noteq> []" "length key \<le> 4096"
  shows "complete (feed_chunks BraidHandshake_new cs)
       \<and> reconstruct_enc_key (feed_chunks BraidHandshake_new cs) (length key) = key
       \<and> expected_ek_hash (feed_chunks BraidHandshake_new cs) = sha512 key"
proof -
  obtain "is" where st: "feed_chunks BraidHandshake_new cs = state_after sha512 key is"
    and S: "set is = {..<num_chunks key}" and L: "length is = num_chunks key" and N: "is \<noteq> []"
    using feed_all_chunks[OF assms] unfolding feed_chunks_def by blast
  have "reconstruct_enc_key (state_after sha512 key is) (length key) = key"
    using S num_chunks_bound[OF assms(3)] N by (rule reconstruct_state_after)
  moreover have "complete (state_after sha512 key is)" "ek_hash (state_after sha512 key is) = sha512 key"
    using L N by (simp_all add: state_after_def)
  ultimately show ?thesis unfolding st expected_ek_hash_def by blast
qed

theorem braid_any_order_witness:
  "reconstruct_enc_key (feed_chunks BraidHandshake_new (rev (split_key_to_chunks (\<lambda>_. [7]) (replicate 1568 5))))
     1568 = replicate 1568 5"
  using braid_any_order[of "rev (split_key_to_chunks (\<lambda>_. [7]) (replicate 1568 5))" "\<lambda>_. [7]" "replicate 1568 5"]
  by (simp add: mset_rev)

text \<open>Whatever chunks a peer sends, in any order and number, a handshake never holds more than 64 of
  them, never two with the same number, and all of them carry the hash the handshake expects.\<close>

theorem braid_bounded_state:
  "length (received_chunks (feed_chunks BraidHandshake_new cs)) \<le> 64
   \<and> distinct (map chunk_num (received_chunks (feed_chunks BraidHandshake_new cs)))
   \<and> set (map chunk_ek_hash (received_chunks (feed_chunks BraidHandshake_new cs)))
       \<subseteq> {expected_ek_hash (feed_chunks BraidHandshake_new cs)}"
proof -
  have "hs_inv (foldl (\<lambda>hs c. snd (add_chunk c hs)) hs cs)" if "hs_inv hs" for hs
    using that by (induction cs arbitrary: hs) (simp_all add: hs_inv_add_chunk)
  then have "hs_inv (feed_chunks BraidHandshake_new cs)"
    unfolding feed_chunks_def using hs_inv_new by blast
  then show ?thesis
    using hs_inv_length by (auto simp: hs_inv_def expected_ek_hash_def)
qed

text \<open>A chunk survives the trip through its wire envelope.\<close>

theorem braid_chunk_envelope_roundtrip: "parse_braid_chunk (build_braid_chunk_msg uuid now c) = Some c"
  by (rule parse_build_braid_chunk)

text \<open>Only the first chunk fixes the expected count: a later chunk that announces another total is
  accepted when its hash agrees, even with a number beyond the expected count, so a handshake for two
  chunks completes with chunks 0 and 63 and the second half of the rebuilt key is left zero.\<close>

theorem braid_total_not_checked:
  "let c = (\<lambda>n t. \<lparr>chunk_num = n, total_chunks = t, chunk_ek_hash = h, chunk_seed = [], chunk_payload = replicate 64 1\<rparr>);
       hs = feed_chunks BraidHandshake_new [c 0 2, c 63 64]
   in complete hs \<and> reconstruct_enc_key hs 128 = replicate 64 1 @ replicate 64 0"
  by (simp add: feed_chunks_def add_chunk_def BraidHandshake_new_def MAX_TOTAL_CHUNKS_def Let_def
      reconstruct_enc_key_def place_chunk_def CHUNK_SIZE_def write_slice_def)

end
