(* ===== verification/Transport.thy ===== *)
theory Transport
  imports Pow Braid
begin

text \<open>
  The P2P transport: the error type of \<open>p2p/src/lib.rs\<close>, sending and receiving envelopes
  (\<open>p2p/src/transport.rs\<close>), the message builders of \<open>p2p/src/protocol.rs\<close> and the braid key
  exchange of \<open>p2p/src/braid_handshake.rs\<close>.

  A WebSocket is the list of events its stream will deliver (a read past the end of the list is a
  read that times out), the frames written so far and the outcome of each coming write. The JSON
  text codec is third-party: \<open>to_json\<close> and \<open>from_json\<close> are arguments.
\<close>

section \<open>Definitions\<close>

datatype P2pError =
    Connection string
  | InvalidAddress string
  | Serialization string
  | Handshake string
  | Peer string
  | Nat string
  | P2pTimeout
  | Io string

datatype ws_message = Text string | Close | OtherFrame

datatype ws_event = Frame ws_message | StreamError string | StreamEnd | NoFrame

record WebSocketConn =
  incoming :: "ws_event list"
  sent :: "ws_message list"
  send_errors :: "string option list"

record codec =
  to_json :: "WireEnvelope \<Rightarrow> (string, string) result"
  from_json :: "string \<Rightarrow> (string, WireEnvelope) result"

definition ws_next :: "WebSocketConn \<Rightarrow> ws_event \<times> WebSocketConn" where
  "ws_next ws = (case incoming ws of [] \<Rightarrow> (NoFrame, ws) | e # es \<Rightarrow> (e, ws\<lparr>incoming := es\<rparr>))"

definition ws_send :: "ws_message \<Rightarrow> WebSocketConn \<Rightarrow> (string, unit) result \<times> WebSocketConn" where
  "ws_send f ws =
     (case send_errors ws of
        Some e # es \<Rightarrow> (Inl e, ws\<lparr>send_errors := es\<rparr>)
      | None # es \<Rightarrow> (Inr (), ws\<lparr>sent := sent ws @ [f], send_errors := es\<rparr>)
      | [] \<Rightarrow> (Inr (), ws\<lparr>sent := sent ws @ [f]\<rparr>))"

definition send_envelope ::
    "codec \<Rightarrow> WebSocketConn \<Rightarrow> WireEnvelope \<Rightarrow> (P2pError, unit) result \<times> WebSocketConn" where
  "send_envelope C ws env =
     (case to_json C env of
        Inl e \<Rightarrow> (Inl (Serialization e), ws)
      | Inr json \<Rightarrow>
          (case ws_send (Text json) ws of
             (Inl e, ws') \<Rightarrow> (Inl (Connection e), ws')
           | (Inr _, ws') \<Rightarrow> (Inr (), ws')))"

definition recv_envelope :: "codec \<Rightarrow> WebSocketConn \<Rightarrow> (P2pError, WireEnvelope) result \<times> WebSocketConn" where
  "recv_envelope C ws =
     (case ws_next ws of (ev, ws') \<Rightarrow>
       ((case ev of
           NoFrame \<Rightarrow> Inl P2pTimeout
         | StreamEnd \<Rightarrow> Inl (Connection ''connection closed'')
         | Frame (Text text) \<Rightarrow>
             (case from_json C text of Inl e \<Rightarrow> Inl (Serialization e) | Inr env \<Rightarrow> Inr env)
         | Frame Close \<Rightarrow> Inl (Connection ''connection closed'')
         | StreamError e \<Rightarrow> Inl (Connection e)
         | Frame OtherFrame \<Rightarrow> Inl (Connection ''unexpected message type'')), ws'))"

subsection \<open>Addresses\<close>

fun contains_str :: "string \<Rightarrow> string \<Rightarrow> bool" where
  "contains_str p [] = (p = [])"
| "contains_str p (c # cs) = (prefix p (c # cs) \<or> contains_str p cs)"

definition is_onion_address :: "string \<Rightarrow> bool" where
  "is_onion_address addr = contains_str ''.onion'' addr"

definition normalize_peer_address :: "string \<Rightarrow> string" where
  "normalize_peer_address addr =
     (if addr = [] then addr
      else if is_onion_address addr then
        (let onion_part = hd (split_on (CHR '':'') addr)
         in if suffix ''.onion'' onion_part \<and> length onion_part = 62 then addr else addr)
      else addr)"

definition get_peer_uri :: "string \<Rightarrow> u16 \<Rightarrow> string" where
  "get_peer_uri host port = ''wss://'' @ host @ '':'' @ show_nat (unat port)"

definition uri_dummy :: "string \<Rightarrow> u16 \<Rightarrow> string" where
  "uri_dummy host port = ''wss://'' @ host @ '':'' @ show_nat (unat port)"

definition socks5_greeting :: bytes where
  "socks5_greeting = [0x05, 0x01, 0x00]"

definition socks5_connect_request :: "string \<Rightarrow> u16 \<Rightarrow> bytes" where
  "socks5_connect_request host port =
     [0x05, 0x01, 0x00, 0x03] @ [word_of_nat (length host)] @ str_bytes host
       @ [ucast (drop_bit 8 port), ucast (port AND 0xFF)]"

subsection \<open>Message builders\<close>

definition set_field :: "string \<Rightarrow> json \<Rightarrow> json \<Rightarrow> json" where
  "set_field k v p = (case p of JObject kvs \<Rightarrow> JObject (AList.update k v kvs) | _ \<Rightarrow> p)"

definition build_p2p_hello ::
    "string \<Rightarrow> real \<Rightarrow> string \<Rightarrow> u64 \<Rightarrow> u32 \<Rightarrow> string \<Rightarrow> string \<Rightarrow> WireEnvelope" where
  "build_p2p_hello uuid now public_key_b64 nonce pow_bits kyber_enc_key_b64 sealed_identity =
     \<lparr>msg_type = ''p2p-hello'',
      payload = JObject
        [(''public_key'', JString public_key_b64), (''nonce'', JInt (uint nonce)),
         (''pow_bits'', JInt (uint pow_bits)), (''kyber_enc_key'', JString kyber_enc_key_b64),
         (''sealed_identity'', JString sealed_identity), (''braid'', JBool True)],
      msg_id = uuid, ts = now, sig = []\<rparr>"

definition build_p2p_hello_signed ::
    "string \<Rightarrow> real \<Rightarrow> string \<Rightarrow> u64 \<Rightarrow> u32 \<Rightarrow> string \<Rightarrow> string \<Rightarrow> string \<Rightarrow> string \<Rightarrow> WireEnvelope" where
  "build_p2p_hello_signed uuid now public_key_b64 nonce pow_bits kyber_enc_key_b64 sealed_identity signature sender_verifying_key =
     (let env = build_p2p_hello uuid now public_key_b64 nonce pow_bits kyber_enc_key_b64 sealed_identity;
          env1 = (if sender_verifying_key \<noteq> []
                  then env\<lparr>payload := set_field ''sender_verifying_key'' (JString sender_verifying_key) (payload env)\<rparr>
                  else env)
      in env1\<lparr>sig := signature\<rparr>)"

definition build_p2p_hello_ack ::
    "string \<Rightarrow> real \<Rightarrow> string \<Rightarrow> u64 \<Rightarrow> u32 \<Rightarrow> string \<Rightarrow> string \<Rightarrow> WireEnvelope" where
  "build_p2p_hello_ack uuid now public_key_b64 nonce pow_bits server_challenge kyber_enc_key_b64 =
     \<lparr>msg_type = ''p2p-hello-ack'',
      payload = JObject
        [(''public_key'', JString public_key_b64), (''nonce'', JInt (uint nonce)),
         (''pow_bits'', JInt (uint pow_bits)), (''server_challenge'', JString server_challenge),
         (''kyber_enc_key'', JString kyber_enc_key_b64), (''braid'', JBool True)],
      msg_id = uuid, ts = now, sig = []\<rparr>"

definition build_p2p_hello_ack_signed ::
    "string \<Rightarrow> real \<Rightarrow> string \<Rightarrow> u64 \<Rightarrow> u32 \<Rightarrow> string \<Rightarrow> string \<Rightarrow> string \<Rightarrow> string \<Rightarrow> WireEnvelope" where
  "build_p2p_hello_ack_signed uuid now public_key_b64 nonce pow_bits server_challenge kyber_enc_key_b64 signature sender_verifying_key =
     (let env = build_p2p_hello_ack uuid now public_key_b64 nonce pow_bits server_challenge kyber_enc_key_b64;
          env1 = (if sender_verifying_key \<noteq> []
                  then env\<lparr>payload := set_field ''sender_verifying_key'' (JString sender_verifying_key) (payload env)\<rparr>
                  else env)
      in env1\<lparr>sig := signature\<rparr>)"

definition build_p2p_message ::
    "string \<Rightarrow> real \<Rightarrow> int \<Rightarrow> string \<Rightarrow> string \<Rightarrow> string option \<Rightarrow> string option \<Rightarrow> WireEnvelope" where
  "build_p2p_message uuid now seq ciphertext_b64 msg_hash init_kyber_ct_b64 ttl =
     (let p0 = JObject [(''seq'', JInt seq), (''ciphertext'', JString ciphertext_b64), (''msg_hash'', JString msg_hash)];
          p1 = (case init_kyber_ct_b64 of None \<Rightarrow> p0 | Some ct \<Rightarrow> set_field ''init_kyber_ct'' (JString ct) p0);
          p2 = (case ttl of None \<Rightarrow> p1 | Some t \<Rightarrow> set_field ''ttl'' (JString t) p1)
      in \<lparr>msg_type = ''p2p-message'', payload = p2, msg_id = uuid, ts = now, sig = []\<rparr>)"

definition build_p2p_message_signed ::
    "string \<Rightarrow> real \<Rightarrow> int \<Rightarrow> string \<Rightarrow> string \<Rightarrow> string \<Rightarrow> string option \<Rightarrow> string option \<Rightarrow> WireEnvelope" where
  "build_p2p_message_signed uuid now seq ciphertext_b64 msg_hash signature init_kyber_ct_b64 ttl =
     (build_p2p_message uuid now seq ciphertext_b64 msg_hash init_kyber_ct_b64 ttl)\<lparr>sig := signature\<rparr>"

definition build_p2p_ack :: "string \<Rightarrow> real \<Rightarrow> int \<Rightarrow> string \<Rightarrow> WireEnvelope" where
  "build_p2p_ack uuid now seq msg_hash =
     \<lparr>msg_type = ''p2p-ack'', payload = JObject [(''seq'', JInt seq), (''msg_hash'', JString msg_hash)],
      msg_id = uuid, ts = now, sig = []\<rparr>"

definition build_p2p_ack_signed :: "string \<Rightarrow> real \<Rightarrow> int \<Rightarrow> string \<Rightarrow> string \<Rightarrow> WireEnvelope" where
  "build_p2p_ack_signed uuid now seq msg_hash signature = (build_p2p_ack uuid now seq msg_hash)\<lparr>sig := signature\<rparr>"

definition build_p2p_ping :: "string \<Rightarrow> real \<Rightarrow> WireEnvelope" where
  "build_p2p_ping uuid now = \<lparr>msg_type = ''p2p-ping'', payload = JObject [], msg_id = uuid, ts = now, sig = []\<rparr>"

definition build_p2p_receipt :: "string \<Rightarrow> real \<Rightarrow> string \<Rightarrow> real \<Rightarrow> int \<Rightarrow> string \<Rightarrow> WireEnvelope" where
  "build_p2p_receipt uuid now msg_hash received_at seq signature =
     \<lparr>msg_type = ''p2p-receipt'',
      payload = JObject [(''msg_hash'', JString msg_hash), (''received_at'', JFloat received_at), (''seq'', JInt seq)],
      msg_id = uuid, ts = now, sig = signature\<rparr>"

definition build_p2p_pong :: "string \<Rightarrow> real \<Rightarrow> WireEnvelope" where
  "build_p2p_pong uuid now = \<lparr>msg_type = ''p2p-pong'', payload = JObject [], msg_id = uuid, ts = now, sig = []\<rparr>"

subsection \<open>Braid key exchange\<close>

text \<open>\<open>stamp\<close> gives the identifier and the time of the envelope of each chunk.\<close>

fun send_chunks ::
    "codec \<Rightarrow> (BraidChunk \<Rightarrow> string \<times> real) \<Rightarrow> BraidChunk list \<Rightarrow> WebSocketConn
     \<Rightarrow> (P2pError, unit) result \<times> WebSocketConn" where
  "send_chunks C stamp [] ws = (Inr (), ws)"
| "send_chunks C stamp (c # cs) ws =
     (case to_json C (build_braid_chunk_msg (fst (stamp c)) (snd (stamp c)) c) of
        Inl e \<Rightarrow> (Inl (Serialization e), ws)
      | Inr json \<Rightarrow>
          (case ws_send (Text json) ws of
             (Inl e, ws') \<Rightarrow> (Inl (Connection e), ws')
           | (Inr _, ws') \<Rightarrow> send_chunks C stamp cs ws'))"

definition send_ek_braid ::
    "(bytes \<Rightarrow> bytes) \<Rightarrow> codec \<Rightarrow> (BraidChunk \<Rightarrow> string \<times> real) \<Rightarrow> WebSocketConn \<Rightarrow> bytes
     \<Rightarrow> (P2pError, unit) result \<times> WebSocketConn" where
  "send_ek_braid sha512 C stamp ws ek_bytes = send_chunks C stamp (split_key_to_chunks sha512 ek_bytes) ws"

fun recv_ek_loop ::
    "codec \<Rightarrow> BraidHandshake \<Rightarrow> ws_event list \<Rightarrow> (P2pError, BraidHandshake) result \<times> ws_event list" where
  "recv_ek_loop C hs [] = (Inl P2pTimeout, [])"
| "recv_ek_loop C hs (NoFrame # es) = (Inl P2pTimeout, es)"
| "recv_ek_loop C hs (StreamEnd # es) = (Inl (Connection ''connection closed during braid''), es)"
| "recv_ek_loop C hs (StreamError e # es) = (Inl (Connection e), es)"
| "recv_ek_loop C hs (Frame Close # es) = (Inl (Connection ''closed during braid''), es)"
| "recv_ek_loop C hs (Frame OtherFrame # es) = recv_ek_loop C hs es"
| "recv_ek_loop C hs (Frame (Text t) # es) =
     (case from_json C t of
        Inl e \<Rightarrow> (Inl (Serialization e), es)
      | Inr env \<Rightarrow>
          (case parse_braid_chunk env of
             None \<Rightarrow> (Inl (Handshake (''expected braid chunk, got '' @ msg_type env)), es)
           | Some chunk \<Rightarrow>
               (case add_chunk chunk hs of
                  (Inl e, hs') \<Rightarrow> (Inl (Handshake (''braid: '' @ e)), es)
                | (Inr done, hs') \<Rightarrow> if done then (Inr hs', es) else recv_ek_loop C hs' es)))"

definition recv_ek_braid :: "codec \<Rightarrow> WebSocketConn \<Rightarrow> (P2pError, bytes) result \<times> WebSocketConn" where
  "recv_ek_braid C ws =
     (case recv_ek_loop C BraidHandshake_new (incoming ws) of
        (Inl e, es) \<Rightarrow> (Inl e, ws\<lparr>incoming := es\<rparr>)
      | (Inr hs, es) \<Rightarrow> (Inr (reconstruct_enc_key hs MLKEM1024_EK_LEN), ws\<lparr>incoming := es\<rparr>))"

definition verify_peer_ek_from_bytes :: "(bytes \<Rightarrow> bytes) \<Rightarrow> bytes \<Rightarrow> bytes \<Rightarrow> (P2pError, bytes) result" where
  "verify_peer_ek_from_bytes sha512 reconstructed_ek authenticated_inline_ek =
     (let ek_hash = sha512 reconstructed_ek; inline_hash = sha512 authenticated_inline_ek
      in if ek_hash \<noteq> inline_hash then Inl (Handshake ''braid EK hash mismatch - stream tampered'')
         else if reconstructed_ek \<noteq> authenticated_inline_ek then
           Inl (Handshake ''braid EK does not match authenticated inline kyber_enc_key - possible MITM'')
         else Inr reconstructed_ek)"

definition exchange_ek_braid ::
    "(bytes \<Rightarrow> bytes) \<Rightarrow> codec \<Rightarrow> (BraidChunk \<Rightarrow> string \<times> real) \<Rightarrow> WebSocketConn \<Rightarrow> bytes
     \<Rightarrow> (P2pError, bytes) result \<times> WebSocketConn" where
  "exchange_ek_braid sha512 C stamp ws our_ek_bytes =
     (case send_ek_braid sha512 C stamp ws our_ek_bytes of
        (Inl e, ws') \<Rightarrow> (Inl e, ws')
      | (Inr _, ws') \<Rightarrow> recv_ek_braid C ws')"

text \<open>The exchange over the two halves of a split connection, as the listener holds it; the source has a second copy of
  both loops for it.\<close>

record ws_sink =
  sink_sent :: "ws_message list"
  sink_errors :: "string option list"

definition sink_send :: "ws_message \<Rightarrow> ws_sink \<Rightarrow> (string, unit) result \<times> ws_sink" where
  "sink_send f s =
     (case sink_errors s of
        Some e # es \<Rightarrow> (Inl e, s\<lparr>sink_errors := es\<rparr>)
      | None # es \<Rightarrow> (Inr (), s\<lparr>sink_sent := sink_sent s @ [f], sink_errors := es\<rparr>)
      | [] \<Rightarrow> (Inr (), s\<lparr>sink_sent := sink_sent s @ [f]\<rparr>))"

fun send_chunks_split ::
    "codec \<Rightarrow> (BraidChunk \<Rightarrow> string \<times> real) \<Rightarrow> BraidChunk list \<Rightarrow> ws_sink \<Rightarrow> (P2pError, unit) result \<times> ws_sink" where
  "send_chunks_split C stamp [] sink = (Inr (), sink)"
| "send_chunks_split C stamp (c # cs) sink =
     (case to_json C (build_braid_chunk_msg (fst (stamp c)) (snd (stamp c)) c) of
        Inl e \<Rightarrow> (Inl (Serialization e), sink)
      | Inr json \<Rightarrow>
          (case sink_send (Text json) sink of
             (Inl e, sink') \<Rightarrow> (Inl (Connection e), sink')
           | (Inr _, sink') \<Rightarrow> send_chunks_split C stamp cs sink'))"

definition send_ek_braid_split ::
    "(bytes \<Rightarrow> bytes) \<Rightarrow> codec \<Rightarrow> (BraidChunk \<Rightarrow> string \<times> real) \<Rightarrow> ws_sink \<Rightarrow> bytes \<Rightarrow> (P2pError, unit) result \<times> ws_sink" where
  "send_ek_braid_split sha512 C stamp sink ek_bytes = send_chunks_split C stamp (split_key_to_chunks sha512 ek_bytes) sink"

fun recv_ek_split_loop ::
    "codec \<Rightarrow> BraidHandshake \<Rightarrow> ws_event list \<Rightarrow> (P2pError, BraidHandshake) result \<times> ws_event list" where
  "recv_ek_split_loop C hs [] = (Inl P2pTimeout, [])"
| "recv_ek_split_loop C hs (NoFrame # es) = (Inl P2pTimeout, es)"
| "recv_ek_split_loop C hs (StreamEnd # es) = (Inl (Connection ''connection closed during braid''), es)"
| "recv_ek_split_loop C hs (StreamError e # es) = (Inl (Connection e), es)"
| "recv_ek_split_loop C hs (Frame Close # es) = (Inl (Connection ''closed during braid''), es)"
| "recv_ek_split_loop C hs (Frame OtherFrame # es) = recv_ek_split_loop C hs es"
| "recv_ek_split_loop C hs (Frame (Text t) # es) =
     (case from_json C t of
        Inl e \<Rightarrow> (Inl (Serialization e), es)
      | Inr env \<Rightarrow>
          (case parse_braid_chunk env of
             None \<Rightarrow> (Inl (Handshake (''expected braid chunk, got '' @ msg_type env)), es)
           | Some chunk \<Rightarrow>
               (case add_chunk chunk hs of
                  (Inl e, hs') \<Rightarrow> (Inl (Handshake (''braid: '' @ e)), es)
                | (Inr done, hs') \<Rightarrow> if done then (Inr hs', es) else recv_ek_split_loop C hs' es)))"

definition recv_ek_braid_split :: "codec \<Rightarrow> ws_event list \<Rightarrow> (P2pError, bytes) result \<times> ws_event list" where
  "recv_ek_braid_split C rx =
     (case recv_ek_split_loop C BraidHandshake_new rx of
        (Inl e, es) \<Rightarrow> (Inl e, es)
      | (Inr hs, es) \<Rightarrow> (Inr (reconstruct_enc_key hs MLKEM1024_EK_LEN), es))"

definition exchange_ek_braid_split ::
    "(bytes \<Rightarrow> bytes) \<Rightarrow> codec \<Rightarrow> (BraidChunk \<Rightarrow> string \<times> real) \<Rightarrow> ws_sink \<Rightarrow> ws_event list \<Rightarrow> bytes
     \<Rightarrow> (P2pError, ws_sink \<times> ws_event list \<times> bytes) result" where
  "exchange_ek_braid_split sha512 C stamp sink rx our_ek_bytes =
     (case send_ek_braid_split sha512 C stamp sink our_ek_bytes of
        (Inl e, _) \<Rightarrow> Inl e
      | (Inr _, sink') \<Rightarrow>
          (case recv_ek_braid_split C rx of
             (Inl e, _) \<Rightarrow> Inl e
           | (Inr peer_ek, rx') \<Rightarrow> Inr (sink', rx', peer_ek)))"

definition sink_of :: "WebSocketConn \<Rightarrow> ws_sink" where
  "sink_of ws = \<lparr>sink_sent = sent ws, sink_errors = send_errors ws\<rparr>"

section \<open>Lemmas\<close>

definition codec_ok :: "codec \<Rightarrow> WireEnvelope set \<Rightarrow> bool" where
  "codec_ok C E \<longleftrightarrow> (\<forall>env \<in> E. \<exists>t. to_json C env = Inr t \<and> from_json C t = Inr env)"

definition chunk_env :: "(BraidChunk \<Rightarrow> string \<times> real) \<Rightarrow> BraidChunk \<Rightarrow> WireEnvelope" where
  "chunk_env stamp c = build_braid_chunk_msg (fst (stamp c)) (snd (stamp c)) c"

definition chunk_text :: "codec \<Rightarrow> (BraidChunk \<Rightarrow> string \<times> real) \<Rightarrow> BraidChunk \<Rightarrow> string" where
  "chunk_text C stamp c = (case to_json C (chunk_env stamp c) of Inr t \<Rightarrow> t | Inl e \<Rightarrow> e)"

abbreviation codec_ok_key :: "codec \<Rightarrow> (bytes \<Rightarrow> bytes) \<Rightarrow> (BraidChunk \<Rightarrow> string \<times> real) \<Rightarrow> bytes \<Rightarrow> bool" where
  "codec_ok_key C sha512 stamp key \<equiv> codec_ok C (chunk_env stamp ` set (split_key_to_chunks sha512 key))"

lemma chunk_text_codec:
  assumes "codec_ok C (chunk_env stamp ` A)" "c \<in> A"
  shows "to_json C (build_braid_chunk_msg (fst (stamp c)) (snd (stamp c)) c) = Inr (chunk_text C stamp c)"
    and "from_json C (chunk_text C stamp c) = Inr (chunk_env stamp c)"
proof -
  obtain t where t: "to_json C (chunk_env stamp c) = Inr t" "from_json C t = Inr (chunk_env stamp c)"
    using assms by (auto simp: codec_ok_def)
  then show "to_json C (build_braid_chunk_msg (fst (stamp c)) (snd (stamp c)) c) = Inr (chunk_text C stamp c)"
    by (simp add: chunk_text_def chunk_env_def)
  from t show "from_json C (chunk_text C stamp c) = Inr (chunk_env stamp c)"
    by (simp add: chunk_text_def)
qed

lemma parse_chunk_env: "parse_braid_chunk (chunk_env stamp c) = Some c"
  by (simp add: chunk_env_def parse_build_braid_chunk)

lemma ws_send_ok: "send_errors ws = [] \<Longrightarrow> ws_send f ws = (Inr (), ws\<lparr>sent := sent ws @ [f]\<rparr>)"
  by (simp add: ws_send_def)

lemma send_chunks_ok:
  assumes "codec_ok C (chunk_env stamp ` A)" "set cs \<subseteq> A" "send_errors ws = []"
  shows "send_chunks C stamp cs ws = (Inr (), ws\<lparr>sent := sent ws @ map (Text \<circ> chunk_text C stamp) cs\<rparr>)"
  using assms(2,3)
  by (induction cs arbitrary: ws) (simp_all add: chunk_text_codec(1)[OF assms(1)] ws_send_ok)

lemma send_ek_braid_ok:
  assumes "codec_ok_key C sha512 stamp key" "send_errors ws = []"
  shows "send_ek_braid sha512 C stamp ws key
       = (Inr (), ws\<lparr>sent := sent ws @ map (Text \<circ> chunk_text C stamp) (split_key_to_chunks sha512 key)\<rparr>)"
  unfolding send_ek_braid_def by (rule send_chunks_ok[OF assms(1) order_refl assms(2)])

text \<open>Frames that are neither text nor close are skipped by the receiver.\<close>

lemma recv_ek_loop_skip:
  "recv_ek_loop C hs es = recv_ek_loop C hs (filter (\<lambda>e. e \<noteq> Frame OtherFrame) es) \<or>
   fst (recv_ek_loop C hs es) = fst (recv_ek_loop C hs (filter (\<lambda>e. e \<noteq> Frame OtherFrame) es))"
  by (induction C hs es rule: recv_ek_loop.induct) (auto split: sum.splits option.splits prod.splits)

lemma fst_recv_ek_loop_skip:
  "fst (recv_ek_loop C hs es) = fst (recv_ek_loop C hs (filter (\<lambda>e. e \<noteq> Frame OtherFrame) es))"
  using recv_ek_loop_skip by metis

lemma recv_ek_loop_chunks:
  assumes C: "codec_ok_key C sha512 stamp key"
    and "distinct (is @ js)" "set (is @ js) = {..<num_chunks key}" "js \<noteq> []" "num_chunks key \<le> 64"
  shows "recv_ek_loop C (state_after sha512 key is)
           (map (\<lambda>c. Frame (Text (chunk_text C stamp c))) (map (chunk_at sha512 key) js) @ es)
       = (Inr (state_after sha512 key (is @ js)), es)"
  using assms(2-)
proof (induction js arbitrary: "is")
  case Nil
  then show ?case by simp
next
  case (Cons j js)
  have j: "chunk_at sha512 key j \<in> set (split_key_to_chunks sha512 key)"
    using Cons.prems(2) by (simp add: split_key_chunk_at atLeast0LessThan) blast
  have tot: "length (is @ j # js) = num_chunks key"
    using distinct_card[OF Cons.prems(1)] Cons.prems(2) by simp
  have add: "add_chunk (chunk_at sha512 key j) (state_after sha512 key is)
      = (Inr (Suc (length is) = num_chunks key), state_after sha512 key (is @ [j]))"
    using Cons.prems by (intro add_chunk_state_after) auto
  show ?case
  proof (cases "js = []")
    case True
    with tot show ?thesis
      by (simp add: chunk_text_codec(2)[OF C j] parse_chunk_env add)
  next
    case False
    with tot have "Suc (length is) \<noteq> num_chunks key" by (cases js) auto
    with False Cons.prems Cons.IH[of "is @ [j]"] show ?thesis
      by (simp add: chunk_text_codec(2)[OF C j] parse_chunk_env add)
  qed
qed

lemma recv_own_chunks:
  assumes "codec_ok_key C sha512 stamp key" "length key = MLKEM1024_EK_LEN"
    and "filter (\<lambda>e. e \<noteq> Frame OtherFrame) evs
       = map (\<lambda>c. Frame (Text (chunk_text C stamp c))) (split_key_to_chunks sha512 key)"
  shows "fst (recv_ek_loop C BraidHandshake_new evs) = Inr (state_after sha512 key [0..<num_chunks key])"
proof -
  have n: "num_chunks key \<le> 64" "0 < num_chunks key"
    using assms(2) by (simp_all add: num_chunks_def CHUNK_SIZE_def MLKEM1024_EK_LEN_def)
  have "recv_ek_loop C (state_after sha512 key [])
      (map (\<lambda>c. Frame (Text (chunk_text C stamp c))) (map (chunk_at sha512 key) [0..<num_chunks key]) @ [])
    = (Inr (state_after sha512 key ([] @ [0..<num_chunks key])), [])"
    using n by (intro recv_ek_loop_chunks[OF assms(1)]) auto
  then show ?thesis
    using assms(3) by (subst fst_recv_ek_loop_skip) (simp add: split_key_chunk_at state_after_def)
qed

lemma recv_ek_braid_fst:
  "fst (recv_ek_braid C ws)
     = (case fst (recv_ek_loop C BraidHandshake_new (incoming ws)) of
          Inl e \<Rightarrow> Inl e | Inr hs \<Rightarrow> Inr (reconstruct_enc_key hs MLKEM1024_EK_LEN))"
  by (simp add: recv_ek_braid_def split: prod.splits sum.splits)

section \<open>Split connections\<close>

lemma sink_of_read [simp]: "sink_of (ws\<lparr>incoming := es\<rparr>) = sink_of ws"
  by (simp add: sink_of_def)

lemma sink_send_same: "sink_send f (sink_of ws) = map_prod id sink_of (ws_send f ws)" "incoming (snd (ws_send f ws)) = incoming ws"
  by (simp_all add: sink_send_def ws_send_def sink_of_def split: list.split option.split)

lemma send_chunks_split_same:
  "send_chunks_split C stamp cs (sink_of ws) = map_prod id sink_of (send_chunks C stamp cs ws)
     \<and> incoming (snd (send_chunks C stamp cs ws)) = incoming ws"
proof (induction cs arbitrary: ws)
  case (Cons c cs)
  show ?case
  proof (cases "to_json C (build_braid_chunk_msg (fst (stamp c)) (snd (stamp c)) c)")
    case (Inr t)
    obtain r ws' where "ws_send (Text t) ws = (r, ws')" by fastforce
    then show ?thesis using Inr Cons.IH[of ws'] sink_send_same[of "Text t" ws] by (simp split: sum.split)
  qed simp
qed simp

lemma recv_ek_split_loop_same: "recv_ek_split_loop C hs es = recv_ek_loop C hs es"
  by (induction C hs es rule: recv_ek_loop.induct) (simp_all split: sum.split option.split prod.split)

text \<open>The exchange over the halves of a split connection fails with the same error as the one over the whole connection,
  or returns the same key with the halves of the connection as the other leaves it.\<close>

lemma exchange_ek_braid_split_same:
  "exchange_ek_braid_split sha512 C stamp (sink_of ws) (incoming ws) ek =
     (case exchange_ek_braid sha512 C stamp ws ek of
        (Inl e, _) \<Rightarrow> Inl e
      | (Inr peer_ek, ws') \<Rightarrow> Inr (sink_of ws', incoming ws', peer_ek))"
proof -
  obtain r ws1 where s: "send_chunks C stamp (split_key_to_chunks sha512 ek) ws = (r, ws1)" by fastforce
  with send_chunks_split_same[of C stamp "split_key_to_chunks sha512 ek" ws]
  have i: "incoming ws1 = incoming ws" "send_chunks_split C stamp (split_key_to_chunks sha512 ek) (sink_of ws) = (r, sink_of ws1)"
    by simp_all
  show ?thesis
    by (simp add: exchange_ek_braid_split_def send_ek_braid_split_def recv_ek_braid_split_def exchange_ek_braid_def
        send_ek_braid_def recv_ek_braid_def recv_ek_split_loop_same s i split: sum.split prod.split)
qed

section \<open>Properties\<close>

text \<open>C24: The symmetric key exchange works, over a whole connection as the connecting side holds it and over the halves of
  a split one as the listener does: when the peer's stream delivers the frames that the peer's own exchange wrote, in
  order and with any number of ping, pong or binary frames between them, and no write fails, the exchange returns
  exactly the peer's 1568-byte key.\<close>

theorem exchange_ek_braid_correct:
  assumes "codec_ok_key C sha512 stamp_a ek_a" "codec_ok_key C sha512 stamp_b ek_b"
    and "length ek_b = MLKEM1024_EK_LEN" "send_errors ws_a = []" "send_errors ws_b = []" "sent ws_b = []"
    and "filter (\<lambda>e. e \<noteq> Frame OtherFrame) (incoming ws_a)
       = map Frame (sent (snd (send_ek_braid sha512 C stamp_b ws_b ek_b)))"
  shows "fst (exchange_ek_braid sha512 C stamp_a ws_a ek_a) = Inr ek_b
    \<and> (\<exists>sink rx. exchange_ek_braid_split sha512 C stamp_a (sink_of ws_a) (incoming ws_a) ek_a = Inr (sink, rx, ek_b))"
proof -
  obtain ws where sa: "send_ek_braid sha512 C stamp_a ws_a ek_a = (Inr (), ws)" and inc: "incoming ws = incoming ws_a"
    using send_ek_braid_ok[OF assms(1,4)] by simp
  have "filter (\<lambda>e. e \<noteq> Frame OtherFrame) (incoming ws)
      = map (\<lambda>c. Frame (Text (chunk_text C stamp_b c))) (split_key_to_chunks sha512 ek_b)"
    unfolding inc assms(7) send_ek_braid_ok[OF assms(2,5)] using assms(6) by simp
  then have loop: "fst (recv_ek_loop C BraidHandshake_new (incoming ws))
      = Inr (state_after sha512 ek_b [0..<num_chunks ek_b])"
    by (rule recv_own_chunks[OF assms(2,3)])
  have "num_chunks ek_b \<le> 64" "0 < num_chunks ek_b"
    using assms(3) by (simp_all add: num_chunks_def CHUNK_SIZE_def MLKEM1024_EK_LEN_def)
  then have "reconstruct_enc_key (state_after sha512 ek_b [0..<num_chunks ek_b]) (length ek_b) = ek_b"
    by (intro reconstruct_state_after) auto
  with loop have whole: "fst (exchange_ek_braid sha512 C stamp_a ws_a ek_a) = Inr ek_b"
    by (simp add: exchange_ek_braid_def sa recv_ek_braid_fst assms(3))
  then show ?thesis unfolding exchange_ek_braid_split_same by (auto split: prod.split)
qed

text \<open>A concrete codec for the chunks of one key: the text of a chunk is its number in unary.\<close>

definition unary_codec :: "bytes \<Rightarrow> codec" where
  "unary_codec key =
     \<lparr>to_json = \<lambda>env. (case parse_braid_chunk env of None \<Rightarrow> Inl [] | Some c \<Rightarrow> Inr (replicate (unat (chunk_num c)) CHR ''x'')),
      from_json = \<lambda>t. Inr (chunk_env (\<lambda>_. ([], 0)) (chunk_at (\<lambda>_. []) key (length t)))\<rparr>"

lemma unary_codec_ok:
  assumes "length key \<le> 4096"
  shows "codec_ok_key (unary_codec key) (\<lambda>_. []) (\<lambda>_. ([], 0)) key"
proof -
  have "unat (word_of_nat i :: u32) = i" if "i < num_chunks key" for i
    using that num_chunks_bound[OF assms] by (intro unat_small_u32) simp
  then show ?thesis
    by (auto simp: codec_ok_def unary_codec_def parse_chunk_env split_key_chunk_at)
      (simp add: chunk_at_def)
qed

theorem exchange_ek_braid_correct_witness:
  "let key = replicate 1568 (7 :: u8);
       C = unary_codec key;
       out = snd (send_ek_braid (\<lambda>_. []) C (\<lambda>_. ([], 0)) \<lparr>incoming = [], sent = [], send_errors = []\<rparr> key);
       ws = \<lparr>incoming = Frame OtherFrame # map Frame (sent out), sent = [], send_errors = []\<rparr>
   in fst (exchange_ek_braid (\<lambda>_. []) C (\<lambda>_. ([], 0)) ws key) = Inr key
    \<and> (\<exists>sink rx. exchange_ek_braid_split (\<lambda>_. []) C (\<lambda>_. ([], 0)) (sink_of ws) (incoming ws) key = Inr (sink, rx, key))"
proof -
  let ?key = "replicate 1568 (7 :: u8)"
  let ?ws0 = "\<lparr>incoming = [], sent = [], send_errors = []\<rparr> :: WebSocketConn"
  have ok: "codec_ok_key (unary_codec ?key) (\<lambda>_. []) (\<lambda>_. ([], 0)) ?key"
    by (rule unary_codec_ok) simp
  have flt: "filter (\<lambda>e. e \<noteq> Frame OtherFrame) (map (\<lambda>c. Frame (Text (f c))) cs) = map (\<lambda>c. Frame (Text (f c))) cs" for f :: "BraidChunk \<Rightarrow> string" and cs
    by (induction cs) simp_all
  show ?thesis
    unfolding Let_def
    by (rule exchange_ek_braid_correct[OF ok ok, where ws_b = ?ws0])
      (simp_all add: MLKEM1024_EK_LEN_def send_ek_braid_ok[OF ok] flt comp_def)
qed

text \<open>C25: Whatever frames an attacker feeds into the braid stream, a key that passes the final check is
  the key the peer committed to in its signed hello, for any hash function, even one with collisions.\<close>

theorem braid_key_bound_to_signed_key:
  assumes "fst (recv_ek_braid C ws) = Inr ek" "verify_peer_ek_from_bytes sha512 ek inline = Inr k"
  shows "k = inline \<and> length k = MLKEM1024_EK_LEN"
proof -
  have "length ek = MLKEM1024_EK_LEN"
    using assms(1) by (auto simp: recv_ek_braid_fst reconstruct_enc_key_def split: sum.splits)
  with assms(2) show ?thesis
    by (auto simp: verify_peer_ek_from_bytes_def Let_def split: if_splits)
qed

theorem braid_key_bound_to_signed_key_witness:
  "let key = replicate 1568 (7 :: u8);
       C = unary_codec key;
       ws = \<lparr>incoming = map (\<lambda>c. Frame (Text (chunk_text C (\<lambda>_. ([], 0)) c))) (split_key_to_chunks (\<lambda>_. []) key),
             sent = [], send_errors = []\<rparr>
   in fst (recv_ek_braid C ws) = Inr key \<and> length key = MLKEM1024_EK_LEN"
proof -
  let ?key = "replicate 1568 (7 :: u8)"
  let ?C = "unary_codec ?key"
  let ?ws = "\<lparr>incoming = map (\<lambda>c. Frame (Text (chunk_text ?C (\<lambda>_. ([], 0)) c))) (split_key_to_chunks (\<lambda>_. []) ?key),
      sent = [], send_errors = []\<rparr> :: WebSocketConn"
  have ok: "codec_ok_key ?C (\<lambda>_. []) (\<lambda>_. ([], 0)) ?key"
    by (rule unary_codec_ok) simp
  have flt: "filter (\<lambda>e. e \<noteq> Frame OtherFrame) (incoming ?ws) = incoming ?ws" by (auto intro!: filter_True)
  have n: "num_chunks ?key \<le> 64" "0 < num_chunks ?key" "length ?key = MLKEM1024_EK_LEN"
    by (simp_all add: num_chunks_def CHUNK_SIZE_def MLKEM1024_EK_LEN_def)
  have "fst (recv_ek_loop ?C BraidHandshake_new (incoming ?ws)) = Inr (state_after (\<lambda>_. []) ?key [0..<num_chunks ?key])"
    by (rule recv_own_chunks[OF ok n(3)]) (simp only: flt, simp)
  moreover have "reconstruct_enc_key (state_after (\<lambda>_. []) ?key [0..<num_chunks ?key]) (length ?key) = ?key"
    using n(1,2) by (intro reconstruct_state_after) auto
  ultimately have r: "fst (recv_ek_braid ?C ?ws) = Inr ?key"
    by (simp only: recv_ek_braid_fst n(3) sum.case)
  have "verify_peer_ek_from_bytes (\<lambda>_. []) ?key ?key = Inr ?key"
    by (simp add: verify_peer_ek_from_bytes_def)
  from braid_key_bound_to_signed_key[OF r this] r show ?thesis by (simp only: Let_def simp_thms)
qed

end
