(* ===== verification/HelloHandshake.thy ===== *)
theory HelloHandshake
  imports Transport
begin

text \<open>
  The hello handshake of \<open>p2p/src/handshake.rs\<close>: the initiator solves a proof of work bound to its
  public key, the responder checks it and answers with a challenge. The base nonce, the challenge
  and the envelope stamps are arguments; Argon2 is the argument \<open>argon\<close> of theory Pow.
\<close>

section \<open>Definitions\<close>

definition HELLO_POW_BITS :: u32 where "HELLO_POW_BITS = 16"

definition pow_ok :: "argon \<Rightarrow> string \<Rightarrow> u64 \<Rightarrow> u32 \<Rightarrow> bytes \<Rightarrow> bool" where
  "pow_ok argon data nonce difficulty node_secret =
     (case pow_check argon data nonce (unat difficulty) node_secret of Inl _ \<Rightarrow> False | Inr b \<Rightarrow> b)"

definition hello_pow_data :: "string \<Rightarrow> u64 \<Rightarrow> string" where
  "hello_pow_data public_key_b64 nonce = public_key_b64 @ show_nat (unat nonce)"

function solve_hello_loop :: "argon \<Rightarrow> string \<Rightarrow> u64 \<Rightarrow> u32 \<Rightarrow> bytes \<Rightarrow> nat \<Rightarrow> u64 option" where
  "solve_hello_loop argon pk base_nonce difficulty node_secret i =
     (if i < 1000000 then
        (let nonce = base_nonce + word_of_nat i
         in if pow_ok argon (hello_pow_data pk nonce) nonce difficulty node_secret then Some nonce
            else solve_hello_loop argon pk base_nonce difficulty node_secret (i + 1))
      else None)"
  by pat_completeness auto
termination
  by (relation "measure (\<lambda>(_, _, _, _, _, i). 1000000 - i)") auto

declare solve_hello_loop.simps [simp del]

definition solve_hello_pow :: "argon \<Rightarrow> string \<Rightarrow> u64 \<Rightarrow> u32 \<Rightarrow> bytes \<Rightarrow> u64 option" where
  "solve_hello_pow argon public_key_b64 base_nonce difficulty node_secret =
     solve_hello_loop argon public_key_b64 base_nonce difficulty node_secret 0"

definition verify_hello_pow :: "argon \<Rightarrow> string \<Rightarrow> u64 \<Rightarrow> u32 \<Rightarrow> bytes \<Rightarrow> bool" where
  "verify_hello_pow argon public_key_b64 nonce difficulty node_secret =
     pow_ok argon (hello_pow_data public_key_b64 nonce) nonce difficulty node_secret"

definition payload_u64 :: "WireEnvelope \<Rightarrow> string \<Rightarrow> u64 option" where
  "payload_u64 env key = Option.bind (payload_field env key) as_u64"

definition bad_pow_params :: "u64 \<Rightarrow> u32 \<Rightarrow> bool" where
  "bad_pow_params nonce pow_bits =
     (nonce > 1000000000 \<or> unat pow_bits < MIN_POW_DIFFICULTY \<or> pow_bits > 32)"

definition check_hello_ack :: "WireEnvelope \<Rightarrow> (P2pError, WireEnvelope) result" where
  "check_hello_ack ack =
     (if msg_type ack \<noteq> ''p2p-hello-ack'' then
        Inl (Handshake (''expected p2p-hello-ack, got '' @ msg_type ack))
      else
        let peer_nonce = unwrap_or 0 (payload_u64 ack ''nonce'');
            peer_pow_bits = (ucast (unwrap_or 0 (payload_u64 ack ''pow_bits'')) :: u32);
            server_challenge = unwrap_or [] (payload_str ack ''server_challenge'')
        in if bad_pow_params peer_nonce peer_pow_bits then
             Inl (Handshake ''invalid PoW parameters: nonce out of range or difficulty below minimum'')
           else if server_challenge = [] then Inl (Handshake ''hello-ack missing server_challenge'')
           else Inr ack)"

definition handshake_initiator ::
    "codec \<Rightarrow> argon \<Rightarrow> u64 \<Rightarrow> string \<Rightarrow> real \<Rightarrow> WebSocketConn \<Rightarrow> string \<Rightarrow> string
     \<Rightarrow> (P2pError, WireEnvelope) result \<times> WebSocketConn" where
  "handshake_initiator C argon base_nonce uuid now ws public_key_b64 kyber_enc_key_b64 =
     (case solve_hello_pow argon public_key_b64 base_nonce HELLO_POW_BITS (str_bytes public_key_b64) of
        None \<Rightarrow> (Inl (Handshake ''failed to solve PoW within attempt budget''), ws)
      | Some nonce \<Rightarrow>
          (case send_envelope C ws (build_p2p_hello uuid now public_key_b64 nonce HELLO_POW_BITS kyber_enc_key_b64 []) of
             (Inl e, ws1) \<Rightarrow> (Inl e, ws1)
           | (Inr _, ws1) \<Rightarrow>
               (case recv_envelope C ws1 of
                  (Inl e, ws2) \<Rightarrow> (Inl e, ws2)
                | (Inr ack, ws2) \<Rightarrow> (check_hello_ack ack, ws2))))"

definition check_hello :: "argon \<Rightarrow> WireEnvelope \<Rightarrow> P2pError option" where
  "check_hello argon hello =
     (if msg_type hello \<noteq> ''p2p-hello'' then
        Some (Handshake (''expected p2p-hello, got '' @ msg_type hello))
      else
        let peer_key = unwrap_or [] (payload_str hello ''public_key'');
            peer_nonce = unwrap_or 0 (payload_u64 hello ''nonce'');
            peer_pow_bits = (ucast (unwrap_or 0 (payload_u64 hello ''pow_bits'')) :: u32)
        in if bad_pow_params peer_nonce peer_pow_bits then
             Some (Handshake ''invalid PoW parameters: nonce out of range or difficulty below minimum'')
           else if \<not> pow_ok argon (hello_pow_data peer_key peer_nonce) peer_nonce peer_pow_bits (str_bytes peer_key) then
             Some (Handshake ''peer PoW verification failed'')
           else None)"

definition handshake_responder ::
    "codec \<Rightarrow> argon \<Rightarrow> string \<Rightarrow> string \<Rightarrow> real \<Rightarrow> WebSocketConn \<Rightarrow> string \<Rightarrow> string
     \<Rightarrow> (P2pError, WireEnvelope) result \<times> WebSocketConn" where
  "handshake_responder C argon server_challenge uuid now ws public_key_b64 kyber_enc_key_b64 =
     (case recv_envelope C ws of
        (Inl e, ws1) \<Rightarrow> (Inl e, ws1)
      | (Inr hello, ws1) \<Rightarrow>
          (case check_hello argon hello of
             Some e \<Rightarrow> (Inl e, ws1)
           | None \<Rightarrow>
               (case send_envelope C ws1 (build_p2p_hello_ack uuid now public_key_b64 0 0 server_challenge kyber_enc_key_b64) of
                  (Inl e, ws2) \<Rightarrow> (Inl e, ws2)
                | (Inr _, ws2) \<Rightarrow> (Inr hello, ws2))))"

section \<open>Lemmas\<close>

lemma solve_hello_loop_sound:
  "solve_hello_loop argon pk base d secret i = Some n
   \<Longrightarrow> verify_hello_pow argon pk n d secret \<and> (\<exists>j < 1000000. i \<le> j \<and> n = base + word_of_nat j)"
proof (induction argon pk base d secret i rule: solve_hello_loop.induct)
  case (1 argon pk base d secret i)
  from "1.prems" have i: "i < 1000000" by (subst (asm) solve_hello_loop.simps) (simp split: if_splits)
  let ?n = "base + word_of_nat i"
  show ?case
  proof (cases "pow_ok argon (hello_pow_data pk ?n) ?n d secret")
    case True
    with "1.prems" i have "n = ?n" by (subst (asm) solve_hello_loop.simps) (simp add: Let_def)
    with True i show ?thesis by (auto simp: verify_hello_pow_def)
  next
    case False
    with "1.prems" i have "solve_hello_loop argon pk base d secret (i + 1) = Some n"
      by (subst (asm) solve_hello_loop.simps) (simp add: Let_def)
    from "1.IH"[OF i refl False this] show ?thesis by force
  qed
qed

lemma solve_hello_loop_complete:
  "solve_hello_loop argon pk base d secret i = None \<Longrightarrow> i \<le> j \<Longrightarrow> j < 1000000
   \<Longrightarrow> \<not> verify_hello_pow argon pk (base + word_of_nat j) d secret"
proof (induction argon pk base d secret i rule: solve_hello_loop.induct)
  case (1 argon pk base d secret i)
  from "1.prems" have i: "i < 1000000" by simp
  let ?n = "base + word_of_nat i"
  have no: "\<not> pow_ok argon (hello_pow_data pk ?n) ?n d secret"
    using "1.prems"(1) i by (subst (asm) solve_hello_loop.simps) (simp add: Let_def split: if_splits)
  then have rest: "solve_hello_loop argon pk base d secret (i + 1) = None"
    using "1.prems"(1) i by (subst (asm) solve_hello_loop.simps) (simp add: Let_def)
  show ?case
  proof (cases "j = i")
    case True
    with no show ?thesis by (simp add: verify_hello_pow_def)
  next
    case False
    with "1.prems" have "i + 1 \<le> j" by simp
    from "1.IH"[OF i refl no rest this "1.prems"(3)] show ?thesis .
  qed
qed

lemma as_u64_uint [simp]: "as_u64 (JInt (uint (w :: u64))) = Some w"
proof -
  have "uint w < 2 ^ 64" using uint_bounded[of w] by simp
  then show ?thesis by (simp add: u64_range_def)
qed

lemma check_hello_ack_of_responder:
  "check_hello_ack (build_p2p_hello_ack uuid now pk 0 0 ch ek)
   = Inl (Handshake ''invalid PoW parameters: nonce out of range or difficulty below minimum'')"
  by (simp add: check_hello_ack_def build_p2p_hello_ack_def payload_u64_def payload_field_def
      bad_pow_params_def MIN_POW_DIFFICULTY_def u64_range_def Let_def)

lemma handshake_responder_sent:
  assumes "handshake_responder C argon ch uuid now ws pk ek = (Inr hello, ws')" "sent ws = []"
  shows "\<exists>t. to_json C (build_p2p_hello_ack uuid now pk 0 0 ch ek) = Inr t \<and> sent ws' = [Text t]"
  using assms
  by (auto simp: handshake_responder_def recv_envelope_def ws_next_def send_envelope_def ws_send_def
      split: prod.splits sum.splits option.splits list.splits ws_event.splits ws_message.splits)

section \<open>Properties\<close>

text \<open>The hello solver is exact: it returns a nonce the verifier accepts, or no nonce among the
  1,000,000 it may try is accepted.\<close>

theorem solve_hello_pow_exact:
  "case solve_hello_pow argon pk base d secret of
     Some n \<Rightarrow> verify_hello_pow argon pk n d secret
   | None \<Rightarrow> \<not> (\<exists>j < 1000000. verify_hello_pow argon pk (base + word_of_nat j) d secret)"
  using solve_hello_loop_sound[of argon pk base d secret 0] solve_hello_loop_complete[of argon pk base d secret 0]
  by (auto simp: solve_hello_pow_def split: option.splits)

text \<open>A responder that accepts a hello has checked its proof of work: the hello has the right type,
  its nonce is at most 1,000,000,000, its difficulty between 8 and 32 bits, and the verifier accepts the
  nonce under the announced public key.\<close>

theorem handshake_responder_checks_work:
  assumes "fst (handshake_responder C argon ch uuid now ws pk ek) = Inr hello"
  shows "msg_type hello = ''p2p-hello''
       \<and> (let key = unwrap_or [] (payload_str hello ''public_key'');
              nonce = unwrap_or 0 (payload_u64 hello ''nonce'');
              bits = ucast (unwrap_or 0 (payload_u64 hello ''pow_bits''))
          in nonce \<le> 1000000000 \<and> 8 \<le> unat bits \<and> unat bits \<le> 32
           \<and> verify_hello_pow argon key nonce bits (str_bytes key))"
proof -
  have "check_hello argon hello = None"
    using assms by (auto simp: handshake_responder_def split: prod.splits sum.splits option.splits)
  then show ?thesis
    by (simp add: check_hello_def bad_pow_params_def verify_hello_pow_def MIN_POW_DIFFICULTY_def Let_def
        linorder_not_less word_le_nat_alt split: if_splits)
qed

theorem handshake_responder_checks_work_witness:
  "let hello = build_p2p_hello [] 0 ''k'' 5 16 [] [];
       C = \<lparr>to_json = \<lambda>_. Inr ''ack'', from_json = \<lambda>_. Inr hello\<rparr>;
       argon = Inr (\<lambda>_ _. Inr (replicate 32 0))
   in msg_type hello = ''p2p-hello''
    \<and> fst (handshake_responder C argon ''c'' [] 0 \<lparr>incoming = [Frame (Text ''h'')], sent = [], send_errors = []\<rparr> ''r'' [])
      = Inr hello"
proof -
  let ?hello = "build_p2p_hello [] 0 ''k'' 5 16 [] []"
  let ?C = "\<lparr>to_json = \<lambda>_. Inr ''ack'', from_json = \<lambda>_. Inr ?hello\<rparr>"
  let ?argon = "Inr (\<lambda>_ _. Inr (replicate 32 0)) :: argon"
  let ?ws = "\<lparr>incoming = [Frame (Text ''h'')], sent = [], send_errors = []\<rparr> :: WebSocketConn"
  have z: "leading_zero_bits (replicate 32 0) = 256"
    by (simp add: leading_zero_bits_def numeral_eq_Suc)
  have c: "check_hello ?argon ?hello = None"
    by (simp add: check_hello_def build_p2p_hello_def payload_u64_def payload_str_def payload_field_def
        u64_range_def bad_pow_params_def MIN_POW_DIFFICULTY_def pow_ok_def pow_check_def z Let_def)
  have r: "fst (handshake_responder ?C ?argon ''c'' [] 0 ?ws ''r'' []) = Inr ?hello"
    by (simp add: handshake_responder_def recv_envelope_def ws_next_def c send_envelope_def ws_send_def)
  from handshake_responder_checks_work[OF r] r show ?thesis by (simp add: Let_def)
qed

text \<open>The two sides disagree on the hello-ack: the responder announces difficulty 0 because it does
  no work, and the initiator rejects every difficulty below 8. An initiator that receives what a
  successful responder sent always fails, so this handshake never completes.\<close>

theorem handshake_never_completes:
  assumes "handshake_responder C argon ch uuid now ws_r pk_r ek_r = (Inr hello, ws_r')" "sent ws_r = []"
    and "\<forall>t. to_json C (build_p2p_hello_ack uuid now pk_r 0 0 ch ek_r) = Inr t
           \<longrightarrow> from_json C t = Inr (build_p2p_hello_ack uuid now pk_r 0 0 ch ek_r)"
    and "incoming ws_i = map Frame (sent ws_r')"
  shows "\<exists>e. fst (handshake_initiator C argon' base uuid' now' ws_i pk_i ek_i) = Inl e"
proof -
  obtain t where t: "to_json C (build_p2p_hello_ack uuid now pk_r 0 0 ch ek_r) = Inr t" "sent ws_r' = [Text t]"
    using handshake_responder_sent[OF assms(1,2)] by blast
  have f: "from_json C t = Inr (build_p2p_hello_ack uuid now pk_r 0 0 ch ek_r)" using assms(3) t(1) by blast
  have keep: "incoming ws1 = incoming ws_i" if "send_envelope C ws_i env = (r, ws1)" for env r ws1
    using that by (auto simp: send_envelope_def ws_send_def split: sum.splits prod.splits list.splits option.splits)
  have "fst (recv_envelope C ws1) = Inr (build_p2p_hello_ack uuid now pk_r 0 0 ch ek_r)"
    if "incoming ws1 = incoming ws_i" for ws1
    using that t(2) f assms(4) by (simp add: recv_envelope_def ws_next_def)
  then show ?thesis
    using keep check_hello_ack_of_responder[of uuid now pk_r ch ek_r]
    by (auto simp: handshake_initiator_def split: option.splits prod.splits sum.splits) (metis fst_conv sum.inject(2))+
qed

theorem handshake_never_completes_witness:
  "let hello = build_p2p_hello [] 0 ''k'' 5 16 [] [];
       ack = build_p2p_hello_ack [] 0 ''r'' 0 0 ''c'' [];
       C = \<lparr>to_json = \<lambda>_. Inr ''ack'', from_json = \<lambda>t. Inr (if t = ''ack'' then ack else hello)\<rparr>;
       argon = Inr (\<lambda>_ _. Inr (replicate 32 0))
   in \<exists>e. fst (handshake_initiator C argon 5 [] 0 \<lparr>incoming = [Frame (Text ''ack'')], sent = [], send_errors = []\<rparr> ''k'' [])
      = Inl e"
proof -
  let ?hello = "build_p2p_hello [] 0 ''k'' 5 16 [] []"
  let ?ack = "build_p2p_hello_ack [] 0 ''r'' 0 0 ''c'' []"
  let ?C = "\<lparr>to_json = \<lambda>_. Inr ''ack'', from_json = \<lambda>t. Inr (if t = ''ack'' then ?ack else ?hello)\<rparr>"
  let ?argon = "Inr (\<lambda>_ _. Inr (replicate 32 0)) :: argon"
  let ?ws = "\<lparr>incoming = [Frame (Text ''h'')], sent = [], send_errors = []\<rparr> :: WebSocketConn"
  have z: "leading_zero_bits (replicate 32 0) = 256"
    by (simp add: leading_zero_bits_def numeral_eq_Suc)
  have c: "check_hello ?argon ?hello = None"
    by (simp add: check_hello_def build_p2p_hello_def payload_u64_def payload_str_def payload_field_def
        u64_range_def bad_pow_params_def MIN_POW_DIFFICULTY_def pow_ok_def pow_check_def z Let_def)
  have r: "handshake_responder ?C ?argon ''c'' [] 0 ?ws ''r'' []
      = (Inr ?hello, \<lparr>incoming = [], sent = [Text ''ack''], send_errors = []\<rparr>)"
    by (simp add: handshake_responder_def recv_envelope_def ws_next_def c send_envelope_def ws_send_def)
  show ?thesis
    unfolding Let_def by (rule handshake_never_completes[OF r]) simp_all
qed

end
