(* ===== verification/BoundedQueue.thy ===== *)
theory BoundedQueue
  imports Prelude
begin

text \<open>
  The contract of a family of bounded queues, one per key: \<open>contents\<close> reads the queue of a key,
  \<open>push\<close> appends to it unless it is full. The client lemmas are proved once here and hold for every
  component that keeps such queues.
\<close>

locale bounded_queues =
  fixes contents :: "'s \<Rightarrow> 'k \<Rightarrow> 'a list"
    and push :: "'k \<Rightarrow> 'a \<Rightarrow> 's \<Rightarrow> 's"
    and cap :: nat
  assumes push_same: "contents (push k x s) k
      = (if length (contents s k) < cap then contents s k @ [x] else contents s k)"
    and push_other: "k' \<noteq> k \<Longrightarrow> contents (push k x s) k' = contents s k'"
begin

lemma push_bounded:
  assumes "\<And>k. length (contents s k) \<le> cap"
  shows "length (contents (push k x s) k') \<le> cap"
  using assms[of k] assms[of k'] by (cases "k' = k") (simp_all add: push_same push_other)

text \<open>Pushing a list to one key keeps the first elements, in order, up to the capacity.\<close>

lemma push_all_same:
  "length (contents s k) \<le> cap \<Longrightarrow> contents (fold (push k) xs s) k = take cap (contents s k @ xs)"
proof (induction xs arbitrary: s)
  case Nil
  then show ?case by simp
next
  case (Cons x xs)
  have "length (contents (push k x s) k) \<le> cap"
    using Cons.prems by (simp add: push_same)
  from Cons.IH[OF this] Cons.prems show ?case
    by (cases "length (contents s k) < cap") (simp_all add: push_same)
qed

text \<open>Traffic to other keys never changes a queue.\<close>

lemma push_all_other:
  "k \<notin> set (map fst kxs) \<Longrightarrow> contents (fold (\<lambda>(k', x). push k' x) kxs s) k = contents s k"
  by (induction kxs arbitrary: s) (auto simp: push_other)

text \<open>With any interleaving, a queue holds the first elements addressed to it.\<close>

lemma push_interleaved:
  "length (contents s k) \<le> cap
   \<Longrightarrow> contents (fold (\<lambda>(k', x). push k' x) kxs s) k
     = take cap (contents s k @ map snd (filter (\<lambda>(k', x). k' = k) kxs))"
proof (induction kxs arbitrary: s)
  case Nil
  then show ?case by simp
next
  case (Cons kx kxs)
  obtain k' x where kx: "kx = (k', x)" by force
  show ?case
  proof (cases "k' = k")
    case True
    have "length (contents (push k x s) k) \<le> cap"
      using Cons.prems by (simp add: push_same)
    from Cons.IH[OF this] Cons.prems True kx show ?thesis
      by (cases "length (contents s k) < cap") (simp_all add: push_same)
  next
    case False
    with Cons.prems Cons.IH[of "push k' x s"] kx show ?thesis by (simp add: push_other)
  qed
qed

end

end
