(* ===== verification/PeerManager.thy ===== *)
theory PeerManager
  imports Transport BoundedQueue
begin

text \<open>
  Peer bookkeeping of \<open>p2p/src/peer.rs\<close>: the table of connections and the per-peer queues of pending
  envelopes. \<open>Instant\<close> readings are real seconds and an argument of the operations that read the clock.
\<close>

section \<open>Definitions\<close>

definition MAX_IDLE_SECONDS :: real where "MAX_IDLE_SECONDS = 300"
definition MAX_PENDING_MESSAGES :: nat where "MAX_PENDING_MESSAGES = 100"

datatype PeerState = Connecting | Connected | Disconnected

record PeerInfo =
  pi_peer_id :: string
  pi_state :: PeerState
  connected_at :: real
  last_activity :: real
  messages_sent :: u64
  messages_received :: u64
  public_key :: "string option"

record PendingMessage =
  pm_envelope :: WireEnvelope
  queued_at :: real
  retry_count :: u32

record PeerManager =
  peers :: "(string, PeerInfo) hmap"
  pending :: "(string, PendingMessage list) hmap"
  max_peers :: nat

definition PeerInfo_new :: "real \<Rightarrow> string \<Rightarrow> PeerInfo" where
  "PeerInfo_new now peer_id =
     \<lparr>pi_peer_id = peer_id, pi_state = Connecting, connected_at = now, last_activity = now,
      messages_sent = 0, messages_received = 0, public_key = None\<rparr>"

definition is_idle :: "real \<Rightarrow> PeerInfo \<Rightarrow> bool" where
  "is_idle now p = (now - last_activity p > MAX_IDLE_SECONDS)"

definition mark_sent :: "real \<Rightarrow> PeerInfo \<Rightarrow> PeerInfo" where
  "mark_sent now p = p\<lparr>last_activity := now, messages_sent := messages_sent p + 1\<rparr>"

definition mark_received :: "real \<Rightarrow> PeerInfo \<Rightarrow> PeerInfo" where
  "mark_received now p = p\<lparr>last_activity := now, messages_received := messages_received p + 1\<rparr>"

definition PeerManager_new :: "nat \<Rightarrow> PeerManager" where
  "PeerManager_new n = \<lparr>peers = [], pending = [], max_peers = n\<rparr>"

definition add_peer :: "real \<Rightarrow> string \<Rightarrow> PeerManager \<Rightarrow> (P2pError, unit) result \<times> PeerManager" where
  "add_peer now peer_id m =
     (if hm_len (peers m) \<ge> max_peers m then
        (Inl (Peer (''max peers reached ('' @ show_nat (max_peers m) @ '')'')), m)
      else (Inr (), m\<lparr>peers := hm_insert peer_id (PeerInfo_new now peer_id) (peers m)\<rparr>))"

definition remove_peer :: "string \<Rightarrow> PeerManager \<Rightarrow> PeerManager" where
  "remove_peer peer_id m =
     m\<lparr>peers := hm_remove peer_id (peers m), pending := hm_remove peer_id (pending m)\<rparr>"

definition set_state :: "real \<Rightarrow> string \<Rightarrow> PeerState \<Rightarrow> PeerManager \<Rightarrow> PeerManager" where
  "set_state now peer_id st m =
     (case hm_get (peers m) peer_id of
        None \<Rightarrow> m
      | Some i \<Rightarrow> m\<lparr>peers := hm_insert peer_id (i\<lparr>pi_state := st, last_activity := now\<rparr>) (peers m)\<rparr>)"

definition set_public_key :: "string \<Rightarrow> string \<Rightarrow> PeerManager \<Rightarrow> PeerManager" where
  "set_public_key peer_id k m =
     (case hm_get (peers m) peer_id of
        None \<Rightarrow> m
      | Some i \<Rightarrow> m\<lparr>peers := hm_insert peer_id (i\<lparr>public_key := Some k\<rparr>) (peers m)\<rparr>)"

definition get_peer :: "string \<Rightarrow> PeerManager \<Rightarrow> PeerInfo option" where
  "get_peer peer_id m = hm_get (peers m) peer_id"

definition list_peers :: "PeerManager \<Rightarrow> PeerInfo list" where
  "list_peers m = filter (\<lambda>p. pi_state p = Connected) (map snd (peers m))"

definition queue_message ::
    "real \<Rightarrow> string \<Rightarrow> WireEnvelope \<Rightarrow> PeerManager \<Rightarrow> (P2pError, unit) result \<times> PeerManager" where
  "queue_message now peer_id env m =
     (let queue = (case hm_get (pending m) peer_id of None \<Rightarrow> [] | Some q \<Rightarrow> q)
      in if length queue \<ge> MAX_PENDING_MESSAGES then
           (Inl (Peer (''message queue full for peer '' @ peer_id)),
            m\<lparr>pending := hm_insert peer_id queue (pending m)\<rparr>)
         else
           (Inr (), m\<lparr>pending := hm_insert peer_id
               (queue @ [\<lparr>pm_envelope = env, queued_at = now, retry_count = 0\<rparr>]) (pending m)\<rparr>))"

definition drain_pending :: "string \<Rightarrow> PeerManager \<Rightarrow> PendingMessage list \<times> PeerManager" where
  "drain_pending peer_id m =
     (case hm_get (pending m) peer_id of
        None \<Rightarrow> ([], m)
      | Some q \<Rightarrow> (q, m\<lparr>pending := hm_insert peer_id [] (pending m)\<rparr>))"

definition is_connected :: "string \<Rightarrow> PeerManager \<Rightarrow> bool" where
  "is_connected peer_id m =
     (case hm_get (peers m) peer_id of None \<Rightarrow> False | Some p \<Rightarrow> pi_state p = Connected)"

definition connected_count :: "PeerManager \<Rightarrow> nat" where
  "connected_count m = length (filter (\<lambda>p. pi_state p = Connected) (map snd (peers m)))"

definition cleanup_idle :: "real \<Rightarrow> PeerManager \<Rightarrow> string list \<times> PeerManager" where
  "cleanup_idle now m =
     (let idle_ids = map fst (filter (\<lambda>(_, i). is_idle now i) (peers m))
      in (idle_ids, m\<lparr>peers := fold hm_remove idle_ids (peers m),
                     pending := fold hm_remove idle_ids (pending m)\<rparr>))"

section \<open>Invariant\<close>

definition pm_inv :: "PeerManager \<Rightarrow> bool" where
  "pm_inv m \<longleftrightarrow> hm_wf (peers m) \<and> hm_wf (pending m) \<and> hm_len (peers m) \<le> max_peers m
     \<and> (\<forall>k q. hm_get (pending m) k = Some q \<longrightarrow> length q \<le> MAX_PENDING_MESSAGES)
     \<and> (\<forall>k i. hm_get (peers m) k = Some i \<longrightarrow> pi_peer_id i = k)"

text \<open>One step of the manager: any of its state-changing operations, at any time.\<close>

inductive pm_step :: "PeerManager \<Rightarrow> PeerManager \<Rightarrow> bool" where
  add: "pm_step m (snd (add_peer now k m))"
| remove: "pm_step m (remove_peer k m)"
| state: "pm_step m (set_state now k st m)"
| key: "pm_step m (set_public_key k pk m)"
| queue: "pm_step m (snd (queue_message now k env m))"
| drain: "pm_step m (snd (drain_pending k m))"
| cleanup: "pm_step m (snd (cleanup_idle now m))"

inductive_cases pm_stepE: "pm_step m m'"

lemma pm_inv_new: "pm_inv (PeerManager_new n)"
  by (simp add: pm_inv_def PeerManager_new_def hm_len_def)

lemma pm_inv_step:
  assumes "pm_step m m'" "pm_inv m"
  shows "pm_inv m'"
  using assms
proof (cases rule: pm_step.cases)
  case (add now k)
  with assms(2) show ?thesis
    by (auto simp: pm_inv_def add_peer_def hm_len_insert PeerInfo_new_def)
next
  case (remove k)
  with assms(2) show ?thesis
    by (auto simp: pm_inv_def remove_peer_def intro: order_trans[OF hm_len_remove_le])
next
  case (state now k st)
  with assms(2) show ?thesis
    by (auto simp: pm_inv_def set_state_def hm_len_update split: option.splits)
next
  case (key k pk)
  with assms(2) show ?thesis
    by (auto simp: pm_inv_def set_public_key_def hm_len_update split: option.splits)
next
  case (queue now k env)
  with assms(2) show ?thesis
    by (auto simp: pm_inv_def queue_message_def Let_def intro: le_antisym split: option.splits if_splits)
next
  case (drain k)
  with assms(2) show ?thesis
    by (auto simp: pm_inv_def drain_pending_def split: option.splits)
next
  case (cleanup now)
  with assms(2) show ?thesis
    by (auto simp: pm_inv_def cleanup_idle_def Let_def intro: order_trans[OF hm_len_fold_remove_le])
qed

lemma pm_inv_reachable: "pm_step\<^sup>*\<^sup>* m m' \<Longrightarrow> pm_inv m \<Longrightarrow> pm_inv m'"
  by (induction rule: rtranclp_induct) (auto intro: pm_inv_step)

lemma max_peers_step: "pm_step m m' \<Longrightarrow> max_peers m' = max_peers m"
  by (elim pm_stepE)
    (simp_all add: add_peer_def remove_peer_def set_state_def set_public_key_def queue_message_def
      drain_pending_def cleanup_idle_def Let_def split: option.splits)

lemma max_peers_reachable: "pm_step\<^sup>*\<^sup>* m m' \<Longrightarrow> max_peers m' = max_peers m"
  by (induction rule: rtranclp_induct) (simp_all add: max_peers_step)

section \<open>The pending queues as bounded queues\<close>

definition queue_of :: "PeerManager \<Rightarrow> string \<Rightarrow> PendingMessage list" where
  "queue_of m k = (case hm_get (pending m) k of None \<Rightarrow> [] | Some q \<Rightarrow> q)"

definition push_pending :: "string \<Rightarrow> real \<times> WireEnvelope \<Rightarrow> PeerManager \<Rightarrow> PeerManager" where
  "push_pending k x m = snd (queue_message (fst x) k (snd x) m)"

definition queued :: "PeerManager \<Rightarrow> string \<Rightarrow> (real \<times> WireEnvelope) list" where
  "queued m k = map (\<lambda>p. (queued_at p, pm_envelope p)) (queue_of m k)"

interpretation pq: bounded_queues queued push_pending MAX_PENDING_MESSAGES
  by unfold_locales
    (auto simp: queued_def queue_of_def push_pending_def queue_message_def Let_def split: option.splits)

lemma drain_is_queue: "fst (drain_pending k m) = queue_of m k"
  by (simp add: drain_pending_def queue_of_def split: option.splits)

section \<open>Properties\<close>

text \<open>C40: In every state the peer manager can reach there are at most \<open>max_peers\<close> peers, at most 100
  messages are queued for any peer, and the table is keyed by the peers' own identifiers.\<close>

theorem peer_manager_bounds:
  assumes "pm_step\<^sup>*\<^sup>* (PeerManager_new n) m"
  shows "hm_len (peers m) \<le> n \<and> length (fst (drain_pending k m)) \<le> 100
       \<and> (\<forall>i. get_peer k m = Some i \<longrightarrow> pi_peer_id i = k)"
proof -
  have "pm_inv m" by (rule pm_inv_reachable[OF assms pm_inv_new])
  moreover have "max_peers m = n"
    using max_peers_reachable[OF assms] by (simp add: PeerManager_new_def)
  ultimately show ?thesis
    by (auto simp: pm_inv_def drain_pending_def get_peer_def MAX_PENDING_MESSAGES_def split: option.splits)
qed

theorem peer_manager_bounds_witness:
  "hm_len (peers (snd (add_peer 0 ''a'' (PeerManager_new 1)))) \<le> 1"
proof -
  have "pm_step\<^sup>*\<^sup>* (PeerManager_new 1) (snd (add_peer 0 ''a'' (PeerManager_new 1)))"
    by (rule r_into_rtranclp) (rule pm_step.add)
  from peer_manager_bounds[OF this, of "''a''"] show ?thesis by blast
qed

text \<open>With messages to many peers queued in any interleaving, draining a peer with an empty queue
  returns the first 100 of the envelopes addressed to it, in order, with their time stamps, and leaves
  the queue empty.\<close>

theorem drain_pending_fifo:
  assumes "fst (drain_pending k m) = []"
  shows "map (\<lambda>p. (queued_at p, pm_envelope p))
           (fst (drain_pending k (fold (\<lambda>(k', x). push_pending k' x) kxs m)))
         = take 100 (map snd (filter (\<lambda>(k', x). k' = k) kxs))
       \<and> fst (drain_pending k (snd (drain_pending k (fold (\<lambda>(k', x). push_pending k' x) kxs m)))) = []"
proof -
  have "queued m k = []" using assms by (simp add: drain_is_queue queued_def)
  then have "queued (fold (\<lambda>(k', x). push_pending k' x) kxs m) k
      = take 100 (map snd (filter (\<lambda>(k', x). k' = k) kxs))"
    using pq.push_interleaved[of m k kxs] by (simp add: MAX_PENDING_MESSAGES_def)
  moreover have "fst (drain_pending k (snd (drain_pending k m'))) = []" for m'
    by (simp add: drain_pending_def split: option.splits)
  ultimately show ?thesis by (simp add: drain_is_queue queued_def)
qed

theorem drain_pending_fifo_witness:
  "map (\<lambda>p. (queued_at p, pm_envelope p))
     (fst (drain_pending ''a'' (fold (\<lambda>(k', x). push_pending k' x)
        [(''a'', (1, build_p2p_ping [] 1)), (''b'', (2, build_p2p_ping [] 2)), (''a'', (3, build_p2p_pong [] 3))]
        (PeerManager_new 5))))
   = [(1, build_p2p_ping [] 1), (3, build_p2p_pong [] 3)]"
proof -
  have e: "fst (drain_pending ''a'' (PeerManager_new 5)) = []"
    by (simp add: drain_pending_def PeerManager_new_def)
  show ?thesis
    using drain_pending_fifo[OF e, of "[(''a'', (1, build_p2p_ping [] 1)), (''b'', (2, build_p2p_ping [] 2)), (''a'', (3, build_p2p_pong [] 3))]"]
    by simp
qed

end
