(* ===== verification/PinCache.thy ===== *)
theory PinCache
  imports Prelude
begin

text \<open>
  The trust-on-first-use pin files of \<open>dht-core/src/pin_cache.rs\<close>. A pin file is \<open>None\<close> when it is
  missing, unreadable or not a JSON object, and otherwise the map it holds. Writes report no error in
  the code; their outcome is an argument: the new content is on disk, the file was not opened and keeps
  its content, or it was truncated and the content is lost.
\<close>

section \<open>Definitions\<close>

type_synonym pin_file = "(string, json) hmap option"

datatype write_outcome = Written | Kept | Lost

definition pin_cache_load :: "pin_file \<Rightarrow> (string, json) hmap" where
  "pin_cache_load f = (case f of None \<Rightarrow> [] | Some m \<Rightarrow> m)"

definition pin_cache_save :: "write_outcome \<Rightarrow> (string, json) hmap \<Rightarrow> pin_file \<Rightarrow> pin_file" where
  "pin_cache_save w m f = (case w of Written \<Rightarrow> Some m | Kept \<Rightarrow> f | Lost \<Rightarrow> None)"

definition pinned_address :: "json \<Rightarrow> string option" where
  "pinned_address v = Option.bind (json_get v ''address'') as_str"

definition pin_get :: "string \<Rightarrow> pin_file \<Rightarrow> json option" where
  "pin_get null_id f = hm_get (pin_cache_load f) null_id"

definition pin_update :: "write_outcome \<Rightarrow> real \<Rightarrow> string \<Rightarrow> string \<Rightarrow> string \<Rightarrow> pin_file \<Rightarrow> pin_file" where
  "pin_update w now null_id address fingerprint f =
     (let cache = pin_cache_load f
      in case hm_get cache null_id of
           None \<Rightarrow>
             pin_cache_save w
               (hm_insert null_id
                  (JObject [(''address'', JString address), (''fp'', JString fingerprint),
                            (''first_seen'', JFloat now), (''last_verified'', JFloat now)]) cache) f
         | Some obj \<Rightarrow>
             if pinned_address obj = Some address then
               (let updated = (case obj of JObject kvs \<Rightarrow> JObject (AList.update ''last_verified'' (JFloat now) kvs) | _ \<Rightarrow> obj)
                in pin_cache_save w (hm_insert null_id updated cache) f)
             else f)"

definition pin_verify_address :: "string \<Rightarrow> string \<Rightarrow> pin_file \<Rightarrow> bool" where
  "pin_verify_address null_id address f =
     (case pin_get null_id f of None \<Rightarrow> True | Some obj \<Rightarrow> pinned_address obj = Some address)"

definition bootstrap_pin_check ::
    "write_outcome \<Rightarrow> real \<Rightarrow> string \<Rightarrow> string \<Rightarrow> string \<Rightarrow> string \<Rightarrow> pin_file \<Rightarrow> bool \<times> pin_file" where
  "bootstrap_pin_check w now seed_url cert_fp not_before not_after f =
     (let cache = pin_cache_load f
      in case hm_get cache seed_url of
           Some existing \<Rightarrow>
             (let pinned_fp = (case Option.bind (json_get existing ''fp'') as_str of None \<Rightarrow> [] | Some s \<Rightarrow> s)
              in (pinned_fp = cert_fp, f))
         | None \<Rightarrow>
             (True, pin_cache_save w
                (hm_insert seed_url
                   (JObject [(''fp'', JString cert_fp), (''not_before'', JString not_before), (''not_after'', JString not_after),
                             (''first_seen'', JFloat now), (''last_verified'', JFloat now)]) cache) f))"

section \<open>Lemmas\<close>

definition addr_of :: "pin_file \<Rightarrow> string \<Rightarrow> string option" where
  "addr_of f nid = Option.bind (pin_get nid f) pinned_address"

lemma pin_file_simps [simp]:
  "pin_cache_load None = []" "pin_cache_load (Some m) = m"
  "pin_cache_save Written m f = Some m" "pin_cache_save Kept m f = f" "pin_cache_save Lost m f = None"
  by (simp_all add: pin_cache_load_def pin_cache_save_def)

lemma pinned_address_refresh:
  "pinned_address (JObject (AList.update ''last_verified'' v kvs)) = pinned_address (JObject kvs)"
  by (simp add: pinned_address_def json_get_def update_conv')

lemma pinned_address_object: "pinned_address v = Some a \<Longrightarrow> \<exists>kvs. v = JObject kvs"
  by (cases v) (simp_all add: pinned_address_def json_get_def)

lemma pin_update_keeps:
  assumes "addr_of f nid = Some a" "w \<noteq> Lost"
  shows "addr_of (pin_update w now nid' a' fp f) nid = Some a"
proof -
  obtain obj where obj: "hm_get (pin_cache_load f) nid = Some obj" "pinned_address obj = Some a"
    using assms(1) by (auto simp: addr_of_def pin_get_def bind_eq_Some_conv)
  obtain kvs where kvs: "obj = JObject kvs" using pinned_address_object[OF obj(2)] by blast
  show ?thesis
  proof (cases w)
    case Lost
    with assms(2) show ?thesis by simp
  next
    case Kept
    then show ?thesis using assms(1) by (simp add: pin_update_def Let_def split: option.splits)
  next
    case Written
    with assms(1) obj kvs show ?thesis
      by (cases "nid' = nid")
        (auto simp: pin_update_def Let_def addr_of_def pin_get_def pinned_address_refresh bind_eq_Some_conv split: option.splits)
  qed
qed

section \<open>Properties\<close>

text \<open>Address pinning is trust on first use: once an address is pinned for an identifier, no later
  sequence of updates, for any identifiers and addresses, changes it or makes another address verify,
  as long as no write truncates the file.\<close>

theorem pin_update_tofu:
  assumes "addr_of f nid = Some a" "\<forall>(w, now, nid', a', fp) \<in> set us. w \<noteq> Lost"
  shows "pin_verify_address nid b (fold (\<lambda>(w, now, nid', a', fp). pin_update w now nid' a' fp) us f) \<longleftrightarrow> b = a"
proof -
  have "addr_of (fold (\<lambda>(w, now, nid', a', fp). pin_update w now nid' a' fp) us f) nid = Some a"
    using assms
  proof (induction us arbitrary: f)
    case (Cons u us)
    obtain w now nid' a' fp where "u = (w, now, nid', a', fp)" by (cases u) auto
    with Cons pin_update_keeps[of f nid a w now nid' a' fp] show ?case by simp
  qed simp
  then show ?thesis
    by (auto simp: pin_verify_address_def addr_of_def bind_eq_Some_conv split: option.splits)
qed

theorem pin_update_tofu_witness:
  "\<not> pin_verify_address ''NN'' ''evil'' (fold (\<lambda>(w, now, nid', a', fp). pin_update w now nid' a' fp)
       [(Written, 2, ''NN'', ''evil'', ''f'')] (pin_update Written 1 ''NN'' ''home'' ''f'' None))"
proof -
  have "addr_of (pin_update Written 1 ''NN'' ''home'' ''f'' None) ''NN'' = Some ''home''"
    by (simp add: addr_of_def pin_get_def pin_update_def pinned_address_def json_get_def)
  from pin_update_tofu[OF this, of "[(Written, 2, ''NN'', ''evil'', ''f'')]" "''evil''"] show ?thesis by simp
qed

text \<open>A write that truncates the file and fails forgets every pin silently: the next update of an
  identifier pins whatever address it is given.\<close>

lemma pin_lost_after_truncated_write:
  "pin_verify_address nid b (pin_update Written now' nid b fp' (pin_update Lost now nid a fp f))
   \<longleftrightarrow> hm_get (pin_cache_load f) nid = None \<or> addr_of f nid = Some a \<or> addr_of f nid = Some b"
proof (cases "hm_get (pin_cache_load f) nid")
  case None
  then show ?thesis
    by (simp add: pin_update_def pin_verify_address_def pin_get_def pinned_address_def json_get_def)
next
  case (Some obj)
  then have a: "addr_of f nid = pinned_address obj" by (simp add: addr_of_def pin_get_def)
  show ?thesis
  proof (cases "pinned_address obj = Some a")
    case True
    with Some a show ?thesis
      by (simp add: pin_update_def pin_verify_address_def pin_get_def pinned_address_def json_get_def Let_def)
  next
    case False
    note nota = this
    show ?thesis
    proof (cases "pinned_address obj = Some b")
      case True
      then obtain kvs where "obj = JObject kvs" using pinned_address_object by blast
      with True nota Some a show ?thesis
        by (simp add: pin_update_def pin_verify_address_def pin_get_def Let_def pinned_address_refresh)
    next
      case False
      with nota Some a show ?thesis
        by (simp add: pin_update_def pin_verify_address_def pin_get_def Let_def)
    qed
  qed
qed

end
