(* ===== verification/CryptoHelpers.thy ===== *)
theory CryptoHelpers
  imports Prelude
begin

text \<open>
  Identities and signatures of the DHT: \<open>dht-core/src/crypto_helpers.rs\<close> (verifying-key cache,
  fingerprints, null identifiers, signature checks), the ML-DSA wrappers of
  \<open>crypto-pq/src/signature.rs\<close> and the verifying-key fingerprint of \<open>crypto-pq/src/lib.rs\<close>.

  The primitives are third-party and fields of the argument of type \<open>crypto\<close>: Base64, SHA-256,
  HMAC-SHA-256, Blake2b with 16 bytes of output, and ML-DSA-87. \<open>Instant\<close> readings are reals.
\<close>

section \<open>Definitions\<close>

record ('vk, 'sg) crypto =
  b64_decode :: "string \<Rightarrow> bytes option"
  b64_encode :: "bytes \<Rightarrow> string"
  sha256 :: "bytes \<Rightarrow> bytes"
  hmac_sha256 :: "bytes \<Rightarrow> bytes \<Rightarrow> bytes"
  blake2b16 :: "bytes \<Rightarrow> bytes"
  encoded_sig :: "bytes \<Rightarrow> bytes option"
  sig_decode :: "bytes \<Rightarrow> 'sg option"
  dsa_verify :: "'vk \<Rightarrow> bytes \<Rightarrow> 'sg \<Rightarrow> bool"
  vk_to_bytes :: "'vk \<Rightarrow> bytes"
  vk_from_slice :: "bytes \<Rightarrow> 'vk option"

type_synonym 'vk vk_cache = "(string, 'vk \<times> real) hmap option"

definition CERT_CACHE_MAX_ENTRIES :: nat where "CERT_CACHE_MAX_ENTRIES = 1000"

text \<open>The entry with the smallest access time; a tie goes to the first in iteration order.\<close>

fun min_by_time :: "(string \<times> ('vk \<times> real)) list \<Rightarrow> (string \<times> real) option" where
  "min_by_time [] = None"
| "min_by_time ((k, (_, t)) # es) =
     (case min_by_time es of
        None \<Rightarrow> Some (k, t)
      | Some (k', t') \<Rightarrow> if t \<le> t' then Some (k, t) else Some (k', t'))"

definition evict_lru :: "(string, 'vk \<times> real) hmap \<Rightarrow> (string, 'vk \<times> real) hmap" where
  "evict_lru cache =
     (if hm_len cache > CERT_CACHE_MAX_ENTRIES then
        (case min_by_time cache of None \<Rightarrow> cache | Some (k, _) \<Rightarrow> hm_remove k cache)
      else cache)"

definition cache_map :: "'vk vk_cache \<Rightarrow> (string, 'vk \<times> real) hmap" where
  "cache_map g = (case g of None \<Rightarrow> [] | Some m \<Rightarrow> m)"

definition cache_verifying_key :: "real \<Rightarrow> string \<Rightarrow> 'vk \<Rightarrow> 'vk vk_cache \<Rightarrow> 'vk vk_cache" where
  "cache_verifying_key now fingerprint vk guard =
     Some (evict_lru (hm_insert (to_uppercase fingerprint) (vk, now) (cache_map guard)))"

definition pin_verifying_key ::
    "('vk, 'sg) crypto \<Rightarrow> real \<Rightarrow> string \<Rightarrow> 'vk \<Rightarrow> 'vk vk_cache \<Rightarrow> (string, bool) result \<times> 'vk vk_cache" where
  "pin_verifying_key cr now fingerprint vk guard =
     (let key = to_uppercase fingerprint; cache = cache_map guard
      in case hm_get cache key of
           Some (existing, t) \<Rightarrow>
             if existing = vk then (Inr True, Some (hm_insert key (existing, now) cache))
             else
               (Inl (''SECURITY: fingerprint '' @ key @ '' already bound to a different verifying key (existing=''
                      @ take 16 (b64_encode cr (vk_to_bytes cr existing)) @ ''.., rejected=''
                      @ take 16 (b64_encode cr (vk_to_bytes cr vk)) @ ''..). Identity substitution blocked.''),
                Some cache)
         | None \<Rightarrow> (Inr True, Some (evict_lru (hm_insert key (vk, now) cache))))"

definition get_cached_verifying_key :: "real \<Rightarrow> string \<Rightarrow> 'vk vk_cache \<Rightarrow> 'vk option \<times> 'vk vk_cache" where
  "get_cached_verifying_key now fingerprint guard =
     (case guard of
        None \<Rightarrow> (None, guard)
      | Some cache \<Rightarrow>
          (case hm_get cache (to_uppercase fingerprint) of
             None \<Rightarrow> (None, guard)
           | Some (vk, _) \<Rightarrow> (Some vk, Some (hm_insert (to_uppercase fingerprint) (vk, now) cache))))"

definition validate_fingerprint :: "string \<Rightarrow> bool" where
  "validate_fingerprint fp =
     (if length fp \<noteq> 32 \<and> length fp \<noteq> 40 then False else list_all is_ascii_hexdigit fp)"

definition validate_null_id :: "string \<Rightarrow> bool" where
  "validate_null_id nid0 =
     (let nid = (case strip_prefix ''addr:'' nid0 of Some s \<Rightarrow> s | None \<Rightarrow> nid0);
          parts = split_on (CHR ''-'') nid
      in if length parts \<noteq> 9 \<or> parts ! 0 \<noteq> ''NN'' then False
         else list_all (\<lambda>p. length p = 4 \<and> list_all is_ascii_hexdigit p) (drop 1 parts))"

definition hex_digit :: "nat \<Rightarrow> char" where
  "hex_digit d = char_of (if d < 10 then 48 + d else 87 + d)"

definition hex_byte :: "u8 \<Rightarrow> string" where
  "hex_byte b = [hex_digit (unat b div 16), hex_digit (unat b mod 16)]"

definition hex_encode :: "bytes \<Rightarrow> string" where
  "hex_encode bs = concat (map hex_byte bs)"

definition compute_null_id :: "('vk, 'sg) crypto \<Rightarrow> string \<Rightarrow> string" where
  "compute_null_id cr fingerprint =
     (let hex = hex_encode (blake2b16 cr (str_bytes fingerprint))
      in ''NN-'' @ join_with ''-'' (chunks_of 4 hex))"

definition constant_time_compare :: "('vk, 'sg) crypto \<Rightarrow> string \<Rightarrow> string \<Rightarrow> bool" where
  "constant_time_compare cr a b =
     (hmac_sha256 cr (str_bytes ''constant-time-compare'') (str_bytes a)
      = hmac_sha256 cr (str_bytes ''constant-time-compare'') (str_bytes b))"

definition validate_null_id_strict :: "('vk, 'sg) crypto \<Rightarrow> string \<Rightarrow> string \<Rightarrow> bool" where
  "validate_null_id_strict cr nid fingerprint =
     (if \<not> validate_null_id nid then False
      else if \<not> validate_fingerprint fingerprint then False
      else constant_time_compare cr (compute_null_id cr fingerprint) nid)"

text \<open>The ML-DSA wrapper wraps the verdict in \<open>Ok\<close>: it returns \<open>Ok(false)\<close> for a bad signature and
  never an error.\<close>

definition pq_verify :: "('vk, 'sg) crypto \<Rightarrow> bytes \<Rightarrow> 'sg \<Rightarrow> 'vk \<Rightarrow> (string, bool) result" where
  "pq_verify cr data sg vk = Inr (dsa_verify cr vk data sg)"

definition is_ok :: "('e, 'a) result \<Rightarrow> bool" where
  "is_ok r = (case r of Inl _ \<Rightarrow> False | Inr _ \<Rightarrow> True)"

definition verify_signature_with_verifying_key :: "('vk, 'sg) crypto \<Rightarrow> string \<Rightarrow> string \<Rightarrow> 'vk \<Rightarrow> bool" where
  "verify_signature_with_verifying_key cr data b64_sig vk =
     (case b64_decode cr b64_sig of None \<Rightarrow> False | Some sig_bytes \<Rightarrow>
      case encoded_sig cr sig_bytes of None \<Rightarrow> False | Some enc \<Rightarrow>
      case sig_decode cr enc of None \<Rightarrow> False | Some sg \<Rightarrow>
        is_ok (pq_verify cr (str_bytes data) sg vk))"

definition verify_signature ::
    "('vk, 'sg) crypto \<Rightarrow> real \<Rightarrow> string \<Rightarrow> string \<Rightarrow> string \<Rightarrow> 'vk vk_cache \<Rightarrow> bool \<times> 'vk vk_cache" where
  "verify_signature cr now data b64_sig fingerprint guard =
     (if \<not> validate_fingerprint fingerprint then (False, guard)
      else case b64_decode cr b64_sig of None \<Rightarrow> (False, guard) | Some sig_bytes \<Rightarrow>
        case get_cached_verifying_key now fingerprint guard of
          (None, guard1) \<Rightarrow> (False, guard1)
        | (Some vk, guard1) \<Rightarrow>
            (case encoded_sig cr sig_bytes of None \<Rightarrow> (False, guard1) | Some enc \<Rightarrow>
             case sig_decode cr enc of None \<Rightarrow> (False, guard1) | Some sg \<Rightarrow>
               (is_ok (pq_verify cr (str_bytes data) sg vk), guard1)))"

definition fingerprint_from_verifying_key :: "('vk, 'sg) crypto \<Rightarrow> 'vk \<Rightarrow> string" where
  "fingerprint_from_verifying_key cr vk = b64_encode cr (take 8 (sha256 cr (vk_to_bytes cr vk)))"

section \<open>Lemmas\<close>

subsection \<open>Null identifiers\<close>

lemma hex_digit_is_hexdigit: "d < 16 \<Longrightarrow> is_ascii_hexdigit (hex_digit d)"
  by (auto simp: is_ascii_hexdigit_def hex_digit_def Let_def)

lemma length_hex_encode [simp]: "length (hex_encode bs) = 2 * length bs"
  by (induction bs) (simp_all add: hex_encode_def hex_byte_def)

lemma hex_encode_hexdigits: "list_all is_ascii_hexdigit (hex_encode bs)"
proof -
  have "unat b div 16 < 16" for b :: u8
    using unat_bound[of b] by (simp add: div_less_iff_less_mult)
  then show ?thesis
    by (induction bs) (simp_all add: hex_encode_def hex_byte_def hex_digit_is_hexdigit)
qed

lemma hex_digit_inj: "a < 16 \<Longrightarrow> b < 16 \<Longrightarrow> hex_digit a = hex_digit b \<Longrightarrow> a = b"
proof -
  assume lt: "a < 16" "b < 16" and eq: "hex_digit a = hex_digit b"
  have "of_char (hex_digit a) = (if a < 10 then 48 + a else 87 + a)" "of_char (hex_digit b) = (if b < 10 then 48 + b else 87 + b)"
    using lt by (simp_all add: hex_digit_def)
  then have "(if a < 10 then 48 + a else 87 + a) = (if b < 10 then 48 + b else 87 + b)" by (simp only: eq)
  with lt show "a = b" by (simp split: if_splits)
qed

lemma hex_byte_inj: "hex_byte a = hex_byte b \<Longrightarrow> a = b"
proof -
  assume "hex_byte a = hex_byte b"
  moreover have "unat c div 16 < 16" for c :: u8 using unat_bound[of c] by (simp add: div_less_iff_less_mult)
  ultimately have "unat a div 16 = unat b div 16" "unat a mod 16 = unat b mod 16"
    by (auto simp: hex_byte_def intro: hex_digit_inj)
  then have "unat a = unat b" by (metis div_mult_mod_eq)
  then show "a = b" by (rule word_unat_eq_iff[THEN iffD2])
qed

lemma hex_encode_inj: "hex_encode xs = hex_encode ys \<Longrightarrow> xs = ys"
proof (induction xs arbitrary: ys)
  case Nil
  then show ?case by (cases ys) (simp_all add: hex_encode_def hex_byte_def)
next
  case (Cons x xs)
  then obtain y ys' where ys: "ys = y # ys'" by (cases ys) (simp_all add: hex_encode_def hex_byte_def)
  with Cons.prems have "hex_byte x = hex_byte y" "hex_encode xs = hex_encode ys'"
    by (simp_all add: hex_encode_def hex_byte_def)
  then show ?case using Cons.IH ys hex_byte_inj by blast
qed

lemma hexdigit_not_dash: "is_ascii_hexdigit c \<Longrightarrow> c \<noteq> CHR ''-''"
  by (auto simp: is_ascii_hexdigit_def)

lemma chunks_of_elem_subset: "0 < n \<Longrightarrow> c \<in> set (chunks_of n xs) \<Longrightarrow> set c \<subseteq> set xs"
  by (metis concat_chunks_of set_concat UN_upper)

lemma chunks_of_exact:
  assumes "0 < n" "length xs = k * n" "c \<in> set (chunks_of n xs)"
  shows "length c = n"
proof -
  have "(k * n + n - 1) div n = k"
    using assms(1) by (intro div_nat_eqI) (simp_all add: algebra_simps)
  then have len: "length (chunks_of n xs) = k" using assms(1,2) by (simp add: length_chunks_of)
  obtain i where i: "i < k" "c = chunks_of n xs ! i" using assms(3) len by (metis in_set_conv_nth)
  have "n + i * n \<le> k * n" using i(1) by (metis Suc_leI mult_Suc mult_le_mono1)
  then show ?thesis using i nth_chunks_of[OF assms(1), of i xs] len assms(2) by simp
qed

lemma compute_null_id_parts:
  assumes "length (blake2b16 cr (str_bytes fp)) = 16"
  shows "split_on (CHR ''-'') (compute_null_id cr fp)
       = ''NN'' # chunks_of 4 (hex_encode (blake2b16 cr (str_bytes fp)))"
proof -
  let ?hex = "hex_encode (blake2b16 cr (str_bytes fp))"
  have "0 < length ?hex" using assms by simp
  then have "?hex \<noteq> []" by (rule length_greater_0_conv[THEN iffD1])
  then have ne: "chunks_of 4 ?hex \<noteq> []" by (simp add: chunks_of_step)
  have nd: "\<forall>p \<in> set (chunks_of 4 ?hex). CHR ''-'' \<notin> set p"
  proof
    fix p assume "p \<in> set (chunks_of 4 ?hex)"
    then have "set p \<subseteq> set ?hex" by (rule chunks_of_elem_subset[rotated]) simp
    then show "CHR ''-'' \<notin> set p"
      using hex_encode_hexdigits[of "blake2b16 cr (str_bytes fp)"] hexdigit_not_dash by (auto simp: list_all_iff)
  qed
  have "compute_null_id cr fp = join_with ''-'' (''NN'' # chunks_of 4 ?hex)"
    using ne by (simp add: compute_null_id_def Let_def join_with_Cons)
  then show ?thesis using split_on_join[of "''NN'' # chunks_of 4 ?hex" "CHR ''-''"] nd by simp
qed

lemma compute_null_id_groups:
  assumes "length (blake2b16 cr (str_bytes fp)) = 16"
  shows "length (split_on (CHR ''-'') (compute_null_id cr fp)) = 9"
    and "list_all (\<lambda>p. length p = 4 \<and> list_all is_ascii_hexdigit p) (drop 1 (split_on (CHR ''-'') (compute_null_id cr fp)))"
proof -
  let ?hex = "hex_encode (blake2b16 cr (str_bytes fp))"
  have len: "length ?hex = 8 * 4" using assms by simp
  show "length (split_on (CHR ''-'') (compute_null_id cr fp)) = 9"
    using len by (simp add: compute_null_id_parts[OF assms] length_chunks_of)
  have "length p = 4 \<and> list_all is_ascii_hexdigit p" if "p \<in> set (chunks_of 4 ?hex)" for p
    using chunks_of_exact[OF _ len that] chunks_of_elem_subset[OF _ that] hex_encode_hexdigits[of "blake2b16 cr (str_bytes fp)"]
    by (auto simp: list_all_iff)
  then show "list_all (\<lambda>p. length p = 4 \<and> list_all is_ascii_hexdigit p) (drop 1 (split_on (CHR ''-'') (compute_null_id cr fp)))"
    by (simp add: compute_null_id_parts[OF assms] list_all_iff)
qed

lemma compute_null_id_length:
  assumes "length (blake2b16 cr (str_bytes fp)) = 16"
  shows "length (compute_null_id cr fp) = 42"
proof -
  obtain ps where ps: "split_on (CHR ''-'') (compute_null_id cr fp) = ''NN'' # ps"
    using compute_null_id_parts[OF assms] by blast
  have "length ps = 8" "\<forall>p \<in> set ps. length p = 4"
    using compute_null_id_groups[OF assms] by (simp_all add: ps list_all_iff)
  then have "sum_list (map length ps) = 32" by (simp add: sum_list_triv cong: map_cong)
  with \<open>length ps = 8\<close> show ?thesis using length_split_on[of "CHR ''-''" "compute_null_id cr fp"] by (simp add: ps)
qed

lemma compute_null_id_no_addr: "strip_prefix ''addr:'' (compute_null_id cr fp) = None"
  by (simp add: strip_prefix_def compute_null_id_def Let_def)

subsection \<open>The verifying-key cache\<close>

definition cache_inv :: "'vk vk_cache \<Rightarrow> bool" where
  "cache_inv g \<longleftrightarrow> hm_wf (cache_map g) \<and> hm_len (cache_map g) \<le> CERT_CACHE_MAX_ENTRIES"

lemma cache_map_simps [simp]: "cache_map None = []" "cache_map (Some m) = m"
  by (simp_all add: cache_map_def)

lemma min_by_time_key: "min_by_time es = Some (k, t) \<Longrightarrow> \<exists>vk. (k, (vk, t)) \<in> set es"
  by (induction es arbitrary: k t rule: min_by_time.induct) (auto split: option.splits if_splits)

lemma min_by_time_None: "min_by_time es = None \<Longrightarrow> es = []"
  by (induction es rule: min_by_time.induct) (auto split: option.splits if_splits)

lemma min_by_time_least: "min_by_time es = Some (k, t) \<Longrightarrow> (k', (vk', t')) \<in> set es \<Longrightarrow> t \<le> t'"
proof (induction es arbitrary: k t rule: min_by_time.induct)
  case (2 k0 vk0 t0 es)
  show ?case
  proof (cases "min_by_time es")
    case None
    with 2 min_by_time_None[OF None] show ?thesis by simp
  next
    case (Some kt)
    obtain k1 t1 where kt: "kt = (k1, t1)" by force
    have "t1 \<le> t'" if "(k', (vk', t')) \<in> set es"
      using "2.IH"[OF Some[unfolded kt] that] .
    with 2 Some kt show ?thesis by (auto split: if_splits)
  qed
qed simp

lemma evict_lru_inv:
  assumes "hm_wf m" "hm_len m \<le> Suc CERT_CACHE_MAX_ENTRIES"
  shows "hm_wf (evict_lru m) \<and> hm_len (evict_lru m) \<le> CERT_CACHE_MAX_ENTRIES"
proof (cases "min_by_time m")
  case None
  from min_by_time_None[OF this] show ?thesis by (simp add: evict_lru_def)
next
  case (Some kt)
  obtain k t where kt: "kt = (k, t)" by force
  obtain vk where "(k, (vk, t)) \<in> set m" using min_by_time_key Some kt by blast
  then have "hm_contains m k" by (force simp: hm_contains_iff hm_keys_def)
  with assms Some kt show ?thesis by (auto simp: evict_lru_def hm_len_remove)
qed

lemma evict_lru_get: "hm_get (evict_lru m) k = Some v \<Longrightarrow> hm_get m k = Some v"
  by (auto simp: evict_lru_def split: if_splits option.splits)

lemma cache_inv_insert:
  assumes "cache_inv g"
  shows "cache_inv (Some (evict_lru (hm_insert k v (cache_map g))))"
  using evict_lru_inv[of "hm_insert k v (cache_map g)"] assms by (simp add: cache_inv_def hm_len_insert)

lemma cache_inv_cache: "cache_inv g \<Longrightarrow> cache_inv (cache_verifying_key now fp vk g)"
  by (simp add: cache_verifying_key_def cache_inv_insert)

lemma cache_inv_pin: "cache_inv g \<Longrightarrow> cache_inv (snd (pin_verifying_key cr now fp vk g))"
  using cache_inv_insert[of g "to_uppercase fp" "(vk, now)"]
  by (auto simp: pin_verifying_key_def Let_def cache_inv_def hm_len_update split: option.splits)

lemma cache_inv_get: "cache_inv g \<Longrightarrow> cache_inv (snd (get_cached_verifying_key now fp g))"
  by (auto simp: get_cached_verifying_key_def cache_inv_def hm_len_update split: option.splits)

lemma fst_get_cached: "fst (get_cached_verifying_key now fp g) = map_option fst (hm_get (cache_map g) (to_uppercase fp))"
  by (auto simp: get_cached_verifying_key_def split: option.splits)

inductive cache_reach :: "('vk, 'sg) crypto \<Rightarrow> 'vk vk_cache \<Rightarrow> bool" for cr where
  init: "cache_reach cr None"
| cached: "cache_reach cr g \<Longrightarrow> cache_reach cr (cache_verifying_key now fp vk g)"
| pinned: "cache_reach cr g \<Longrightarrow> cache_reach cr (snd (pin_verifying_key cr now fp vk g))"
| lookup: "cache_reach cr g \<Longrightarrow> cache_reach cr (snd (get_cached_verifying_key now fp g))"

lemma cache_reach_inv: "cache_reach cr g \<Longrightarrow> cache_inv g"
  by (induction rule: cache_reach.induct)
    (simp_all add: cache_inv_cache cache_inv_pin cache_inv_get, simp add: cache_inv_def)

text \<open>A small instance of the primitives, for evaluating the definitions.\<close>

definition toy_crypto :: "(nat, nat) crypto" where
  "toy_crypto =
     \<lparr>b64_decode = \<lambda>s. Some (str_bytes s), b64_encode = bytes_str, sha256 = \<lambda>b. take 32 (b @ replicate 32 0),
      hmac_sha256 = \<lambda>k d. d, blake2b16 = \<lambda>b. take 16 (b @ replicate 16 0), encoded_sig = Some,
      sig_decode = \<lambda>b. Some (length b), dsa_verify = \<lambda>vk d s. False, vk_to_bytes = \<lambda>n. replicate n 1,
      vk_from_slice = \<lambda>b. Some (length b)\<rparr>"

section \<open>Properties\<close>

text \<open>Every null identifier derived from a fingerprint has the accepted format, whatever the hash
  returns, as long as it returns 16 bytes.\<close>

theorem compute_null_id_valid:
  assumes "length (blake2b16 cr (str_bytes fp)) = 16"
  shows "validate_null_id (compute_null_id cr fp) \<and> validate_null_id (''addr:'' @ compute_null_id cr fp)"
proof -
  note g = compute_null_id_groups[OF assms] compute_null_id_parts[OF assms]
  have "strip_prefix ''addr:'' (''addr:'' @ compute_null_id cr fp) = Some (compute_null_id cr fp)"
    by (simp add: strip_prefix_def)
  with g show ?thesis
    by (simp add: validate_null_id_def Let_def compute_null_id_no_addr)
qed

theorem compute_null_id_valid_witness:
  "validate_null_id (compute_null_id toy_crypto ''ab'')"
  using compute_null_id_valid[of toy_crypto "''ab''"] by (simp add: toy_crypto_def)

text \<open>The verifying-key cache never holds more than 1000 keys, whatever is cached, pinned or looked up.\<close>

theorem vk_cache_bounded:
  assumes "cache_reach cr g"
  shows "hm_len (cache_map g) \<le> 1000"
  using cache_reach_inv[OF assms] by (simp add: cache_inv_def CERT_CACHE_MAX_ENTRIES_def)

theorem vk_cache_bounded_witness:
  "hm_len (cache_map (cache_verifying_key 1 ''ab'' (5 :: nat) None)) \<le> 1000"
  by (rule vk_cache_bounded[of toy_crypto, OF cache_reach.cached[OF cache_reach.init]])

text \<open>Pinning is trust on first use: while a fingerprint is bound to a key, pinning another key under
  it (in any letter case) is an error and changes no binding, and pinning the same key succeeds and keeps
  it; lookups return the bound key.\<close>

theorem pin_verifying_key_tofu:
  assumes "fst (get_cached_verifying_key now fp g) = Some vk"
  shows "(\<forall>vk' fp' fp''. to_uppercase fp' = to_uppercase fp \<and> vk' \<noteq> vk \<longrightarrow>
            (\<exists>e. fst (pin_verifying_key cr now' fp' vk' g) = Inl e)
          \<and> fst (get_cached_verifying_key now'' fp'' (snd (pin_verifying_key cr now' fp' vk' g)))
            = fst (get_cached_verifying_key now'' fp'' g))
       \<and> fst (pin_verifying_key cr now' fp vk g) = Inr True
       \<and> fst (get_cached_verifying_key now'' fp (snd (pin_verifying_key cr now' fp vk g))) = Some vk"
proof -
  obtain t where "hm_get (cache_map g) (to_uppercase fp) = Some (vk, t)"
    using assms by (auto simp: fst_get_cached)
  then show ?thesis
    by (auto simp: fst_get_cached pin_verifying_key_def Let_def)
qed

theorem pin_verifying_key_tofu_witness:
  "fst (get_cached_verifying_key 3 ''ab'' (snd (pin_verifying_key toy_crypto 2 ''AB'' 6
          (snd (pin_verifying_key toy_crypto 1 ''ab'' 5 None))))) = Some 5"
proof -
  have a: "fst (get_cached_verifying_key 1 ''ab'' (snd (pin_verifying_key toy_crypto 1 ''ab'' 5 None))) = Some 5"
    by (simp add: fst_get_cached pin_verifying_key_def evict_lru_def CERT_CACHE_MAX_ENTRIES_def hm_len_insert Let_def)
  have u: "to_uppercase ''AB'' = to_uppercase ''ab''" by code_simp
  from pin_verifying_key_tofu[OF a, of toy_crypto 2 3] u a show ?thesis by (simp add: fst_get_cached)
qed

text \<open>C4: The signature check accepts every well-formed signature. It tests whether the verifier returned
  a result instead of testing the verdict in the result, so a signature that decodes is accepted for any
  data and any key, even when the signature scheme rejects it.\<close>

theorem signature_check_accepts_forgery:
  assumes "b64_decode cr b64_sig = Some bs" "encoded_sig cr bs = Some enc" "sig_decode cr enc = Some sg"
  shows "verify_signature_with_verifying_key cr data b64_sig vk
       \<and> (validate_fingerprint fp \<and> fst (get_cached_verifying_key now fp g) \<noteq> None
            \<longrightarrow> fst (verify_signature cr now data b64_sig fp g))"
  using assms
  by (auto simp: verify_signature_with_verifying_key_def verify_signature_def pq_verify_def is_ok_def
      split: option.splits prod.splits)

theorem signature_check_accepts_forgery_witness:
  "\<not> dsa_verify toy_crypto 3 (str_bytes ''data'') 6 \<and> verify_signature_with_verifying_key toy_crypto ''data'' ''forged'' 3"
  using signature_check_accepts_forgery[of toy_crypto "''forged''" "str_bytes ''forged''" "str_bytes ''forged''" 6 "''data''" 3]
  by (simp add: toy_crypto_def)

end
