(* ===== verification/DoubleRatchet.thy ===== *)
theory DoubleRatchet
  imports CryptoHelpers
begin

text \<open>
  The symmetric double ratchet of \<open>crypto/src/lib.rs\<close>: session set-up, encryption, decryption with
  skipped keys, and the identifier checks of that crate.

  HKDF, AES-256-GCM, ML-KEM-1024, Base64, UTF-8 decoding and Blake2b are third-party and fields of the
  argument \<open>prims\<close>; nonces and encapsulation randomness are arguments. \<open>pick\<close> gives the first key of the
  hash map's iteration order.
\<close>

section \<open>Definitions\<close>

datatype CryptoError =
    CryptoInvalidFingerprint string
  | EncryptFailed string
  | DecryptFailed string
  | CryptoSerialization string
  | Ratchet string
  | KeyPersistence string
  | CryptoPir string
  | HardwareError string
  | CryptoIo string
  | DerivationFailed string

record ('ek, 'dk) prims =
  hkdf :: "bytes \<Rightarrow> string \<Rightarrow> nat \<Rightarrow> bytes"
  aes_encrypt :: "bytes \<Rightarrow> bytes \<Rightarrow> bytes \<Rightarrow> (string, bytes) result"
  aes_decrypt :: "bytes \<Rightarrow> bytes \<Rightarrow> bytes \<Rightarrow> (string, bytes) result"
  b64_enc :: "bytes \<Rightarrow> string"
  b64_dec :: "string \<Rightarrow> (string, bytes) result"
  utf8 :: "bytes \<Rightarrow> (string, string) result"
  encapsulate :: "'ek \<Rightarrow> bytes \<Rightarrow> (string, bytes \<times> bytes) result"
  parse_ct :: "bytes \<Rightarrow> (string, bytes) result"
  decapsulate :: "'dk \<Rightarrow> bytes \<Rightarrow> (string, bytes) result"
  blake16 :: "bytes \<Rightarrow> bytes"

definition NONCE_SIZE :: nat where "NONCE_SIZE = 12"
definition MAX_SKIPPED_KEYS :: nat where "MAX_SKIPPED_KEYS = 1024"
definition MAX_SKIP_AHEAD :: nat where "MAX_SKIP_AHEAD = 1024"

record RatchetState =
  peer_fp :: string
  peer_nid :: string
  our_fp :: string
  is_initiator :: bool
  self_mode :: bool
  root_key :: bytes
  send_chain_key :: bytes
  recv_chain_key :: bytes
  send_message_number :: u64
  recv_message_number :: u64
  skipped_keys :: "(string, bytes) hmap"

type_synonym pick = "(string, bytes) hmap \<Rightarrow> string option"

definition new_with_mode ::
    "('ek, 'dk) prims \<Rightarrow> string \<Rightarrow> string \<Rightarrow> string \<Rightarrow> bool \<Rightarrow> bool \<Rightarrow> bytes \<Rightarrow> (CryptoError, RatchetState) result" where
  "new_with_mode P pfp pnid ofp initiator self shared_secret =
     (if length shared_secret < 32 then Inl (Ratchet ''shared_secret must be at least 32 bytes'')
      else
        let root = hkdf P shared_secret ''add-double-ratchet-v1-root'' 32;
            chain_keys = hkdf P shared_secret ''add-double-ratchet-v1-chains'' 64;
            (send_ck, recv_ck) = (if initiator then (take 32 chain_keys, drop 32 chain_keys)
                                  else (drop 32 chain_keys, take 32 chain_keys));
            recv_ck1 = (if self then send_ck else recv_ck)
        in Inr \<lparr>peer_fp = pfp, peer_nid = pnid, our_fp = ofp, is_initiator = initiator, self_mode = self,
                root_key = root, send_chain_key = send_ck, recv_chain_key = recv_ck1,
                send_message_number = 0, recv_message_number = 0, skipped_keys = []\<rparr>)"

definition session_new ::
    "('ek, 'dk) prims \<Rightarrow> string \<Rightarrow> string \<Rightarrow> string \<Rightarrow> bool \<Rightarrow> bytes \<Rightarrow> (CryptoError, RatchetState) result" where
  "session_new P pfp pnid ofp initiator shared_secret = new_with_mode P pfp pnid ofp initiator False shared_secret"

definition session_new_self ::
    "('ek, 'dk) prims \<Rightarrow> string \<Rightarrow> string \<Rightarrow> string \<Rightarrow> bytes \<Rightarrow> (CryptoError, RatchetState) result" where
  "session_new_self P pfp pnid ofp shared_secret = new_with_mode P pfp pnid ofp True True shared_secret"

definition derive_message_key :: "('ek, 'dk) prims \<Rightarrow> bytes \<Rightarrow> bytes \<times> bytes" where
  "derive_message_key P chain_key =
     (let output = hkdf P chain_key ''add-double-ratchet-v1-step'' 64 in (take 32 output, drop 32 output))"

definition prune_skipped_keys :: "pick \<Rightarrow> RatchetState \<Rightarrow> RatchetState" where
  "prune_skipped_keys pk st =
     (if hm_len (skipped_keys st) > MAX_SKIPPED_KEYS then
        (case pk (skipped_keys st) of
           None \<Rightarrow> st | Some k \<Rightarrow> st\<lparr>skipped_keys := hm_remove k (skipped_keys st)\<rparr>)
      else st)"

definition advance_send :: "bytes \<Rightarrow> RatchetState \<Rightarrow> RatchetState" where
  "advance_send new_ck st =
     (let st1 = st\<lparr>send_chain_key := new_ck\<rparr>
      in if self_mode st then st1\<lparr>recv_chain_key := new_ck\<rparr> else st1)"

definition advance_recv :: "bytes \<Rightarrow> RatchetState \<Rightarrow> RatchetState" where
  "advance_recv new_ck st = (if \<not> self_mode st then st\<lparr>recv_chain_key := new_ck\<rparr> else st)"

definition encrypt_first ::
    "('ek, 'dk) prims \<Rightarrow> bytes \<Rightarrow> string \<Rightarrow> RatchetState \<Rightarrow> (CryptoError, bytes) result \<times> RatchetState" where
  "encrypt_first P nonce plaintext st =
     (case derive_message_key P (send_chain_key st) of (msg_key, new_ck) \<Rightarrow>
        let st1 = advance_send new_ck st
        in case aes_encrypt P msg_key nonce (str_bytes plaintext) of
             Inl e \<Rightarrow> (Inl (EncryptFailed (''AES-GCM: '' @ e)), st1)
           | Inr ct \<Rightarrow> (Inr (nonce @ ct), st1\<lparr>send_message_number := send_message_number st1 + 1\<rparr>))"

definition u16_be :: "nat \<Rightarrow> bytes" where
  "u16_be n = be_bytes 2 (n mod 65536)"

definition encrypt_message ::
    "('ek, 'dk) prims \<Rightarrow> bytes \<Rightarrow> bytes \<Rightarrow> string \<Rightarrow> 'ek \<Rightarrow> RatchetState
     \<Rightarrow> (CryptoError, bytes) result \<times> RatchetState" where
  "encrypt_message P rnd nonce plaintext ek st =
     (case encapsulate P ek rnd of
        Inl e \<Rightarrow> (Inl (EncryptFailed (''kyber encapsulate: '' @ e)), st)
      | Inr (kyber_ct, kyber_ss) \<Rightarrow>
          (case derive_message_key P (send_chain_key st @ kyber_ss) of (msg_key, new_ck) \<Rightarrow>
             let st1 = advance_send new_ck st
             in case aes_encrypt P msg_key nonce (str_bytes plaintext) of
                  Inl e \<Rightarrow> (Inl (EncryptFailed (''AES-GCM: '' @ e)), st1)
                | Inr ct \<Rightarrow>
                    (Inr (nonce @ ct @ kyber_ct @ u16_be (length kyber_ct)),
                     st1\<lparr>send_message_number := send_message_number st1 + 1\<rparr>)))"

function skip_loop :: "('ek, 'dk) prims \<Rightarrow> pick \<Rightarrow> u64 \<Rightarrow> RatchetState \<Rightarrow> RatchetState" where
  "skip_loop P pk seq st =
     (if recv_message_number st < seq then
        (case derive_message_key P (recv_chain_key st) of (mk, new_ck) \<Rightarrow>
           let st1 = advance_recv new_ck st;
               st2 = st1\<lparr>skipped_keys := hm_insert (show_nat (unat (recv_message_number st1))) mk (skipped_keys st1)\<rparr>;
               st3 = prune_skipped_keys pk st2
           in skip_loop P pk seq (st3\<lparr>recv_message_number := recv_message_number st3 + 1\<rparr>))
      else st)"
  by pat_completeness auto
termination
  by (relation "measure (\<lambda>(P, pk, seq, st). unat seq - unat (recv_message_number st))")
    (auto simp: prune_skipped_keys_def advance_recv_def succ_no_wrap word_less_nat_alt split: option.splits)

declare skip_loop.simps [simp del]

definition simple_decrypt ::
    "('ek, 'dk) prims \<Rightarrow> pick \<Rightarrow> bytes \<Rightarrow> bytes \<Rightarrow> u64 \<Rightarrow> RatchetState
     \<Rightarrow> (CryptoError, bytes) result \<times> RatchetState" where
  "simple_decrypt P pk nonce body seq st =
     (if unat seq - unat (recv_message_number st) > MAX_SKIP_AHEAD then
        (Inl (DecryptFailed ''seq gap too large''), st)
      else
        let st1 = skip_loop P pk seq st
        in case derive_message_key P (recv_chain_key st1) of (msg_key, new_ck) \<Rightarrow>
             let st2 = advance_recv new_ck st1
             in case aes_decrypt P msg_key nonce body of
                  Inl e \<Rightarrow> (Inl (DecryptFailed (''AES-GCM: '' @ e)), st2)
                | Inr pt \<Rightarrow>
                    (Inr pt, prune_skipped_keys pk
                       (st2\<lparr>recv_message_number := recv_message_number st2 + 1,
                            skipped_keys := hm_insert (show_nat (unat seq)) msg_key (skipped_keys st2)\<rparr>)))"

definition kyber_decrypt ::
    "('ek, 'dk) prims \<Rightarrow> pick \<Rightarrow> 'dk \<Rightarrow> bytes \<Rightarrow> bytes \<Rightarrow> bytes \<Rightarrow> u64 \<Rightarrow> RatchetState
     \<Rightarrow> (CryptoError, bytes) result \<times> RatchetState" where
  "kyber_decrypt P pk dk nonce aes_ct kyber_ct_bytes seq st =
     (case parse_ct P kyber_ct_bytes of
        Inl e \<Rightarrow> (Inl (DecryptFailed (''kyber parse: '' @ e)), st)
      | Inr kyber_ct \<Rightarrow>
          (case decapsulate P dk kyber_ct of
             Inl e \<Rightarrow> (Inl (DecryptFailed (''kyber dec: '' @ e)), st)
           | Inr kyber_ss \<Rightarrow>
               (case derive_message_key P (recv_chain_key st @ kyber_ss) of (msg_key, new_ck) \<Rightarrow>
                  let st1 = advance_recv new_ck st
                  in case aes_decrypt P msg_key nonce aes_ct of
                       Inl e \<Rightarrow> (Inl (DecryptFailed (''AES-GCM: '' @ e)), st1)
                     | Inr pt \<Rightarrow>
                         (Inr pt, prune_skipped_keys pk
                            (st1\<lparr>recv_message_number := recv_message_number st1 + 1,
                                 skipped_keys := hm_insert (show_nat (unat seq)) msg_key (skipped_keys st1)\<rparr>)))))"

definition to_utf8 ::
    "('ek, 'dk) prims \<Rightarrow> (CryptoError, bytes) result \<times> RatchetState \<Rightarrow> (CryptoError, string) result \<times> RatchetState" where
  "to_utf8 P r =
     (case r of
        (Inl e, st) \<Rightarrow> (Inl e, st)
      | (Inr pt, st) \<Rightarrow> (case utf8 P pt of Inl e \<Rightarrow> (Inl (DecryptFailed (''utf8: '' @ e)), st) | Inr s \<Rightarrow> (Inr s, st)))"

definition decrypt_message ::
    "('ek, 'dk) prims \<Rightarrow> pick \<Rightarrow> string \<Rightarrow> 'dk \<Rightarrow> u64 \<Rightarrow> RatchetState
     \<Rightarrow> (CryptoError, string) result \<times> RatchetState" where
  "decrypt_message P pk ciphertext_b64 dk seq st =
     (case b64_dec P ciphertext_b64 of
        Inl e \<Rightarrow> (Inl (DecryptFailed (''base64 decode: '' @ e)), st)
      | Inr raw \<Rightarrow>
          if length raw < NONCE_SIZE + 16 + 2 then (Inl (DecryptFailed ''ciphertext too short''), st)
          else
            let nonce = take NONCE_SIZE raw; body = drop NONCE_SIZE raw
            in case hm_get (skipped_keys st) (show_nat (unat seq)) of
                 Some stored \<Rightarrow>
                   (case aes_decrypt P stored nonce body of
                      Inl e \<Rightarrow> (Inl (DecryptFailed (''AES-GCM (skipped): '' @ e)), st)
                    | Inr pt \<Rightarrow>
                        to_utf8 P (Inr pt, st\<lparr>recv_message_number := max (recv_message_number st) (seq + 1)\<rparr>))
               | None \<Rightarrow>
                   to_utf8 P
                     (if length body > 2 then
                        (let kyber_len = be_value (drop (length body - 2) body)
                         in if kyber_len > 0 \<and> kyber_len + 2 \<le> length body then
                              (let aes_ct_end = length body - 2 - kyber_len
                               in kyber_decrypt P pk dk nonce (take aes_ct_end body)
                                    (slice aes_ct_end (length body - 2) body) seq st)
                            else simple_decrypt P pk nonce body seq st)
                      else simple_decrypt P pk nonce body seq st))"

definition decrypt_first ::
    "('ek, 'dk) prims \<Rightarrow> pick \<Rightarrow> string \<Rightarrow> RatchetState \<Rightarrow> (CryptoError, string) result \<times> RatchetState" where
  "decrypt_first P pk ciphertext_b64 st =
     (case b64_dec P ciphertext_b64 of
        Inl e \<Rightarrow> (Inl (DecryptFailed (''base64 decode: '' @ e)), st)
      | Inr raw \<Rightarrow>
          if length raw < NONCE_SIZE + 16 then (Inl (DecryptFailed ''ciphertext too short''), st)
          else to_utf8 P (simple_decrypt P pk (take NONCE_SIZE raw) (drop NONCE_SIZE raw) 0 st))"

subsection \<open>Identifiers\<close>

definition crypto_validate_fingerprint :: "string \<Rightarrow> (CryptoError, unit) result" where
  "crypto_validate_fingerprint fp =
     (let cleaned = to_uppercase (filter (\<lambda>c. c \<noteq> CHR '' '') fp)
      in if \<not> (32 \<le> length cleaned \<and> length cleaned \<le> 40) then
           Inl (CryptoInvalidFingerprint ''fingerprint must be 32-40 hex chars'')
         else if \<not> list_all is_ascii_hexdigit cleaned then
           Inl (CryptoInvalidFingerprint ''fingerprint contains non-hex characters'')
         else Inr ())"

definition crypto_validate_null_id :: "string \<Rightarrow> (CryptoError, unit) result" where
  "crypto_validate_null_id nid =
     (let parts = split_on (CHR ''-'') nid
      in if length parts \<noteq> 3 \<or> parts ! 0 \<noteq> ''NN'' \<or> length (parts ! 1) \<noteq> 8 \<or> length (parts ! 2) \<noteq> 8 then
           Inl (CryptoInvalidFingerprint ''null ID must be NN-{8hex}-{8hex} format'')
         else Inr ())"

definition null_id :: "('ek, 'dk) prims \<Rightarrow> string \<Rightarrow> string" where
  "null_id P fingerprint =
     (let hex = hex_encode (blake16 P (str_bytes fingerprint))
      in ''NN-'' @ take 8 hex @ ''-'' @ slice 8 16 hex)"

definition crypto_validate_null_id_strict :: "('ek, 'dk) prims \<Rightarrow> string \<Rightarrow> string \<Rightarrow> (CryptoError, unit) result" where
  "crypto_validate_null_id_strict P nid fingerprint =
     (case crypto_validate_null_id nid of Inl e \<Rightarrow> Inl e | Inr _ \<Rightarrow>
      case crypto_validate_fingerprint fingerprint of Inl e \<Rightarrow> Inl e | Inr _ \<Rightarrow>
        if nid \<noteq> null_id P fingerprint then
          Inl (CryptoInvalidFingerprint (''null ID '' @ nid @ '' does not match fingerprint-derived ID '' @ null_id P fingerprint))
        else Inr ())"

section \<open>Lemmas\<close>

subsection \<open>The table of skipped keys is bounded\<close>

definition pick_ok :: "pick \<Rightarrow> bool" where
  "pick_ok pk \<longleftrightarrow> (\<forall>m. m \<noteq> [] \<longrightarrow> (\<exists>k. pk m = Some k \<and> hm_contains m k))"

definition sk_inv :: "RatchetState \<Rightarrow> bool" where
  "sk_inv st \<longleftrightarrow> hm_wf (skipped_keys st) \<and> hm_len (skipped_keys st) \<le> MAX_SKIPPED_KEYS"

lemma sk_inv_update [simp]:
  "sk_inv (st\<lparr>recv_message_number := n\<rparr>) = sk_inv st" "sk_inv (st\<lparr>recv_chain_key := c\<rparr>) = sk_inv st"
  "sk_inv (advance_recv c st) = sk_inv st"
  by (simp_all add: sk_inv_def advance_recv_def)

lemma prune_sk_inv:
  assumes "pick_ok pk" "sk_inv st"
  shows "sk_inv (prune_skipped_keys pk (st\<lparr>skipped_keys := hm_insert k v (skipped_keys st)\<rparr>))"
proof -
  let ?m = "hm_insert k v (skipped_keys st)"
  have wf: "hm_wf ?m" and len: "hm_len ?m \<le> Suc MAX_SKIPPED_KEYS"
    using assms(2) by (simp_all add: sk_inv_def hm_len_insert)
  have "?m \<noteq> []" using hm_get_insert[of k v "skipped_keys st" k] by (metis hm_get_Nil option.distinct(1))
  then obtain k' where "pk ?m = Some k'" "hm_contains ?m k'" using assms(1) unfolding pick_ok_def by blast
  with wf len show ?thesis
    by (auto simp: prune_skipped_keys_def sk_inv_def hm_len_remove)
qed

lemma skip_loop_sk_inv: "pick_ok pk \<Longrightarrow> sk_inv st \<Longrightarrow> sk_inv (skip_loop P pk seq st)"
proof (induction P pk seq st rule: skip_loop.induct)
  case (1 P pk seq st)
  show ?case
  proof (cases "recv_message_number st < seq")
    case False
    with "1.prems" show ?thesis by (subst skip_loop.simps) simp
  next
    case True
    obtain mk ck where d: "derive_message_key P (recv_chain_key st) = (mk, ck)" by force
    have "sk_inv (advance_recv ck st)" using "1.prems"(2) by simp
    from prune_sk_inv[OF "1.prems"(1) this] show ?thesis
      using "1.IH"[OF True d[symmetric] refl refl refl "1.prems"(1)] d True
      by (subst skip_loop.simps) (simp add: Let_def)
  qed
qed

lemma prune_two_sk_inv:
  assumes "pick_ok pk" "sk_inv st"
  shows "sk_inv (prune_skipped_keys pk (st\<lparr>recv_message_number := n, skipped_keys := hm_insert k v (skipped_keys st)\<rparr>))"
  using prune_sk_inv[OF assms(1), of "st\<lparr>recv_message_number := n\<rparr>" k v] assms(2) by simp

lemma simple_decrypt_sk_inv:
  assumes "pick_ok pk" "sk_inv st"
  shows "sk_inv (snd (simple_decrypt P pk nonce body seq st))"
proof -
  note sk = skip_loop_sk_inv[OF assms, of P seq]
  show ?thesis
    unfolding simple_decrypt_def Let_def
    using sk assms(2) prune_two_sk_inv[OF assms(1), of "advance_recv _ (skip_loop P pk seq st)"]
    by (auto split: prod.splits sum.splits)
qed

lemma kyber_decrypt_sk_inv:
  assumes "pick_ok pk" "sk_inv st"
  shows "sk_inv (snd (kyber_decrypt P pk dk nonce ct kct seq st))"
  unfolding kyber_decrypt_def Let_def
  using assms(2) prune_two_sk_inv[OF assms(1), of "advance_recv _ st"]
  by (auto split: prod.splits sum.splits)

lemma snd_to_utf8 [simp]: "snd (to_utf8 P r) = snd r"
  by (auto simp: to_utf8_def split: prod.splits sum.splits)

lemma decrypt_message_sk_inv:
  assumes "pick_ok pk" "sk_inv st"
  shows "sk_inv (snd (decrypt_message P pk c dk seq st))"
  using assms by (auto simp: decrypt_message_def Let_def simple_decrypt_sk_inv kyber_decrypt_sk_inv split: sum.splits option.splits)

lemma decrypt_first_sk_inv:
  assumes "pick_ok pk" "sk_inv st"
  shows "sk_inv (snd (decrypt_first P pk c st))"
  using assms by (auto simp: decrypt_first_def simple_decrypt_sk_inv split: sum.splits)

lemma encrypt_sk_inv:
  "sk_inv st \<Longrightarrow> sk_inv (snd (encrypt_first P nonce pt st))"
  "sk_inv st \<Longrightarrow> sk_inv (snd (encrypt_message P rnd nonce pt ek st))"
  by (auto simp: sk_inv_def encrypt_first_def encrypt_message_def advance_send_def Let_def
      split: prod.splits sum.splits)

subsection \<open>Two synchronised sessions\<close>

text \<open>The laws of the primitives that the sessions rely on: decryption inverts encryption and the
  ciphertext carries a 16-byte tag, the holder of the decapsulation key recovers the shared secret, the
  KEM ciphertext is not empty and its length fits in 16 bits, Base64 and UTF-8 invert their encoders.\<close>

definition prims_ok :: "('ek, 'dk) prims \<Rightarrow> 'ek \<Rightarrow> 'dk \<Rightarrow> bool" where
  "prims_ok P ek dk \<longleftrightarrow>
     (\<forall>k n p c. aes_encrypt P k n p = Inr c \<longrightarrow> aes_decrypt P k n c = Inr p \<and> length c = length p + 16)
   \<and> (\<forall>r ct ss. encapsulate P ek r = Inr (ct, ss) \<longrightarrow>
        parse_ct P ct = Inr ct \<and> decapsulate P dk ct = Inr ss \<and> 0 < length ct \<and> length ct < 65536)
   \<and> (\<forall>b. b64_dec P (b64_enc P b) = Inr b) \<and> (\<forall>t. utf8 P (str_bytes t) = Inr t)"

lemma prims_okD:
  assumes "prims_ok P ek dk"
  shows "aes_encrypt P k n p = Inr c \<Longrightarrow> aes_decrypt P k n c = Inr p"
    "aes_encrypt P k n p = Inr c \<Longrightarrow> length c = length p + 16"
    "encapsulate P ek r = Inr (ct, ss) \<Longrightarrow> parse_ct P ct = Inr ct"
    "encapsulate P ek r = Inr (ct, ss) \<Longrightarrow> decapsulate P dk ct = Inr ss"
    "encapsulate P ek r = Inr (ct, ss) \<Longrightarrow> 0 < length ct"
    "encapsulate P ek r = Inr (ct, ss) \<Longrightarrow> length ct < 65536"
    "b64_dec P (b64_enc P b) = Inr b" "utf8 P (str_bytes t) = Inr t"
  using assms unfolding prims_ok_def by blast+

definition in_sync :: "nat \<Rightarrow> RatchetState \<Rightarrow> RatchetState \<Rightarrow> bool" where
  "in_sync n S R \<longleftrightarrow> \<not> self_mode S \<and> \<not> self_mode R \<and> send_chain_key S = recv_chain_key R
     \<and> unat (recv_message_number R) = n \<and> (\<forall>k. hm_contains (skipped_keys R) k \<longrightarrow> (\<exists>i < n. k = show_nat i))"

lemma prune_simps [simp]:
  "self_mode (prune_skipped_keys pk st) = self_mode st" "recv_chain_key (prune_skipped_keys pk st) = recv_chain_key st"
  "recv_message_number (prune_skipped_keys pk st) = recv_message_number st"
  by (simp_all add: prune_skipped_keys_def split: option.splits)

lemma prune_contains: "hm_contains (skipped_keys (prune_skipped_keys pk st)) k \<Longrightarrow> hm_contains (skipped_keys st) k"
  by (auto simp: prune_skipped_keys_def hm_contains_def split: option.splits if_splits)

lemma in_sync_step:
  assumes "in_sync n S R" "Suc n < 2 ^ 64" "self_mode S' = False" "send_chain_key S' = ck"
  shows "in_sync (Suc n) S' (prune_skipped_keys pk ((advance_recv ck R)\<lparr>recv_message_number := recv_message_number (advance_recv ck R) + 1,
           skipped_keys := hm_insert (show_nat n) mk (skipped_keys (advance_recv ck R))\<rparr>))"
proof -
  have n: "unat (recv_message_number R) = n" and sf: "\<not> self_mode R" using assms(1) by (simp_all add: in_sync_def)
  have "unat (recv_message_number R + 1) = Suc n"
    using assms(2) n by (simp add: unat_word_ariths)
  moreover have "\<exists>i < Suc n. k = show_nat i"
    if "hm_contains (hm_insert (show_nat n) mk (skipped_keys R)) k" for k
    using that assms(1) by (auto simp: in_sync_def hm_contains_def less_Suc_eq split: if_splits)
  ultimately show ?thesis
    using assms(3,4) sf by (auto simp: in_sync_def advance_recv_def dest!: prune_contains)
qed

lemma skipped_none: "in_sync n S R \<Longrightarrow> hm_get (skipped_keys R) (show_nat n) = None"
  by (auto simp: in_sync_def hm_contains_def dest: show_nat_inj)

lemma u16_tail:
  assumes "k < 65536"
  shows "be_value (drop (length (ct @ kct @ u16_be k) - 2) (ct @ kct @ u16_be k)) = k"
proof -
  have "length (u16_be k) = 2" by (simp add: u16_be_def)
  then have "drop (length (ct @ kct @ u16_be k) - 2) (ct @ kct @ u16_be k) = u16_be k" by simp
  then show ?thesis using assms by (simp add: u16_be_def be_value_be_bytes)
qed

text \<open>The first message.\<close>

lemma first_roundtrip:
  assumes P: "prims_ok P ek dk" and "in_sync 0 S R" "length nonce = NONCE_SIZE"
    and "encrypt_first P nonce pt S = (Inr c, S')"
  shows "\<exists>R'. decrypt_first P pk (b64_enc P c) R = (Inr pt, R') \<and> in_sync 1 S' R'"
proof -
  obtain mk ck where d: "derive_message_key P (send_chain_key S) = (mk, ck)" by force
  obtain ct where ct: "aes_encrypt P mk nonce (str_bytes pt) = Inr ct" and c: "c = nonce @ ct"
    and S': "S' = (advance_send ck S)\<lparr>send_message_number := send_message_number (advance_send ck S) + 1\<rparr>"
    using assms(4) d by (auto simp: encrypt_first_def Let_def split: sum.splits)
  have sync: "self_mode S = False" "self_mode R = False" "recv_chain_key R = send_chain_key S" "recv_message_number R = 0"
    using assms(2) by (auto simp: in_sync_def unat_eq_zero)
  have loop: "skip_loop P pk 0 R = R" using sync(4) by (subst skip_loop.simps) simp
  let ?R = "prune_skipped_keys pk ((advance_recv ck R)\<lparr>recv_message_number := recv_message_number (advance_recv ck R) + 1,
           skipped_keys := hm_insert (show_nat 0) mk (skipped_keys (advance_recv ck R))\<rparr>)"
  have "simple_decrypt P pk nonce ct 0 R = (Inr (str_bytes pt), ?R)"
    using prims_okD(1)[OF P ct] d sync loop by (simp add: simple_decrypt_def Let_def)
  then have "decrypt_first P pk (b64_enc P c) R = (Inr pt, ?R)"
    using prims_okD(2)[OF P ct] assms(3) by (simp add: decrypt_first_def prims_okD(7,8)[OF P] c to_utf8_def)
  moreover have "in_sync (Suc 0) S' ?R"
    using assms(2) by (rule in_sync_step) (simp_all add: S' advance_send_def sync)
  ultimately show ?thesis by auto
qed

text \<open>A later message.\<close>

lemma message_roundtrip:
  assumes P: "prims_ok P ek dk" and "in_sync n S R" "Suc n < 2 ^ 64" "length nonce = NONCE_SIZE"
    and "encrypt_message P rnd nonce pt ek S = (Inr c, S')"
  shows "\<exists>R' kct kss. decrypt_message P pk (b64_enc P c) dk (word_of_nat n) R = (Inr pt, R') \<and> in_sync (Suc n) S' R'
    \<and> encapsulate P ek rnd = Inr (kct, kss) \<and> (hm_len (skipped_keys R) < MAX_SKIPPED_KEYS \<longrightarrow>
      hm_get (skipped_keys R') (show_nat n) = Some (fst (derive_message_key P (send_chain_key S @ kss))))"
proof -
  obtain kct kss where e: "encapsulate P ek rnd = Inr (kct, kss)"
    using assms(5) by (auto simp: encrypt_message_def split: sum.splits)
  obtain mk ck where d: "derive_message_key P (send_chain_key S @ kss) = (mk, ck)" by force
  obtain ct where ct: "aes_encrypt P mk nonce (str_bytes pt) = Inr ct" and c: "c = nonce @ ct @ kct @ u16_be (length kct)"
    and S': "S' = (advance_send ck S)\<lparr>send_message_number := send_message_number (advance_send ck S) + 1\<rparr>"
    using assms(5) e d by (auto simp: encrypt_message_def Let_def split: sum.splits)
  have sync: "self_mode S = False" "self_mode R = False" "recv_chain_key R = send_chain_key S"
    using assms(2) by (auto simp: in_sync_def)
  have un: "unat (word_of_nat n :: u64) = n" using assms(3) by (simp add: unat_of_nat)
  let ?body = "ct @ kct @ u16_be (length kct)"
  let ?R = "prune_skipped_keys pk ((advance_recv ck R)\<lparr>recv_message_number := recv_message_number (advance_recv ck R) + 1,
           skipped_keys := hm_insert (show_nat n) mk (skipped_keys (advance_recv ck R))\<rparr>)"
  have l2: "length (u16_be (length kct)) = 2" by (simp add: u16_be_def)
  have tail: "be_value (drop (length ?body - 2) ?body) = length kct" by (rule u16_tail[OF prims_okD(6)[OF P e]])
  have parts: "take (length ?body - 2 - length kct) ?body = ct"
    "slice (length ?body - 2 - length kct) (length ?body - 2) ?body = kct"
    using l2 by (simp_all add: slice_def)
  have "kyber_decrypt P pk dk nonce ct kct (word_of_nat n) R = (Inr (str_bytes pt), ?R)"
    using prims_okD(1)[OF P ct] prims_okD(3,4)[OF P e] d sync un by (simp add: kyber_decrypt_def Let_def)
  moreover have "take NONCE_SIZE c = nonce" "drop NONCE_SIZE c = ?body" "\<not> length c < NONCE_SIZE + 16 + 2"
    using assms(4) c l2 prims_okD(2)[OF P ct] by simp_all
  moreover have "2 < length ?body" "0 < length kct" "length kct + 2 \<le> length ?body"
    using l2 prims_okD(2)[OF P ct] prims_okD(5)[OF P e] by simp_all
  ultimately have "decrypt_message P pk (b64_enc P c) dk (word_of_nat n) R = (Inr pt, ?R)"
    unfolding decrypt_message_def Let_def prims_okD(7)[OF P] un skipped_none[OF assms(2)] sum.case option.case
    by (simp only: tail parts if_True if_False simp_thms to_utf8_def prod.case sum.case prims_okD(8)[OF P])
  moreover have "in_sync (Suc n) S' ?R"
    using assms(2,3) by (rule in_sync_step) (simp_all add: S' advance_send_def sync)
  moreover have "hm_get (skipped_keys ?R) (show_nat n) = Some mk" if "hm_len (skipped_keys R) < MAX_SKIPPED_KEYS"
    using hm_len_insert_le[of "show_nat n" mk "skipped_keys R"] that by (simp add: prune_skipped_keys_def advance_recv_def)
  ultimately show ?thesis using d e by (metis fst_conv)
qed

text \<open>A run of messages, each with its randomness, nonce and text.\<close>

fun send_all ::
    "('ek, 'dk) prims \<Rightarrow> 'ek \<Rightarrow> (bytes \<times> bytes \<times> string) list \<Rightarrow> RatchetState \<Rightarrow> bytes list option" where
  "send_all P ek [] S = Some []"
| "send_all P ek ((rnd, nonce, pt) # ms) S =
     (case encrypt_message P rnd nonce pt ek S of
        (Inl e, _) \<Rightarrow> None
      | (Inr c, S') \<Rightarrow> map_option ((#) c) (send_all P ek ms S'))"

fun recv_all ::
    "('ek, 'dk) prims \<Rightarrow> pick \<Rightarrow> 'dk \<Rightarrow> nat \<Rightarrow> bytes list \<Rightarrow> RatchetState \<Rightarrow> string list option" where
  "recv_all P pk dk n [] R = Some []"
| "recv_all P pk dk n (c # cs) R =
     (case decrypt_message P pk (b64_enc P c) dk (word_of_nat n) R of
        (Inl e, _) \<Rightarrow> None
      | (Inr pt, R') \<Rightarrow> map_option ((#) pt) (recv_all P pk dk (Suc n) cs R'))"

lemma run_roundtrip:
  assumes P: "prims_ok P ek dk"
  shows "in_sync n S R \<Longrightarrow> n + length ms < 2 ^ 64 \<Longrightarrow> \<forall>(r, nonce, pt) \<in> set ms. length nonce = NONCE_SIZE
    \<Longrightarrow> send_all P ek ms S = Some cs \<Longrightarrow> recv_all P pk dk n cs R = Some (map (snd \<circ> snd) ms)"
proof (induction ms arbitrary: n S R cs)
  case Nil
  then show ?case by simp
next
  case (Cons m ms)
  obtain rnd nonce pt where m: "m = (rnd, nonce, pt)" by (cases m) auto
  obtain c S' cs' where enc: "encrypt_message P rnd nonce pt ek S = (Inr c, S')" and cs: "cs = c # cs'"
    and rest: "send_all P ek ms S' = Some cs'"
    using Cons.prems(4) m by (auto split: prod.splits sum.splits)
  have "length nonce = NONCE_SIZE" "Suc n < 2 ^ 64" using Cons.prems(2,3) m by auto
  then obtain R' where R': "decrypt_message P pk (b64_enc P c) dk (word_of_nat n) R = (Inr pt, R')" "in_sync (Suc n) S' R'"
    using message_roundtrip[OF P Cons.prems(1) _ _ enc] by blast
  have "recv_all P pk dk (Suc n) cs' R' = Some (map (snd \<circ> snd) ms)"
    using Cons.prems(2,3) by (intro Cons.IH[OF R'(2) _ _ rest]) auto
  with R'(1) m cs show ?case by simp
qed

lemma new_in_sync:
  assumes "session_new P a b c True ss = Inr A" "session_new P a' b' c' False ss = Inr B"
  shows "in_sync 0 A B" "in_sync 0 B A"
  using assms by (auto simp: session_new_def new_with_mode_def in_sync_def hm_contains_def Let_def split: if_splits)

inductive session_reach :: "('ek, 'dk) prims \<Rightarrow> pick \<Rightarrow> RatchetState \<Rightarrow> bool" for P pk where
  fresh: "new_with_mode P a b c i m ss = Inr st \<Longrightarrow> session_reach P pk st"
| enc_first: "session_reach P pk st \<Longrightarrow> session_reach P pk (snd (encrypt_first P nonce pt st))"
| enc: "session_reach P pk st \<Longrightarrow> session_reach P pk (snd (encrypt_message P rnd nonce pt ek st))"
| dec_first: "session_reach P pk st \<Longrightarrow> session_reach P pk (snd (decrypt_first P pk ct st))"
| dec: "session_reach P pk st \<Longrightarrow> session_reach P pk (snd (decrypt_message P pk ct dk seq st))"

lemma session_reach_sk_inv: "session_reach P pk st \<Longrightarrow> pick_ok pk \<Longrightarrow> sk_inv st"
proof (induction rule: session_reach.induct)
  case (fresh a b c i m ss st)
  then show ?case
    by (auto simp: new_with_mode_def Let_def sk_inv_def split: if_splits)
qed (simp_all add: encrypt_sk_inv decrypt_first_sk_inv decrypt_message_sk_inv)

subsection \<open>An instance of the primitives\<close>

definition toy_prims :: "(unit, unit) prims" where
  "toy_prims =
     \<lparr>hkdf = \<lambda>ikm label n. replicate n (fold (+) ikm 1),
      aes_encrypt = \<lambda>k n p. Inr (p @ replicate 16 (hd (k @ [0]))),
      aes_decrypt = \<lambda>k n c. if 16 \<le> length c \<and> drop (length c - 16) c = replicate 16 (hd (k @ [0]))
                          then Inr (take (length c - 16) c) else Inl ''tag'',
      b64_enc = bytes_str, b64_dec = \<lambda>s. Inr (str_bytes s), utf8 = \<lambda>b. Inr (bytes_str b),
      encapsulate = \<lambda>ek r. Inr ([7], [3]), parse_ct = Inr, decapsulate = \<lambda>dk ct. Inr [3],
      blake16 = \<lambda>b. take 16 (b @ replicate 16 0)\<rparr>"

lemma toy_prims_ok: "prims_ok toy_prims () ()"
  by (simp add: prims_ok_def toy_prims_def)

definition toy_session :: "bool \<Rightarrow> RatchetState" where
  "toy_session initiator =
     \<lparr>peer_fp = [], peer_nid = [], our_fp = [], is_initiator = initiator, self_mode = False,
      root_key = replicate 32 1, send_chain_key = replicate 32 1, recv_chain_key = replicate 32 1,
      send_message_number = 0, recv_message_number = 0, skipped_keys = []\<rparr>"

lemma toy_session_new: "session_new toy_prims [] [] [] i (replicate 32 0) = Inr (toy_session i)"
proof -
  have "fold (+) (replicate 32 (0 :: u8)) 1 = 1" by code_simp
  then show ?thesis by (simp add: session_new_def new_with_mode_def toy_session_def toy_prims_def Let_def)
qed

lemma toy_fields:
  "aes_encrypt toy_prims k n p = Inr (p @ replicate 16 (hd (k @ [0])))"
  "aes_decrypt toy_prims k n c = (if 16 \<le> length c \<and> drop (length c - 16) c = replicate 16 (hd (k @ [0]))
     then Inr (take (length c - 16) c) else Inl ''tag'')"
  "b64_enc toy_prims b = bytes_str b" "b64_dec toy_prims t = Inr (str_bytes t)" "utf8 toy_prims b = Inr (bytes_str b)"
  "encapsulate toy_prims ek r = Inr ([7], [3])" "parse_ct toy_prims b = Inr b" "decapsulate toy_prims dk b = Inr [3]"
  by (simp_all add: toy_prims_def)

lemma toy_step1: "derive_message_key toy_prims (replicate 32 1 @ [3]) = (replicate 32 36, replicate 32 36)"
proof -
  have "fold (+) (replicate 32 1 @ [3]) 1 = (36 :: u8)" by code_simp
  then show ?thesis by (simp add: derive_message_key_def toy_prims_def Let_def)
qed

lemma toy_step2: "derive_message_key toy_prims (replicate 32 36 @ [3]) = (replicate 32 132, replicate 32 132)"
proof -
  have "fold (+) (replicate 32 36 @ [3]) 1 = (132 :: u8)" by code_simp
  then show ?thesis by (simp add: derive_message_key_def toy_prims_def Let_def)
qed

section \<open>Properties\<close>

text \<open>C5: Two sessions set up from one shared secret understand each other: the responder decrypts the
  first message and then every further message, in order, to exactly the texts that were sent.\<close>

theorem ratchet_in_order_roundtrip:
  assumes "prims_ok P ek dk"
    and "session_new P fp1 nid1 fp2 True ss = Inr A" "session_new P fp3 nid2 fp4 False ss = Inr B"
    and "encrypt_first P nonce pt A = (Inr c, A')" "send_all P ek ms A' = Some cs"
    and "length nonce = NONCE_SIZE" "\<forall>(r, n, t) \<in> set ms. length n = NONCE_SIZE" "length ms < 2 ^ 63"
  shows "fst (decrypt_first P pk (b64_enc P c) B) = Inr pt
       \<and> recv_all P pk dk 1 cs (snd (decrypt_first P pk (b64_enc P c) B)) = Some (map (snd \<circ> snd) ms)"
proof -
  obtain B' where B': "decrypt_first P pk (b64_enc P c) B = (Inr pt, B')" "in_sync 1 A' B'"
    using first_roundtrip[OF assms(1) new_in_sync(1)[OF assms(2,3)] assms(6,4)] by blast
  have "recv_all P pk dk 1 cs B' = Some (map (snd \<circ> snd) ms)"
    using assms(8) by (intro run_roundtrip[OF assms(1) B'(2) _ assms(7,5)]) simp
  with B'(1) show ?thesis by simp
qed

theorem ratchet_in_order_roundtrip_witness:
  "\<exists>c A' cs. encrypt_first toy_prims (replicate 12 0) ''hello'' (toy_session True) = (Inr c, A')
     \<and> send_all toy_prims () [([], replicate 12 1, ''again'')] A' = Some cs
     \<and> recv_all toy_prims (\<lambda>_. None) () 1 cs
         (snd (decrypt_first toy_prims (\<lambda>_. None) (b64_enc toy_prims c) (toy_session False))) = Some [''again'']"
proof -
  obtain c A' where c: "encrypt_first toy_prims (replicate 12 0) ''hello'' (toy_session True) = (Inr c, A')"
    by (simp add: encrypt_first_def derive_message_key_def toy_prims_def Let_def)
  obtain cs where cs: "send_all toy_prims () [([], replicate 12 1, ''again'')] A' = Some cs"
    by (simp add: encrypt_message_def derive_message_key_def toy_prims_def Let_def)
  have "recv_all toy_prims (\<lambda>_. None) () 1 cs
         (snd (decrypt_first toy_prims (\<lambda>_. None) (b64_enc toy_prims c) (toy_session False)))
      = Some (map (snd \<circ> snd) [([] :: bytes, replicate 12 1 :: bytes, ''again'')])"
    using ratchet_in_order_roundtrip[OF toy_prims_ok toy_session_new toy_session_new c cs, of "\<lambda>_. None"]
    by (simp add: NONCE_SIZE_def)
  with c cs show ?thesis by auto
qed

text \<open>C6: Whatever ciphertexts and sequence numbers a peer sends, the table of skipped keys never holds
  more than 1024 keys.\<close>

theorem skipped_keys_bounded:
  assumes "session_reach P pk st" "pick_ok pk"
  shows "hm_len (skipped_keys st) \<le> 1024"
  using session_reach_sk_inv[OF assms] by (simp add: sk_inv_def MAX_SKIPPED_KEYS_def)

theorem skipped_keys_bounded_witness:
  "hm_len (skipped_keys (snd (decrypt_message toy_prims (\<lambda>m. case m of [] \<Rightarrow> None | kv # _ \<Rightarrow> Some (fst kv)) ''x'' () 5
     (toy_session False)))) \<le> 1024"
proof (rule skipped_keys_bounded)
  show "session_reach toy_prims (\<lambda>m. case m of [] \<Rightarrow> None | kv # _ \<Rightarrow> Some (fst kv))
      (snd (decrypt_message toy_prims (\<lambda>m. case m of [] \<Rightarrow> None | kv # _ \<Rightarrow> Some (fst kv)) ''x'' () 5 (toy_session False)))"
    using toy_session_new[unfolded session_new_def] by (intro session_reach.dec) (rule session_reach.fresh)
  show "pick_ok (\<lambda>m. case m of [] \<Rightarrow> None | kv # _ \<Rightarrow> Some (fst kv))"
    by (auto simp: pick_ok_def hm_contains_def neq_Nil_conv)
qed

text \<open>A rejected message can break a session: the receiving chain is advanced before the ciphertext is
  authenticated. With primitives that satisfy their laws, a genuine message that decrypts fails after a
  forged one was received and rejected.\<close>

theorem ratchet_forgery_desyncs:
  "let c = bytes_str (replicate 12 0 @ str_bytes ''hi'' @ replicate 16 36 @ [7] @ [0, 1]);
       f = bytes_str (replicate 12 0 @ replicate 16 0 @ [7] @ [0, 1]);
       R = toy_session False; pk = (\<lambda>_. None)
   in prims_ok toy_prims () ()
    \<and> map_sum id bytes_str (fst (encrypt_message toy_prims [] (replicate 12 0) ''hi'' () (toy_session True))) = Inr c
    \<and> fst (decrypt_message toy_prims pk c () 0 R) = Inr ''hi''
    \<and> \<not> is_ok (fst (decrypt_message toy_prims pk f () 0 R))
    \<and> \<not> is_ok (fst (decrypt_message toy_prims pk c () 0 (snd (decrypt_message toy_prims pk f () 0 R))))"
proof -
  note eval = decrypt_message_def kyber_decrypt_def advance_recv_def to_utf8_def toy_session_def slice_def
    NONCE_SIZE_def be_value.simps is_ok_def Let_def
  let ?c = "replicate 12 0 @ str_bytes ''hi'' @ replicate 16 36 @ [7] @ [0, 1] :: bytes"
  let ?f = "replicate 12 0 @ replicate 16 0 @ [7] @ [0, 1] :: bytes"
  have "fst (encrypt_message toy_prims [] (replicate 12 0) ''hi'' () (toy_session True)) = Inr ?c"
    by (simp add: encrypt_message_def toy_session_def toy_step1 toy_fields u16_be_def numeral_2_eq_2 Let_def)
  moreover have "fst (decrypt_message toy_prims (\<lambda>_. None) (bytes_str ?c) () 0 (toy_session False)) = Inr ''hi''"
    by (simp add: eval toy_step1 toy_fields)
  moreover have f: "decrypt_message toy_prims (\<lambda>_. None) (bytes_str ?f) () 0 (toy_session False)
      = (Inl (DecryptFailed (''AES-GCM: '' @ ''tag'')), (toy_session False)\<lparr>recv_chain_key := replicate 32 36\<rparr>)"
    by (simp add: eval toy_step1 toy_fields replicate_eq_replicate)
  moreover have "\<not> is_ok (fst (decrypt_message toy_prims (\<lambda>_. None) (bytes_str ?c) () 0
      ((toy_session False)\<lparr>recv_chain_key := replicate 32 36\<rparr>)))"
    by (simp add: eval toy_step2 toy_fields replicate_eq_replicate)
  ultimately show ?thesis using toy_prims_ok by (simp add: is_ok_def)
qed

text \<open>The first message can be replayed: its key is kept after delivery under sequence number 0, and
  presenting the same ciphertext again with that number yields the text again.\<close>

theorem first_message_replayable:
  assumes "session_new P a b c i ss = Inr B" "b64_dec P s = Inr raw" "NONCE_SIZE + 18 \<le> length raw"
    and "decrypt_first P pk s B = (Inr pt, B')"
  shows "fst (decrypt_message P pk s dk 0 B') = Inr pt"
proof -
  let ?n = "take NONCE_SIZE raw" and ?b = "drop NONCE_SIZE raw"
  obtain mk ck where d: "derive_message_key P (recv_chain_key B) = (mk, ck)" by force
  have B: "skipped_keys B = []" "recv_message_number B = 0"
    using assms(1) by (auto simp: session_new_def new_with_mode_def Let_def split: if_splits)
  have loop: "skip_loop P pk 0 B = B" using B(2) by (subst skip_loop.simps) simp
  obtain m where m: "aes_decrypt P mk ?n ?b = Inr m" "utf8 P m = Inr pt"
    and B': "skipped_keys B' = skipped_keys (prune_skipped_keys pk ((advance_recv ck B)\<lparr>recv_message_number := recv_message_number (advance_recv ck B) + 1,
               skipped_keys := hm_insert (show_nat 0) mk (skipped_keys (advance_recv ck B))\<rparr>))"
    using assms(2-4) d B(2) loop
    by (auto simp: decrypt_first_def simple_decrypt_def to_utf8_def Let_def split: sum.splits if_splits)
  have "skipped_keys (advance_recv ck B) = []" using B(1) by (simp add: advance_recv_def)
  then have "hm_get (skipped_keys B') (show_nat 0) = Some mk"
    by (simp add: B' prune_skipped_keys_def MAX_SKIPPED_KEYS_def hm_len_insert)
  with m assms(2,3) show ?thesis
    by (simp add: decrypt_message_def to_utf8_def Let_def)
qed

theorem first_message_replayable_witness:
  "fst (decrypt_message toy_prims (\<lambda>_. None) (bytes_str (replicate 12 0 @ str_bytes ''hi'' @ replicate 16 33)) () 0
     (snd (decrypt_first toy_prims (\<lambda>_. None) (bytes_str (replicate 12 0 @ str_bytes ''hi'' @ replicate 16 33)) (toy_session False))))
   = Inr ''hi''"
proof -
  let ?c = "bytes_str (replicate 12 0 @ str_bytes ''hi'' @ replicate 16 33)"
  have k: "derive_message_key toy_prims (replicate 32 1) = (replicate 32 33, replicate 32 33)"
  proof -
    have "fold (+) (replicate 32 1) 1 = (33 :: u8)" by code_simp
    then show ?thesis by (simp add: derive_message_key_def toy_prims_def Let_def)
  qed
  have d: "fst (decrypt_first toy_prims (\<lambda>_. None) ?c (toy_session False)) = Inr ''hi''"
    using k by (simp add: decrypt_first_def simple_decrypt_def skip_loop.simps[of _ _ 0] toy_session_def toy_fields
        NONCE_SIZE_def to_utf8_def Let_def)
  have b: "b64_dec toy_prims ?c = Inr (replicate 12 0 @ str_bytes ''hi'' @ replicate 16 33)" by (simp add: toy_fields)
  show ?thesis
    by (rule first_message_replayable[OF toy_session_new b]) (use d in \<open>simp_all add: NONCE_SIZE_def prod_eq_iff\<close>)
qed

text \<open>The two crates disagree on null identifiers although each derives them from the same 16-byte
  hash: the identifier of the crypto crate is never valid for the DHT, and the DHT's is never valid for
  the crypto crate.\<close>

theorem null_id_formats_disagree:
  assumes "length (blake16 P (str_bytes fp)) = 16" "length (blake2b16 cr (str_bytes fp)) = 16"
  shows "crypto_validate_null_id (null_id P fp) = Inr () \<and> \<not> validate_null_id (null_id P fp)
       \<and> crypto_validate_null_id (compute_null_id cr fp) \<noteq> Inr ()"
proof -
  let ?hex = "hex_encode (blake16 P (str_bytes fp))"
  have nd: "CHR ''-'' \<notin> set ?hex"
    using hex_encode_hexdigits[of "blake16 P (str_bytes fp)"] hexdigit_not_dash by (auto simp: list_all_iff)
  then have nd8: "CHR ''-'' \<notin> set (take 8 ?hex)" "CHR ''-'' \<notin> set (slice 8 16 ?hex)"
    by (auto simp: slice_def dest: in_set_takeD in_set_dropD)
  have "split_on (CHR ''-'') (null_id P fp) = [''NN'', take 8 ?hex, slice 8 16 ?hex]"
    using split_on_append[of "CHR ''-''" "''NN''" "take 8 ?hex @ CHR ''-'' # slice 8 16 ?hex"]
      split_on_append[OF nd8(1), of "slice 8 16 ?hex"] split_on_no_delim[OF nd8(2)]
    by (simp add: null_id_def Let_def)
  moreover have "strip_prefix ''addr:'' (null_id P fp) = None" by (simp add: strip_prefix_def null_id_def Let_def)
  moreover have "length (split_on (CHR ''-'') (compute_null_id cr fp)) = 9" by (rule compute_null_id_groups(1)[OF assms(2)])
  ultimately show ?thesis
    using assms(1) by (simp add: crypto_validate_null_id_def validate_null_id_def Let_def)
qed

theorem null_id_formats_disagree_witness:
  "crypto_validate_null_id (null_id toy_prims ''ab'') = Inr () \<and> \<not> validate_null_id (null_id toy_prims ''ab'')"
  using null_id_formats_disagree[of toy_prims "''ab''" toy_crypto] by (simp add: toy_prims_def toy_crypto_def)

end
