(* ===== verification/Mailbox.thy ===== *)
theory Mailbox
  imports Prelude
begin

text \<open>
  The per-recipient mailbox of \<open>relay/src/main.rs\<close> (\<open>Mailbox\<close>, \<open>MailboxEntry\<close>) and the relay's nonce
  windows (\<open>check_and_record_nonce\<close>, \<open>check_and_record_nonce_str\<close>, \<open>FederationState::record_nonce\<close>).

  Seconds are 64-bit words: the release profile does not check for overflow, so \<open>now - stored_at\<close> wraps.
  Clock readings are arguments.
\<close>

section \<open>Definitions\<close>

definition MAX_MAILBOX_SIZE :: nat where "MAX_MAILBOX_SIZE = 1000"
definition MAILBOX_TTL_SECONDS :: u64 where "MAILBOX_TTL_SECONDS = 604800"
definition MAX_ENTRIES_PER_SENDER :: nat where "MAX_ENTRIES_PER_SENDER = 10"
definition STORE_TIMESTAMP_TOLERANCE_SECS :: int where "STORE_TIMESTAMP_TOLERANCE_SECS = 300"
definition MAX_NONCES_PER_SENDER :: nat where "MAX_NONCES_PER_SENDER = 1000"

record MailboxEntry =
  message_id :: string
  signed_blob :: string
  sender_nid :: string
  sender_fp :: string
  seq :: int
  stored_at :: u64
  delivery_status :: u8
  status_updated_at :: u64
  read_receipt_at :: "u64 option"

record Mailbox =
  entries :: "MailboxEntry list"
  max_size :: nat

text \<open>\<open>Vec::remove\<close> at the first position that satisfies a test, and an update of the first element that does.\<close>

fun remove_first :: "('a \<Rightarrow> bool) \<Rightarrow> 'a list \<Rightarrow> 'a list" where
  "remove_first P [] = []"
| "remove_first P (x # xs) = (if P x then xs else x # remove_first P xs)"

fun update_first :: "('a \<Rightarrow> bool) \<Rightarrow> ('a \<Rightarrow> 'a) \<Rightarrow> 'a list \<Rightarrow> 'a list" where
  "update_first P f [] = []"
| "update_first P f (x # xs) = (if P x then f x # xs else x # update_first P f xs)"

definition Mailbox_new :: "nat \<Rightarrow> Mailbox" where
  "Mailbox_new sz = \<lparr>entries = [], max_size = sz\<rparr>"

definition count_sender :: "string \<Rightarrow> MailboxEntry list \<Rightarrow> nat" where
  "count_sender fp es = length (filter (\<lambda>e. sender_fp e = fp) es)"

definition mailbox_store :: "MailboxEntry \<Rightarrow> Mailbox \<Rightarrow> Mailbox" where
  "mailbox_store entry mb =
     (let es = entries mb;
          es1 = (if count_sender (sender_fp entry) es \<ge> MAX_ENTRIES_PER_SENDER then
                   remove_first (\<lambda>e. sender_fp e = sender_fp entry) es
                 else if length es \<ge> max_size mb then drop 1 es
                 else es)
      in mb\<lparr>entries := es1 @ [entry]\<rparr>)"

definition fetch_all :: "u64 \<Rightarrow> Mailbox \<Rightarrow> MailboxEntry list" where
  "fetch_all now mb = filter (\<lambda>e. now - stored_at e < MAILBOX_TTL_SECONDS) (entries mb)"

definition fetch_undelivered :: "u64 \<Rightarrow> Mailbox \<Rightarrow> MailboxEntry list" where
  "fetch_undelivered now mb =
     filter (\<lambda>e. now - stored_at e < MAILBOX_TTL_SECONDS \<and> delivery_status e < 2) (entries mb)"

definition set_status :: "u8 \<Rightarrow> u64 \<Rightarrow> MailboxEntry \<Rightarrow> MailboxEntry" where
  "set_status new_status now e =
     (let e1 = e\<lparr>delivery_status := new_status, status_updated_at := now\<rparr>
      in if new_status = 3 then e1\<lparr>read_receipt_at := Some now\<rparr> else e1)"

definition update_delivery_status :: "string \<Rightarrow> u8 \<Rightarrow> u64 \<Rightarrow> Mailbox \<Rightarrow> bool \<times> Mailbox" where
  "update_delivery_status mid new_status now mb =
     (case find (\<lambda>e. message_id e = mid) (entries mb) of
        None \<Rightarrow> (False, mb)
      | Some e \<Rightarrow>
          if delivery_status e < new_status then
            (True, mb\<lparr>entries := update_first (\<lambda>e. message_id e = mid) (set_status new_status now) (entries mb)\<rparr>)
          else (False, mb))"

definition mark_read :: "string \<Rightarrow> u64 \<Rightarrow> Mailbox \<Rightarrow> bool \<times> Mailbox" where
  "mark_read mid now mb = update_delivery_status mid 3 now mb"

definition remove_message :: "string \<Rightarrow> Mailbox \<Rightarrow> bool \<times> Mailbox" where
  "remove_message mid mb =
     (if list_ex (\<lambda>e. message_id e = mid) (entries mb) then
        (True, mb\<lparr>entries := remove_first (\<lambda>e. message_id e = mid) (entries mb)\<rparr>)
      else (False, mb))"

definition mailbox_clear :: "Mailbox \<Rightarrow> Mailbox" where
  "mailbox_clear mb = mb\<lparr>entries := []\<rparr>"

subsection \<open>Nonce windows\<close>

text \<open>When a window is full its older half is drained.\<close>

definition drain_half :: "'a list \<Rightarrow> 'a list" where
  "drain_half xs = (if length xs \<ge> MAX_NONCES_PER_SENDER then drop (length xs div 2) xs else xs)"

definition or_empty :: "(string, 'a list) hmap \<Rightarrow> string \<Rightarrow> 'a list" where
  "or_empty m k = (case hm_get m k of Some v \<Rightarrow> v | None \<Rightarrow> [])"

definition check_and_record_nonce ::
    "string \<Rightarrow> int \<Rightarrow> (string, int list) hmap \<Rightarrow> bool \<times> (string, int list) hmap" where
  "check_and_record_nonce fp nonce nonces =
     (let entry = or_empty nonces fp
      in if nonce \<in> set entry then (False, hm_insert fp entry nonces)
         else
           let cutoff = nonce - STORE_TIMESTAMP_TOLERANCE_SECS;
               entry1 = drain_half (filter (\<lambda>n. n \<ge> cutoff) entry)
           in (True, hm_insert fp (entry1 @ [nonce]) nonces))"

definition check_and_record_nonce_str ::
    "int \<Rightarrow> string \<Rightarrow> string \<Rightarrow> (string, (string \<times> int) list) hmap \<Rightarrow> bool \<times> (string, (string \<times> int) list) hmap" where
  "check_and_record_nonce_str now fp nonce nonces =
     (let entry = or_empty nonces fp
      in if list_ex (\<lambda>(n, _). n = nonce) entry then (False, hm_insert fp entry nonces)
         else
           let cutoff = now - STORE_TIMESTAMP_TOLERANCE_SECS;
               entry1 = drain_half (filter (\<lambda>(_, ts). ts \<ge> cutoff) entry)
           in (True, hm_insert fp (entry1 @ [(nonce, now)]) nonces))"

definition fed_record_nonce ::
    "string \<Rightarrow> string \<Rightarrow> (string, string list) hmap \<Rightarrow> bool \<times> (string, string list) hmap" where
  "fed_record_nonce peer_url nonce seen =
     (let nonces = or_empty seen peer_url
      in if nonce \<in> set nonces then (False, hm_insert peer_url nonces seen)
         else (True, hm_insert peer_url (drain_half nonces @ [nonce]) seen))"

section \<open>Lemmas\<close>

subsection \<open>Mailbox bounds\<close>

definition mailbox_inv :: "Mailbox \<Rightarrow> bool" where
  "mailbox_inv mb \<longleftrightarrow> length (entries mb) \<le> max_size mb
     \<and> (\<forall>fp. count_sender fp (entries mb) \<le> MAX_ENTRIES_PER_SENDER)"

lemma count_sender_simps [simp]:
  "count_sender fp [] = 0"
  "count_sender fp (e # es) = (if sender_fp e = fp then Suc (count_sender fp es) else count_sender fp es)"
  "count_sender fp (es @ es') = count_sender fp es + count_sender fp es'"
  by (simp_all add: count_sender_def)

lemma count_remove_first:
  "count_sender fp (remove_first P es) \<le> count_sender fp es"
  by (induction es) auto

lemma length_remove_first_le: "length (remove_first P es) \<le> length es"
  by (induction es) auto

lemma count_remove_own:
  "count_sender fp (remove_first (\<lambda>e. sender_fp e = fp) es) = count_sender fp es - 1"
  by (induction es) auto

lemma length_remove_own:
  "0 < count_sender fp es \<Longrightarrow> length (remove_first (\<lambda>e. sender_fp e = fp) es) = length es - 1"
proof (induction es)
  case (Cons e es)
  then show ?case by (cases es) (auto split: if_splits)
qed simp

lemma others_remove_own:
  "filter (\<lambda>e. sender_fp e \<noteq> fp) (remove_first (\<lambda>e. sender_fp e = fp) es) = filter (\<lambda>e. sender_fp e \<noteq> fp) es"
  by (induction es) auto

lemma count_drop_1: "count_sender fp (drop 1 es) \<le> count_sender fp es"
  by (cases es) auto

lemma count_sender_le_length: "count_sender fp es \<le> length es"
  by (simp add: count_sender_def)

lemma max_size_store [simp]: "max_size (mailbox_store e mb) = max_size mb"
  by (simp add: mailbox_store_def Let_def)

lemma mailbox_inv_store:
  assumes "mailbox_inv mb" "1 \<le> max_size mb"
  shows "mailbox_inv (mailbox_store e mb)"
proof -
  let ?c = "count_sender (sender_fp e) (entries mb)"
  have len: "length (entries mb) \<le> max_size mb"
    and cnt: "count_sender fp (entries mb) \<le> MAX_ENTRIES_PER_SENDER" for fp
    using assms(1) by (auto simp: mailbox_inv_def)
  have "length (entries (mailbox_store e mb)) \<le> max_size mb"
    using len assms(2) count_sender_le_length[of "sender_fp e" "entries mb"]
    by (auto simp: mailbox_store_def Let_def length_remove_own MAX_ENTRIES_PER_SENDER_def)
  moreover have "count_sender fp (entries (mailbox_store e mb)) \<le> MAX_ENTRIES_PER_SENDER" for fp
  proof (cases "fp = sender_fp e")
    case True
    then show ?thesis
      using cnt[of fp] count_drop_1[of fp "entries mb"]
      by (auto simp: mailbox_store_def Let_def count_remove_own MAX_ENTRIES_PER_SENDER_def)
  next
    case False
    then show ?thesis
      using cnt[of fp] count_drop_1[of fp "entries mb"]
        count_remove_first[of fp "\<lambda>x. sender_fp x = sender_fp e" "entries mb"]
      by (auto simp: mailbox_store_def Let_def)
  qed
  ultimately show ?thesis by (simp add: mailbox_inv_def)
qed

lemma length_update_first [simp]: "length (update_first P f xs) = length xs"
  by (induction xs) auto

lemma count_update_first [simp]:
  "(\<And>e. sender_fp (f e) = sender_fp e) \<Longrightarrow> count_sender fp (update_first P f es) = count_sender fp es"
  by (induction es) auto

lemma set_status_fields [simp]:
  "sender_fp (set_status s now e) = sender_fp e" "message_id (set_status s now e) = message_id e"
  "delivery_status (set_status s now e) = s" "signed_blob (set_status s now e) = signed_blob e"
  "seq (set_status s now e) = seq e" "stored_at (set_status s now e) = stored_at e"
  by (simp_all add: set_status_def Let_def)

lemma mailbox_inv_update: "mailbox_inv mb \<Longrightarrow> mailbox_inv (snd (update_delivery_status mid s now mb))"
  by (auto simp: update_delivery_status_def mailbox_inv_def split: option.splits)

lemma mailbox_inv_remove: "mailbox_inv mb \<Longrightarrow> mailbox_inv (snd (remove_message mid mb))"
  using length_remove_first_le[of "\<lambda>e. message_id e = mid" "entries mb"]
    count_remove_first[of _ "\<lambda>e. message_id e = mid" "entries mb"]
  by (auto simp: remove_message_def mailbox_inv_def intro: order_trans)

lemma max_size_ops [simp]:
  "max_size (snd (update_delivery_status mid s now mb)) = max_size mb"
  "max_size (snd (remove_message mid mb)) = max_size mb" "max_size (mailbox_clear mb) = max_size mb"
  by (auto simp: update_delivery_status_def remove_message_def mailbox_clear_def split: option.splits)

inductive mailbox_reach :: "Mailbox \<Rightarrow> bool" where
  new: "mailbox_reach (Mailbox_new MAX_MAILBOX_SIZE)"
| store: "mailbox_reach mb \<Longrightarrow> mailbox_reach (mailbox_store e mb)"
| status: "mailbox_reach mb \<Longrightarrow> mailbox_reach (snd (update_delivery_status mid s now mb))"
| remove: "mailbox_reach mb \<Longrightarrow> mailbox_reach (snd (remove_message mid mb))"
| clear: "mailbox_reach mb \<Longrightarrow> mailbox_reach (mailbox_clear mb)"

lemma mailbox_reach_inv: "mailbox_reach mb \<Longrightarrow> mailbox_inv mb \<and> max_size mb = MAX_MAILBOX_SIZE"
proof (induction rule: mailbox_reach.induct)
  case (store mb e)
  then show ?case by (simp add: mailbox_inv_store MAX_MAILBOX_SIZE_def)
qed (simp_all add: mailbox_inv_update mailbox_inv_remove,
     simp_all add: mailbox_inv_def Mailbox_new_def mailbox_clear_def)

subsection \<open>Isolation of senders\<close>

lemma store_others_step:
  assumes "sender_fp e = fp" "count_sender fp (entries mb) \<le> MAX_ENTRIES_PER_SENDER"
  obtains j where "filter (\<lambda>e. sender_fp e \<noteq> fp) (entries (mailbox_store e mb))
      = drop j (filter (\<lambda>e. sender_fp e \<noteq> fp) (entries mb))"
    and "count_sender fp (entries mb) + j \<le> count_sender fp (entries (mailbox_store e mb))"
    and "count_sender fp (entries (mailbox_store e mb)) \<le> MAX_ENTRIES_PER_SENDER"
proof (cases "count_sender fp (entries mb) \<ge> MAX_ENTRIES_PER_SENDER")
  case True
  then show ?thesis
    using that[of 0] assms by (simp add: mailbox_store_def Let_def others_remove_own count_remove_own MAX_ENTRIES_PER_SENDER_def)
next
  case below: False
  show ?thesis
  proof (cases "length (entries mb) \<ge> max_size mb \<and> entries mb \<noteq> [] \<and> sender_fp (hd (entries mb)) \<noteq> fp")
    case True
    then obtain x xs where "entries mb = x # xs" "sender_fp x \<noteq> fp" by (cases "entries mb") auto
    with True below assms show ?thesis using that[of 1] by (simp add: mailbox_store_def Let_def)
  next
    case False
    with below assms show ?thesis
      using that[of 0] by (cases "entries mb") (auto simp: mailbox_store_def Let_def)
  qed
qed

lemma flood_others:
  assumes "list_all (\<lambda>e. sender_fp e = fp) es" "count_sender fp (entries mb) \<le> MAX_ENTRIES_PER_SENDER"
  shows "\<exists>k. k + count_sender fp (entries mb) \<le> MAX_ENTRIES_PER_SENDER
    \<and> filter (\<lambda>e. sender_fp e \<noteq> fp) (entries (fold mailbox_store es mb)) = drop k (filter (\<lambda>e. sender_fp e \<noteq> fp) (entries mb))"
  using assms
proof (induction es arbitrary: mb)
  case Nil
  then show ?case by (intro exI[of _ 0]) simp
next
  case (Cons e es)
  from Cons.prems have "sender_fp e = fp" by simp
  then obtain j where j: "filter (\<lambda>e. sender_fp e \<noteq> fp) (entries (mailbox_store e mb)) = drop j (filter (\<lambda>e. sender_fp e \<noteq> fp) (entries mb))"
      "count_sender fp (entries mb) + j \<le> count_sender fp (entries (mailbox_store e mb))"
      "count_sender fp (entries (mailbox_store e mb)) \<le> MAX_ENTRIES_PER_SENDER"
    using store_others_step Cons.prems(2) by metis
  obtain k where k: "k + count_sender fp (entries (mailbox_store e mb)) \<le> MAX_ENTRIES_PER_SENDER"
      "filter (\<lambda>e. sender_fp e \<noteq> fp) (entries (fold mailbox_store es (mailbox_store e mb)))
       = drop k (filter (\<lambda>e. sender_fp e \<noteq> fp) (entries (mailbox_store e mb)))"
    using Cons.IH[OF _ j(3)] Cons.prems(1) by auto
  have "fold mailbox_store (e # es) mb = fold mailbox_store es (mailbox_store e mb)" by simp
  then show ?case using j k by (intro exI[of _ "k + j"]) (simp add: drop_drop)
qed

subsection \<open>Nonce windows\<close>

definition record_all ::
    "(int \<times> string \<times> string) list \<Rightarrow> (string, (string \<times> int) list) hmap \<Rightarrow> (string, (string \<times> int) list) hmap" where
  "record_all rs m = fold (\<lambda>(now, fp, n) m. snd (check_and_record_nonce_str now fp n m)) rs m"

definition held :: "string \<Rightarrow> string \<Rightarrow> int \<Rightarrow> nat \<Rightarrow> (string, (string \<times> int) list) hmap \<Rightarrow> bool" where
  "held fp nonce t d m \<longleftrightarrow> (\<exists>a b. or_empty m fp = a @ (nonce, t) # b \<and> length b \<le> d)"

lemma or_empty_insert [simp]: "or_empty (hm_insert k v m) k' = (if k' = k then v else or_empty m k')"
  by (simp add: or_empty_def)

lemma or_empty_Nil [simp]: "or_empty [] k = []"
  by (simp add: or_empty_def)

lemma drain_half_keeps:
  assumes "length b < 500"
  shows "\<exists>a'. drain_half (a @ x # b) = a' @ x # b"
proof (cases "length (a @ x # b) \<ge> MAX_NONCES_PER_SENDER")
  case True
  then have "length (a @ x # b) div 2 \<le> length a" using assms by (simp add: MAX_NONCES_PER_SENDER_def)
  then show ?thesis using True by (simp add: drain_half_def)
qed (simp add: drain_half_def)

lemma held_record:
  assumes "check_and_record_nonce_str t fp nonce m = (True, m')"
  shows "held fp nonce t 0 m'"
  using assms by (auto simp: check_and_record_nonce_str_def held_def Let_def split: if_splits)

lemma held_step:
  assumes "held fp nonce t d m" "now \<le> t + STORE_TIMESTAMP_TOLERANCE_SECS" "d < 500"
  shows "held fp nonce t (if f = fp then Suc d else d) (snd (check_and_record_nonce_str now f n m))"
proof -
  obtain a b where L: "or_empty m fp = a @ (nonce, t) # b" "length b \<le> d" using assms(1) by (auto simp: held_def)
  let ?P = "\<lambda>(_, ts). ts \<ge> now - STORE_TIMESTAMP_TOLERANCE_SECS"
  have b: "length (filter ?P b) \<le> d" using L(2) length_filter_le[of ?P b] by linarith
  then obtain a' where a': "drain_half (filter ?P a @ (nonce, t) # filter ?P b) = a' @ (nonce, t) # filter ?P b"
    using drain_half_keeps assms(3) by (metis le_less_trans)
  show ?thesis
  proof (cases "f = fp")
    case True
    have "filter ?P (or_empty m fp) = filter ?P a @ (nonce, t) # filter ?P b" using assms(2) L(1) by simp
    then show ?thesis
      using True L b a' by (force simp: check_and_record_nonce_str_def held_def Let_def)
  next
    case False
    then show ?thesis using L by (auto simp: check_and_record_nonce_str_def held_def Let_def)
  qed
qed

lemma held_record_all:
  assumes "held fp nonce t d m" "\<forall>(now, f, n) \<in> set rs. now \<le> t + STORE_TIMESTAMP_TOLERANCE_SECS"
    and "d + length (filter (\<lambda>(now, f, n). f = fp) rs) \<le> 500"
  shows "\<exists>d'. held fp nonce t d' (record_all rs m)"
  using assms
proof (induction rs arbitrary: d m)
  case Nil
  then show ?case by (auto simp: record_all_def)
next
  case (Cons r rs)
  obtain now f n where r: "r = (now, f, n)" by (cases r)
  show ?case
  proof (cases "d < 500")
    case True
    have "held fp nonce t (if f = fp then Suc d else d) (snd (check_and_record_nonce_str now f n m))"
      using Cons.prems(2) r by (intro held_step[OF Cons.prems(1) _ True]) simp
    then have "\<exists>d'. held fp nonce t d' (record_all rs (snd (check_and_record_nonce_str now f n m)))"
      by (rule Cons.IH) (use Cons.prems(2,3) r in \<open>auto split: if_splits\<close>)
    then show ?thesis by (simp add: record_all_def r)
  next
    case False
    then have f: "f \<noteq> fp" and d: "d = 500" using Cons.prems(3) r by (auto split: if_splits)
    have "held fp nonce t d (snd (check_and_record_nonce_str now f n m))"
      using Cons.prems(1) f by (auto simp: held_def check_and_record_nonce_str_def Let_def)
    then have "\<exists>d'. held fp nonce t d' (record_all rs (snd (check_and_record_nonce_str now f n m)))"
      by (rule Cons.IH) (use Cons.prems(2,3) r f in auto)
    then show ?thesis by (simp add: record_all_def r)
  qed
qed

lemma held_refused: "held fp nonce t d m \<Longrightarrow> fst (check_and_record_nonce_str now fp nonce m) = False"
  by (auto simp: held_def check_and_record_nonce_str_def Let_def)

text \<open>The contract the three windows share: a nonce that is in the window of its key is refused and
  nothing changes; any other is appended after some older entries were dropped and a full window halved.\<close>

locale nonce_window =
  fixes window :: "'s \<Rightarrow> string \<Rightarrow> 'e list"
    and tok :: "'e \<Rightarrow> 'n"
    and key :: "'q \<Rightarrow> string"
    and nonce :: "'q \<Rightarrow> 'n"
    and submit :: "'q \<Rightarrow> 's \<Rightarrow> bool \<times> 's"
  assumes refuses: "nonce q \<in> tok ` set (window s (key q)) \<Longrightarrow>
      \<not> fst (submit q s) \<and> window (snd (submit q s)) = window s"
    and appends: "nonce q \<notin> tok ` set (window s (key q)) \<Longrightarrow>
      fst (submit q s) \<and> (\<exists>P e. tok e = nonce q
        \<and> window (snd (submit q s)) = (window s)(key q := drain_half (filter P (window s (key q))) @ [e]))"
begin

lemma accepts_iff: "fst (submit q s) \<longleftrightarrow> nonce q \<notin> tok ` set (window s (key q))"
  using refuses appends by blast

lemma second_refused: "fst (submit q s) \<Longrightarrow> key q' = key q \<Longrightarrow> nonce q' = nonce q \<Longrightarrow> \<not> fst (submit q' (snd (submit q s)))"
  using appends[of q s] refuses[of q' "snd (submit q s)"] by (auto simp: accepts_iff)

lemma window_bounded:
  assumes "\<forall>k. length (window s k) \<le> MAX_NONCES_PER_SENDER"
  shows "\<forall>k. length (window (snd (submit q s)) k) \<le> MAX_NONCES_PER_SENDER"
proof (cases "nonce q \<in> tok ` set (window s (key q))")
  case True
  then show ?thesis using refuses[OF True] assms by simp
next
  case False
  then obtain P e where w: "window (snd (submit q s)) = (window s)(key q := drain_half (filter P (window s (key q))) @ [e])"
    using appends by blast
  have "length (filter P (window s (key q))) \<le> MAX_NONCES_PER_SENDER"
    using assms length_filter_le[of P "window s (key q)"] order_trans by blast
  then show ?thesis
    using assms by (auto simp: w drain_half_def MAX_NONCES_PER_SENDER_def)
qed

lemma windows_bounded:
  "\<forall>k. length (window s k) \<le> MAX_NONCES_PER_SENDER
   \<Longrightarrow> length (window (fold (\<lambda>q s. snd (submit q s)) qs s) k) \<le> MAX_NONCES_PER_SENDER"
  by (induction qs arbitrary: s) (simp_all add: window_bounded)

end

lemma or_empty_upd: "or_empty (hm_insert k v m) = (or_empty m)(k := v)"
  by (rule ext) simp

interpretation int_window: nonce_window or_empty id fst snd "\<lambda>(fp, n). check_and_record_nonce fp n"
proof
  fix q and s :: "(string, int list) hmap"
  show "snd q \<in> id ` set (or_empty s (fst q)) \<Longrightarrow>
      \<not> fst ((case q of (fp, n) \<Rightarrow> check_and_record_nonce fp n) s)
      \<and> or_empty (snd ((case q of (fp, n) \<Rightarrow> check_and_record_nonce fp n) s)) = or_empty s"
    by (cases q) (auto simp: check_and_record_nonce_def Let_def)
  show "snd q \<notin> id ` set (or_empty s (fst q)) \<Longrightarrow>
      fst ((case q of (fp, n) \<Rightarrow> check_and_record_nonce fp n) s) \<and> (\<exists>P e. id e = snd q
        \<and> or_empty (snd ((case q of (fp, n) \<Rightarrow> check_and_record_nonce fp n) s))
          = (or_empty s)(fst q := drain_half (filter P (or_empty s (fst q))) @ [e]))"
    by (cases q) (auto simp: check_and_record_nonce_def Let_def or_empty_upd)
qed

interpretation str_window: nonce_window or_empty fst "\<lambda>(now, fp, n). fp" "\<lambda>(now, fp, n). n"
  "\<lambda>(now, fp, n). check_and_record_nonce_str now fp n"
proof
  fix q :: "int \<times> string \<times> string" and s :: "(string, (string \<times> int) list) hmap"
  obtain now fp n where q: "q = (now, fp, n)" by (cases q)
  show "(case q of (now, fp, n) \<Rightarrow> n) \<in> fst ` set (or_empty s (case q of (now, fp, n) \<Rightarrow> fp)) \<Longrightarrow>
      \<not> fst ((case q of (now, fp, n) \<Rightarrow> check_and_record_nonce_str now fp n) s)
      \<and> or_empty (snd ((case q of (now, fp, n) \<Rightarrow> check_and_record_nonce_str now fp n) s)) = or_empty s"
    by (auto simp: q check_and_record_nonce_str_def Let_def list_ex_iff split_beta)
  show "(case q of (now, fp, n) \<Rightarrow> n) \<notin> fst ` set (or_empty s (case q of (now, fp, n) \<Rightarrow> fp)) \<Longrightarrow>
      fst ((case q of (now, fp, n) \<Rightarrow> check_and_record_nonce_str now fp n) s)
      \<and> (\<exists>P e. fst e = (case q of (now, fp, n) \<Rightarrow> n)
        \<and> or_empty (snd ((case q of (now, fp, n) \<Rightarrow> check_and_record_nonce_str now fp n) s))
          = (or_empty s)((case q of (now, fp, n) \<Rightarrow> fp) :=
              drain_half (filter P (or_empty s (case q of (now, fp, n) \<Rightarrow> fp))) @ [e]))"
    by (auto simp: q check_and_record_nonce_str_def Let_def list_ex_iff split_beta or_empty_upd
        intro!: exI[of _ "\<lambda>(_, ts). ts \<ge> now - STORE_TIMESTAMP_TOLERANCE_SECS"] exI[of _ now])
qed

interpretation fed_window: nonce_window or_empty id fst snd "\<lambda>(url, n). fed_record_nonce url n"
proof
  fix q and s :: "(string, string list) hmap"
  show "snd q \<in> id ` set (or_empty s (fst q)) \<Longrightarrow>
      \<not> fst ((case q of (url, n) \<Rightarrow> fed_record_nonce url n) s)
      \<and> or_empty (snd ((case q of (url, n) \<Rightarrow> fed_record_nonce url n) s)) = or_empty s"
    by (cases q) (auto simp: fed_record_nonce_def Let_def)
  show "snd q \<notin> id ` set (or_empty s (fst q)) \<Longrightarrow>
      fst ((case q of (url, n) \<Rightarrow> fed_record_nonce url n) s) \<and> (\<exists>P e. id e = snd q
        \<and> or_empty (snd ((case q of (url, n) \<Rightarrow> fed_record_nonce url n) s))
          = (or_empty s)(fst q := drain_half (filter P (or_empty s (fst q))) @ [e]))"
    by (cases q) (auto simp: fed_record_nonce_def Let_def or_empty_upd intro!: exI[of _ "\<lambda>_. True"])
qed

lemma record_all_alt: "record_all rs m = fold (\<lambda>q m. snd ((case q of (now, fp, n) \<Rightarrow> check_and_record_nonce_str now fp n) m)) rs m"
proof -
  have "(\<lambda>(now, fp, n) m. snd (check_and_record_nonce_str now fp n m))
      = (\<lambda>q m. snd ((case q of (now, fp, n) \<Rightarrow> check_and_record_nonce_str now fp n) m))"
    by (auto simp: fun_eq_iff)
  then show ?thesis by (simp add: record_all_def)
qed

lemma nonce_window_all:
  assumes "\<forall>k. length (or_empty m k) \<le> MAX_NONCES_PER_SENDER"
  shows "length (or_empty (record_all rs m) k) \<le> MAX_NONCES_PER_SENDER"
  using str_window.windows_bounded[OF assms] by (simp add: record_all_alt)

section \<open>Properties\<close>

definition demo_entry :: "string \<Rightarrow> int \<Rightarrow> MailboxEntry" where
  "demo_entry fp n =
     \<lparr>message_id = show_int n, signed_blob = ''b'', sender_nid = ''n'', sender_fp = fp, seq = n, stored_at = 0,
      delivery_status = 1, status_updated_at = 0, read_receipt_at = None\<rparr>"

text \<open>Whatever is stored, marked, removed or cleared, a mailbox holds at most 1000 messages and at
  most ten of one sender.\<close>

theorem mailbox_bounds:
  assumes "mailbox_reach mb"
  shows "length (entries mb) \<le> 1000 \<and> count_sender fp (entries mb) \<le> 10"
  using mailbox_reach_inv[OF assms] by (simp add: mailbox_inv_def MAX_MAILBOX_SIZE_def MAX_ENTRIES_PER_SENDER_def)

theorem mailbox_bounds_witness:
  "count_sender ''A'' (entries (mailbox_store (demo_entry ''A'' 1) (Mailbox_new MAX_MAILBOX_SIZE))) \<le> 10"
  using mailbox_bounds[of "mailbox_store (demo_entry ''A'' 1) (Mailbox_new MAX_MAILBOX_SIZE)" "''A''"]
  by (simp add: mailbox_reach.intros)

text \<open>C31: A flooding sender cannot flush a mailbox: however many messages one fingerprint stores, the
  messages of all other senders survive except for at most the ten oldest, in unchanged order.\<close>

theorem mailbox_flood_isolated:
  assumes "mailbox_reach mb" "list_all (\<lambda>e. sender_fp e = fp) es"
  shows "\<exists>k \<le> 10. filter (\<lambda>e. sender_fp e \<noteq> fp) (entries (fold mailbox_store es mb))
                  = drop k (filter (\<lambda>e. sender_fp e \<noteq> fp) (entries mb))"
proof -
  have "count_sender fp (entries mb) \<le> MAX_ENTRIES_PER_SENDER"
    using mailbox_reach_inv[OF assms(1)] by (simp add: mailbox_inv_def)
  from flood_others[OF assms(2) this] obtain k where "k + count_sender fp (entries mb) \<le> 10"
      "filter (\<lambda>e. sender_fp e \<noteq> fp) (entries (fold mailbox_store es mb)) = drop k (filter (\<lambda>e. sender_fp e \<noteq> fp) (entries mb))"
    by (auto simp: MAX_ENTRIES_PER_SENDER_def)
  then show ?thesis by (intro exI[of _ k]) simp
qed

theorem mailbox_flood_isolated_witness:
  "let mb = mailbox_store (demo_entry ''B'' 0) (Mailbox_new MAX_MAILBOX_SIZE)
   in \<exists>k. k \<le> 10 \<and> filter (\<lambda>e. sender_fp e \<noteq> ''A'') (entries (fold mailbox_store (replicate 50 (demo_entry ''A'' 1)) mb))
        = drop k (filter (\<lambda>e. sender_fp e \<noteq> ''A'') (entries mb))"
  using mailbox_flood_isolated[of "mailbox_store (demo_entry ''B'' 0) (Mailbox_new MAX_MAILBOX_SIZE)" "''A''"
      "replicate 50 (demo_entry ''A'' 1)"]
  by (simp add: mailbox_reach.intros demo_entry_def list_all_iff Let_def)

text \<open>An accepted nonce is refused when it is presented again, as long as no request in between is
  more than 300 seconds later than its acceptance and at most 500 of them are of the same sender; a
  window never holds more than 1000 nonces.\<close>

theorem nonce_window_retention:
  assumes "check_and_record_nonce_str t fp nonce m = (True, m')"
    and "\<forall>(now, f, n) \<in> set rs. now \<le> t + 300" "length (filter (\<lambda>(now, f, n). f = fp) rs) \<le> 500"
    and "\<forall>k. length (or_empty m k) \<le> 1000"
  shows "fst (check_and_record_nonce_str now fp nonce (record_all rs m')) = False
       \<and> length (or_empty (record_all rs m') k) \<le> 1000"
proof
  have "\<forall>k. length (or_empty m k) \<le> MAX_NONCES_PER_SENDER" using assms(4) by (simp add: MAX_NONCES_PER_SENDER_def)
  from str_window.window_bounded[OF this, of "(t, fp, nonce)"]
  have "\<forall>k. length (or_empty m' k) \<le> MAX_NONCES_PER_SENDER" using assms(1) by simp
  from nonce_window_all[OF this, of rs k] show "length (or_empty (record_all rs m') k) \<le> 1000"
    by (simp add: MAX_NONCES_PER_SENDER_def)
  have "\<exists>d'. held fp nonce t d' (record_all rs m')"
    using assms(2,3) by (intro held_record_all[OF held_record[OF assms(1)]])
      (simp_all add: STORE_TIMESTAMP_TOLERANCE_SECS_def)
  then show "fst (check_and_record_nonce_str now fp nonce (record_all rs m')) = False"
    using held_refused by blast
qed

theorem nonce_window_retention_witness:
  "fst (check_and_record_nonce_str 250 ''A'' ''n1'' (record_all [(200, ''A'', ''n2''), (250, ''B'', ''n1'')]
          (snd (check_and_record_nonce_str 0 ''A'' ''n1'' [])))) = False"
proof -
  have "check_and_record_nonce_str 0 ''A'' ''n1'' [] = (True, snd (check_and_record_nonce_str 0 ''A'' ''n1'' []))"
    by (simp add: check_and_record_nonce_str_def Let_def)
  from nonce_window_retention[OF this, of "[(200, ''A'', ''n2''), (250, ''B'', ''n1'')]" 250] show ?thesis by simp
qed

end
