(* ===== verification/RelayState.thy ===== *)
theory RelayState
  imports Mailbox CryptoHelpers Envelope
begin

text \<open>
  The state of a relay and its storage operations, \<open>relay/src/main.rs\<close>: the in-memory mailboxes and the
  SQLite table behind them, blind recipient tags, the verifying-key cache, HMAC checks, and the
  federation tables.

  \<open>relay_env\<close> carries what the code reads from outside: the primitives, the text of a floating-point
  number, AES-256-GCM, the truth value SQLite gives a text, and failures to take a lock. A query may fail
  (\<open>dbf\<close>, with its message). Clock readings are reals; \<open>as_secs\<close> truncates one as \<open>Duration::as_secs\<close> does.
  \<open>Instant\<close> readings are reals too. What only connection set-up or cover traffic reads (the connection
  limiters, known certificates, TLS and cover-traffic settings) is left out of the state. Rows of the table are a list in order of insertion.
\<close>

section \<open>Definitions\<close>

record ('vk, 'sg) relay_env =
  rc :: "('vk, 'sg) crypto"
  fmt_f64 :: "real \<Rightarrow> string"
  aes_gcm :: "bytes \<Rightarrow> bytes \<Rightarrow> bytes \<Rightarrow> bytes"
  sql_true :: "string \<Rightarrow> bool"
  write_lock_err :: "string option"
  read_lock_err :: "string option"

definition ROUTING_BUCKET_SECS :: u64 where "ROUTING_BUCKET_SECS = 60"
definition ROUTING_EPOCH_SECS :: u64 where "ROUTING_EPOCH_SECS = 3600"
definition FEDERATION_ROUTE_TTL_SECONDS :: real where "FEDERATION_ROUTE_TTL_SECONDS = 1800"
definition FEDERATION_PEER_TIMEOUT_SECONDS :: real where "FEDERATION_PEER_TIMEOUT_SECONDS = 300"
definition FEDERATION_MAX_RELAY_HOPS :: u8 where "FEDERATION_MAX_RELAY_HOPS = 5"

definition as_secs :: "real \<Rightarrow> u64" where "as_secs t = word_of_int \<lfloor>t\<rfloor>"

record MailboxStoreRequest =
  sr_recipient_nid :: string
  sr_signed_blob :: string
  sr_sender_nid :: string
  sr_sender_fp :: string
  sr_seq :: int
  sr_sender_sig :: string
  sr_timestamp :: real
  sr_nonce :: string
  sr_sender_cert :: string
  sr_sender_verifying_key :: string
  sr_sealed_sender :: string
  sr_recipient_tag :: string

subsection \<open>Federation tables\<close>

record FedPeerInfo =
  peer_url :: string
  peer_last_seen :: real
  authenticated :: bool
  peer_routes :: "string set"
  peer_sender :: "string list option"

record RouteEntry =
  route_url :: string
  route_expires_at :: real

record FederationState =
  peers :: "(string, FedPeerInfo) hmap"
  remote_routes :: "(string, RouteEntry) hmap"
  our_url :: "string option"
  fed_secret :: "string option"
  pending_challenges :: "(string, string \<times> int) hmap"
  fed_seen_nonces :: "(string, string list) hmap"

definition FederationState_new :: "string option \<Rightarrow> FederationState" where
  "FederationState_new secret =
     \<lparr>peers = [], remote_routes = [], our_url = None, fed_secret = secret, pending_challenges = [], fed_seen_nonces = []\<rparr>"

definition add_route :: "real \<Rightarrow> string \<Rightarrow> string \<Rightarrow> FederationState \<Rightarrow> FederationState" where
  "add_route now nid url fed =
     fed\<lparr>remote_routes := hm_insert nid \<lparr>route_url = url, route_expires_at = now + FEDERATION_ROUTE_TTL_SECONDS\<rparr> (remote_routes fed)\<rparr>"

definition lookup_route :: "string \<Rightarrow> FederationState \<Rightarrow> string option" where
  "lookup_route nid fed = map_option route_url (hm_get (remote_routes fed) nid)"

definition fed_add_peer :: "real \<Rightarrow> string \<Rightarrow> FederationState \<Rightarrow> FederationState" where
  "fed_add_peer now url fed =
     fed\<lparr>peers := hm_insert url \<lparr>peer_url = url, peer_last_seen = now, authenticated = False, peer_routes = {}, peer_sender = Some []\<rparr> (peers fed)\<rparr>"

text \<open>\<open>try_send\<close> appends to the peer's channel; \<open>room\<close> tells whether the channel takes the message.\<close>

definition send_to_peer :: "bool \<Rightarrow> string \<Rightarrow> string \<Rightarrow> FederationState \<Rightarrow> bool \<times> FederationState" where
  "send_to_peer room url msg fed =
     (case hm_get (peers fed) url of
        None \<Rightarrow> (False, fed)
      | Some p \<Rightarrow>
          (case peer_sender p of
             None \<Rightarrow> (False, fed)
           | Some q \<Rightarrow> if room then (True, fed\<lparr>peers := hm_insert url (p\<lparr>peer_sender := Some (q @ [msg])\<rparr>) (peers fed)\<rparr>)
                     else (False, fed)))"

definition cleanup_expired_routes :: "real \<Rightarrow> FederationState \<Rightarrow> FederationState" where
  "cleanup_expired_routes now fed =
     fed\<lparr>remote_routes := filter (\<lambda>(_, e). route_expires_at e > now) (remote_routes fed),
         peers := filter (\<lambda>(_, p). now - peer_last_seen p < FEDERATION_PEER_TIMEOUT_SECONDS) (peers fed)\<rparr>"

subsection \<open>The relay\<close>

record mailbox_row =
  row_recipient_nid :: string
  row_recipient_tag :: string
  row_signed_blob :: string
  row_sender_nid :: string
  row_sender_fp :: string
  row_seq :: int
  row_stored_at :: int
  row_delivered :: bool
  row_sender_encrypted :: string

record RelayState =
  mailboxes :: "(string, Mailbox) hmap"
  db_pool :: "mailbox_row list option"
  metadata_key :: bytes
  shared_secret :: "string option"
  seen_nonces :: "(string, int list) hmap"
  seen_nonce_strs :: "(string, (string \<times> int) list) hmap"
  federation :: FederationState
  verifying_key_cache :: "(string, string) hmap"
  allow_relay :: bool

text \<open>\<open>rows\<close> are the rows of the database file, if there is one; the metadata key comes from HKDF over the
  secret, or is random.\<close>

definition RelayState_new ::
    "(string \<Rightarrow> bytes) \<Rightarrow> bytes \<Rightarrow> string option \<Rightarrow> mailbox_row list option \<Rightarrow> bool \<Rightarrow> RelayState" where
  "RelayState_new hkdf_key random_key secret rows allow =
     \<lparr>mailboxes = [], db_pool = rows,
      metadata_key = (case secret of Some s \<Rightarrow> hkdf_key s | None \<Rightarrow> random_key),
      shared_secret = secret, seen_nonces = [], seen_nonce_strs = [], federation = FederationState_new secret,
      verifying_key_cache = [], allow_relay = allow\<rparr>"

definition sha256_hex :: "('vk, 'sg) relay_env \<Rightarrow> bytes \<Rightarrow> string" where
  "sha256_hex R data = hex_encode (sha256 (rc R) data)"

definition compute_hmac :: "('vk, 'sg) relay_env \<Rightarrow> string \<Rightarrow> string \<Rightarrow> string" where
  "compute_hmac R data secret = hex_encode (hmac_sha256 (rc R) (str_bytes secret) (str_bytes data))"

fun acc_xor :: "bytes \<Rightarrow> bytes \<Rightarrow> u8 \<Rightarrow> u8" where
  "acc_xor [] [] acc = acc"
| "acc_xor (c # cs) [] acc = acc_xor cs [] (acc OR (c XOR 0))"
| "acc_xor [] (p # ps) acc = acc_xor [] ps (acc OR (0 XOR p))"
| "acc_xor (c # cs) (p # ps) acc = acc_xor cs ps (acc OR (c XOR p))"

definition verify_hmac :: "('vk, 'sg) relay_env \<Rightarrow> string \<Rightarrow> string \<Rightarrow> string \<Rightarrow> bool" where
  "verify_hmac R data provided secret =
     (let computed_bytes = str_bytes (compute_hmac R data secret); provided_bytes = str_bytes provided;
          acc = acc_xor computed_bytes provided_bytes 0
      in acc OR (word_of_nat (length computed_bytes) XOR word_of_nat (length provided_bytes)) = 0)"

definition routing_epoch :: "u64 \<Rightarrow> u64" where
  "routing_epoch now_secs = now_secs div ROUTING_EPOCH_SECS"

definition recipient_tag :: "('vk, 'sg) relay_env \<Rightarrow> string option \<Rightarrow> string \<Rightarrow> u64 \<Rightarrow> string option" where
  "recipient_tag R secret nid epoch =
     map_option (compute_hmac R (nid @ ''|'' @ show_nat (unat epoch))) secret"

definition verify_recipient_tag ::
    "('vk, 'sg) relay_env \<Rightarrow> string option \<Rightarrow> string \<Rightarrow> u64 \<Rightarrow> string \<Rightarrow> (string, unit) result" where
  "verify_recipient_tag R relay_secret nid epoch client_tag =
     (case relay_secret of
        None \<Rightarrow> Inr ()
      | Some secret \<Rightarrow>
          let expected = compute_hmac R (nid @ ''|'' @ show_nat (unat epoch)) secret
          in if client_tag = [] then Inr ()
             else if expected \<noteq> client_tag then Inl ''recipient_tag verification failed''
             else Inr ())"

text \<open>The lookup of a verifying key and the check of a signature with it; a key sent along is recorded
  for a fingerprint seen for the first time.\<close>

definition verify_ml_dsa87_signature ::
    "('vk, 'sg) relay_env \<Rightarrow> string \<Rightarrow> string \<Rightarrow> string \<Rightarrow> string \<Rightarrow> (string, string) hmap
     \<Rightarrow> (string, bool) result \<times> (string, string) hmap" where
  "verify_ml_dsa87_signature R sig_b64 data fp provided cache =
     (if provided \<noteq> [] \<and> write_lock_err R \<noteq> None then (Inl (''verifying key cache write lock: '' @ the (write_lock_err R)), cache)
      else
        let cache1 = (if provided \<noteq> [] \<and> hm_get cache fp = None then hm_insert fp provided cache else cache)
        in (case read_lock_err R of
              Some e \<Rightarrow> Inl (''verifying key cache lock: '' @ e)
            | None \<Rightarrow>
            case b64_decode (rc R) sig_b64 of None \<Rightarrow> Inl ''base64 decode signature'' | Some sig_bytes \<Rightarrow>
            case hm_get cache1 fp of
              None \<Rightarrow> Inl (''no verifying key in cache for fingerprint '' @ fp @ '' - TOFU required'')
            | Some vk_b64 \<Rightarrow>
            case b64_decode (rc R) vk_b64 of None \<Rightarrow> Inl ''base64 decode verifying key'' | Some vk_bytes \<Rightarrow>
            case vk_from_slice (rc R) vk_bytes of None \<Rightarrow> Inl ''decode verifying key'' | Some vk \<Rightarrow>
            case encoded_sig (rc R) sig_bytes of None \<Rightarrow> Inl ''signature decode'' | Some enc \<Rightarrow>
            case sig_decode (rc R) enc of None \<Rightarrow> Inl ''invalid signature encoding'' | Some sg \<Rightarrow>
              pq_verify (rc R) (str_bytes data) sg vk,
            cache1))"

definition result_or :: "'a \<Rightarrow> ('e, 'a) result \<Rightarrow> 'a" where
  "result_or d r = (case r of Inl _ \<Rightarrow> d | Inr x \<Rightarrow> x)"

definition check_signature ::
    "('vk, 'sg) relay_env \<Rightarrow> string \<Rightarrow> string \<Rightarrow> string \<Rightarrow> string \<Rightarrow> RelayState \<Rightarrow> bool \<times> RelayState" where
  "check_signature R sig_b64 data fp vk st =
     (case verify_ml_dsa87_signature R sig_b64 data fp vk (verifying_key_cache st) of
        (r, cache) \<Rightarrow> (result_or False r, st\<lparr>verifying_key_cache := cache\<rparr>))"

definition store_signing_data :: "('vk, 'sg) relay_env \<Rightarrow> MailboxStoreRequest \<Rightarrow> string" where
  "store_signing_data R req =
     join_with ''|'' [sr_recipient_nid req, sr_sender_nid req, sr_sender_fp req, show_int (sr_seq req),
                      fmt_f64 R (sr_timestamp req), sr_nonce req]"

definition verify_store_signature ::
    "('vk, 'sg) relay_env \<Rightarrow> MailboxStoreRequest \<Rightarrow> RelayState \<Rightarrow> (string, unit) result \<times> RelayState" where
  "verify_store_signature R req st =
     (if sr_sender_sig req = [] then (Inl ''missing sender signature'', st)
      else if sr_sealed_sender req \<noteq> [] then
        (if sr_sender_nid req \<noteq> ''anonymous'' then (Inl (''sealed sender requires sender_nid='' @ [CHR 0x27] @ ''anonymous'' @ [CHR 0x27]), st)
         else if sr_sender_sig req = [] then (Inl ''sealed sender requires a non-empty signature'', st)
         else (Inr (), st))
      else case check_signature R (sr_sender_sig req) (store_signing_data R req) (sr_sender_fp req)
                  (sr_sender_verifying_key req) st of
             (verified, st1) \<Rightarrow>
               if \<not> verified then (Inl ''sender signature verification failed'', st1) else (Inr (), st1))"

definition check_timestamp_freshness :: "('vk, 'sg) relay_env \<Rightarrow> real \<Rightarrow> real \<Rightarrow> (string, unit) result" where
  "check_timestamp_freshness R now timestamp =
     (let age = now - timestamp
      in if \<bar>age\<bar> > real_of_int STORE_TIMESTAMP_TOLERANCE_SECS then
           Inl (''timestamp out of range: '' @ fmt_f64 R \<bar>age\<bar> @ ''s old (max '' @ fmt_f64 R 300 @ ''s)'')
         else Inr ())"

definition check_nonce :: "real \<Rightarrow> string \<Rightarrow> string \<Rightarrow> RelayState \<Rightarrow> bool \<times> RelayState" where
  "check_nonce now fp nonce st =
     (case check_and_record_nonce_str \<lfloor>now\<rfloor> fp nonce (seen_nonce_strs st) of
        (ok, m) \<Rightarrow> (ok, st\<lparr>seen_nonce_strs := m\<rparr>))"

definition encrypt_metadata :: "('vk, 'sg) relay_env \<Rightarrow> bytes \<Rightarrow> string \<Rightarrow> bytes \<Rightarrow> string" where
  "encrypt_metadata R nonce plaintext key = hex_encode (nonce @ aes_gcm R key nonce (str_bytes plaintext))"

subsection \<open>Storing and fetching\<close>

definition store_entry :: "('vk, 'sg) relay_env \<Rightarrow> u64 \<Rightarrow> MailboxStoreRequest \<Rightarrow> MailboxEntry" where
  "store_entry R sat req =
     \<lparr>message_id = sha256_hex R (str_bytes (sr_signed_blob req)), signed_blob = sr_signed_blob req,
      sender_nid = sr_sender_nid req, sender_fp = sr_sender_fp req, seq = sr_seq req, stored_at = sat,
      delivery_status = 1, status_updated_at = sat, read_receipt_at = None\<rparr>"

definition get_mailbox :: "(string, Mailbox) hmap \<Rightarrow> string \<Rightarrow> Mailbox" where
  "get_mailbox m k = (case hm_get m k of Some mb \<Rightarrow> mb | None \<Rightarrow> Mailbox_new MAX_MAILBOX_SIZE)"

text \<open>The clock is read once for the epoch and once for the stored time; \<open>rnd\<close> is the random AES nonce.\<close>

definition store_message ::
    "('vk, 'sg) relay_env \<Rightarrow> string option \<Rightarrow> bytes \<Rightarrow> real \<Rightarrow> real \<Rightarrow> MailboxStoreRequest \<Rightarrow> RelayState
     \<Rightarrow> (string, unit) result \<times> RelayState" where
  "store_message R dbf rnd t_epoch t_now req st =
     (let epoch = routing_epoch (as_secs t_epoch);
          tag = recipient_tag R (shared_secret st) (sr_recipient_nid req) epoch;
          mailbox_key = (case tag of Some t \<Rightarrow> t | None \<Rightarrow> sr_recipient_nid req);
          sat = (as_secs t_now div ROUTING_BUCKET_SECS) * ROUTING_BUCKET_SECS;
          st1 = st\<lparr>mailboxes := hm_insert mailbox_key
                    (mailbox_store (store_entry R sat req) (get_mailbox (mailboxes st) mailbox_key)) (mailboxes st)\<rparr>
      in case db_pool st of
           None \<Rightarrow> (Inr (), st1)
         | Some rows \<Rightarrow>
             let row = \<lparr>row_recipient_nid = (case tag of Some _ \<Rightarrow> [] | None \<Rightarrow> sr_recipient_nid req),
                        row_recipient_tag = (case tag of Some t \<Rightarrow> t | None \<Rightarrow> []),
                        row_signed_blob = sr_signed_blob req, row_sender_nid = sr_sender_nid req,
                        row_sender_fp = sr_sender_fp req, row_seq = sr_seq req, row_stored_at = sint sat,
                        row_delivered = False,
                        row_sender_encrypted = encrypt_metadata R rnd
                          (sr_sender_nid req @ [CHR 0x0A] @ sr_sender_fp req) (metadata_key st)\<rparr>
             in case dbf of
                  Some e \<Rightarrow> (Inl (''db store error: '' @ e), st1)
                | None \<Rightarrow> (Inr (), st1\<lparr>db_pool := Some (rows @ [row])\<rparr>))"

fun opt_list :: "'a option \<Rightarrow> 'a list" where
  "opt_list None = []"
| "opt_list (Some x) = [x]"

definition mailbox_keys :: "('vk, 'sg) relay_env \<Rightarrow> real \<Rightarrow> string \<Rightarrow> RelayState \<Rightarrow> string list" where
  "mailbox_keys R now nid st =
     (let epoch = routing_epoch (as_secs now);
          current = opt_list (recipient_tag R (shared_secret st) nid epoch);
          previous = (if epoch > 0 then opt_list (recipient_tag R (shared_secret st) nid (epoch - 1)) else [])
      in current @ previous @ [nid])"

definition row_for :: "string list \<Rightarrow> mailbox_row \<Rightarrow> bool" where
  "row_for ks row \<longleftrightarrow> row_recipient_tag row \<in> set ks \<or> row_recipient_nid row \<in> set ks"

definition row_entry :: "('vk, 'sg) relay_env \<Rightarrow> mailbox_row \<Rightarrow> MailboxEntry" where
  "row_entry R row =
     \<lparr>message_id = sha256_hex R (str_bytes (row_signed_blob row)), signed_blob = row_signed_blob row,
      sender_nid = row_sender_nid row, sender_fp = row_sender_fp row, seq = row_seq row,
      stored_at = word_of_int (row_stored_at row), delivery_status = 0,
      status_updated_at = word_of_int (row_stored_at row), read_receipt_at = None\<rparr>"

text \<open>\<open>ORDER BY seq\<close>; rows of one sequence number are taken in order of insertion.\<close>

definition select_rows :: "('vk, 'sg) relay_env \<Rightarrow> string list \<Rightarrow> mailbox_row list \<Rightarrow> MailboxEntry list" where
  "select_rows R ks rows = map (row_entry R) (sort_key row_seq (filter (\<lambda>r. row_for ks r \<and> \<not> row_delivered r) rows))"

fun first_nonempty :: "u64 \<Rightarrow> string list \<Rightarrow> (string, Mailbox) hmap \<Rightarrow> MailboxEntry list" where
  "first_nonempty now [] m = []"
| "first_nonempty now (k # ks) m =
     (case hm_get m k of
        None \<Rightarrow> first_nonempty now ks m
      | Some mb \<Rightarrow> let e = fetch_all now mb in if e \<noteq> [] then e else first_nonempty now ks m)"

definition fetch_messages ::
    "('vk, 'sg) relay_env \<Rightarrow> string option \<Rightarrow> real \<Rightarrow> real \<Rightarrow> string \<Rightarrow> RelayState \<Rightarrow> MailboxEntry list" where
  "fetch_messages R dbf t_keys t_fetch nid st =
     (let ks = mailbox_keys R t_keys nid st;
          from_db = (case db_pool st of
                       None \<Rightarrow> []
                     | Some rows \<Rightarrow> (case dbf of Some _ \<Rightarrow> [] | None \<Rightarrow> select_rows R ks rows))
      in if from_db \<noteq> [] then from_db else first_nonempty (as_secs t_fetch) ks (mailboxes st))"

definition ack_entry :: "u64 \<Rightarrow> MailboxEntry \<Rightarrow> MailboxEntry" where
  "ack_entry now e = e\<lparr>delivery_status := 2, status_updated_at := now\<rparr>"

definition update_mailbox :: "(Mailbox \<Rightarrow> Mailbox) \<Rightarrow> string \<Rightarrow> (string, Mailbox) hmap \<Rightarrow> (string, Mailbox) hmap" where
  "update_mailbox f k m = (case hm_get m k of None \<Rightarrow> m | Some mb \<Rightarrow> hm_insert k (f mb) m)"

definition update_rows :: "string option \<Rightarrow> (mailbox_row list \<Rightarrow> mailbox_row list) \<Rightarrow> RelayState \<Rightarrow> RelayState" where
  "update_rows dbf f st = (case dbf of Some _ \<Rightarrow> st | None \<Rightarrow> st\<lparr>db_pool := map_option f (db_pool st)\<rparr>)"

definition ack_message ::
    "('vk, 'sg) relay_env \<Rightarrow> string option \<Rightarrow> real \<Rightarrow> real \<Rightarrow> string \<Rightarrow> int \<Rightarrow> RelayState \<Rightarrow> RelayState" where
  "ack_message R dbf t_keys t_now nid sq st =
     (let ks = mailbox_keys R t_keys nid st;
          ack = (\<lambda>mb. mb\<lparr>entries := update_first (\<lambda>e. seq e = sq) (ack_entry (as_secs t_now)) (entries mb)\<rparr>);
          st1 = st\<lparr>mailboxes := fold (update_mailbox ack) ks (mailboxes st)\<rparr>
      in update_rows dbf (map (\<lambda>r. if row_for ks r \<and> row_seq r = sq \<and> \<not> row_delivered r
                                then r\<lparr>row_delivered := True\<rparr> else r)) st1)"

text \<open>The last element of the second list of the statement is the value of \<open>k AND sender_fp = ?\<close>, the
  text \<open>1\<close> or \<open>0\<close> when it is compared with a text column.\<close>

definition purge_row :: "('vk, 'sg) relay_env \<Rightarrow> string list \<Rightarrow> string option \<Rightarrow> mailbox_row \<Rightarrow> bool" where
  "purge_row R ks fp_filter row \<longleftrightarrow>
     row_recipient_tag row \<in> set ks
     \<or> (case fp_filter of
          None \<Rightarrow> row_recipient_nid row \<in> set ks
        | Some fp \<Rightarrow> row_recipient_nid row \<in> set (butlast ks)
            \<or> row_recipient_nid row = (if sql_true R (last ks) \<and> row_sender_fp row = fp then ''1'' else ''0''))"

definition purge_all_messages ::
    "('vk, 'sg) relay_env \<Rightarrow> string option \<Rightarrow> real \<Rightarrow> string \<Rightarrow> string option \<Rightarrow> RelayState \<Rightarrow> RelayState" where
  "purge_all_messages R dbf t_keys nid fp_filter st =
     (let ks = mailbox_keys R t_keys nid st;
          keep = (\<lambda>mb. mb\<lparr>entries := filter (\<lambda>e. case fp_filter of Some fp \<Rightarrow> sender_fp e \<noteq> fp | None \<Rightarrow> True) (entries mb)\<rparr>);
          purge = (\<lambda>k m. case hm_get m k of Some mb \<Rightarrow> hm_insert k (keep mb) m | None \<Rightarrow> hm_remove k m);
          st1 = st\<lparr>mailboxes := fold purge ks (mailboxes st)\<rparr>
      in update_rows dbf (filter (\<lambda>r. \<not> purge_row R ks fp_filter r)) st1)"

definition cleanup_expired :: "string option \<Rightarrow> real \<Rightarrow> RelayState \<Rightarrow> RelayState" where
  "cleanup_expired dbf now st =
     (let n = as_secs now;
          m1 = map (\<lambda>(k, mb). (k, mb\<lparr>entries := filter (\<lambda>e. n - stored_at e < MAILBOX_TTL_SECONDS) (entries mb)\<rparr>)) (mailboxes st);
          m2 = filter (\<lambda>(_, mb). entries mb \<noteq> []) m1;
          cutoff = sint (n - MAILBOX_TTL_SECONDS)
      in update_rows dbf (filter (\<lambda>r. \<not> (row_stored_at r < cutoff \<and> row_delivered r))) (st\<lparr>mailboxes := m2\<rparr>))"

definition get_local_null_ids :: "RelayState \<Rightarrow> string set" where
  "get_local_null_ids st = set (hm_keys (mailboxes st))"

section \<open>Lemmas\<close>

subsection \<open>HMAC comparison\<close>

lemma or_zero_iff: "(a :: u8) OR b = 0 \<longleftrightarrow> a = 0 \<and> b = 0"
proof
  assume "a OR b = 0"
  then have "\<not> bit (a OR b) n" for n by simp
  then show "a = 0 \<and> b = 0" by (auto intro!: bit_eqI simp: bit_or_iff)
qed simp

text \<open>The accumulator stays zero exactly when the shorter text padded with NUL bytes equals the longer.\<close>

lemma acc_xor_zero:
  "acc_xor cs ps acc = 0 \<longleftrightarrow>
     acc = 0 \<and> cs @ replicate (length ps - length cs) 0 = ps @ replicate (length cs - length ps) 0"
  by (induction cs ps acc rule: acc_xor.induct) (auto simp: or_zero_iff)

lemma word_of_nat_u8_eq: "(word_of_nat a :: u8) = word_of_nat b \<longleftrightarrow> a mod 256 = b mod 256"
  by (simp add: word_of_nat_eq_iff take_bit_eq_mod)

lemma compute_hmac_no_nul: "0 \<notin> set (str_bytes (compute_hmac R data secret))"
proof
  assume "0 \<in> set (str_bytes (compute_hmac R data secret))"
  then obtain c where c: "c \<in> set (compute_hmac R data secret)" "word_of_nat (of_char c) = (0 :: u8)"
    by (auto simp: str_bytes_def)
  have "is_ascii_hexdigit c"
    using c(1) hex_encode_hexdigits[of "hmac_sha256 (rc R) (str_bytes secret) (str_bytes data)"]
    by (auto simp: compute_hmac_def list_all_iff)
  with c(2) show False
    by (auto simp: is_ascii_hexdigit_def word_of_nat_eq_0_iff Let_def dest!: dvd_imp_le)
qed

lemma bytes_str_replicate_0: "bytes_str (replicate n 0) = replicate n (CHR 0x00)"
proof -
  have "char_of (0 :: nat) = CHR 0x00" by code_simp
  then show ?thesis by (simp add: bytes_str_def)
qed

lemma verify_hmac_iff:
  "verify_hmac R data provided secret
    \<longleftrightarrow> (\<exists>k. provided = compute_hmac R data secret @ replicate (256 * k) (CHR 0x00))"
proof -
  let ?c = "str_bytes (compute_hmac R data secret)" and ?p = "str_bytes provided"
  have "verify_hmac R data provided secret \<longleftrightarrow>
      ?c @ replicate (length ?p - length ?c) 0 = ?p @ replicate (length ?c - length ?p) 0
      \<and> length ?c mod 256 = length ?p mod 256"
    by (simp add: verify_hmac_def Let_def or_zero_iff acc_xor_zero word_of_nat_u8_eq)
  also have "\<dots> \<longleftrightarrow> (\<exists>k. ?p = ?c @ replicate (256 * k) 0)"
  proof
    assume a: "?c @ replicate (length ?p - length ?c) 0 = ?p @ replicate (length ?c - length ?p) 0
      \<and> length ?c mod 256 = length ?p mod 256"
    have "length ?c \<le> length ?p"
    proof (rule ccontr)
      assume "\<not> length ?c \<le> length ?p"
      with a have "?c = ?p @ replicate (length ?c - length ?p) 0" "0 < length ?c - length ?p" by simp_all
      then have "0 \<in> set ?c" by (metis Un_iff in_set_replicate neq0_conv set_append)
      with compute_hmac_no_nul show False by blast
    qed
    then have p: "?p = ?c @ replicate (length ?p - length ?c) 0" using a by simp
    have "256 dvd length ?p - length ?c" using a \<open>length ?c \<le> length ?p\<close> by (metis mod_eq_dvd_iff_nat)
    then obtain k where "length ?p - length ?c = 256 * k" by auto
    with p show "\<exists>k. ?p = ?c @ replicate (256 * k) 0" by metis
  next
    assume "\<exists>k. ?p = ?c @ replicate (256 * k) 0"
    then obtain k where k: "?p = ?c @ replicate (256 * k) 0" by blast
    from arg_cong[OF k, of length] have "length ?p = length ?c + 256 * k" by simp
    with k show "?c @ replicate (length ?p - length ?c) 0 = ?p @ replicate (length ?c - length ?p) 0
      \<and> length ?c mod 256 = length ?p mod 256" by simp
  qed
  also have "\<dots> \<longleftrightarrow> (\<exists>k. provided = compute_hmac R data secret @ replicate (256 * k) (CHR 0x00))"
    by (metis bytes_str_bytes bytes_str_replicate_0 str_bytes_append str_bytes_inj str_bytes_str)
  finally show ?thesis .
qed

subsection \<open>Mailbox keys\<close>

lemma routing_epoch_unat: "unat (routing_epoch n) = unat n div 3600"
  by (simp add: routing_epoch_def ROUTING_EPOCH_SECS_def unat_div)

lemma routing_epoch_less: "unat (routing_epoch n) < 2 ^ 63"
proof -
  have "unat n div 3600 \<le> (2 ^ 64 - 1) div 3600" using unat_bound[of n] by (intro div_le_mono) simp
  also have "\<dots> < (2 :: nat) ^ 63" by simp
  finally show ?thesis by (simp add: routing_epoch_unat)
qed

lemma routing_epoch_succ: "routing_epoch n + 1 > 0"
proof -
  have "unat (routing_epoch n + 1) = Suc (unat (routing_epoch n))"
    using routing_epoch_less[of n] by (intro succ_no_wrap[of _ "2 ^ 63"]) (simp add: word_less_nat_alt)
  then show ?thesis by (simp add: word_less_nat_alt)
qed

lemma tag_in_mailbox_keys:
  assumes "shared_secret st = Some s" "routing_epoch (as_secs t) = routing_epoch n \<or> routing_epoch (as_secs t) = routing_epoch n + 1"
  shows "compute_hmac R (nid @ ''|'' @ show_nat (unat (routing_epoch n))) s \<in> set (mailbox_keys R t nid st)"
  using assms routing_epoch_succ[of n] by (auto simp: mailbox_keys_def recipient_tag_def Let_def)

lemma nid_in_mailbox_keys: "nid \<in> set (mailbox_keys R t nid st)"
  unfolding mailbox_keys_def Let_def by auto

lemma mailbox_keys_cong: "shared_secret st' = shared_secret st \<Longrightarrow> mailbox_keys R t nid st' = mailbox_keys R t nid st"
  by (simp add: mailbox_keys_def Let_def)

lemma mailbox_keys_no_secret: "shared_secret st = None \<Longrightarrow> mailbox_keys R t nid st = [nid]"
  by (simp add: mailbox_keys_def recipient_tag_def Let_def)

lemma mailbox_keys_hd:
  "shared_secret st = Some s \<Longrightarrow>
   mailbox_keys R t nid st = compute_hmac R (nid @ ''|'' @ show_nat (unat (routing_epoch (as_secs t)))) s # tl (mailbox_keys R t nid st)"
  by (simp add: mailbox_keys_def recipient_tag_def Let_def)

lemma shared_secret_ops [simp]:
  "shared_secret (snd (store_message R dbf rnd te tn req st)) = shared_secret st"
  "shared_secret (ack_message R dbf tk tn nid sq st) = shared_secret st"
  by (simp_all add: store_message_def ack_message_def update_rows_def Let_def split: option.splits)

lemma select_rows_set: "set (select_rows R ks rows) = row_entry R ` {r \<in> set rows. row_for ks r \<and> \<not> row_delivered r}"
  by (simp add: select_rows_def)

lemma bucket_age: "n - (n div ROUTING_BUCKET_SECS) * ROUTING_BUCKET_SECS < MAILBOX_TTL_SECONDS"
proof -
  have "n - (n div 60) * 60 = n mod 60" by (simp add: minus_div_mult_eq_mod)
  moreover have "n mod 60 < (60 :: u64)" by (rule word_mod_less_divisor) simp
  ultimately show ?thesis
    by (simp add: ROUTING_BUCKET_SECS_def MAILBOX_TTL_SECONDS_def order.strict_trans)
qed

lemma store_entry_fields [simp]:
  "signed_blob (store_entry R a req) = sr_signed_blob req" "seq (store_entry R a req) = sr_seq req"
  "stored_at (store_entry R a req) = a" "sender_fp (store_entry R a req) = sr_sender_fp req"
  "message_id (store_entry R a req) = sha256_hex R (str_bytes (sr_signed_blob req))"
  by (simp_all add: store_entry_def)

definition store_key :: "('vk, 'sg) relay_env \<Rightarrow> real \<Rightarrow> MailboxStoreRequest \<Rightarrow> RelayState \<Rightarrow> string" where
  "store_key R t req st =
     (case recipient_tag R (shared_secret st) (sr_recipient_nid req) (routing_epoch (as_secs t)) of
        Some k \<Rightarrow> k | None \<Rightarrow> sr_recipient_nid req)"

lemma store_message_mailboxes:
  "mailboxes (snd (store_message R dbf rnd te tn req st))
   = hm_insert (store_key R te req st)
       (mailbox_store (store_entry R ((as_secs tn div ROUTING_BUCKET_SECS) * ROUTING_BUCKET_SECS) req)
          (get_mailbox (mailboxes st) (store_key R te req st))) (mailboxes st)"
  by (simp add: store_message_def store_key_def Let_def split: option.splits)

lemma store_key_in_keys:
  assumes "shared_secret st = None \<or> routing_epoch (as_secs t) = routing_epoch (as_secs te)
            \<or> routing_epoch (as_secs t) = routing_epoch (as_secs te) + 1"
  shows "store_key R te req st \<in> set (mailbox_keys R t (sr_recipient_nid req) st)"
proof (cases "shared_secret st")
  case None
  then show ?thesis by (simp add: store_key_def recipient_tag_def nid_in_mailbox_keys)
next
  case (Some s)
  with assms tag_in_mailbox_keys[OF Some, of t "as_secs te"] show ?thesis
    by (simp add: store_key_def recipient_tag_def)
qed

lemma store_key_first:
  assumes "shared_secret st = None \<or> routing_epoch (as_secs t) = routing_epoch (as_secs te)"
  shows "\<exists>ks. mailbox_keys R t (sr_recipient_nid req) st = store_key R te req st # ks"
proof (cases "shared_secret st")
  case None
  then show ?thesis by (simp add: store_key_def recipient_tag_def mailbox_keys_no_secret)
next
  case (Some s)
  with assms mailbox_keys_hd[OF Some, of R t "sr_recipient_nid req"] show ?thesis
    by (auto simp: store_key_def recipient_tag_def)
qed

lemma fold_update_mailbox:
  assumes "\<And>mb. Q mb \<Longrightarrow> Q (f mb)" "\<exists>mb. hm_get m k = Some mb \<and> Q mb"
  shows "\<exists>mb. hm_get (fold (update_mailbox f) ks m) k = Some mb \<and> Q mb"
  using assms(2)
proof (induction ks arbitrary: m)
  case (Cons k' ks)
  have "\<exists>mb. hm_get (update_mailbox f k' m) k = Some mb \<and> Q mb"
    using Cons.prems assms(1) by (auto simp: update_mailbox_def split: option.splits)
  from Cons.IH[OF this] show ?case by simp
qed simp

lemma map_update_first: "(\<And>x. g (f x) = g x) \<Longrightarrow> map g (update_first P f xs) = map g xs"
  by (induction xs) auto

lemma mailbox_store_last: "e \<in> set (entries (mailbox_store e mb))"
  by (simp add: mailbox_store_def Let_def)

subsection \<open>Invariant of the relay\<close>

definition boxes_ok :: "(string, Mailbox) hmap \<Rightarrow> bool" where
  "boxes_ok m \<longleftrightarrow> list_all (\<lambda>(k, mb). mailbox_inv mb \<and> max_size mb = MAX_MAILBOX_SIZE) m"

lemma boxes_ok_insert: "boxes_ok m \<Longrightarrow> mailbox_inv mb \<and> max_size mb = MAX_MAILBOX_SIZE \<Longrightarrow> boxes_ok (hm_insert k mb m)"
  by (induction m) (auto simp: boxes_ok_def hm_insert_def)

lemma boxes_ok_filter: "boxes_ok m \<Longrightarrow> boxes_ok (filter P m)"
  by (auto simp: boxes_ok_def list_all_iff)

lemma boxes_ok_remove: "boxes_ok m \<Longrightarrow> boxes_ok (hm_remove k m)"
  by (simp add: hm_remove_def AList.delete_eq boxes_ok_filter)

lemma boxes_ok_get: "boxes_ok m \<Longrightarrow> hm_get m k = Some mb \<Longrightarrow> mailbox_inv mb \<and> max_size mb = MAX_MAILBOX_SIZE"
  by (force simp: boxes_ok_def list_all_iff hm_get_def dest: map_of_SomeD)

lemma boxes_ok_map:
  "boxes_ok m \<Longrightarrow> (\<And>mb. mailbox_inv mb \<Longrightarrow> mailbox_inv (f mb) \<and> max_size (f mb) = max_size mb)
   \<Longrightarrow> boxes_ok (map (\<lambda>(k, mb). (k, f mb)) m)"
  by (auto simp: boxes_ok_def list_all_iff)

lemma boxes_ok_fold: "(\<And>k m. boxes_ok m \<Longrightarrow> boxes_ok (g k m)) \<Longrightarrow> boxes_ok m \<Longrightarrow> boxes_ok (fold g ks m)"
  by (induction ks arbitrary: m) auto

lemma boxes_ok_update_mailbox:
  assumes "\<And>mb. mailbox_inv mb \<Longrightarrow> mailbox_inv (f mb) \<and> max_size (f mb) = max_size mb" "boxes_ok m"
  shows "boxes_ok (update_mailbox f k m)"
  using assms boxes_ok_get[OF assms(2), of k]
  by (auto simp: update_mailbox_def split: option.splits intro!: boxes_ok_insert)

lemma mailbox_inv_filter: "mailbox_inv mb \<Longrightarrow> mailbox_inv (mb\<lparr>entries := filter P (entries mb)\<rparr>)"
proof -
  assume mb: "mailbox_inv mb"
  have "count_sender fp (filter P es) \<le> count_sender fp es" for fp es
    by (induction es) auto
  then show ?thesis using mb by (auto simp: mailbox_inv_def intro: order_trans[OF length_filter_le] order_trans)
qed

lemma mailbox_inv_ack: "mailbox_inv mb \<Longrightarrow> mailbox_inv (mb\<lparr>entries := update_first P (ack_entry n) (entries mb)\<rparr>)"
  by (simp add: mailbox_inv_def ack_entry_def)

lemma mailbox_new_ok: "mailbox_inv (Mailbox_new MAX_MAILBOX_SIZE)" "max_size (Mailbox_new MAX_MAILBOX_SIZE) = MAX_MAILBOX_SIZE"
  by (simp_all add: mailbox_inv_def Mailbox_new_def)

lemma boxes_ok_store:
  assumes "boxes_ok (mailboxes st)"
  shows "boxes_ok (mailboxes (snd (store_message R dbf rnd te tn req st)))"
proof -
  let ?mb = "get_mailbox (mailboxes st) (store_key R te req st)"
  have "mailbox_inv ?mb \<and> max_size ?mb = MAX_MAILBOX_SIZE"
    using boxes_ok_get[OF assms] mailbox_new_ok by (cases "hm_get (mailboxes st) (store_key R te req st)") (simp_all add: get_mailbox_def)
  then show ?thesis
    using assms by (simp add: store_message_mailboxes boxes_ok_insert mailbox_inv_store MAX_MAILBOX_SIZE_def)
qed

lemma mailboxes_update_rows [simp]: "mailboxes (update_rows dbf f st) = mailboxes st"
  by (simp add: update_rows_def split: option.splits)

lemma boxes_ok_ack: "boxes_ok (mailboxes st) \<Longrightarrow> boxes_ok (mailboxes (ack_message R dbf tk tn nid sq st))"
  by (auto simp: ack_message_def Let_def mailbox_inv_ack intro!: boxes_ok_fold boxes_ok_update_mailbox)

lemma boxes_ok_purge:
  assumes "boxes_ok (mailboxes st)"
  shows "boxes_ok (mailboxes (purge_all_messages R dbf tk nid fp st))"
proof -
  have "boxes_ok (case hm_get m k of
      None \<Rightarrow> hm_remove k m | Some mb \<Rightarrow> hm_insert k (mb\<lparr>entries := filter P (entries mb)\<rparr>) m)" if "boxes_ok m" for k m P
    using boxes_ok_get[OF that, of k] mailbox_inv_filter that
    by (auto simp: boxes_ok_remove split: option.splits intro!: boxes_ok_insert)
  then show ?thesis
    using assms by (auto simp: purge_all_messages_def Let_def intro!: boxes_ok_fold)
qed

lemma boxes_ok_cleanup: "boxes_ok (mailboxes st) \<Longrightarrow> boxes_ok (mailboxes (cleanup_expired dbf now st))"
  by (auto simp: cleanup_expired_def Let_def mailbox_inv_filter intro!: boxes_ok_filter boxes_ok_map)

lemma boxes_ok_remove_message:
  "boxes_ok m \<Longrightarrow> boxes_ok (update_mailbox (\<lambda>mb. snd (remove_message mid mb)) k m)"
  by (auto intro!: boxes_ok_update_mailbox mailbox_inv_remove)

lemma boxes_ok_mark_read:
  "boxes_ok m \<Longrightarrow> boxes_ok (update_mailbox (\<lambda>mb. snd (mark_read mid now mb)) k m)"
  by (auto simp: mark_read_def intro!: boxes_ok_update_mailbox mailbox_inv_update)

subsection \<open>A small relay\<close>

definition toy_relay :: "(nat, nat) relay_env" where
  "toy_relay =
     \<lparr>rc = toy_crypto\<lparr>dsa_verify := \<lambda>vk d s. s = vk\<rparr>, fmt_f64 = \<lambda>_. ''0'', aes_gcm = \<lambda>k n p. p, sql_true = \<lambda>_. False,
      write_lock_err = None, read_lock_err = None\<rparr>"

definition toy_request :: MailboxStoreRequest where
  "toy_request =
     \<lparr>sr_recipient_nid = ''bob'', sr_signed_blob = ''hi'', sr_sender_nid = ''alice'', sr_sender_fp = ''AA'', sr_seq = 7,
      sr_sender_sig = ''s'', sr_timestamp = 0, sr_nonce = ''n'', sr_sender_cert = [], sr_sender_verifying_key = ''k'',
      sr_sealed_sender = [], sr_recipient_tag = []\<rparr>"

definition toy_state :: "string option \<Rightarrow> mailbox_row list option \<Rightarrow> RelayState" where
  "toy_state secret rows = RelayState_new (\<lambda>_. []) [] secret rows True"

lemma toy_state_simps [simp]:
  "shared_secret (toy_state s r) = s" "mailboxes (toy_state s r) = []" "db_pool (toy_state s r) = r"
  by (simp_all add: toy_state_def RelayState_new_def)

lemma store_message_ok: "fst (store_message R None rnd te tn req st) = Inr ()"
  by (simp add: store_message_def Let_def split: option.splits)

text \<open>A stored message is among those fetched.\<close>

lemma stored_is_fetched:
  assumes "store_message R None rnd te tn req st = (Inr (), st')"
    and "(\<exists>rows. db_pool st = Some rows) \<and> (shared_secret st = None \<or> routing_epoch (as_secs t) = routing_epoch (as_secs te)
            \<or> routing_epoch (as_secs t) = routing_epoch (as_secs te) + 1)
         \<or> db_pool st = None \<and> (shared_secret st = None \<or> routing_epoch (as_secs t) = routing_epoch (as_secs te))
            \<and> as_secs tf - (as_secs tn div 60) * 60 < 604800"
  shows "\<exists>e. e \<in> set (fetch_messages R None t tf (sr_recipient_nid req) st') \<and> signed_blob e = sr_signed_blob req
           \<and> seq e = sr_seq req \<and> sender_fp e = sr_sender_fp req"
  using assms(2)
proof
  assume a: "(\<exists>rows. db_pool st = Some rows) \<and> (shared_secret st = None \<or> routing_epoch (as_secs t) = routing_epoch (as_secs te)
            \<or> routing_epoch (as_secs t) = routing_epoch (as_secs te) + 1)"
  then obtain rows where rows: "db_pool st = Some rows" by blast
  let ?ks = "mailbox_keys R t (sr_recipient_nid req) st'"
  have sec: "shared_secret st' = shared_secret st" using assms(1) shared_secret_ops(1)[of R None rnd te tn req st] by simp
  then have "store_key R te req st \<in> set ?ks" using store_key_in_keys a by (metis mailbox_keys_cong)
  then obtain row where row: "db_pool st' = Some (rows @ [row])" "row_for ?ks row" "\<not> row_delivered row"
      "row_signed_blob row = sr_signed_blob req" "row_seq row = sr_seq req" "row_sender_fp row = sr_sender_fp req"
    using assms(1) rows by (auto simp: store_message_def store_key_def row_for_def Let_def split: option.splits)
  then have "row_entry R row \<in> set (select_rows R ?ks (rows @ [row]))" by (auto simp: select_rows_set)
  then have "row_entry R row \<in> set (fetch_messages R None t tf (sr_recipient_nid req) st')"
    using row(1) by (auto simp: fetch_messages_def Let_def)
  with row show ?thesis by (auto simp: row_entry_def)
next
  assume a: "db_pool st = None \<and> (shared_secret st = None \<or> routing_epoch (as_secs t) = routing_epoch (as_secs te))
            \<and> as_secs tf - (as_secs tn div 60) * 60 < 604800"
  let ?e = "store_entry R ((as_secs tn div ROUTING_BUCKET_SECS) * ROUTING_BUCKET_SECS) req"
  have sec: "shared_secret st' = shared_secret st" using assms(1) shared_secret_ops(1)[of R None rnd te tn req st] by simp
  obtain ks where ks: "mailbox_keys R t (sr_recipient_nid req) st' = store_key R te req st # ks"
    using store_key_first[of st t te R req] a mailbox_keys_cong[OF sec, of R t "sr_recipient_nid req"] by (metis (no_types))
  obtain mb where mb: "hm_get (mailboxes st') (store_key R te req st) = Some mb" "?e \<in> set (entries mb)"
    using store_message_mailboxes[of R None rnd te tn req st] assms(1) mailbox_store_last by auto
  then have "?e \<in> set (fetch_all (as_secs tf) mb)"
    using a by (simp add: fetch_all_def ROUTING_BUCKET_SECS_def MAILBOX_TTL_SECONDS_def)
  moreover have "db_pool st' = None" using assms(1) a by (auto simp: store_message_def Let_def split: option.splits)
  ultimately have "?e \<in> set (fetch_messages R None t tf (sr_recipient_nid req) st')"
    using mb(1) ks by (auto simp: fetch_messages_def Let_def)
  then show ?thesis by (intro exI[of _ ?e]) simp
qed

section \<open>Properties\<close>

text \<open>C29: A stored message is delivered: with a database, a fetch in the epoch of the store or the next
  one returns it; without one, a fetch in the epoch of the store within its lifetime does. Without a
  shared secret the epoch does not matter.\<close>

theorem relay_store_then_fetch:
  assumes "store_message R None rnd te tn req st = (Inr (), st')"
    and "(\<exists>rows. db_pool st = Some rows) \<and> (shared_secret st = None \<or> routing_epoch (as_secs t) = routing_epoch (as_secs te)
            \<or> routing_epoch (as_secs t) = routing_epoch (as_secs te) + 1)
         \<or> db_pool st = None \<and> (shared_secret st = None \<or> routing_epoch (as_secs t) = routing_epoch (as_secs te))
            \<and> as_secs tf - (as_secs tn div 60) * 60 < 604800"
  shows "\<exists>e. e \<in> set (fetch_messages R None t tf (sr_recipient_nid req) st') \<and> signed_blob e = sr_signed_blob req
           \<and> seq e = sr_seq req \<and> sender_fp e = sr_sender_fp req"
  using assms by (rule stored_is_fetched)

theorem relay_store_then_fetch_witness:
  "\<exists>e. e \<in> set (fetch_messages toy_relay None 4000 4000 ''bob''
        (snd (store_message toy_relay None [] 0 0 toy_request (toy_state (Some ''s'') (Some []))))) \<and> signed_blob e = ''hi''"
proof -
  have e: "routing_epoch (as_secs 4000) = routing_epoch (as_secs 0) + 1"
    by (simp add: as_secs_def routing_epoch_def ROUTING_EPOCH_SECS_def)
  have "store_message toy_relay None [] 0 0 toy_request (toy_state (Some ''s'') (Some []))
      = (Inr (), snd (store_message toy_relay None [] 0 0 toy_request (toy_state (Some ''s'') (Some []))))"
    by (metis prod.collapse store_message_ok)
  from relay_store_then_fetch[OF this, of 4000 4000] e show ?thesis by (auto simp: toy_request_def)
qed

lemma first_nonempty_cong: "(\<And>k. k \<in> set ks \<Longrightarrow> hm_get m k = hm_get m' k) \<Longrightarrow> first_nonempty now ks m = first_nonempty now ks m'"
  by (induction ks) (auto simp: Let_def split: option.splits)

text \<open>C33: With blind tags a message is out of reach from the second epoch after its store on, although it is kept for
  seven days: whatever the relay holds, the recipient's fetch then returns exactly what it would have returned had the
  message not been stored. The tag the message was stored under must differ from the recipient's identifier and from
  the tags of the two epochs the fetch looks up, and none of these may be empty.\<close>

theorem blind_tag_message_unreachable:
  assumes "shared_secret st = Some s" "store_message R dbf rnd te tn req st = (res, st')"
    and "unat (routing_epoch (as_secs te)) + 2 \<le> unat (routing_epoch (as_secs t))"
    and "\<forall>e \<in> {routing_epoch (as_secs t), routing_epoch (as_secs t) - 1}. compute_hmac R (sr_recipient_nid req @ ''|'' @ show_nat (unat e)) s \<noteq> []
      \<and> (e \<noteq> routing_epoch (as_secs te) \<longrightarrow> compute_hmac R (sr_recipient_nid req @ ''|'' @ show_nat (unat e)) s
           \<noteq> compute_hmac R (sr_recipient_nid req @ ''|'' @ show_nat (unat (routing_epoch (as_secs te)))) s)"
    and "compute_hmac R (sr_recipient_nid req @ ''|'' @ show_nat (unat (routing_epoch (as_secs te)))) s \<noteq> sr_recipient_nid req"
    and "sr_recipient_nid req \<noteq> []"
  shows "fetch_messages R dbf' t tf (sr_recipient_nid req) st' = fetch_messages R dbf' t tf (sr_recipient_nid req) st"
proof -
  let ?nid = "sr_recipient_nid req" and ?e = "routing_epoch (as_secs te)" and ?E = "routing_epoch (as_secs t)"
  let ?h = "\<lambda>e. compute_hmac R (?nid @ ''|'' @ show_nat (unat e)) s"
  have st': "st' = snd (store_message R dbf rnd te tn req st)" using assms(2) by simp
  have sec: "shared_secret st' = shared_secret st" unfolding st' by (rule shared_secret_ops(1))
  have "?E > 0" using assms(3) by (simp add: word_less_nat_alt)
  then have keys: "mailbox_keys R t ?nid st = [?h ?E, ?h (?E - 1), ?nid]"
    using assms(1) by (simp add: mailbox_keys_def recipient_tag_def Let_def)
  have keys': "mailbox_keys R t ?nid st' = mailbox_keys R t ?nid st" unfolding mailbox_keys_def sec by (rule refl)
  have "unat (?E - 1) = unat ?E - 1" using \<open>?E > 0\<close> by (simp add: unat_minus_one word_gt_0)
  then have neq: "?E \<noteq> ?e" "?E - 1 \<noteq> ?e" using assms(3) by auto
  have key: "store_key R te req st = ?h ?e" using assms(1) by (simp add: store_key_def recipient_tag_def)
  have out: "?h ?e \<notin> set (mailbox_keys R t ?nid st)" "[] \<notin> set (mailbox_keys R t ?nid st)"
    unfolding keys using assms(4-6) neq by auto
  have "first_nonempty (as_secs tf) (mailbox_keys R t ?nid st) (mailboxes st')
      = first_nonempty (as_secs tf) (mailbox_keys R t ?nid st) (mailboxes st)"
    unfolding st' store_message_mailboxes key using out(1) by (intro first_nonempty_cong) auto
  moreover have "(case db_pool st' of None \<Rightarrow> [] | Some rows \<Rightarrow> select_rows R (mailbox_keys R t ?nid st) rows)
      = (case db_pool st of None \<Rightarrow> [] | Some rows \<Rightarrow> select_rows R (mailbox_keys R t ?nid st) rows)"
    unfolding st' using out assms(1)
    by (auto simp: store_message_def recipient_tag_def select_rows_def row_for_def Let_def split: option.split)
  moreover have "(db_pool st' = None) = (db_pool st = None)"
    unfolding st' by (simp add: store_message_def Let_def split: option.split)
  ultimately show ?thesis unfolding fetch_messages_def keys' Let_def by (auto split: option.splits)
qed

theorem blind_tag_message_unreachable_witness:
  "fetch_messages toy_relay None 7200 7200 ''bob'' (snd (store_message toy_relay None [] 0 0 toy_request (toy_state (Some ''s'') (Some []))))
     = fetch_messages toy_relay None 7200 7200 ''bob'' (toy_state (Some ''s'') (Some []))"
proof -
  let ?st = "toy_state (Some ''s'') (Some [])"
  have h: "compute_hmac toy_relay d ''s'' = hex_encode (str_bytes d)" for d
    by (simp add: compute_hmac_def toy_relay_def toy_crypto_def)
  have e: "routing_epoch (as_secs 0) = 0" "routing_epoch (as_secs 7200) = 2"
    by (simp_all add: as_secs_def routing_epoch_def ROUTING_EPOCH_SECS_def)
  have "store_message toy_relay None [] 0 0 toy_request ?st = (Inr (), snd (store_message toy_relay None [] 0 0 toy_request ?st))"
    by (metis prod.collapse store_message_ok)
  note un = blind_tag_message_unreachable[OF _ this, of "''s''" 7200 None 7200]
  have b: "sr_recipient_nid toy_request = ''bob''" by (simp add: toy_request_def)
  have len: "length (hex_encode (str_bytes (''bob'' @ ''|'' @ show_nat n))) = 8 + 2 * length (show_nat n)" for n by simp
  have long: "hex_encode (str_bytes (''bob'' @ ''|'' @ show_nat n)) \<noteq> t" if "length t < 8" for n t using len[of n] that by auto
  show ?thesis
  proof (rule un[unfolded b h e])
    show "\<forall>ep \<in> {2, 2 - 1}. hex_encode (str_bytes (''bob'' @ ''|'' @ show_nat (unat (ep :: u64)))) \<noteq> []
      \<and> (ep \<noteq> 0 \<longrightarrow> hex_encode (str_bytes (''bob'' @ ''|'' @ show_nat (unat ep)))
           \<noteq> hex_encode (str_bytes (''bob'' @ ''|'' @ show_nat (unat (0 :: u64)))))"
      using long[of "[]"] by (auto dest!: hex_encode_inj str_bytes_inj show_nat_inj)
    show "hex_encode (str_bytes (''bob'' @ ''|'' @ show_nat (unat (0 :: u64)))) \<noteq> ''bob''" by (rule long) simp
  qed simp_all
qed

text \<open>With a database, an acknowledged message is delivered again: the acknowledgement hides its row,
  and the fetch then falls back to the memory copy, which ignores the delivery status.\<close>

theorem acked_message_delivered_again:
  assumes "mailboxes st = []" "db_pool st = Some []" "store_message R None rnd t t req st = (Inr (), st')"
  shows "map signed_blob (fetch_messages R None t t (sr_recipient_nid req)
           (ack_message R None t t (sr_recipient_nid req) (sr_seq req) st')) = [sr_signed_blob req]"
proof -
  let ?nid = "sr_recipient_nid req" and ?k = "store_key R t req st" and ?at = "(as_secs t div ROUTING_BUCKET_SECS) * ROUTING_BUCKET_SECS"
  let ?st'' = "ack_message R None t t ?nid (sr_seq req) st'"
  let ?Q = "\<lambda>mb. map (\<lambda>e. (signed_blob e, stored_at e)) (entries mb) = [(sr_signed_blob req, ?at)]"
  have sec: "shared_secret st' = shared_secret st" using assms(3) shared_secret_ops(1)[of R None rnd t t req st] by simp
  then have sec2: "shared_secret ?st'' = shared_secret st" by simp
  obtain ks where ks: "mailbox_keys R t ?nid st = ?k # ks" using store_key_first[of st t t R req] by blast
  have "\<exists>mb. hm_get (mailboxes st') ?k = Some mb \<and> ?Q mb"
    using store_message_mailboxes[of R None rnd t t req st] assms(1,3)
    by (simp add: get_mailbox_def mailbox_store_def Mailbox_new_def MAX_ENTRIES_PER_SENDER_def MAX_MAILBOX_SIZE_def)
  then have "\<exists>mb. hm_get (mailboxes ?st'') ?k = Some mb \<and> ?Q mb"
    by (auto simp: ack_message_def Let_def map_update_first ack_entry_def intro!: fold_update_mailbox)
  then obtain e where e: "signed_blob e = sr_signed_blob req" "stored_at e = ?at"
      "\<exists>mb. hm_get (mailboxes ?st'') ?k = Some mb \<and> entries mb = [e]" by (auto simp: map_eq_Cons_conv)
  have k: "?k \<in> set (mailbox_keys R t ?nid st')" using ks mailbox_keys_cong[OF sec, of R t ?nid] by simp
  obtain row where row: "db_pool st' = Some [row]" "row_seq row = sr_seq req" "row_for (mailbox_keys R t ?nid st') row"
    using assms(2,3) k by (auto simp: store_message_def store_key_def row_for_def Let_def split: option.splits)
  then have "db_pool ?st'' = Some [row\<lparr>row_delivered := True\<rparr>]"
    by (auto simp: ack_message_def update_rows_def Let_def)
  then have "fetch_messages R None t t ?nid ?st'' = first_nonempty (as_secs t) (mailbox_keys R t ?nid ?st'') (mailboxes ?st'')"
    by (simp add: fetch_messages_def select_rows_def Let_def)
  also have "\<dots> = [e]"
    using e(2,3) bucket_age[of "as_secs t"] ks mailbox_keys_cong[OF sec2, of R t ?nid] by (auto simp: fetch_all_def Let_def)
  finally show ?thesis using e(1) by simp
qed

theorem acked_message_delivered_again_witness:
  "map signed_blob (fetch_messages toy_relay None 0 0 ''bob'' (ack_message toy_relay None 0 0 ''bob'' 7
      (snd (store_message toy_relay None [] 0 0 toy_request (toy_state (Some ''s'') (Some [])))))) = [''hi'']"
  using acked_message_delivered_again[of "toy_state (Some ''s'') (Some [])" toy_relay "[]" 0 toy_request]
    store_message_ok[of toy_relay "[]" 0 0 toy_request "toy_state (Some ''s'') (Some [])"]
  by (simp add: prod_eq_iff toy_request_def)

text \<open>The HMAC comparison accepts exactly the computed text, followed by a multiple of 256 NUL
  characters: lengths are compared modulo 256 and a missing byte counts as zero.\<close>

theorem verify_hmac_exact:
  "verify_hmac R data provided secret
    = (\<exists>k. provided = compute_hmac R data secret @ replicate (256 * k) (CHR 0x00))"
  by (rule verify_hmac_iff)

end
