(* ===== verification/RelayHandlers.thy ===== *)
theory RelayHandlers
  imports RelayState
begin

text \<open>
  The message handlers of the relay, one per arm of \<open>handle_message\<close> in \<open>relay/src/main.rs\<close>. A handler
  returns its error or reply, and the new state; \<open>then_ok\<close> is the \<open>?\<close> operator. The payload is given as
  serde_json parsed it (or failed to); \<open>tm 0\<close>, \<open>tm 1\<close>, ... are the successive clock readings of one call.
  A handler runs without interleaving, also across the random delay of the store.
\<close>

section \<open>Definitions\<close>

datatype Reply =
    OkEmpty
  | Entries "MailboxEntry list"
  | Statuses "(string \<times> (u8 \<times> u64 \<times> u64 option) option) list"
  | AdvertiseAck string "string set"
  | RouteFound string string
  | PeerAuthReplied string string
  | ForwardAck "string option"
  | ReceiptAck "string list"
  | DeleteAck
  | Pong
  | NoReply

type_synonym 'a step = "(string, 'a) result \<times> RelayState"

definition parsed :: "string \<Rightarrow> (string, 'a) result \<Rightarrow> RelayState \<Rightarrow> 'a step" where
  "parsed what r st = (case r of Inl e \<Rightarrow> (Inl (what @ e), st) | Inr x \<Rightarrow> (Inr x, st))"

definition ensure :: "bool \<Rightarrow> string \<Rightarrow> RelayState \<Rightarrow> unit step" where
  "ensure ok msg st = (if ok then (Inr (), st) else (Inl msg, st))"

definition ensure_signature ::
    "('vk, 'sg) relay_env \<Rightarrow> string \<Rightarrow> string \<Rightarrow> string \<Rightarrow> string \<Rightarrow> string \<Rightarrow> RelayState \<Rightarrow> unit step" where
  "ensure_signature R msg sig_b64 data fp vk st =
     (case check_signature R sig_b64 data fp vk st of (ok, st1) \<Rightarrow> ensure ok msg st1)"

definition ensure_nonce :: "real \<Rightarrow> string \<Rightarrow> string \<Rightarrow> RelayState \<Rightarrow> unit step" where
  "ensure_nonce now fp nonce st =
     (case check_nonce now fp nonce st of (ok, st1) \<Rightarrow> ensure ok ''replay detected: nonce already seen'' st1)"

definition ensure_hmac :: "('vk, 'sg) relay_env \<Rightarrow> string \<Rightarrow> string \<Rightarrow> string \<Rightarrow> RelayState \<Rightarrow> unit step" where
  "ensure_hmac R msg data auth st =
     ensure (case shared_secret st of None \<Rightarrow> True | Some secret \<Rightarrow> verify_hmac R data auth secret) msg st"

definition relay_store ::
    "('vk, 'sg) relay_env \<Rightarrow> string option \<Rightarrow> bytes \<Rightarrow> (nat \<Rightarrow> real) \<Rightarrow> (string, MailboxStoreRequest) result
     \<Rightarrow> RelayState \<Rightarrow> Reply step" where
  "relay_store R dbf rnd tm rq st0 =
     then_ok (parsed ''invalid store request: '' rq st0) (\<lambda>req st.
     then_ok (verify_store_signature R req st) (\<lambda>_ st.
     then_ok (check_timestamp_freshness R (tm 0) (sr_timestamp req), st) (\<lambda>_ st.
     then_ok (ensure_nonce (tm 1) (sr_sender_fp req) (sr_nonce req) st) (\<lambda>_ st.
     then_ok (verify_recipient_tag R (shared_secret st) (sr_recipient_nid req) (routing_epoch (as_secs (tm 2)))
                (sr_recipient_tag req), st) (\<lambda>_ st.
     then_ok (store_message R dbf rnd (tm 3) (tm 4) req st) (\<lambda>_ st.
       (Inr OkEmpty, st)))))))"

record MailboxFetchRequest =
  fr_recipient_nid :: string
  fr_auth_hmac :: string
  fr_sender_sig :: string
  fr_requester_fp :: string
  fr_timestamp :: real
  fr_nonce :: string
  fr_requester_verifying_key :: string

definition relay_fetch ::
    "('vk, 'sg) relay_env \<Rightarrow> string option \<Rightarrow> (nat \<Rightarrow> real) \<Rightarrow> (string, MailboxFetchRequest) result \<Rightarrow> RelayState \<Rightarrow> Reply step" where
  "relay_fetch R dbf tm rq st0 =
     then_ok (parsed ''invalid fetch request: '' rq st0) (\<lambda>req st.
     then_ok (ensure (\<not> (fr_sender_sig req = [] \<or> fr_requester_fp req = [])) ''fetch request missing sender signature'' st) (\<lambda>_ st.
     then_ok (check_timestamp_freshness R (tm 0) (fr_timestamp req), st) (\<lambda>_ st.
     then_ok (ensure (compute_null_id (rc R) (fr_requester_fp req) = fr_recipient_nid req)
                ''fetch denied: null_id does not match requester fingerprint'' st) (\<lambda>_ st.
     then_ok (ensure_signature R ''fetch denied: ML-DSA-87 signature verification failed'' (fr_sender_sig req)
                (''relay-fetch:'' @ fr_recipient_nid req @ '':'' @ fmt_f64 R (fr_timestamp req) @ '':'' @ fr_nonce req)
                (fr_requester_fp req) (fr_requester_verifying_key req) st) (\<lambda>_ st.
     then_ok (ensure_nonce (tm 1) (fr_requester_fp req) (fr_requester_fp req @ '':'' @ fr_nonce req) st) (\<lambda>_ st.
     then_ok (ensure_hmac R ''HMAC authentication failed'' (fr_recipient_nid req) (fr_auth_hmac req) st) (\<lambda>_ st.
       (Inr (Entries (fetch_messages R dbf (tm 2) (tm 3) (fr_recipient_nid req) st)), st))))))))"

record RelayStatusRequest = MailboxFetchRequest +
  message_ids :: "string list"

definition status_of :: "string \<Rightarrow> Mailbox \<Rightarrow> (u8 \<times> u64 \<times> u64 option) option" where
  "status_of mid mb =
     map_option (\<lambda>e. (delivery_status e, status_updated_at e, read_receipt_at e)) (find (\<lambda>e. message_id e = mid) (entries mb))"

definition relay_status ::
    "('vk, 'sg) relay_env \<Rightarrow> (nat \<Rightarrow> real) \<Rightarrow> (string, RelayStatusRequest) result \<Rightarrow> RelayState \<Rightarrow> Reply step" where
  "relay_status R tm rq st0 =
     then_ok (parsed ''invalid status request: '' rq st0) (\<lambda>req st.
     then_ok (check_timestamp_freshness R (tm 0) (fr_timestamp req), st) (\<lambda>_ st.
     then_ok (ensure_nonce (tm 1) (fr_requester_fp req) (''status:'' @ fr_requester_fp req @ '':'' @ fr_nonce req) st) (\<lambda>_ st.
     then_ok (ensure_signature R ''status request signature verification failed'' (fr_sender_sig req)
                (''relay-status:'' @ fr_recipient_nid req @ '':'' @ fmt_f64 R (fr_timestamp req) @ '':'' @ fr_nonce req)
                (fr_requester_fp req) (fr_requester_verifying_key req) st) (\<lambda>_ st.
     then_ok (ensure (compute_null_id (rc R) (fr_requester_fp req) = fr_recipient_nid req)
                ''status denied: null_id does not match requester fingerprint'' st) (\<lambda>_ st.
     then_ok (ensure_hmac R ''HMAC authentication failed'' (fr_recipient_nid req) (fr_auth_hmac req) st) (\<lambda>_ st.
       (Inr (Statuses (case hm_get (mailboxes st) (fr_recipient_nid req) of
                         None \<Rightarrow> []
                       | Some mb \<Rightarrow> map (\<lambda>mid. (mid, status_of mid mb)) (message_ids req))), st)))))))"

text \<open>The fields of an acknowledgement and of a purge are read one by one, with an empty default.\<close>

record AckRequest = MailboxFetchRequest +
  ack_seq :: int

definition relay_ack ::
    "('vk, 'sg) relay_env \<Rightarrow> string option \<Rightarrow> (nat \<Rightarrow> real) \<Rightarrow> AckRequest \<Rightarrow> RelayState \<Rightarrow> Reply step" where
  "relay_ack R dbf tm req st0 =
     then_ok (ensure (\<not> (fr_sender_sig req = [] \<or> fr_requester_fp req = [])) ''ack request missing sender signature'' st0) (\<lambda>_ st.
     then_ok (check_timestamp_freshness R (tm 0) (fr_timestamp req), st) (\<lambda>_ st.
     then_ok (ensure (compute_null_id (rc R) (fr_requester_fp req) = fr_recipient_nid req)
                ''ack denied: null_id does not match requester fingerprint'' st) (\<lambda>_ st.
     then_ok (ensure_signature R ''ack denied: ML-DSA-87 signature verification failed'' (fr_sender_sig req)
                (''relay-ack:'' @ fr_recipient_nid req @ '':'' @ show_int (ack_seq req) @ '':'' @ fmt_f64 R (fr_timestamp req)
                 @ '':'' @ fr_nonce req) (fr_requester_fp req) (fr_requester_verifying_key req) st) (\<lambda>_ st.
     then_ok (ensure_nonce (tm 1) (fr_requester_fp req) (fr_requester_fp req @ '':'' @ fr_nonce req) st) (\<lambda>_ st.
       (Inr OkEmpty, ack_message R dbf (tm 2) (tm 3) (fr_recipient_nid req) (ack_seq req) st))))))"

definition relay_purge ::
    "('vk, 'sg) relay_env \<Rightarrow> string option \<Rightarrow> (nat \<Rightarrow> real) \<Rightarrow> MailboxFetchRequest \<Rightarrow> RelayState \<Rightarrow> Reply step" where
  "relay_purge R dbf tm req st0 =
     then_ok (ensure_hmac R ''purge denied: HMAC verification failed''
                (''relay-purge:'' @ fr_recipient_nid req @ '':'' @ fmt_f64 R (fr_timestamp req)) (fr_auth_hmac req) st0) (\<lambda>_ st.
     then_ok (ensure (\<not> (fr_requester_fp req = [] \<or> fr_sender_sig req = []))
                ''purge: missing requester fingerprint or signature'' st) (\<lambda>_ st.
     then_ok (check_timestamp_freshness R (tm 0) (fr_timestamp req), st) (\<lambda>_ st.
     then_ok (ensure (compute_null_id (rc R) (fr_requester_fp req) = fr_recipient_nid req)
                ''purge denied: null_id does not match requester fingerprint'' st) (\<lambda>_ st.
     then_ok (ensure_signature R ''purge denied: ML-DSA-87 signature verification failed'' (fr_sender_sig req)
                (''relay-purge:'' @ fr_recipient_nid req @ '':'' @ fmt_f64 R (fr_timestamp req) @ '':'' @ fr_nonce req)
                (fr_requester_fp req) (fr_requester_verifying_key req) st) (\<lambda>_ st.
     then_ok (ensure_nonce (tm 1) (fr_requester_fp req) (''purge:'' @ fr_requester_fp req @ '':'' @ fr_nonce req) st) (\<lambda>_ st.
       (Inr OkEmpty, purge_all_messages R dbf (tm 2) (fr_recipient_nid req) (Some (fr_requester_fp req)) st)))))))"

record RelayDeleteRequest =
  dl_message_id :: string
  dl_recipient_nid :: string
  dl_recipient_fp :: string
  dl_signature :: string
  dl_timestamp :: real
  dl_nonce :: string
  dl_recipient_verifying_key :: string

record RelayReadReceipt = RelayDeleteRequest +
  other_relays :: "string list"

text \<open>The reply of a receipt names the relays to which the receipt and a delete request are then sent.\<close>

definition relay_read_receipt ::
    "('vk, 'sg) relay_env \<Rightarrow> string option \<Rightarrow> (nat \<Rightarrow> real) \<Rightarrow> (string, RelayReadReceipt) result \<Rightarrow> RelayState \<Rightarrow> Reply step" where
  "relay_read_receipt R dbf tm rq st0 =
     then_ok (parsed ''invalid read-receipt: '' rq st0) (\<lambda>req st.
     then_ok (ensure_signature R ''read receipt signature verification failed'' (dl_signature req)
                (dl_message_id req @ ''|'' @ dl_recipient_nid req @ ''|'' @ fmt_f64 R (dl_timestamp req))
                (dl_recipient_fp req) (dl_recipient_verifying_key req) st) (\<lambda>_ st.
     then_ok (ensure_nonce (tm 0) (dl_recipient_fp req) (''read:'' @ dl_recipient_fp req @ '':'' @ dl_nonce req) st) (\<lambda>_ st.
     then_ok (check_timestamp_freshness R (tm 1) (dl_timestamp req), st) (\<lambda>_ st.
       (Inr (ReceiptAck (other_relays req)),
        update_rows dbf (map (\<lambda>r. if row_recipient_nid r = dl_recipient_nid req \<and> row_signed_blob r = dl_message_id req
                               then r\<lparr>row_delivered := True\<rparr> else r))
          (st\<lparr>mailboxes := update_mailbox (\<lambda>mb. snd (mark_read (dl_message_id req) (as_secs (tm 2)) mb))
                             (dl_recipient_nid req) (mailboxes st)\<rparr>))))))"

definition relay_delete ::
    "('vk, 'sg) relay_env \<Rightarrow> string option \<Rightarrow> (nat \<Rightarrow> real) \<Rightarrow> (string, RelayDeleteRequest) result \<Rightarrow> RelayState \<Rightarrow> Reply step" where
  "relay_delete R dbf tm rq st0 =
     then_ok (parsed ''invalid delete request: '' rq st0) (\<lambda>req st.
     then_ok (ensure_signature R ''delete request signature verification failed'' (dl_signature req)
                (dl_message_id req @ ''|'' @ dl_recipient_nid req @ ''|'' @ fmt_f64 R (dl_timestamp req))
                (dl_recipient_fp req) (dl_recipient_verifying_key req) st) (\<lambda>_ st.
     then_ok (ensure_nonce (tm 0) (dl_recipient_fp req) (''delete:'' @ dl_recipient_fp req @ '':'' @ dl_nonce req) st) (\<lambda>_ st.
     then_ok (check_timestamp_freshness R (tm 1) (dl_timestamp req), st) (\<lambda>_ st.
       (Inr DeleteAck,
        update_rows dbf (filter (\<lambda>r. \<not> (row_recipient_nid r = dl_recipient_nid req \<and> row_signed_blob r = dl_message_id req)))
          (st\<lparr>mailboxes := update_mailbox (\<lambda>mb. snd (remove_message (dl_message_id req) mb))
                             (dl_recipient_nid req) (mailboxes st)\<rparr>))))))"

subsection \<open>Federation\<close>

definition update_fed :: "(FederationState \<Rightarrow> FederationState) \<Rightarrow> RelayState \<Rightarrow> RelayState" where
  "update_fed f st = st\<lparr>federation := f (federation st)\<rparr>"

definition update_peer :: "(FedPeerInfo \<Rightarrow> FedPeerInfo) \<Rightarrow> string \<Rightarrow> FederationState \<Rightarrow> FederationState" where
  "update_peer f url fed =
     (case hm_get (peers fed) url of None \<Rightarrow> fed | Some p \<Rightarrow> fed\<lparr>peers := hm_insert url (f p) (peers fed)\<rparr>)"

definition learn_routes :: "(nat \<Rightarrow> real) \<Rightarrow> string \<Rightarrow> string list \<Rightarrow> FederationState \<Rightarrow> FederationState" where
  "learn_routes tm url nids fed =
     update_peer (\<lambda>p. p\<lparr>peer_last_seen := tm (length nids)\<rparr>) url
       (fold (\<lambda>(i, nid). add_route (tm i) nid url) (enumerate 0 nids) fed)"

text \<open>An advertisement: the URL and the identifiers it lists (an absent or malformed list is empty).\<close>

definition route_advertise ::
    "(nat \<Rightarrow> real) \<Rightarrow> (string, string \<times> string list) result \<Rightarrow> RelayState \<Rightarrow> Reply step" where
  "route_advertise tm rq st =
     (if fed_secret (federation st) = None then (Inr NoReply, st)
      else then_ok (parsed ''invalid route-advertise: '' rq st) (\<lambda>(url, nids) st.
        let st1 = update_fed (learn_routes tm url nids) st
        in (Inr (AdvertiseAck (unwrap_or [] (our_url (federation st1))) (get_local_null_ids st1)), st1)))"

definition route_advertise_ack :: "(nat \<Rightarrow> real) \<Rightarrow> string \<times> string list \<Rightarrow> RelayState \<Rightarrow> Reply step" where
  "route_advertise_ack tm rq st = (case rq of (url, nids) \<Rightarrow> (Inr NoReply, update_fed (learn_routes tm url nids) st))"

definition who_has :: "(string, string) result \<Rightarrow> RelayState \<Rightarrow> Reply step" where
  "who_has rq st0 =
     then_ok (parsed ''invalid who-has: '' rq st0) (\<lambda>nid st.
       (Inr (if nid \<in> get_local_null_ids st then RouteFound nid (unwrap_or [] (our_url (federation st)))
             else case lookup_route nid (federation st) of Some url \<Rightarrow> RouteFound nid url | None \<Rightarrow> NoReply), st))"

definition peer_auth ::
    "('vk, 'sg) relay_env \<Rightarrow> real \<Rightarrow> (string, string \<times> string) result \<Rightarrow> RelayState \<Rightarrow> Reply step" where
  "peer_auth R now rq st =
     (case fed_secret (federation st) of
        None \<Rightarrow> (Inr NoReply, st)
      | Some secret \<Rightarrow>
          then_ok (parsed ''invalid peer-auth: '' rq st) (\<lambda>(challenge, url) st.
            let st1 = update_fed (\<lambda>fed. fed\<lparr>pending_challenges := hm_insert url (challenge, \<lfloor>now\<rfloor>) (pending_challenges fed)\<rparr>) st
            in (Inr (PeerAuthReplied (compute_hmac R challenge secret) (unwrap_or [] (our_url (federation st1)))), st1)))"

definition peer_auth_reply ::
    "('vk, 'sg) relay_env \<Rightarrow> real \<Rightarrow> (string, string \<times> string) result \<Rightarrow> RelayState \<Rightarrow> Reply step" where
  "peer_auth_reply R now rq st =
     (case fed_secret (federation st) of
        None \<Rightarrow> (Inr NoReply, st)
      | Some secret \<Rightarrow>
          then_ok (parsed ''invalid peer-auth-reply: '' rq st) (\<lambda>(response, url) st.
            (case hm_get (pending_challenges (federation st)) url of
               None \<Rightarrow> (Inr NoReply, st)
             | Some (challenge, created_at) \<Rightarrow>
                 let st1 = update_fed (\<lambda>fed. fed\<lparr>pending_challenges := hm_remove url (pending_challenges fed)\<rparr>) st
                 in if \<lfloor>now\<rfloor> - created_at > 300 then (Inl ''challenge expired'', st1)
                    else if compute_hmac R challenge secret = response then
                      (Inr NoReply, update_fed (update_peer (\<lambda>p. p\<lparr>authenticated := True\<rparr>) url) st1)
                    else (Inr NoReply, st1))))"

record RelayForward =
  fw_recipient_nid :: string
  fw_signed_blob :: string
  fw_sender_nid :: string
  fw_sender_fp :: string
  fw_seq :: int
  fw_sender_sig :: string
  fw_timestamp :: real
  fw_nonce :: int
  fw_hop_count :: u8
  fw_via :: "string list"
  fw_source_relay_url :: string
  fw_source_relay_cert :: string
  fw_source_relay_sig :: string
  fw_source_relay_fp :: string
  fw_sender_cert :: string
  fw_sender_verifying_key :: string

definition forward_request :: "('vk, 'sg) relay_env \<Rightarrow> real \<Rightarrow> RelayForward \<Rightarrow> RelayState \<Rightarrow> MailboxStoreRequest" where
  "forward_request R now fw st =
     \<lparr>sr_recipient_nid = fw_recipient_nid fw, sr_signed_blob = fw_signed_blob fw, sr_sender_nid = fw_sender_nid fw,
      sr_sender_fp = fw_sender_fp fw, sr_seq = fw_seq fw, sr_sender_sig = fw_sender_sig fw,
      sr_timestamp = fw_timestamp fw, sr_nonce = show_int (fw_nonce fw), sr_sender_cert = [],
      sr_sender_verifying_key = [], sr_sealed_sender = [],
      sr_recipient_tag = unwrap_or [] (recipient_tag R (shared_secret st) (fw_recipient_nid fw) (routing_epoch (as_secs now)))\<rparr>"

definition peer_unauthenticated :: "string \<Rightarrow> FederationState \<Rightarrow> bool" where
  "peer_unauthenticated url fed =
     (fed_secret fed \<noteq> None \<and> (case hm_get (peers fed) url of None \<Rightarrow> False | Some p \<Rightarrow> \<not> authenticated p))"

definition relay_forward ::
    "('vk, 'sg) relay_env \<Rightarrow> string option \<Rightarrow> bytes \<Rightarrow> (nat \<Rightarrow> real) \<Rightarrow> (string, RelayForward) result \<Rightarrow> RelayState \<Rightarrow> Reply step" where
  "relay_forward R dbf rnd tm rq st =
     (if fed_secret (federation st) = None then (Inr NoReply, st)
      else if \<not> allow_relay st then (Inr (ForwardAck (Some ''relay does not accept transit forwarding (edge mode)'')), st)
      else then_ok (parsed ''invalid relay-forward: '' rq st) (\<lambda>fw st.
        if peer_unauthenticated (fw_source_relay_url fw) (federation st) then
          (Inr (ForwardAck (Some (''peer not authenticated '' @ [CHR 0xE2, CHR 0x80, CHR 0x94]
             @ '' HMAC challenge-response required''))), st)
        else if unwrap_or [] (our_url (federation st)) \<in> set (fw_via fw) then (Inr (ForwardAck (Some ''loop detected'')), st)
        else if fw_hop_count fw \<ge> FEDERATION_MAX_RELAY_HOPS then (Inr (ForwardAck (Some ''max hop count exceeded'')), st)
        else
          let req = forward_request R (tm 0) fw st
          in then_ok (verify_store_signature R req st) (\<lambda>_ st.
             then_ok (check_timestamp_freshness R (tm 1) (sr_timestamp req), st) (\<lambda>_ st.
             then_ok (ensure_nonce (tm 2) (sr_sender_fp req) (sr_nonce req) st) (\<lambda>_ st.
             then_ok (store_message R dbf rnd (tm 3) (tm 4) req st) (\<lambda>_ st.
               (Inr (ForwardAck None), st)))))))"

text \<open>The message an entry relay sends on for an onion packet; \<open>encode\<close> is the JSON serializer.\<close>

definition onion_forward :: "real \<Rightarrow> real \<Rightarrow> string \<Rightarrow> string option \<Rightarrow> RelayForward" where
  "onion_forward t1 t2 ciphertext url =
     \<lparr>fw_recipient_nid = [], fw_signed_blob = ciphertext, fw_sender_nid = ''onion'', fw_sender_fp = [], fw_seq = 0,
      fw_sender_sig = [], fw_timestamp = t1, fw_nonce = \<lfloor>t2\<rfloor>, fw_hop_count = 1, fw_via = [],
      fw_source_relay_url = unwrap_or [] url, fw_source_relay_cert = [], fw_source_relay_sig = [], fw_source_relay_fp = [],
      fw_sender_cert = [], fw_sender_verifying_key = []\<rparr>"

definition onion_v1 ::
    "(RelayForward \<Rightarrow> (string, string) result) \<Rightarrow> bool \<Rightarrow> (nat \<Rightarrow> real) \<Rightarrow> string \<Rightarrow> string \<Rightarrow> RelayState \<Rightarrow> Reply step" where
  "onion_v1 encode room tm exit_relay_url ciphertext st0 =
     then_ok (ensure (\<not> (exit_relay_url = [] \<or> ciphertext = [])) ''onion-v1: missing exit_relay_url or ciphertext'' st0) (\<lambda>_ st.
     then_ok (parsed ''onion forward serialize: '' (encode (onion_forward (tm 0) (tm 1) ciphertext (our_url (federation st)))) st)
       (\<lambda>json st. (Inr OkEmpty, update_fed (\<lambda>fed. snd (send_to_peer room exit_relay_url json fed)) st)))"

subsection \<open>Dispatch\<close>

datatype RelayMessage =
    RelayStore "(string, MailboxStoreRequest) result"
  | RelayFetch "(string, MailboxFetchRequest) result"
  | RelayStatus "(string, RelayStatusRequest) result"
  | RelayAck AckRequest
  | RelayPurge MailboxFetchRequest
  | RelayReceipt "(string, RelayReadReceipt) result"
  | RelayDelete "(string, RelayDeleteRequest) result"
  | RouteAdvertise "(string, string \<times> string list) result"
  | RouteAdvertiseAck "string \<times> string list"
  | WhoHas "(string, string) result"
  | PeerAuth "(string, string \<times> string) result"
  | PeerAuthReply "(string, string \<times> string) result"
  | RelayForwardMsg "(string, RelayForward) result"
  | OnionV1 string string
  | RelayPing
  | UnknownType string

fun handle_message ::
    "('vk, 'sg) relay_env \<Rightarrow> (RelayForward \<Rightarrow> (string, string) result) \<Rightarrow> string option \<Rightarrow> bytes \<Rightarrow> bool \<Rightarrow> (nat \<Rightarrow> real)
     \<Rightarrow> RelayMessage \<Rightarrow> RelayState \<Rightarrow> Reply step" where
  "handle_message R enc dbf rnd room tm (RelayStore rq) st = relay_store R dbf rnd tm rq st"
| "handle_message R enc dbf rnd room tm (RelayFetch rq) st = relay_fetch R dbf tm rq st"
| "handle_message R enc dbf rnd room tm (RelayStatus rq) st = relay_status R tm rq st"
| "handle_message R enc dbf rnd room tm (RelayAck rq) st = relay_ack R dbf tm rq st"
| "handle_message R enc dbf rnd room tm (RelayPurge rq) st = relay_purge R dbf tm rq st"
| "handle_message R enc dbf rnd room tm (RelayReceipt rq) st = relay_read_receipt R dbf tm rq st"
| "handle_message R enc dbf rnd room tm (RelayDelete rq) st = relay_delete R dbf tm rq st"
| "handle_message R enc dbf rnd room tm (RouteAdvertise rq) st = route_advertise tm rq st"
| "handle_message R enc dbf rnd room tm (RouteAdvertiseAck rq) st = route_advertise_ack tm rq st"
| "handle_message R enc dbf rnd room tm (WhoHas rq) st = who_has rq st"
| "handle_message R enc dbf rnd room tm (PeerAuth rq) st = peer_auth R (tm 0) rq st"
| "handle_message R enc dbf rnd room tm (PeerAuthReply rq) st = peer_auth_reply R (tm 0) rq st"
| "handle_message R enc dbf rnd room tm (RelayForwardMsg rq) st = relay_forward R dbf rnd tm rq st"
| "handle_message R enc dbf rnd room tm (OnionV1 url ct) st = onion_v1 enc room tm url ct st"
| "handle_message R enc dbf rnd room tm RelayPing st = (Inr Pong, st)"
| "handle_message R enc dbf rnd room tm (UnknownType t) st = (Inl (''unknown message type: '' @ t), st)"

section \<open>Lemmas\<close>

subsection \<open>Sequencing\<close>

lemma ensure_Inr: "ensure ok msg st = (Inr x, s) \<longleftrightarrow> ok \<and> s = st"
  by (auto simp: ensure_def)

lemma parsed_Inr: "parsed what r st = (Inr x, s) \<longleftrightarrow> r = Inr x \<and> s = st"
  by (auto simp: parsed_def split: sum.splits)

lemma pair_Inr: "(r, st) = (Inr x, s) \<longleftrightarrow> r = Inr x \<and> s = st"
  by auto

text \<open>The checks touch the nonce windows and the key cache only.\<close>

definition same_store :: "RelayState \<Rightarrow> RelayState \<Rightarrow> bool" where
  "same_store st st' \<longleftrightarrow> mailboxes st' = mailboxes st \<and> db_pool st' = db_pool st \<and> shared_secret st' = shared_secret st
     \<and> federation st' = federation st \<and> allow_relay st' = allow_relay st"

lemma same_store_refl [simp]: "same_store st st"
  by (simp add: same_store_def)

lemma same_store_trans: "same_store a b \<Longrightarrow> same_store b c \<Longrightarrow> same_store a c"
  by (simp add: same_store_def)

lemma same_store_check_signature [simp]: "same_store st (snd (check_signature R sg d fp vk st))"
  by (simp add: check_signature_def same_store_def split: prod.splits)

lemma same_store_ensure [simp]:
  "snd (ensure ok msg st) = st" "snd (ensure_hmac R msg d a st) = st" "snd (parsed what r st) = st"
  by (simp_all add: ensure_def ensure_hmac_def parsed_def split: sum.splits)

lemma same_store_signature [simp]: "same_store st (snd (ensure_signature R msg sg d fp vk st))"
  by (simp add: ensure_signature_def split_beta)

lemma same_store_nonce [simp]: "same_store st (snd (ensure_nonce now fp n st))"
  by (simp add: ensure_nonce_def check_nonce_def same_store_def split: prod.splits)

lemma same_store_verify [simp]: "same_store st (snd (verify_store_signature R req st))"
  by (simp add: verify_store_signature_def split_beta)

subsection \<open>The mailboxes stay within bounds\<close>

lemma boxes_ok_same: "same_store st st' \<Longrightarrow> boxes_ok (mailboxes st) \<Longrightarrow> boxes_ok (mailboxes st')"
  by (simp add: same_store_def)

lemmas boxes_checks =
  boxes_ok_same[OF same_store_signature] boxes_ok_same[OF same_store_nonce] boxes_ok_same[OF same_store_verify]

lemma mailboxes_update_fed [simp]: "mailboxes (update_fed f st) = mailboxes st"
  by (simp add: update_fed_def)

lemma boxes_ok_handle_message:
  assumes "boxes_ok (mailboxes st)"
  shows "boxes_ok (mailboxes (snd (handle_message R enc dbf rnd room tm m st)))"
proof -
  note keeps = then_ok_keeps[where J = "\<lambda>s. boxes_ok (mailboxes s)"]
  show ?thesis
  proof (cases m)
    case (RelayStore rq)
    then show ?thesis
      using assms by (auto simp: relay_store_def boxes_checks boxes_ok_store intro!: keeps)
  next
    case (RelayFetch rq)
    then show ?thesis using assms by (auto simp: relay_fetch_def boxes_checks intro!: keeps)
  next
    case (RelayStatus rq)
    then show ?thesis using assms by (auto simp: relay_status_def boxes_checks intro!: keeps)
  next
    case (RelayAck rq)
    then show ?thesis using assms by (auto simp: relay_ack_def boxes_checks boxes_ok_ack intro!: keeps)
  next
    case (RelayPurge rq)
    then show ?thesis using assms by (auto simp: relay_purge_def boxes_checks boxes_ok_purge intro!: keeps)
  next
    case (RelayReceipt rq)
    then show ?thesis using assms by (auto simp: relay_read_receipt_def boxes_checks boxes_ok_mark_read intro!: keeps)
  next
    case (RelayDelete rq)
    then show ?thesis using assms by (auto simp: relay_delete_def boxes_checks boxes_ok_remove_message intro!: keeps)
  next
    case (RouteAdvertise rq)
    then show ?thesis using assms by (auto simp: route_advertise_def Let_def intro!: keeps)
  next
    case (RelayForwardMsg rq)
    then show ?thesis using assms by (auto simp: relay_forward_def boxes_checks boxes_ok_store Let_def intro!: keeps)
  next
    case (OnionV1 url ct)
    then show ?thesis using assms by (auto simp: onion_v1_def intro!: keeps)
  next
    case (PeerAuth rq)
    then show ?thesis using assms by (auto simp: peer_auth_def Let_def split: option.splits intro!: keeps)
  next
    case (PeerAuthReply rq)
    then show ?thesis using assms by (auto simp: peer_auth_reply_def Let_def split: option.splits intro!: keeps)
  next
    case (WhoHas rq)
    then show ?thesis using assms by (auto simp: who_has_def intro!: keeps)
  qed (use assms in \<open>auto simp: route_advertise_ack_def split: prod.splits\<close>)
qed

inductive relay_reach :: "('vk, 'sg) relay_env \<Rightarrow> (RelayForward \<Rightarrow> (string, string) result) \<Rightarrow> RelayState \<Rightarrow> bool"
  for R enc where
  start: "relay_reach R enc (RelayState_new hk rnd secret rows allow)"
| message: "relay_reach R enc st \<Longrightarrow> relay_reach R enc (snd (handle_message R enc dbf rnd room tm m st))"
| cleanup: "relay_reach R enc st \<Longrightarrow> relay_reach R enc (cleanup_expired dbf now st)"
| routes: "relay_reach R enc st \<Longrightarrow> relay_reach R enc (update_fed (cleanup_expired_routes now) st)"
| peer: "relay_reach R enc st \<Longrightarrow> relay_reach R enc (update_fed (fed_add_peer now url) st)"

lemma relay_reach_boxes: "relay_reach R enc st \<Longrightarrow> boxes_ok (mailboxes st)"
  by (induction rule: relay_reach.induct)
    (simp_all add: boxes_ok_handle_message boxes_ok_cleanup, simp add: RelayState_new_def boxes_ok_def)

subsection \<open>What a passed check says\<close>

definition bound_key :: "string \<Rightarrow> string \<Rightarrow> RelayState \<Rightarrow> string" where
  "bound_key fp provided st = (case hm_get (verifying_key_cache st) fp of Some k \<Rightarrow> k | None \<Rightarrow> provided)"

text \<open>A signature verifies under the key bound to the fingerprint: the one on record, or the one sent
  along when there is none.\<close>

definition signed_under :: "('vk, 'sg) relay_env \<Rightarrow> string \<Rightarrow> string \<Rightarrow> string \<Rightarrow> bool" where
  "signed_under R vk_b64 sig_b64 data \<longleftrightarrow>
     (\<exists>vkb vk sb enc sg. b64_decode (rc R) vk_b64 = Some vkb \<and> vk_from_slice (rc R) vkb = Some vk
        \<and> b64_decode (rc R) sig_b64 = Some sb \<and> encoded_sig (rc R) sb = Some enc \<and> sig_decode (rc R) enc = Some sg
        \<and> dsa_verify (rc R) vk (str_bytes data) sg)"

lemma verify_true:
  assumes "verify_ml_dsa87_signature R sig_b64 data fp provided cache = (Inr True, cache')"
  shows "signed_under R (case hm_get cache fp of Some k \<Rightarrow> k | None \<Rightarrow> provided) sig_b64 data"
  using assms
  by (auto simp: verify_ml_dsa87_signature_def signed_under_def pq_verify_def Let_def split: if_splits option.splits)

lemma ensure_signature_Inr:
  assumes "ensure_signature R msg sig_b64 data fp provided st = (Inr x, st')"
  shows "signed_under R (bound_key fp provided st) sig_b64 data \<and> same_store st st'
       \<and> seen_nonce_strs st' = seen_nonce_strs st"
proof -
  obtain r c where v: "verify_ml_dsa87_signature R sig_b64 data fp provided (verifying_key_cache st) = (r, c)" by force
  with assms have "result_or False r" "st' = st\<lparr>verifying_key_cache := c\<rparr>"
    by (auto simp: ensure_signature_def check_signature_def ensure_def split: if_splits)
  then have "r = Inr True" "same_store st st'" "seen_nonce_strs st' = seen_nonce_strs st"
    by (auto simp: result_or_def same_store_def split: sum.splits)
  with verify_true[OF v[unfolded \<open>r = Inr True\<close>]] show ?thesis by (simp add: bound_key_def)
qed

lemma ensure_nonce_Inr:
  assumes "ensure_nonce now fp n st = (Inr x, st')"
  shows "n \<notin> fst ` set (or_empty (seen_nonce_strs st) fp) \<and> same_store st st'
       \<and> verifying_key_cache st' = verifying_key_cache st"
  using assms str_window.accepts_iff[of "(\<lfloor>now\<rfloor>, fp, n)" "seen_nonce_strs st"]
  by (auto simp: ensure_nonce_def check_nonce_def ensure_def same_store_def split: prod.splits if_splits)

lemma fresh_Inr: "check_timestamp_freshness R now stamp = Inr x \<Longrightarrow> \<bar>now - stamp\<bar> \<le> 300"
  by (auto simp: check_timestamp_freshness_def STORE_TIMESTAMP_TOLERANCE_SECS_def Let_def split: if_splits)

lemma ensure_hmac_Inr:
  assumes "ensure_hmac R msg data auth st = (Inr x, st')"
  shows "st' = st \<and> (\<forall>secret. shared_secret st = Some secret \<longrightarrow> verify_hmac R data auth secret)"
  using assms by (auto simp: ensure_hmac_def ensure_Inr split: option.splits)

lemmas step_Inr = then_ok_Inr parsed_Inr ensure_Inr pair_Inr

lemma fold_update_mailbox_other: "k \<notin> set ks \<Longrightarrow> hm_get (fold (update_mailbox f) ks m) k = hm_get m k"
  by (induction ks arbitrary: m) (auto simp: update_mailbox_def split: option.splits)

lemma remove_first_distinct:
  "distinct (map f xs) \<Longrightarrow> a \<notin> f ` set (remove_first (\<lambda>x. f x = a) xs)"
  by (induction xs) auto

lemma store_then [simp]:
  "then_ok (store_message R None rnd a b req st) (\<lambda>_. Pair (Inr y)) = (Inr y, snd (store_message R None rnd a b req st))"
  using store_message_ok[of R rnd a b req st] by (cases "store_message R None rnd a b req st") simp

lemma sealed_store_accepted:
  assumes "sr_sealed_sender req \<noteq> []" "sr_sender_nid req = ''anonymous''" "sr_sender_sig req \<noteq> []" "sr_recipient_tag req = []"
    and "\<bar>tm 0 - sr_timestamp req\<bar> \<le> 300"
    and "check_and_record_nonce_str \<lfloor>tm 1\<rfloor> (sr_sender_fp req) (sr_nonce req) (seen_nonce_strs st) = (True, m)"
  shows "relay_store R None rnd tm (Inr req) st
      = (Inr OkEmpty, snd (store_message R None rnd (tm 3) (tm 4) req (st\<lparr>seen_nonce_strs := m\<rparr>)))"
proof -
  have "verify_store_signature R req st = (Inr (), st)" using assms(1-3) by (simp add: verify_store_signature_def)
  moreover have "check_timestamp_freshness R (tm 0) (sr_timestamp req) = Inr ()"
    using assms(5) by (simp add: check_timestamp_freshness_def STORE_TIMESTAMP_TOLERANCE_SECS_def)
  moreover have "ensure_nonce (tm 1) (sr_sender_fp req) (sr_nonce req) st = (Inr (), st\<lparr>seen_nonce_strs := m\<rparr>)"
    using assms(6) by (simp add: ensure_nonce_def check_nonce_def ensure_def)
  moreover have "verify_recipient_tag R s nid e (sr_recipient_tag req) = Inr ()" for s nid e
    using assms(4) by (simp add: verify_recipient_tag_def split: option.splits)
  ultimately show ?thesis by (simp add: relay_store_def parsed_def)
qed

lemma seen_nonce_strs_store [simp]: "seen_nonce_strs (snd (store_message R dbf rnd te tn req st)) = seen_nonce_strs st"
  by (simp add: store_message_def Let_def split: option.splits)

definition purge_box :: "string \<Rightarrow> string \<Rightarrow> (string, Mailbox) hmap \<Rightarrow> (string, Mailbox) hmap" where
  "purge_box fp k m =
     (case hm_get m k of
        Some mb \<Rightarrow> hm_insert k (mb\<lparr>entries := filter (\<lambda>e. sender_fp e \<noteq> fp) (entries mb)\<rparr>) m
      | None \<Rightarrow> hm_remove k m)"

lemma purge_box_fold:
  assumes "hm_get m k = Some mb"
  shows "\<exists>mb'. hm_get (fold (purge_box fp) ks m) k = Some mb'
    \<and> filter (\<lambda>e. sender_fp e \<noteq> fp) (entries mb') = filter (\<lambda>e. sender_fp e \<noteq> fp) (entries mb)"
  using assms
proof (induction ks arbitrary: m mb)
  case (Cons k' ks)
  have "\<exists>mb1. hm_get (purge_box fp k' m) k = Some mb1
      \<and> filter (\<lambda>e. sender_fp e \<noteq> fp) (entries mb1) = filter (\<lambda>e. sender_fp e \<noteq> fp) (entries mb)"
    using Cons.prems by (auto simp: purge_box_def split: option.splits)
  with Cons.IH show ?case by fastforce
qed simp

subsection \<open>A requester of the small relay\<close>

definition toy_fetch :: MailboxFetchRequest where
  "toy_fetch =
     \<lparr>fr_recipient_nid = compute_null_id (rc toy_relay) ''AA'', fr_auth_hmac = [], fr_sender_sig = ''s'', fr_requester_fp = ''AA'',
      fr_timestamp = 0, fr_nonce = ''n'', fr_requester_verifying_key = ''k''\<rparr>"

definition toy_ack :: AckRequest where
  "toy_ack = MailboxFetchRequest.extend toy_fetch \<lparr>ack_seq = 7\<rparr>"

definition toy_delete :: RelayDeleteRequest where
  "toy_delete = \<lparr>dl_message_id = ''1'', dl_recipient_nid = ''bob'', dl_recipient_fp = ''MM'', dl_signature = ''s'', dl_timestamp = 0,
     dl_nonce = ''n'', dl_recipient_verifying_key = ''k''\<rparr>"

lemma toy_checks:
  "check_signature toy_relay ''s'' d fp ''k'' (toy_state s r) = (True, (toy_state s r)\<lparr>verifying_key_cache := [(fp, ''k'')]\<rparr>)"
  "check_timestamp_freshness toy_relay 0 0 = Inr ()"
  "seen_nonce_strs (toy_state s r) = []"
  by (simp_all add: check_signature_def verify_ml_dsa87_signature_def toy_relay_def toy_crypto_def toy_state_def RelayState_new_def
      pq_verify_def result_or_def hm_insert_def check_timestamp_freshness_def STORE_TIMESTAMP_TOLERANCE_SECS_def)

lemma toy_nonce:
  "seen_nonce_strs st = [] \<Longrightarrow> ensure_nonce t fp n st = (Inr (), st\<lparr>seen_nonce_strs := [(fp, [(n, \<lfloor>t\<rfloor>)])]\<rparr>)"
  by (simp add: ensure_nonce_def check_nonce_def check_and_record_nonce_str_def ensure_def drain_half_def
      MAX_NONCES_PER_SENDER_def hm_insert_def Let_def)

lemma toy_fetch_accepted: "\<exists>rep st'. relay_fetch toy_relay None (\<lambda>_. 0) (Inr toy_fetch) (toy_state None None) = (Inr rep, st')"
  by (simp add: relay_fetch_def parsed_def ensure_def ensure_signature_def ensure_hmac_def toy_fetch_def toy_checks toy_nonce)

lemma toy_ack_accepted: "\<exists>rep st'. relay_ack toy_relay None (\<lambda>_. 0) toy_ack (toy_state None None) = (Inr rep, st')"
  by (simp add: relay_ack_def ensure_def ensure_signature_def toy_fetch_def toy_ack_def MailboxFetchRequest.defs toy_checks toy_nonce)

section \<open>Properties\<close>

text \<open>C30: In every state a relay can reach, whatever messages it handles, every mailbox holds at most
  1000 messages and at most ten of one sender.\<close>

theorem relay_mailboxes_bounded:
  assumes "relay_reach R enc st" "hm_get (mailboxes st) k = Some mb"
  shows "length (entries mb) \<le> 1000 \<and> count_sender fp (entries mb) \<le> 10"
  using boxes_ok_get[OF relay_reach_boxes[OF assms(1)] assms(2)]
  by (simp add: mailbox_inv_def MAX_MAILBOX_SIZE_def MAX_ENTRIES_PER_SENDER_def)

theorem relay_mailboxes_bounded_witness:
  "\<exists>mb. hm_get (mailboxes (snd (handle_message toy_relay (\<lambda>_. Inr []) None [] True (\<lambda>_. 0) (RelayStore (Inr toy_request))
          (toy_state None None)))) ''bob'' = Some mb \<and> length (entries mb) \<le> 1000 \<and> count_sender ''AA'' (entries mb) \<le> 10"
proof -
  let ?st = "snd (handle_message toy_relay (\<lambda>_. Inr []) None [] True (\<lambda>_. 0) (RelayStore (Inr toy_request)) (toy_state None None))"
  have "relay_reach toy_relay (\<lambda>_. Inr []) ?st"
    unfolding toy_state_def by (intro relay_reach.message relay_reach.start)
  moreover obtain mb where "hm_get (mailboxes ?st) ''bob'' = Some mb"
    by (simp add: relay_store_def parsed_def verify_store_signature_def check_signature_def verify_ml_dsa87_signature_def
        toy_request_def toy_relay_def toy_crypto_def toy_state_def RelayState_new_def FederationState_new_def pq_verify_def
        result_or_def check_timestamp_freshness_def STORE_TIMESTAMP_TOLERANCE_SECS_def ensure_nonce_def check_nonce_def
        check_and_record_nonce_str_def ensure_def verify_recipient_tag_def store_message_def recipient_tag_def Let_def)
  ultimately show ?thesis using relay_mailboxes_bounded by blast
qed

text \<open>C28: A fetch that is answered was authorised: the identifier is the requester's own, the signature
  verifies under the key bound to the requester's fingerprint, the timestamp is at most 300 seconds off,
  the nonce is new, the HMAC matches if a secret is set; the reply is what is stored for the requester,
  and a fetch changes no message.\<close>

theorem relay_fetch_authorised:
  assumes "relay_fetch R dbf tm (Inr req) st = (Inr rep, st')"
  shows "compute_null_id (rc R) (fr_requester_fp req) = fr_recipient_nid req
    \<and> signed_under R (bound_key (fr_requester_fp req) (fr_requester_verifying_key req) st) (fr_sender_sig req)
        (''relay-fetch:'' @ fr_recipient_nid req @ '':'' @ fmt_f64 R (fr_timestamp req) @ '':'' @ fr_nonce req)
    \<and> \<bar>tm 0 - fr_timestamp req\<bar> \<le> 300
    \<and> fr_requester_fp req @ '':'' @ fr_nonce req \<notin> fst ` set (or_empty (seen_nonce_strs st) (fr_requester_fp req))
    \<and> (\<forall>secret. shared_secret st = Some secret \<longrightarrow> verify_hmac R (fr_recipient_nid req) (fr_auth_hmac req) secret)
    \<and> rep = Entries (fetch_messages R dbf (tm 2) (tm 3) (fr_recipient_nid req) st') \<and> same_store st st'"
proof -
  obtain x1 x2 x3 x4 st1 st2 where c:
    "check_timestamp_freshness R (tm 0) (fr_timestamp req) = Inr x1"
    "compute_null_id (rc R) (fr_requester_fp req) = fr_recipient_nid req"
    "ensure_signature R ''fetch denied: ML-DSA-87 signature verification failed'' (fr_sender_sig req)
       (''relay-fetch:'' @ fr_recipient_nid req @ '':'' @ fmt_f64 R (fr_timestamp req) @ '':'' @ fr_nonce req)
       (fr_requester_fp req) (fr_requester_verifying_key req) st = (Inr x2, st1)"
    "ensure_nonce (tm 1) (fr_requester_fp req) (fr_requester_fp req @ '':'' @ fr_nonce req) st1 = (Inr x3, st2)"
    "ensure_hmac R ''HMAC authentication failed'' (fr_recipient_nid req) (fr_auth_hmac req) st2 = (Inr x4, st')"
    "rep = Entries (fetch_messages R dbf (tm 2) (tm 3) (fr_recipient_nid req) st')"
    using assms by (auto simp: relay_fetch_def step_Inr)
  note s = ensure_signature_Inr[OF c(3)] and n = ensure_nonce_Inr[OF c(4)] and h = ensure_hmac_Inr[OF c(5)]
  show ?thesis
  proof (intro conjI)
    show "same_store st st'" using s n h same_store_trans by metis
    show "\<forall>secret. shared_secret st = Some secret \<longrightarrow> verify_hmac R (fr_recipient_nid req) (fr_auth_hmac req) secret"
      using s n h by (auto simp: same_store_def)
    show "fr_requester_fp req @ '':'' @ fr_nonce req \<notin> fst ` set (or_empty (seen_nonce_strs st) (fr_requester_fp req))"
      using s n by simp
  qed (use s c fresh_Inr[OF c(1)] in auto)
qed

theorem relay_fetch_authorised_witness:
  "\<exists>rep st'. relay_fetch toy_relay None (\<lambda>_. 0) (Inr toy_fetch) (toy_state None None) = (Inr rep, st')
     \<and> rep = Entries (fetch_messages toy_relay None 0 0 (fr_recipient_nid toy_fetch) st') \<and> same_store (toy_state None None) st'"
proof -
  obtain rep st' where r: "relay_fetch toy_relay None (\<lambda>_. 0) (Inr toy_fetch) (toy_state None None) = (Inr rep, st')"
    using toy_fetch_accepted by blast
  from relay_fetch_authorised[OF r] r show ?thesis by blast
qed

text \<open>An accepted acknowledgement comes from the owner of the mailbox: it is signed under the key bound
  to the fingerprint the identifier derives from, and touches no mailbox outside the owner's keys.\<close>

theorem relay_ack_owner_only:
  assumes "relay_ack R dbf tm req st = (Inr rep, st')"
  shows "compute_null_id (rc R) (fr_requester_fp req) = fr_recipient_nid req
    \<and> (\<exists>data. signed_under R (bound_key (fr_requester_fp req) (fr_requester_verifying_key req) st) (fr_sender_sig req) data)
    \<and> (k \<notin> set (mailbox_keys R (tm 2) (fr_recipient_nid req) st) \<longrightarrow> hm_get (mailboxes st') k = hm_get (mailboxes st) k)"
proof -
  obtain x2 x3 st1 st2 data where c:
    "compute_null_id (rc R) (fr_requester_fp req) = fr_recipient_nid req"
    "ensure_signature R ''ack denied: ML-DSA-87 signature verification failed'' (fr_sender_sig req) data
       (fr_requester_fp req) (fr_requester_verifying_key req) st = (Inr x2, st1)"
    "ensure_nonce (tm 1) (fr_requester_fp req) (fr_requester_fp req @ '':'' @ fr_nonce req) st1 = (Inr x3, st2)"
    "st' = ack_message R dbf (tm 2) (tm 3) (fr_recipient_nid req) (ack_seq req) st2"
    using assms by (auto simp: relay_ack_def step_Inr)
  note s = ensure_signature_Inr[OF c(2)] and n = ensure_nonce_Inr[OF c(3)]
  have "mailboxes st2 = mailboxes st" "shared_secret st2 = shared_secret st" using s n by (auto simp: same_store_def)
  then have "hm_get (mailboxes st') k = hm_get (mailboxes st) k"
    if "k \<notin> set (mailbox_keys R (tm 2) (fr_recipient_nid req) st)"
    using that mailbox_keys_cong[of st2 st R "tm 2" "fr_recipient_nid req"] by (simp add: c(4) ack_message_def Let_def fold_update_mailbox_other)
  with s c(1) show ?thesis by blast
qed

theorem relay_ack_owner_only_witness:
  "\<exists>rep st'. relay_ack toy_relay None (\<lambda>_. 0) toy_ack (toy_state None None) = (Inr rep, st')
     \<and> compute_null_id (rc toy_relay) (fr_requester_fp toy_ack) = fr_recipient_nid toy_ack"
proof -
  obtain rep st' where r: "relay_ack toy_relay None (\<lambda>_. 0) toy_ack (toy_state None None) = (Inr rep, st')"
    using toy_ack_accepted by blast
  from relay_ack_owner_only[OF r] r show ?thesis by blast
qed

text \<open>Anyone can delete a message of anyone: a delete request is checked against the key of the
  fingerprint it names, but that fingerprint is never compared with the mailbox it names.\<close>

theorem relay_delete_by_stranger:
  assumes "compute_null_id (rc R) (dl_recipient_fp req) \<noteq> dl_recipient_nid req"
    and "hm_get (mailboxes st) (dl_recipient_nid req) = Some mb" "distinct (map message_id (entries mb))"
    and "fst (check_signature R (dl_signature req)
           (dl_message_id req @ ''|'' @ dl_recipient_nid req @ ''|'' @ fmt_f64 R (dl_timestamp req))
           (dl_recipient_fp req) (dl_recipient_verifying_key req) st)"
    and "''delete:'' @ dl_recipient_fp req @ '':'' @ dl_nonce req
           \<notin> fst ` set (or_empty (seen_nonce_strs st) (dl_recipient_fp req))"
    and "\<bar>tm 1 - dl_timestamp req\<bar> \<le> 300"
  shows "fst (relay_delete R dbf tm (Inr req) st) = Inr DeleteAck
    \<and> (\<exists>mb'. hm_get (mailboxes (snd (relay_delete R dbf tm (Inr req) st))) (dl_recipient_nid req) = Some mb'
           \<and> dl_message_id req \<notin> message_id ` set (entries mb'))"
proof -
  let ?n = "''delete:'' @ dl_recipient_fp req @ '':'' @ dl_nonce req"
  obtain st1 where s1: "check_signature R (dl_signature req)
           (dl_message_id req @ ''|'' @ dl_recipient_nid req @ ''|'' @ fmt_f64 R (dl_timestamp req))
           (dl_recipient_fp req) (dl_recipient_verifying_key req) st = (True, st1)" "mailboxes st1 = mailboxes st"
      "seen_nonce_strs st1 = seen_nonce_strs st"
    using assms(4) by (auto simp: check_signature_def split: prod.splits)
  obtain m where "check_and_record_nonce_str \<lfloor>tm 0\<rfloor> (dl_recipient_fp req) ?n (seen_nonce_strs st) = (True, m)"
    using str_window.accepts_iff[of "(\<lfloor>tm 0\<rfloor>, dl_recipient_fp req, ?n)" "seen_nonce_strs st"] assms(5)
    by (auto simp: prod_eq_iff)
  then have n1: "ensure_nonce (tm 0) (dl_recipient_fp req) ?n st1 = (Inr (), st1\<lparr>seen_nonce_strs := m\<rparr>)"
    by (simp add: ensure_nonce_def check_nonce_def ensure_def s1(3))
  have f: "check_timestamp_freshness R (tm 1) (dl_timestamp req) = Inr ()"
    using assms(6) by (simp add: check_timestamp_freshness_def STORE_TIMESTAMP_TOLERANCE_SECS_def)
  have gone: "dl_message_id req \<notin> message_id ` set (entries (snd (remove_message (dl_message_id req) mb)))"
    using remove_first_distinct[OF assms(3)] by (auto simp: remove_message_def list_ex_iff)
  show ?thesis
    using s1 n1[unfolded append_assoc] f assms(2) gone
    by (simp add: relay_delete_def parsed_def ensure_signature_def ensure_def update_mailbox_def)
qed

theorem relay_delete_by_stranger_witness:
  "let st = (toy_state None None)\<lparr>mailboxes := [(''bob'', mailbox_store (demo_entry ''AA'' 1) (Mailbox_new 1000))]\<rparr>
   in \<exists>mb'. hm_get (mailboxes (snd (relay_delete toy_relay None (\<lambda>_. 0) (Inr toy_delete) st))) ''bob'' = Some mb'
        \<and> ''1'' \<notin> message_id ` set (entries mb')"
proof -
  let ?mb = "mailbox_store (demo_entry ''AA'' 1) (Mailbox_new 1000)"
  let ?st = "(toy_state None None)\<lparr>mailboxes := [(''bob'', ?mb)]\<rparr>"
  have nid: "compute_null_id (rc toy_relay) fp \<noteq> ''bob''" for fp by (simp add: compute_null_id_def Let_def)
  have sg: "fst (check_signature toy_relay ''s'' d ''MM'' ''k'' ((toy_state None None)\<lparr>mailboxes := m\<rparr>))" for d m
    using toy_checks(1)[of d "''MM''" None None] by (simp add: check_signature_def split: prod.splits)
  have "\<exists>mb'. hm_get (mailboxes (snd (relay_delete toy_relay None (\<lambda>_. 0) (Inr toy_delete) ?st))) (dl_recipient_nid toy_delete) = Some mb'
        \<and> dl_message_id toy_delete \<notin> message_id ` set (entries mb')"
    by (rule relay_delete_by_stranger[THEN conjunct2, of _ _ _ ?mb])
      (simp_all add: toy_delete_def nid sg toy_checks mailbox_store_def Mailbox_new_def Let_def)
  then show ?thesis by (simp add: toy_delete_def Let_def)
qed

text \<open>A store request can be replayed after its nonce was dropped from the window: with a timestamp of
  300 seconds ahead of the relay's clock it stays fresh for ten minutes, while nonces are dropped after
  five, at the next request of the same fingerprint.\<close>

theorem relay_store_replayed:
  assumes "sr_sealed_sender req \<noteq> []" "sr_sender_nid req = ''anonymous''" "sr_sender_sig req \<noteq> []" "sr_recipient_tag req = []"
    and "other = req\<lparr>sr_nonce := n2, sr_timestamp := real_of_int t + 301\<rparr>" "n2 \<noteq> sr_nonce req"
    and "sr_timestamp req = real_of_int t + 300" "or_empty (seen_nonce_strs st) (sr_sender_fp req) = []"
    and "relay_store R None r1 (\<lambda>_. real_of_int t) (Inr req) st = (x1, st1)"
    and "relay_store R None r2 (\<lambda>_. real_of_int t + 301) (Inr other) st1 = (x2, st2)"
  shows "x1 = Inr OkEmpty \<and> fst (relay_store R None r3 (\<lambda>_. real_of_int t + 302) (Inr req) st2) = Inr OkEmpty"
proof -
  let ?fp = "sr_sender_fp req" and ?n = "sr_nonce req"
  have fl: "\<lfloor>real_of_int t + 301\<rfloor> = t + 301" by linarith
  obtain m1 where m1: "check_and_record_nonce_str t ?fp ?n (seen_nonce_strs st) = (True, m1)" "or_empty m1 ?fp = [(?n, t)]"
    using assms(8) by (auto simp: check_and_record_nonce_str_def drain_half_def MAX_NONCES_PER_SENDER_def Let_def)
  have 1: "x1 = Inr OkEmpty" "seen_nonce_strs st1 = m1"
    using sealed_store_accepted[OF assms(1-4), of "\<lambda>_. real_of_int t" st m1 R r1] m1(1) assms(7,9) by auto
  obtain m2 where m2: "check_and_record_nonce_str (t + 301) ?fp n2 m1 = (True, m2)" "or_empty m2 ?fp = [(n2, t + 301)]"
    using m1(2) assms(6) by (auto simp: check_and_record_nonce_str_def STORE_TIMESTAMP_TOLERANCE_SECS_def drain_half_def
        MAX_NONCES_PER_SENDER_def Let_def)
  have 2: "seen_nonce_strs st2 = m2"
    using sealed_store_accepted[of other "\<lambda>_. real_of_int t + 301" st1 m2 R r2] m2(1) assms(1-5,10) 1 fl by auto
  obtain m3 where "check_and_record_nonce_str \<lfloor>real_of_int t + 302\<rfloor> ?fp ?n m2 = (True, m3)"
    using m2(2) assms(6) by (auto simp: check_and_record_nonce_str_def Let_def)
  then show ?thesis
    using sealed_store_accepted[OF assms(1-4), of "\<lambda>_. real_of_int t + 302" st2 m3 R r3] assms(7) 1 2 by auto
qed

theorem relay_store_replayed_witness:
  "let req = toy_request\<lparr>sr_sealed_sender := ''x'', sr_sender_nid := ''anonymous'', sr_timestamp := 300\<rparr>;
       st1 = snd (relay_store toy_relay None [] (\<lambda>_. 0) (Inr req) (toy_state None None));
       st2 = snd (relay_store toy_relay None [] (\<lambda>_. 301) (Inr (req\<lparr>sr_nonce := ''m'', sr_timestamp := 301\<rparr>)) st1)
   in fst (relay_store toy_relay None [] (\<lambda>_. 302) (Inr req) st2) = Inr OkEmpty"
proof -
  let ?req = "toy_request\<lparr>sr_sealed_sender := ''x'', sr_sender_nid := ''anonymous'', sr_timestamp := 300\<rparr>"
  let ?other = "?req\<lparr>sr_nonce := ''m'', sr_timestamp := 301\<rparr>"
  let ?r1 = "relay_store toy_relay None [] (\<lambda>_. 0) (Inr ?req) (toy_state None None)"
  let ?r2 = "relay_store toy_relay None [] (\<lambda>_. 301) (Inr ?other) (snd ?r1)"
  have "fst ?r1 = Inr OkEmpty \<and> fst (relay_store toy_relay None [] (\<lambda>_. real_of_int 0 + 302) (Inr ?req) (snd ?r2)) = Inr OkEmpty"
    by (rule relay_store_replayed[where ?n2.0 = "''m''" and other = ?other and ?st1.0 = "snd ?r1" and st = "toy_state None None"
          and ?r2.0 = "[]" and ?x2.0 = "fst ?r2"])
      (simp_all add: toy_request_def toy_checks)
  then show ?thesis by (simp add: Let_def)
qed

text \<open>A purge does not remove what the owner received: in memory every message of another sender
  survives it, in every mailbox.\<close>

theorem relay_purge_keeps_received:
  assumes "relay_purge R dbf tm req st = (Inr rep, st')" "hm_get (mailboxes st) k = Some mb"
  shows "\<exists>mb'. hm_get (mailboxes st') k = Some mb'
    \<and> filter (\<lambda>e. sender_fp e \<noteq> fr_requester_fp req) (entries mb') = filter (\<lambda>e. sender_fp e \<noteq> fr_requester_fp req) (entries mb)"
proof -
  obtain x2 x3 st1 st2 data where c:
    "ensure_signature R ''purge denied: ML-DSA-87 signature verification failed'' (fr_sender_sig req) data
       (fr_requester_fp req) (fr_requester_verifying_key req) st = (Inr x2, st1)"
    "ensure_nonce (tm 1) (fr_requester_fp req) (''purge:'' @ fr_requester_fp req @ '':'' @ fr_nonce req) st1 = (Inr x3, st2)"
    "st' = purge_all_messages R dbf (tm 2) (fr_recipient_nid req) (Some (fr_requester_fp req)) st2"
    using assms(1) by (auto simp: relay_purge_def step_Inr dest!: ensure_hmac_Inr)
  have "mailboxes st2 = mailboxes st"
    using ensure_signature_Inr[OF c(1)] ensure_nonce_Inr[OF c(2)] by (auto simp: same_store_def)
  then have "mailboxes st' = fold (purge_box (fr_requester_fp req)) (mailbox_keys R (tm 2) (fr_recipient_nid req) st2) (mailboxes st)"
    by (simp add: c(3) purge_all_messages_def purge_box_def[abs_def] Let_def)
  with purge_box_fold[OF assms(2)] show ?thesis by metis
qed

theorem relay_purge_keeps_received_witness:
  "let st = (toy_state None None)\<lparr>mailboxes := [(compute_null_id (rc toy_relay) ''AA'', mailbox_store (demo_entry ''BB'' 1) (Mailbox_new 1000))]\<rparr>
   in \<exists>rep st' mb'. relay_purge toy_relay None (\<lambda>_. 0) toy_fetch st = (Inr rep, st')
        \<and> hm_get (mailboxes st') (compute_null_id (rc toy_relay) ''AA'') = Some mb'
        \<and> filter (\<lambda>e. sender_fp e \<noteq> ''AA'') (entries mb') = [demo_entry ''BB'' 1]"
proof -
  let ?mb = "mailbox_store (demo_entry ''BB'' 1) (Mailbox_new 1000)"
  let ?st = "(toy_state None None)\<lparr>mailboxes := [(compute_null_id (rc toy_relay) ''AA'', ?mb)]\<rparr>"
  have sg: "fst (check_signature toy_relay ''s'' d ''AA'' ''k'' ?st)" for d
    using toy_checks(1)[of d "''AA''" None None] by (simp add: check_signature_def split: prod.splits)
  then obtain rep st' where r: "relay_purge toy_relay None (\<lambda>_. 0) toy_fetch ?st = (Inr rep, st')"
    by (simp add: relay_purge_def ensure_def ensure_signature_def ensure_hmac_def toy_fetch_def toy_checks split_beta)
      (auto simp: toy_nonce check_signature_def toy_checks split_beta)
  have e: "filter (\<lambda>e. sender_fp e \<noteq> ''AA'') (entries ?mb) = [demo_entry ''BB'' 1]"
    by (simp add: mailbox_store_def Mailbox_new_def MAX_ENTRIES_PER_SENDER_def demo_entry_def)
  have "fr_requester_fp toy_fetch = ''AA''" by (simp add: toy_fetch_def)
  with relay_purge_keeps_received[OF r, of "compute_null_id (rc toy_relay) ''AA''" ?mb] r e show ?thesis by auto
qed

text \<open>An accepted forwarded message passed every check: no known peer that is not authenticated sent
  it, this relay is not on its path, fewer than five hops were made, and its sender's signature verifies
  under the key on record.\<close>

theorem relay_forward_guarded:
  assumes "relay_forward R dbf rnd tm (Inr fw) st = (Inr (ForwardAck None), st')"
  shows "(\<forall>p. hm_get (peers (federation st)) (fw_source_relay_url fw) = Some p \<longrightarrow> authenticated p)
    \<and> unwrap_or [] (our_url (federation st)) \<notin> set (fw_via fw) \<and> fw_hop_count fw < 5 \<and> allow_relay st
    \<and> (\<exists>data. signed_under R (bound_key (fw_sender_fp fw) [] st) (fw_sender_sig fw) data)"
proof -
  let ?req = "forward_request R (tm 0) fw st"
  have g: "fed_secret (federation st) \<noteq> None" "allow_relay st" "\<not> peer_unauthenticated (fw_source_relay_url fw) (federation st)"
    "unwrap_or [] (our_url (federation st)) \<notin> set (fw_via fw)" "\<not> fw_hop_count fw \<ge> FEDERATION_MAX_RELAY_HOPS"
    using assms by (auto simp: relay_forward_def parsed_def Let_def split: if_splits)
  have "\<exists>x st1. verify_store_signature R ?req st = (Inr x, st1)"
    using assms g by (auto simp: relay_forward_def parsed_def Let_def then_ok_Inr)
  then obtain x st1 where "ensure_signature R [] (fw_sender_sig fw) (store_signing_data R ?req) (fw_sender_fp fw) [] st = (Inr x, st1)"
    by (auto simp: verify_store_signature_def forward_request_def ensure_signature_def ensure_def split: if_splits prod.splits)
  from ensure_signature_Inr[OF this] g show ?thesis
    by (auto simp: peer_unauthenticated_def FEDERATION_MAX_RELAY_HOPS_def not_le split: option.splits)
qed

theorem relay_forward_guarded_witness:
  "let fw = (onion_forward 0 0 ''blob'' None)\<lparr>fw_sender_sig := ''s'', fw_sender_fp := ''AA'', fw_via := [''r'']\<rparr>;
       st = (toy_state (Some ''s'') None)\<lparr>verifying_key_cache := [(''AA'', ''k'')]\<rparr>
   in \<exists>st' data. relay_forward toy_relay None [] (\<lambda>_. 0) (Inr fw) st = (Inr (ForwardAck None), st')
        \<and> signed_under toy_relay ''k'' ''s'' data"
proof -
  let ?fw = "(onion_forward 0 0 ''blob'' None)\<lparr>fw_sender_sig := ''s'', fw_sender_fp := ''AA'', fw_via := [''r'']\<rparr>"
  let ?st = "(toy_state (Some ''s'') None)\<lparr>verifying_key_cache := [(''AA'', ''k'')]\<rparr>"
  have sg: "check_signature toy_relay ''s'' d ''AA'' [] ?st = (True, ?st)" for d
    by (simp add: check_signature_def verify_ml_dsa87_signature_def toy_relay_def toy_crypto_def pq_verify_def result_or_def)
  have fed: "federation ?st = FederationState_new (Some ''s'')" "allow_relay ?st"
    by (simp_all add: toy_state_def RelayState_new_def)
  have guards: "fed_secret (federation ?st) \<noteq> None" "\<not> peer_unauthenticated (fw_source_relay_url ?fw) (federation ?st)"
    "unwrap_or [] (our_url (federation ?st)) \<notin> set (fw_via ?fw)" "\<not> fw_hop_count ?fw \<ge> FEDERATION_MAX_RELAY_HOPS"
    unfolding fed by (simp_all add: peer_unauthenticated_def FederationState_new_def onion_forward_def unwrap_or_def FEDERATION_MAX_RELAY_HOPS_def
        word_le_nat_alt)
  have "verify_store_signature toy_relay (forward_request toy_relay 0 ?fw ?st) ?st = (Inr (), ?st)"
    by (simp add: verify_store_signature_def forward_request_def onion_forward_def sg)
  moreover have "sr_timestamp (forward_request toy_relay 0 ?fw ?st) = 0" by (simp add: forward_request_def onion_forward_def)
  ultimately obtain st' where r: "relay_forward toy_relay None [] (\<lambda>_. 0) (Inr ?fw) ?st = (Inr (ForwardAck None), st')"
    using guards fed(2) by (auto simp: relay_forward_def parsed_def toy_checks toy_nonce Let_def)
  from relay_forward_guarded[OF r] have "\<exists>data. signed_under toy_relay (bound_key ''AA'' [] ?st) ''s'' data" by simp
  with r show ?thesis by (auto simp: bound_key_def Let_def)
qed

text \<open>C32: The peer authentication can be passed without the shared secret: the relay records a challenge
  it receives as if it had sent it, and answers it; returning that answer marks the peer as authenticated.\<close>

theorem peer_auth_reflection:
  assumes "fed_secret (federation st) = Some secret" "hm_get (peers (federation st)) url = Some p" "\<lfloor>now'\<rfloor> - \<lfloor>now\<rfloor> \<le> 300"
  shows "\<exists>answer us p'. fst (peer_auth R now (Inr (challenge, url)) st) = Inr (PeerAuthReplied answer us)
    \<and> hm_get (peers (federation (snd (peer_auth_reply R now' (Inr (answer, url))
                (snd (peer_auth R now (Inr (challenge, url)) st)))))) url = Some p' \<and> authenticated p'"
  using assms by (simp add: peer_auth_def peer_auth_reply_def parsed_def update_fed_def update_peer_def Let_def)

theorem peer_auth_reflection_witness:
  "let st = (toy_state (Some ''s'') None)\<lparr>federation := fed_add_peer 0 ''evil'' (FederationState_new (Some ''s''))\<rparr>
   in \<exists>answer us p'. fst (peer_auth toy_relay 0 (Inr (''c'', ''evil'')) st) = Inr (PeerAuthReplied answer us)
    \<and> hm_get (peers (federation (snd (peer_auth_reply toy_relay 1 (Inr (answer, ''evil''))
                (snd (peer_auth toy_relay 0 (Inr (''c'', ''evil'')) st)))))) ''evil'' = Some p' \<and> authenticated p'"
  unfolding Let_def
  by (rule peer_auth_reflection) (simp_all add: fed_add_peer_def FederationState_new_def)

text \<open>No onion message is ever delivered: what an entry relay sends on carries no sender signature, and
  every exit relay, in every state, refuses it and keeps its mailboxes as they are.\<close>

theorem onion_forward_rejected:
  "fst (relay_forward R dbf rnd tm (Inr (onion_forward t1 t2 ciphertext url)) st) \<noteq> Inr (ForwardAck None)
   \<and> mailboxes (snd (relay_forward R dbf rnd tm (Inr (onion_forward t1 t2 ciphertext url)) st)) = mailboxes st"
  by (simp add: relay_forward_def parsed_def onion_forward_def forward_request_def verify_store_signature_def Let_def)

end
