(* ===== verification/PqKem.thy ===== *)
theory PqKem
  imports Prelude
begin

text \<open>
  The hybrid key encapsulation and handshake of the post-quantum crate: \<open>crypto-pq/src/hybrid_kem.rs\<close>,
  \<open>crypto-pq/src/kem.rs\<close> and \<open>crypto-pq/src/pqxdh.rs\<close>.

  X25519, ML-KEM-768, SHA3-256, HKDF-SHA256 and AES-256-GCM are the record \<open>pq_prims\<close>. Keys are their byte
  strings; a decapsulation key is its 64-byte seed. Fresh secrets and encapsulation randomness are arguments.
  A panic (a failed \<open>unwrap\<close>, a slice out of range) is the value \<open>None\<close>. HKDF is asked for at most 64 bytes,
  where expanding cannot fail. Overwriting dropped secrets is not modelled.
\<close>

section \<open>Definitions\<close>

subsection \<open>Hybrid key encapsulation\<close>

datatype PqError =
    InvalidKeyLength nat nat
  | EncapsulationFailed string
  | DecapsulationFailed string
  | DerivationFailed string

record pq_prims =
  x_pub :: "bytes \<Rightarrow> bytes"
  x_dh :: "bytes \<Rightarrow> bytes \<Rightarrow> bytes"
  ek_valid :: "bytes \<Rightarrow> bool"
  ek_of_seed :: "bytes \<Rightarrow> bytes"
  kem_encap :: "bytes \<Rightarrow> bytes \<Rightarrow> bytes \<times> bytes"
  kem_decap :: "bytes \<Rightarrow> bytes \<Rightarrow> bytes option"
  sha3 :: "bytes \<Rightarrow> bytes"
  pq_hkdf :: "bytes option \<Rightarrow> bytes \<Rightarrow> bytes \<Rightarrow> nat \<Rightarrow> bytes"
  pq_aes_encrypt :: "bytes \<Rightarrow> bytes \<Rightarrow> bytes \<Rightarrow> bytes option"
  pq_aes_decrypt :: "bytes \<Rightarrow> bytes \<Rightarrow> bytes \<Rightarrow> bytes option"

definition X25519_PK_SIZE :: nat where "X25519_PK_SIZE = 32"
definition X25519_CT_SIZE :: nat where "X25519_CT_SIZE = 32"
definition MLKEM768_PK_SIZE :: nat where "MLKEM768_PK_SIZE = 1184"
definition MLKEM768_CT_SIZE :: nat where "MLKEM768_CT_SIZE = 1088"
definition COMBINED_PK_SIZE :: nat where "COMBINED_PK_SIZE = X25519_PK_SIZE + MLKEM768_PK_SIZE"
definition COMBINED_CT_SIZE :: nat where "COMBINED_CT_SIZE = X25519_CT_SIZE + MLKEM768_CT_SIZE"
definition DOMAIN_TAG :: bytes where "DOMAIN_TAG = str_bytes ''add-hybrid-kem-v1''"
definition KEM_CONTEXT_TAG :: bytes where "KEM_CONTEXT_TAG = str_bytes ''add-kem-context-v1''"

record HybridKeypair =
  x25519_secret :: bytes
  x25519_public :: bytes
  mlkem_dec :: bytes
  mlkem_enc :: bytes

record HybridCiphertext =
  x25519_ct :: bytes
  mlkem_ct :: bytes

definition keypair_generate :: "pq_prims \<Rightarrow> bytes \<Rightarrow> bytes \<Rightarrow> HybridKeypair" where
  "keypair_generate P eph seed =
     (let sk = x_pub P eph
      in \<lparr>x25519_secret = sk, x25519_public = x_pub P sk, mlkem_dec = seed, mlkem_enc = ek_of_seed P seed\<rparr>)"

definition combined_public_key :: "HybridKeypair \<Rightarrow> bytes" where
  "combined_public_key kp = x25519_public kp @ mlkem_enc kp"

definition from_combined_public_key :: "pq_prims \<Rightarrow> bytes \<Rightarrow> (PqError, bytes) result" where
  "from_combined_public_key P bs =
     (if length bs \<noteq> COMBINED_PK_SIZE then Inl (InvalidKeyLength COMBINED_PK_SIZE (length bs))
      else if ek_valid P (drop X25519_PK_SIZE bs) then Inr (drop X25519_PK_SIZE bs)
      else Inl (InvalidKeyLength MLKEM768_PK_SIZE (length bs - X25519_PK_SIZE)))"

definition combined_private_key :: "HybridKeypair \<Rightarrow> bytes" where
  "combined_private_key kp = x25519_secret kp @ take 64 (mlkem_dec kp)"

definition from_combined_private_key :: "pq_prims \<Rightarrow> bytes \<Rightarrow> HybridKeypair" where
  "from_combined_private_key P bs =
     \<lparr>x25519_secret = take 32 bs, x25519_public = x_pub P (take 32 bs), mlkem_dec = slice 32 96 bs,
      mlkem_enc = ek_of_seed P (slice 32 96 bs)\<rparr>"

text \<open>The copy into the second part panics unless the ML-KEM ciphertext has its size.\<close>

definition ct_to_bytes :: "HybridCiphertext \<Rightarrow> bytes option" where
  "ct_to_bytes ct = (if length (mlkem_ct ct) = MLKEM768_CT_SIZE then Some (x25519_ct ct @ mlkem_ct ct) else None)"

definition ct_from_bytes :: "bytes \<Rightarrow> (PqError, HybridCiphertext) result" where
  "ct_from_bytes bs =
     (if length bs \<noteq> COMBINED_CT_SIZE then Inl (InvalidKeyLength COMBINED_CT_SIZE (length bs))
      else Inr \<lparr>x25519_ct = take X25519_CT_SIZE bs, mlkem_ct = drop X25519_CT_SIZE bs\<rparr>)"

definition combine_shared_secrets :: "pq_prims \<Rightarrow> bytes \<Rightarrow> bytes \<Rightarrow> bytes \<Rightarrow> bytes \<Rightarrow> bytes" where
  "combine_shared_secrets P ss_x ss_m ct_x pk_x = sha3 P (DOMAIN_TAG @ ss_x @ ss_m @ ct_x @ pk_x)"

definition hybrid_encapsulate :: "pq_prims \<Rightarrow> bytes \<Rightarrow> bytes \<Rightarrow> bytes \<Rightarrow> bytes \<Rightarrow> HybridCiphertext \<times> bytes" where
  "hybrid_encapsulate P eph r recipient_ek initiator_pk =
     (let (ct_m, ss_m) = kem_encap P recipient_ek r; ct_x = x_pub P eph; ss_x = ct_x
      in (\<lparr>x25519_ct = ct_x, mlkem_ct = ct_m\<rparr>, combine_shared_secrets P ss_x ss_m ct_x initiator_pk))"

definition hybrid_decapsulate :: "pq_prims \<Rightarrow> HybridCiphertext \<Rightarrow> HybridKeypair \<Rightarrow> bytes \<Rightarrow> (PqError, bytes) result" where
  "hybrid_decapsulate P ct kp sender_pk =
     (if length (mlkem_ct ct) \<noteq> MLKEM768_CT_SIZE then Inl (InvalidKeyLength MLKEM768_CT_SIZE (length (mlkem_ct ct)))
      else case kem_decap P (mlkem_dec kp) (mlkem_ct ct) of
        None \<Rightarrow> Inl (DecapsulationFailed ''invalid ciphertext length'')
      | Some ss_m \<Rightarrow>
          Inr (combine_shared_secrets P (x_dh P (x25519_secret kp) (x25519_ct ct)) ss_m (x25519_ct ct) sender_pk))"

definition bidirectional_exchange ::
    "pq_prims \<Rightarrow> bytes \<Rightarrow> bytes \<Rightarrow> bytes \<Rightarrow> bytes \<Rightarrow> HybridKeypair \<Rightarrow> bytes \<Rightarrow> bytes
     \<Rightarrow> HybridCiphertext \<times> bytes \<times> HybridCiphertext \<times> bytes" where
  "bidirectional_exchange P e1 r1 e2 r2 ours their_ek their_pk =
     (let (our_ct, our_ss) = hybrid_encapsulate P e1 r1 their_ek (x25519_public ours);
          (their_ct, their_ss) = hybrid_encapsulate P e2 r2 (mlkem_enc ours) their_pk
      in (our_ct, our_ss, their_ct, their_ss))"

definition hybrid_ratchet_step ::
    "pq_prims \<Rightarrow> bytes \<Rightarrow> bytes \<Rightarrow> HybridKeypair \<Rightarrow> bytes \<Rightarrow> bytes \<Rightarrow> HybridCiphertext \<times> bytes" where
  "hybrid_ratchet_step P eph r ours their_ek their_pk =
     (let (ct_m, ss_m) = kem_encap P their_ek r; ct_x = x_pub P eph
      in (\<lparr>x25519_ct = ct_x, mlkem_ct = ct_m\<rparr>, combine_shared_secrets P (x_dh P eph their_pk) ss_m ct_x (x25519_public ours)))"

subsection \<open>The KEM of the ratchet\<close>

definition seed_to_decap_key :: "pq_prims \<Rightarrow> bytes \<Rightarrow> bytes" where
  "seed_to_decap_key P seed = sha3 P seed @ replicate 32 0"

definition kem_generate_keypair :: "pq_prims \<Rightarrow> bytes \<Rightarrow> bytes \<Rightarrow> HybridKeypair \<times> bytes" where
  "kem_generate_keypair P eph seed =
     (let kp = keypair_generate P eph seed in (kp, seed_to_decap_key P (mlkem_enc kp)))"

definition pk_from_bytes :: "pq_prims \<Rightarrow> bytes \<Rightarrow> (PqError, HybridKeypair) result" where
  "pk_from_bytes P bs =
     (case from_combined_public_key P bs of
        Inl e \<Rightarrow> Inl e
      | Inr ek \<Rightarrow>
          let dk = seed_to_decap_key P ek
          in Inr \<lparr>x25519_secret = take 32 bs, x25519_public = take 32 bs, mlkem_dec = dk, mlkem_enc = ek_of_seed P dk\<rparr>)"

definition sk_from_bytes :: "bytes \<Rightarrow> (PqError, bytes) result" where
  "sk_from_bytes bs = (if length bs \<noteq> 64 then Inl (InvalidKeyLength 64 (length bs)) else Inr bs)"

definition hybrid_encapsulate_with_context ::
    "pq_prims \<Rightarrow> bytes \<Rightarrow> bytes \<Rightarrow> HybridKeypair \<Rightarrow> bytes \<Rightarrow> HybridCiphertext \<times> bytes" where
  "hybrid_encapsulate_with_context P eph r recipient context =
     (let (ct_m, ss_m) = kem_encap P (mlkem_enc recipient) r; ct_x = x_pub P eph;
          ss_x = x_dh P eph (x25519_public recipient)
      in (\<lparr>x25519_ct = ct_x, mlkem_ct = ct_m\<rparr>,
          sha3 P (KEM_CONTEXT_TAG @ context @ ss_x @ ss_m @ ct_x @ x25519_public recipient)))"

definition hybrid_decapsulate_with_context ::
    "pq_prims \<Rightarrow> bytes \<Rightarrow> HybridCiphertext \<Rightarrow> bytes \<Rightarrow> (PqError, bytes) result" where
  "hybrid_decapsulate_with_context P sk ct context =
     (if length (mlkem_ct ct) \<noteq> MLKEM768_CT_SIZE then Inl (InvalidKeyLength MLKEM768_CT_SIZE (length (mlkem_ct ct)))
      else case kem_decap P sk (mlkem_ct ct) of
        None \<Rightarrow> Inl (DecapsulationFailed ''invalid ciphertext length'')
      | Some ss_m \<Rightarrow>
          Inr (sha3 P (KEM_CONTEXT_TAG @ context @ x_dh P (take 32 sk) (x25519_ct ct) @ ss_m @ x25519_ct ct @ x25519_ct ct)))"

definition make_kem_context :: "u64 \<Rightarrow> u64 \<Rightarrow> bytes" where
  "make_kem_context epoch seq = KEM_CONTEXT_TAG @ u64_to_be_bytes epoch @ u64_to_be_bytes seq"

definition u16_of :: "bytes \<Rightarrow> nat" where
  "u16_of bs = be_value bs"

definition serialize_keypair :: "HybridKeypair \<Rightarrow> bytes \<Rightarrow> bytes" where
  "serialize_keypair pk sk =
     (let pk_bytes = combined_public_key pk
      in be_bytes 2 (length pk_bytes) @ pk_bytes @ be_bytes 2 (length sk) @ sk)"

definition deserialize_keypair :: "pq_prims \<Rightarrow> bytes \<Rightarrow> (PqError, HybridKeypair \<times> bytes) result" where
  "deserialize_keypair P wire =
     (if length wire < 4 then Inl (InvalidKeyLength 4 (length wire))
      else let pk_len = u16_of (take 2 wire); sk_start = 2 + pk_len + 2 in
        if sk_start > length wire then Inl (InvalidKeyLength 4 (length wire))
        else let sk_len = u16_of (slice (sk_start - 2) sk_start wire); sk_end = sk_start + sk_len in
          if sk_end > length wire then Inl (InvalidKeyLength sk_end (length wire))
          else case pk_from_bytes P (slice 2 (sk_start - 2) wire) of
            Inl e \<Rightarrow> Inl e
          | Inr pk \<Rightarrow> (case sk_from_bytes (slice sk_start sk_end wire) of Inl e \<Rightarrow> Inl e | Inr sk \<Rightarrow> Inr (pk, sk)))"

subsection \<open>Handshake\<close>

definition PQXDH_VERSION :: string where "PQXDH_VERSION = ''add-pqxdh-v1''"

record PqxDhSessionKeys =
  send_key :: bytes
  recv_key :: bytes
  send_iv :: bytes
  recv_iv :: bytes

record PqxDhRatchetState =
  px_root_key :: bytes
  px_send_chain_key :: bytes
  px_recv_chain_key :: bytes
  px_send_message_counter :: u64
  px_recv_message_counter :: u64
  px_is_initiator :: bool

fun lt_bytes :: "bytes \<Rightarrow> bytes \<Rightarrow> bool" where
  "lt_bytes [] [] = False"
| "lt_bytes [] (y # ys) = True"
| "lt_bytes (x # xs) [] = False"
| "lt_bytes (x # xs) (y # ys) = (x < y \<or> x = y \<and> lt_bytes xs ys)"

definition derive_session_keys :: "pq_prims \<Rightarrow> bytes \<Rightarrow> bytes \<Rightarrow> bytes \<Rightarrow> bool \<Rightarrow> PqxDhSessionKeys" where
  "derive_session_keys P init_ss resp_ss nonce initiator =
     (let combined = (if lt_bytes resp_ss init_ss then resp_ss @ init_ss else init_ss @ resp_ss);
          ikdf = pq_hkdf P (Some nonce) combined (str_bytes ''add-pqxdh-master-v1'') 64;
          forward = pq_hkdf P (Some ikdf) (nonce @ [1]) (str_bytes ''add-pqxdh-send-v1'') 32;
          backward = pq_hkdf P (Some ikdf) (nonce @ [2]) (str_bytes ''add-pqxdh-recv-v1'') 32
      in \<lparr>send_key = (if initiator then forward else backward), recv_key = (if initiator then backward else forward),
          send_iv = pq_hkdf P (Some ikdf) (str_bytes ''add-pqxdh-iv-send-v1'') [] 12,
          recv_iv = pq_hkdf P (Some ikdf) (str_bytes ''add-pqxdh-iv-recv-v1'') [] 12\<rparr>)"

definition init_ratchet_state :: "pq_prims \<Rightarrow> bytes \<Rightarrow> PqxDhSessionKeys \<Rightarrow> bytes \<Rightarrow> bool \<Rightarrow> PqxDhRatchetState" where
  "init_ratchet_state P eph keys resp_pk initiator =
     (let root = sha3 P (str_bytes ''add-pqxdh-root-v1'' @ x_dh P eph resp_pk @ send_key keys @ recv_key keys);
          s = pq_hkdf P (Some root) (str_bytes ''add-pqxdh-chains-v1'') [] 32;
          r = pq_hkdf P (Some root) (str_bytes ''add-pqxdh-chains-v2'') [] 32
      in \<lparr>px_root_key = root, px_send_chain_key = (if initiator then s else r), px_recv_chain_key = (if initiator then r else s),
          px_send_message_counter = 0, px_recv_message_counter = 0, px_is_initiator = initiator\<rparr>)"

definition execute_pqxdh_handshake ::
    "pq_prims \<Rightarrow> (nat \<Rightarrow> bytes) \<Rightarrow> HybridKeypair \<Rightarrow> bytes \<Rightarrow> HybridKeypair \<Rightarrow> bytes
     \<Rightarrow> (PqError, PqxDhSessionKeys \<times> PqxDhRatchetState) result" where
  "execute_pqxdh_handshake P rnd init_kp init_pk resp_kp resp_pk =
     (let (our_ct, our_ss, their_ct, their_ss) =
            bidirectional_exchange P (rnd 0) (rnd 1) (rnd 2) (rnd 3) init_kp (mlkem_enc resp_kp) resp_pk
      in case hybrid_decapsulate P their_ct init_kp resp_pk of
           Inl e \<Rightarrow> Inl e
         | Inr _ \<Rightarrow>
             (case hybrid_decapsulate P our_ct resp_kp init_pk of
                Inl e \<Rightarrow> Inl e
              | Inr _ \<Rightarrow>
                  let keys = derive_session_keys P our_ss their_ss (rnd 4) True
                  in Inr (keys, init_ratchet_state P (rnd 5) keys resp_pk True)))"

text \<open>The step encapsulates under an all-zero key, whatever the peer's key is.\<close>

definition pqxdh_ratchet_step ::
    "pq_prims \<Rightarrow> (nat \<Rightarrow> bytes) \<Rightarrow> HybridKeypair \<Rightarrow> bytes \<Rightarrow> PqxDhRatchetState
     \<Rightarrow> ((HybridCiphertext \<times> bytes) \<times> PqxDhRatchetState) option" where
  "pqxdh_ratchet_step P rnd ours peer_pk st =
     (if \<not> ek_valid P (replicate 1184 0) then None
      else let ct_x = x_pub P (rnd 0); dh_ss = x_dh P (rnd 1) peer_pk;
               (ct_m, ss_m) = kem_encap P (replicate 1184 0) (rnd 2);
               ss = combine_shared_secrets P dh_ss ss_m ct_x (x25519_public ours)
           in Some ((\<lparr>x25519_ct = ct_x, mlkem_ct = ct_m\<rparr>, ss),
                    st\<lparr>px_send_chain_key := pq_hkdf P (Some (px_send_chain_key st)) ss (str_bytes ''add-pqxdh-ratchet-chain-v1'') 32\<rparr>))"

record PqxDhHandshake =
  hs_version :: string
  init_ephemeral_x25519_pk :: bytes
  resp_ephemeral_x25519_pk :: bytes
  init_mlkem_enc_key :: bytes
  resp_mlkem_enc_key :: bytes
  init_hybrid_ct :: HybridCiphertext
  resp_hybrid_ct :: HybridCiphertext

definition serialize_handshake_to_wire ::
    "pq_prims \<Rightarrow> bytes \<Rightarrow> bytes \<Rightarrow> bytes \<Rightarrow> bytes \<Rightarrow> HybridCiphertext \<Rightarrow> HybridCiphertext \<Rightarrow> bytes option" where
  "serialize_handshake_to_wire P init_pk resp_pk init_ek resp_ek init_ct resp_ct =
     (if \<not> ek_valid P (replicate 1184 0) then None
      else case ct_to_bytes init_ct of
        None \<Rightarrow> None
      | Some c1 \<Rightarrow>
          (case ct_to_bytes resp_ct of
             None \<Rightarrow> None
           | Some c2 \<Rightarrow>
               Some ([word_of_nat (length PQXDH_VERSION)] @ str_bytes PQXDH_VERSION @ init_pk @ resp_pk
                     @ replicate 1184 0 @ replicate 1184 0 @ c1 @ c2)))"

text \<open>\<open>utf8\<close> decodes a string, if it is valid. The slices after the ephemeral keys are not checked.\<close>

definition deserialize_handshake_from_wire ::
    "(bytes \<Rightarrow> string option) \<Rightarrow> bytes \<Rightarrow> (PqError, PqxDhHandshake) result option" where
  "deserialize_handshake_from_wire utf8 wire =
     (if wire = [] then Some (Inl (InvalidKeyLength 1 0))
      else let vlen = unat (wire ! 0) in
        if 1 + vlen > length wire then Some (Inl (InvalidKeyLength vlen (length wire - 1)))
        else case utf8 (slice 1 (1 + vlen) wire) of
          None \<Rightarrow> Some (Inl (DecapsulationFailed ''version not UTF-8''))
        | Some version \<Rightarrow>
            let off1 = 1 + vlen in
            if off1 + 32 > length wire then Some (Inl (InvalidKeyLength 32 (length wire - off1)))
            else let off2 = off1 + 32 in
              if off2 + 32 > length wire then Some (Inl (InvalidKeyLength 32 (length wire - off2)))
              else let off3 = off2 + 32; off4 = off3 + 1184; off5 = off4 + 1184; off6 = off5 + COMBINED_CT_SIZE;
                       off7 = off6 + COMBINED_CT_SIZE in
                if off5 > length wire then None
                else if off6 > length wire then None
                else case ct_from_bytes (slice off5 off6 wire) of
                  Inl e \<Rightarrow> Some (Inl e)
                | Inr c1 \<Rightarrow>
                    if off7 > length wire then None
                    else case ct_from_bytes (slice off6 off7 wire) of
                      Inl e \<Rightarrow> Some (Inl e)
                    | Inr c2 \<Rightarrow>
                        Some (Inr \<lparr>hs_version = version, init_ephemeral_x25519_pk = slice off1 off2 wire,
                                   resp_ephemeral_x25519_pk = slice off2 off3 wire,
                                   init_mlkem_enc_key = slice off3 off4 wire, resp_mlkem_enc_key = slice off4 off5 wire,
                                   init_hybrid_ct = c1, resp_hybrid_ct = c2\<rparr>))"

section \<open>Lemmas\<close>

text \<open>What the crate relies on of its primitives: sizes, the commutation of Diffie-Hellman, and that
  decapsulation with a seed inverts encapsulation under its key.\<close>

definition pq_ok :: "pq_prims \<Rightarrow> bool" where
  "pq_ok P \<longleftrightarrow> (\<forall>k. length (x_pub P k) = 32) \<and> (\<forall>k p. length (x_dh P k p) = 32)
     \<and> (\<forall>a b. x_dh P a (x_pub P b) = x_dh P b (x_pub P a))
     \<and> (\<forall>s. length (ek_of_seed P s) = 1184 \<and> ek_valid P (ek_of_seed P s))
     \<and> (\<forall>s r. length (fst (kem_encap P (ek_of_seed P s) r)) = 1088
          \<and> kem_decap P s (fst (kem_encap P (ek_of_seed P s) r)) = Some (snd (kem_encap P (ek_of_seed P s) r)))
     \<and> (\<forall>d. length (sha3 P d) = 32) \<and> (\<forall>s i f n. length (pq_hkdf P s i f n) = n)
     \<and> ek_valid P (replicate 1184 0)"

lemma pq_okD:
  assumes "pq_ok P"
  shows "length (x_pub P k) = 32" "length (x_dh P k p) = 32" "x_dh P a (x_pub P b) = x_dh P b (x_pub P a)"
    "length (ek_of_seed P s) = 1184" "ek_valid P (ek_of_seed P s)" "length (fst (kem_encap P (ek_of_seed P s) r)) = 1088"
    "kem_decap P s (fst (kem_encap P (ek_of_seed P s) r)) = Some (snd (kem_encap P (ek_of_seed P s) r))"
    "length (sha3 P d) = 32" "length (pq_hkdf P sl i f n) = n" "ek_valid P (replicate 1184 0)"
  using assms unfolding pq_ok_def by blast+

lemma lt_bytes_asym: "lt_bytes a b \<Longrightarrow> \<not> lt_bytes b a"
  by (induction a b rule: lt_bytes.induct) auto

lemma lt_bytes_total: "\<not> lt_bytes a b \<Longrightarrow> \<not> lt_bytes b a \<Longrightarrow> a = b"
  by (induction a b rule: lt_bytes.induct) (auto simp: not_less)

lemma ct_bytes_roundtrip:
  "length (x25519_ct ct) = 32 \<Longrightarrow> length (mlkem_ct ct) = 1088 \<Longrightarrow>
   ct_to_bytes ct = Some (x25519_ct ct @ mlkem_ct ct) \<and> ct_from_bytes (x25519_ct ct @ mlkem_ct ct) = Inr ct"
  by (simp add: ct_to_bytes_def ct_from_bytes_def COMBINED_CT_SIZE_def X25519_CT_SIZE_def MLKEM768_CT_SIZE_def)

lemma slice_app: "length a = i \<Longrightarrow> j = i + length b \<Longrightarrow> slice i j (a @ b @ c) = b"
  by (simp add: slice_def)

lemma slice_app_end: "length a = i \<Longrightarrow> j = i + length b \<Longrightarrow> slice i j (a @ b) = b"
  by (simp add: slice_def)

definition toy_pq :: pq_prims where
  "toy_pq = \<lparr>x_pub = \<lambda>k. take 32 (k @ replicate 32 0), x_dh = \<lambda>a b. replicate 32 9, ek_valid = \<lambda>_. True,
     ek_of_seed = \<lambda>_. replicate 1184 1, kem_encap = \<lambda>_ _. (replicate 1088 2, [5]), kem_decap = \<lambda>_ _. Some [5],
     sha3 = \<lambda>d. take 32 (drop 17 d @ replicate 32 0), pq_hkdf = \<lambda>s i f n. take n (i @ replicate n 0),
     pq_aes_encrypt = \<lambda>k n p. Some (p @ k), pq_aes_decrypt = \<lambda>k n c. Some (take (length c - length k) c)\<rparr>"

lemma toy_pq_ok: "pq_ok toy_pq"
  by (auto simp: pq_ok_def toy_pq_def)

section \<open>Properties\<close>

text \<open>The hybrid encapsulation does not agree with its decapsulation. What the ratchet step encapsulates
  is recovered by the peer, up to the key the peer decapsulates with; but \<open>hybrid_encapsulate\<close> takes the public
  ephemeral key for the X25519 secret, so the peer derives another secret unless the hash collides or the two
  values happen to be equal.\<close>

theorem hybrid_kem_agreement:
  assumes "pq_ok P" "x25519_public kp = x_pub P (x25519_secret kp)" "mlkem_enc kp = ek_of_seed P (mlkem_dec kp)"
  shows "hybrid_decapsulate P (fst (hybrid_ratchet_step P eph r ours (mlkem_enc kp) (x25519_public kp))) kp (x25519_public ours)
      = Inr (snd (hybrid_ratchet_step P eph r ours (mlkem_enc kp) (x25519_public kp)))
    \<and> (hybrid_decapsulate P (fst (hybrid_encapsulate P eph r (mlkem_enc kp) pk)) kp pk
         = Inr (snd (hybrid_encapsulate P eph r (mlkem_enc kp) pk))
       \<longleftrightarrow> (let ss = snd (kem_encap P (mlkem_enc kp) r); ct = x_pub P eph
            in sha3 P (DOMAIN_TAG @ x_dh P (x25519_secret kp) ct @ ss @ ct @ pk) = sha3 P (DOMAIN_TAG @ ct @ ss @ ct @ pk)))"
proof -
  obtain c ss where e: "kem_encap P (ek_of_seed P (mlkem_dec kp)) r = (c, ss)" by fastforce
  note ok = pq_okD(6,7)[OF assms(1), of "mlkem_dec kp" r, unfolded e fst_conv snd_conv]
  have "x_dh P eph (x_pub P (x25519_secret kp)) = x_dh P (x25519_secret kp) (x_pub P eph)" by (rule pq_okD(3)[OF assms(1)])
  then show ?thesis
    using ok by (simp add: assms(2,3) e hybrid_decapsulate_def hybrid_ratchet_step_def hybrid_encapsulate_def Let_def
        combine_shared_secrets_def MLKEM768_CT_SIZE_def)
qed

theorem hybrid_kem_agreement_witness:
  "let kp = keypair_generate toy_pq [1] [2]
   in hybrid_decapsulate toy_pq (fst (hybrid_encapsulate toy_pq [3] [4] (mlkem_enc kp) [7])) kp [7]
      \<noteq> Inr (snd (hybrid_encapsulate toy_pq [3] [4] (mlkem_enc kp) [7]))"
proof -
  let ?kp = "keypair_generate toy_pq [1] [2]"
  have "x25519_public ?kp = x_pub toy_pq (x25519_secret ?kp)" "mlkem_enc ?kp = ek_of_seed toy_pq (mlkem_dec ?kp)"
    by (simp_all add: keypair_generate_def Let_def)
  note h = hybrid_kem_agreement[OF toy_pq_ok this, of "[3]" "[4]" ?kp "[7]"]
  have "sha3 toy_pq (DOMAIN_TAG @ x_dh toy_pq s c @ ss @ c @ p) \<noteq> sha3 toy_pq (DOMAIN_TAG @ c @ ss @ c @ p)"
    if "c = x_pub toy_pq [3]" for s c ss p
  proof -
    have "hd (sha3 toy_pq (DOMAIN_TAG @ x_dh toy_pq s c @ ss @ c @ p)) = 9" "hd (sha3 toy_pq (DOMAIN_TAG @ c @ ss @ c @ p)) = 3"
      using that by (simp_all add: toy_pq_def DOMAIN_TAG_def str_bytes_def)
    then show ?thesis by force
  qed
  with h show ?thesis by (simp add: Let_def)
qed

text \<open>The two sides of a handshake derive matching session keys: with the same nonce and the two secrets
  in either order, what one side sends with is what the other receives with. The initialisation vectors do
  not match in this way: both sides derive the same pair.\<close>

theorem session_keys_agree:
  "let i = derive_session_keys P a b nonce True; r = derive_session_keys P b a nonce False
   in send_key i = recv_key r \<and> recv_key i = send_key r \<and> send_iv i = send_iv r \<and> recv_iv i = recv_iv r"
proof -
  have "(if lt_bytes b a then b @ a else a @ b) = (if lt_bytes a b then a @ b else b @ a)"
    using lt_bytes_asym[of a b] lt_bytes_total[of a b] by auto
  then show ?thesis by (simp add: derive_session_keys_def Let_def)
qed

text \<open>The handshake message arrives with zeroed encapsulation keys: everything else is parsed back as it
  was written, but both ML-KEM keys are 1184 zero bytes, whatever was given.\<close>

theorem handshake_wire_zero_keys:
  assumes "pq_ok P" "\<forall>t. utf8 (str_bytes t) = Some t" "length ipk = 32" "length rpk = 32"
    and "length (x25519_ct c1) = 32" "length (mlkem_ct c1) = 1088" "length (x25519_ct c2) = 32" "length (mlkem_ct c2) = 1088"
  shows "\<exists>wire. serialize_handshake_to_wire P ipk rpk iek rek c1 c2 = Some wire
    \<and> deserialize_handshake_from_wire utf8 wire
      = Some (Inr \<lparr>hs_version = PQXDH_VERSION, init_ephemeral_x25519_pk = ipk, resp_ephemeral_x25519_pk = rpk,
                   init_mlkem_enc_key = replicate 1184 0, resp_mlkem_enc_key = replicate 1184 0,
                   init_hybrid_ct = c1, resp_hybrid_ct = c2\<rparr>)"
proof -
  let ?z = "replicate 1184 0 :: bytes" and ?v = "str_bytes PQXDH_VERSION"
  define b1 b2 where b: "b1 = x25519_ct c1 @ mlkem_ct c1" "b2 = x25519_ct c2 @ mlkem_ct c2"
  have r: "ct_to_bytes c1 = Some b1" "ct_from_bytes b1 = Inr c1" "ct_to_bytes c2 = Some b2" "ct_from_bytes b2 = Inr c2"
    using ct_bytes_roundtrip assms(5-8) by (simp_all add: b)
  have l: "length b1 = 1120" "length b2 = 1120" "length PQXDH_VERSION = 12" using assms(5-8) by (simp_all add: b PQXDH_VERSION_def)
  let ?w = "[12] @ ?v @ ipk @ rpk @ ?z @ ?z @ b1 @ b2"
  have w: "serialize_handshake_to_wire P ipk rpk iek rek c1 c2 = Some ?w"
    using r l pq_okD(10)[OF assms(1)] by (simp add: serialize_handshake_to_wire_def)
  have s: "slice 1 13 ?w = ?v" "slice 13 45 ?w = ipk" "slice 45 77 ?w = rpk" "slice 77 1261 ?w = ?z"
      "slice 1261 2445 ?w = ?z" "slice 2445 3565 ?w = b1" "slice 3565 4685 ?w = b2"
    using l assms(3,4) slice_app[of "[12]" 1 13 ?v] slice_app[of "[12] @ ?v" 13 45 ipk] slice_app[of "[12] @ ?v @ ipk" 45 77 rpk]
      slice_app[of "[12] @ ?v @ ipk @ rpk" 77 1261 ?z] slice_app[of "[12] @ ?v @ ipk @ rpk @ ?z" 1261 2445 ?z]
      slice_app[of "[12] @ ?v @ ipk @ rpk @ ?z @ ?z" 2445 3565 b1] slice_app_end[of "[12] @ ?v @ ipk @ rpk @ ?z @ ?z @ b1" 3565 4685 b2]
    by simp_all
  have "length ?w = 4685" "?w ! 0 = 12" "?w \<noteq> []" using l assms(3,4) by simp_all
  then show ?thesis
    using w r s assms(2)[rule_format, of PQXDH_VERSION]
    by (simp add: deserialize_handshake_from_wire_def Let_def COMBINED_CT_SIZE_def X25519_CT_SIZE_def MLKEM768_CT_SIZE_def
        del: append_Cons append_assoc append_Nil)
qed

theorem handshake_wire_zero_keys_witness:
  "\<exists>wire h. serialize_handshake_to_wire toy_pq (replicate 32 1) (replicate 32 2) (replicate 1184 7) (replicate 1184 8)
       \<lparr>x25519_ct = replicate 32 3, mlkem_ct = replicate 1088 4\<rparr> \<lparr>x25519_ct = replicate 32 5, mlkem_ct = replicate 1088 6\<rparr> = Some wire
     \<and> deserialize_handshake_from_wire (\<lambda>b. Some (bytes_str b)) wire = Some (Inr h) \<and> init_mlkem_enc_key h = replicate 1184 0"
  using handshake_wire_zero_keys[OF toy_pq_ok, of "\<lambda>b. Some (bytes_str b)" "replicate 32 1" "replicate 32 2"
      "\<lparr>x25519_ct = replicate 32 3, mlkem_ct = replicate 1088 4\<rparr>" "\<lparr>x25519_ct = replicate 32 5, mlkem_ct = replicate 1088 6\<rparr>"]
  by fastforce

text \<open>A generated key pair survives its private-key form, but not its serialised form: there the
  encapsulation key is replaced by the one of a seed that anyone can compute from it, and the X25519 secret by
  the public key.\<close>

lemma private_key_roundtrip:
  assumes "pq_ok P" "length seed = 64"
  shows "from_combined_private_key P (combined_private_key (keypair_generate P eph seed)) = keypair_generate P eph seed"
  using assms pq_okD(1)[OF assms(1), of eph]
  by (simp add: from_combined_private_key_def combined_private_key_def keypair_generate_def Let_def slice_def)

lemma keypair_wire_replaces_key:
  assumes "pq_ok P" "length sk = 64" "kp = keypair_generate P eph seed"
  shows "deserialize_keypair P (serialize_keypair kp sk)
    = (let dk = seed_to_decap_key P (mlkem_enc kp)
       in Inr (\<lparr>x25519_secret = x25519_public kp, x25519_public = x25519_public kp, mlkem_dec = dk, mlkem_enc = ek_of_seed P dk\<rparr>, sk))"
proof -
  let ?pk = "combined_public_key kp"
  have l: "length (x25519_public kp) = 32" "length (mlkem_enc kp) = 1184" "ek_valid P (mlkem_enc kp)"
    using pq_okD[OF assms(1)] by (simp_all add: assms(3) keypair_generate_def Let_def)
  then have pk: "length ?pk = 1216" "take 32 ?pk = x25519_public kp" "drop 32 ?pk = mlkem_enc kp"
    by (simp_all add: combined_public_key_def)
  have v: "u16_of (be_bytes 2 1216) = 1216" "u16_of (be_bytes 2 64) = 64" by (simp_all add: u16_of_def be_value_be_bytes)
  have w: "serialize_keypair kp sk = be_bytes 2 1216 @ ?pk @ be_bytes 2 64 @ sk" "length (serialize_keypair kp sk) = 1284"
    using pk(1) assms(2) by (simp_all add: serialize_keypair_def Let_def)
  have s: "take 2 (serialize_keypair kp sk) = be_bytes 2 1216" "slice 2 1218 (serialize_keypair kp sk) = ?pk"
      "slice 1218 1220 (serialize_keypair kp sk) = be_bytes 2 64" "slice 1220 1284 (serialize_keypair kp sk) = sk"
    using pk(1) assms(2) slice_app[of "be_bytes 2 1216" 2 1218 ?pk] slice_app[of "be_bytes 2 1216 @ ?pk" 1218 1220 "be_bytes 2 64"]
      slice_app_end[of "be_bytes 2 1216 @ ?pk @ be_bytes 2 64" 1220 1284 sk]
    unfolding w(1) by simp_all
  show ?thesis
    using w(2) s v pk l(3) assms(2)
    by (simp add: deserialize_keypair_def Let_def pk_from_bytes_def from_combined_public_key_def sk_from_bytes_def
        COMBINED_PK_SIZE_def X25519_PK_SIZE_def MLKEM768_PK_SIZE_def)
qed

end
