(* ===== verification/PqRatchet.thy ===== *)
theory PqRatchet
  imports PqKem
begin

text \<open>
  The post-quantum double ratchet, \<open>crypto-pq/src/ratchet_pq.rs\<close>: its message format, the store of message
  keys, the sending and receiving chains, the root step, and the legacy wrapper \<open>PqDoubleRatchet\<close>.

  Fresh secrets, randomness and nonces are arguments; a panic is \<open>None\<close>. The receiving loop is a
  \<open>partial_function\<close>: it runs forever when the sequence number is the largest of its type.
\<close>

section \<open>Definitions\<close>

definition PQ_MAX_SKIPPED_KEYS :: nat where "PQ_MAX_SKIPPED_KEYS = 1024"
definition PQ_MAX_SKIP_AHEAD :: u64 where "PQ_MAX_SKIP_AHEAD = 1024"
definition MESSAGE_KEY_INFO :: bytes where "MESSAGE_KEY_INFO = str_bytes ''add-pq-ratchet-msg-key-v1''"
definition ROOT_KEY_UPDATE_INFO :: bytes where "ROOT_KEY_UPDATE_INFO = str_bytes ''add-pq-ratchet-root-update-v1''"
definition CHAIN_KEY_UPDATE_INFO :: bytes where "CHAIN_KEY_UPDATE_INFO = str_bytes ''add-pq-ratchet-chain-update-v1''"

datatype RatchetPhase = AwaitingKemResponse | AwaitingKemRequest

record RatchetStateBase =
  pq_root_key :: bytes
  pq_send_chain_key :: bytes
  pq_recv_chain_key :: bytes
  pq_send_message_counter :: u64
  pq_recv_message_counter :: u64
  pq_is_initiator :: bool

record EphemeralKeys =
  eph_x25519_pk :: bytes
  eph_mlkem_dec :: bytes
  eph_mlkem_enc :: bytes
  eph_x25519_secret :: bytes

record KemRatchetState =
  base :: RatchetStateBase
  our_ephemeral :: EphemeralKeys
  their_mlkem_enc :: bytes
  their_x25519_pk :: bytes
  pq_skipped_keys :: "(u64 \<times> bytes) list"
  pq_send_seq :: u64
  pq_recv_seq :: u64
  phase :: RatchetPhase

subsection \<open>Wire format\<close>

record KemRatchetMessage =
  km_version :: string
  km_x25519_pk :: bytes
  km_mlkem_enc_key :: bytes
  km_hybrid_ct :: "HybridCiphertext option"
  km_seq :: u64
  km_epoch :: u64

definition km_to_wire :: "KemRatchetMessage \<Rightarrow> bytes option" where
  "km_to_wire m =
     (case (case km_hybrid_ct m of None \<Rightarrow> Some [] | Some ct \<Rightarrow> ct_to_bytes ct) of
        None \<Rightarrow> None
      | Some hct \<Rightarrow>
          Some ([word_of_nat (length (km_version m))] @ str_bytes (km_version m) @ km_x25519_pk m @ km_mlkem_enc_key m
                @ hct @ u64_to_be_bytes (km_seq m) @ u64_to_be_bytes (km_epoch m)))"

definition km_from_wire :: "(bytes \<Rightarrow> string option) \<Rightarrow> bytes \<Rightarrow> (PqError, KemRatchetMessage) result" where
  "km_from_wire utf8 wire =
     (if wire = [] then Inl (InvalidKeyLength 1 0)
      else let vlen = unat (wire ! 0) in
        if 1 + vlen > length wire then Inl (InvalidKeyLength vlen (length wire - 1))
        else case utf8 (slice 1 (1 + vlen) wire) of
          None \<Rightarrow> Inl (DecapsulationFailed ''version not UTF-8'')
        | Some version \<Rightarrow>
            let off1 = 1 + vlen; off2 = off1 + 32; off3 = off2 + 1184 in
            if off2 > length wire then Inl (InvalidKeyLength 32 (length wire - off1))
            else if off3 > length wire then Inl (InvalidKeyLength 1184 (length wire - off2))
            else case (if length wire - off3 \<ge> COMBINED_CT_SIZE
                       then map_sum id Some (ct_from_bytes (slice off3 (off3 + COMBINED_CT_SIZE) wire)) else Inr None) of
              Inl e \<Rightarrow> Inl e
            | Inr hct \<Rightarrow>
                let off4 = (if hct \<noteq> None then off3 + COMBINED_CT_SIZE else off3) in
                if length wire - off4 < 8 then Inl (InvalidKeyLength 8 (length wire - off4))
                else let off5 = off4 + 8 in
                  Inr \<lparr>km_version = version, km_x25519_pk = slice off1 off2 wire, km_mlkem_enc_key = slice off2 off3 wire,
                       km_hybrid_ct = hct, km_seq = u64_from_be_bytes (slice off4 off5 wire),
                       km_epoch = (if length wire - off5 \<ge> 8 then u64_from_be_bytes (slice off5 (off5 + 8) wire) else 0)\<rparr>)"

subsection \<open>Message keys and chains\<close>

definition KemRatchetState_new :: "RatchetStateBase \<Rightarrow> EphemeralKeys \<Rightarrow> bytes \<Rightarrow> bytes \<Rightarrow> KemRatchetState" where
  "KemRatchetState_new b eph ek pk =
     \<lparr>base = b, our_ephemeral = eph, their_mlkem_enc = ek, their_x25519_pk = pk, pq_skipped_keys = [],
      pq_send_seq = 0, pq_recv_seq = 0, phase = AwaitingKemResponse\<rparr>"

definition pq_derive_message_key :: "pq_prims \<Rightarrow> bytes \<Rightarrow> bytes \<Rightarrow> bytes \<times> bytes" where
  "pq_derive_message_key P chain_key combined_ss =
     (let out = pq_hkdf P None (chain_key @ combined_ss) MESSAGE_KEY_INFO 64 in (take 32 out, drop 32 out))"

definition drop_oldest :: "(u64 \<times> bytes) list \<Rightarrow> (u64 \<times> bytes) list" where
  "drop_oldest ks = (if length ks > PQ_MAX_SKIPPED_KEYS then drop 1 (sort_key fst ks) else ks)"

definition pq_store_skipped_key :: "u64 \<Rightarrow> bytes \<Rightarrow> KemRatchetState \<Rightarrow> KemRatchetState" where
  "pq_store_skipped_key sq k st =
     (if sq \<in> fst ` set (pq_skipped_keys st) then st
      else st\<lparr>pq_skipped_keys := drop_oldest (pq_skipped_keys st @ [(sq, k)])\<rparr>)"

definition pq_get_message_key :: "u64 \<Rightarrow> KemRatchetState \<Rightarrow> bytes option" where
  "pq_get_message_key sq st = map_of (pq_skipped_keys st) sq"

definition pq_prune_skipped_keys :: "KemRatchetState \<Rightarrow> KemRatchetState" where
  "pq_prune_skipped_keys st = st\<lparr>pq_skipped_keys := drop_oldest (pq_skipped_keys st)\<rparr>"

definition advance_send_chain :: "pq_prims \<Rightarrow> bytes \<Rightarrow> KemRatchetState \<Rightarrow> KemRatchetState" where
  "advance_send_chain P ss st =
     (let (k, ck) = pq_derive_message_key P (pq_send_chain_key (base st)) ss;
          st1 = pq_store_skipped_key (pq_send_seq st) k st
      in st1\<lparr>base := (base st1)\<lparr>pq_send_chain_key := ck\<rparr>, pq_send_seq := pq_send_seq st + 1\<rparr>)"

definition advance_recv_chain :: "pq_prims \<Rightarrow> bytes \<Rightarrow> KemRatchetState \<Rightarrow> KemRatchetState" where
  "advance_recv_chain P ss st =
     (let (k, ck) = pq_derive_message_key P (pq_recv_chain_key (base st)) ss;
          st1 = pq_store_skipped_key (pq_recv_seq st) k st
      in st1\<lparr>base := (base st1)\<lparr>pq_recv_chain_key := ck\<rparr>, pq_recv_seq := pq_recv_seq st + 1\<rparr>)"

partial_function (option) advance_recv_to :: "pq_prims \<Rightarrow> bytes \<Rightarrow> u64 \<Rightarrow> KemRatchetState \<Rightarrow> KemRatchetState option" where
  [code]: "advance_recv_to P ss sq st =
     (if pq_recv_seq st \<le> sq then advance_recv_to P ss sq (advance_recv_chain P ss st) else Some st)"

definition sat_sub :: "u64 \<Rightarrow> u64 \<Rightarrow> u64" where
  "sat_sub a b = (if b \<le> a then a - b else 0)"

definition xor_epoch :: "u8 \<Rightarrow> bytes \<Rightarrow> bytes" where
  "xor_epoch e nonce = nonce[0 := xor (nonce ! 0) e, 1 := xor (nonce ! 1) e]"

definition pq_encrypt_message ::
    "pq_prims \<Rightarrow> bytes \<Rightarrow> bytes \<Rightarrow> bytes \<Rightarrow> KemRatchetState \<Rightarrow> (PqError, bytes \<times> bytes) result \<times> KemRatchetState" where
  "pq_encrypt_message P rnd pt ss st =
     (let st1 = advance_send_chain P ss st
      in case pq_get_message_key (sat_sub (pq_send_seq st1) 1) st1 of
           None \<Rightarrow> (Inl (DerivationFailed ''missing msg key''), st1)
         | Some k \<Rightarrow>
             let nonce = xor_epoch (pq_root_key (base st1) ! 0) rnd
             in (case pq_aes_encrypt P k nonce pt of
                   None \<Rightarrow> Inl (EncapsulationFailed ''AES-GCM encrypt'')
                 | Some c \<Rightarrow> Inr (c, nonce), st1))"

definition receive_key ::
    "pq_prims \<Rightarrow> string \<Rightarrow> u64 \<Rightarrow> bytes \<Rightarrow> KemRatchetState \<Rightarrow> ((PqError, bytes) result \<times> KemRatchetState) option" where
  "receive_key P missing sq ss st =
     (let gap = sat_sub sq (pq_recv_seq st)
      in if gap > PQ_MAX_SKIP_AHEAD then Some (Inl (DerivationFailed (''seq gap too large: '' @ show_nat (unat gap) @ '' > '' @ show_nat (unat PQ_MAX_SKIP_AHEAD))), st)
         else case advance_recv_to P ss sq st of
           None \<Rightarrow> None
         | Some st1 \<Rightarrow>
             Some (case pq_get_message_key sq st1 of
                     None \<Rightarrow> Inl (DecapsulationFailed missing) | Some k \<Rightarrow> Inr k, st1))"

definition pq_decrypt_message ::
    "pq_prims \<Rightarrow> u64 \<Rightarrow> bytes \<Rightarrow> bytes \<Rightarrow> bytes \<Rightarrow> KemRatchetState \<Rightarrow> ((PqError, bytes) result \<times> KemRatchetState) option" where
  "pq_decrypt_message P sq ss nonce ct st =
     map_option (\<lambda>(r, st1).
       (case r of
          Inl e \<Rightarrow> Inl e
        | Inr k \<Rightarrow> (case pq_aes_decrypt P k nonce ct of
                      None \<Rightarrow> Inl (DecapsulationFailed ''AES-GCM decrypt / auth failure'') | Some pt \<Rightarrow> Inr pt), st1))
       (receive_key P ''missing msg key for seq'' sq ss st)"

subsection \<open>Root steps\<close>

text \<open>The step encapsulates under its own new key, and keeps the public key as the secret of the new
  ephemeral pair. \<open>rnd\<close> gives the new X25519 secret, the seeds of the new pair and the encapsulation randomness.\<close>

definition advance_root_ratchet ::
    "pq_prims \<Rightarrow> (nat \<Rightarrow> bytes) \<Rightarrow> HybridCiphertext \<Rightarrow> KemRatchetState
     \<Rightarrow> ((PqError, HybridCiphertext \<times> bytes) result \<times> KemRatchetState) option" where
  "advance_root_ratchet P rnd peer_ct st =
     (let new_pk = x_pub P (rnd 0);
          (new_kp, new_dec) = kem_generate_keypair P (rnd 1) (rnd 2);
          epoch = ucast (pq_root_key (base st) ! 0);
          (enc_ct, _) = hybrid_encapsulate_with_context P (rnd 3) (rnd 4) new_kp (make_kem_context epoch (pq_send_seq st));
          x_ss = x_dh P (rnd 0) (their_x25519_pk st)
      in case sk_from_bytes (eph_mlkem_dec (our_ephemeral st)) of
           Inl _ \<Rightarrow> None
         | Inr sk \<Rightarrow>
             (case hybrid_decapsulate_with_context P sk peer_ct (make_kem_context epoch (pq_recv_seq st)) of
                Inl e \<Rightarrow> Some (Inl e, st)
              | Inr decaps \<Rightarrow>
                  let ss = combine_shared_secrets P x_ss decaps (x25519_ct peer_ct) new_pk
                  in Some (Inr (\<lparr>x25519_ct = new_pk, mlkem_ct = mlkem_ct enc_ct\<rparr>, ss),
                       st\<lparr>our_ephemeral := \<lparr>eph_x25519_pk = new_pk, eph_mlkem_dec = new_dec, eph_mlkem_enc = mlkem_enc new_kp,
                                            eph_x25519_secret = new_pk\<rparr>,
                          base := (base st)\<lparr>pq_root_key := pq_hkdf P (Some (pq_root_key (base st))) ss ROOT_KEY_UPDATE_INFO 32\<rparr>\<rparr>)))"

definition handle_kem_request ::
    "pq_prims \<Rightarrow> (nat \<Rightarrow> bytes) \<Rightarrow> KemRatchetMessage \<Rightarrow> KemRatchetState
     \<Rightarrow> ((PqError, HybridCiphertext) result \<times> KemRatchetState) option" where
  "handle_kem_request P rnd m st =
     (if \<not> (length (km_mlkem_enc_key m) = 1184 \<and> ek_valid P (km_mlkem_enc_key m)) then
        Some (Inl (InvalidKeyLength 1184 (length (km_mlkem_enc_key m))), st)
      else case pk_from_bytes P (km_mlkem_enc_key m) of
        Inl _ \<Rightarrow> None
      | Inr temp \<Rightarrow>
          let (enc_ct, _) = hybrid_encapsulate_with_context P (rnd 0) (rnd 1) temp (make_kem_context (km_epoch m) (km_seq m))
          in Some (Inr \<lparr>x25519_ct = eph_x25519_pk (our_ephemeral st), mlkem_ct = mlkem_ct enc_ct\<rparr>,
                   st\<lparr>their_mlkem_enc := km_mlkem_enc_key m, their_x25519_pk := km_x25519_pk m\<rparr>))"

definition verify_ratchet_properties :: "KemRatchetState \<Rightarrow> (string, unit) result" where
  "verify_ratchet_properties st =
     (if pq_send_chain_key (base st) = replicate 32 0 \<and> pq_send_seq st > 0 then Inl ''send chain key not advanced after messages''
      else if pq_send_seq st > 1000000 \<or> pq_recv_seq st > 1000000 then Inl ''message counter overflow''
      else if length (pq_skipped_keys st) > PQ_MAX_SKIPPED_KEYS then Inl ''skipped_keys exceeds maximum''
      else Inr ())"

subsection \<open>The legacy wrapper\<close>

definition from_pqxdh :: "pq_prims \<Rightarrow> PqxDhRatchetState \<Rightarrow> bytes \<Rightarrow> bytes \<Rightarrow> bytes \<Rightarrow> KemRatchetState" where
  "from_pqxdh P b our_pk their_pk their_ek =
     KemRatchetState_new
       \<lparr>pq_root_key = px_root_key b, pq_send_chain_key = px_send_chain_key b, pq_recv_chain_key = px_recv_chain_key b,
        pq_send_message_counter = px_send_message_counter b, pq_recv_message_counter = px_recv_message_counter b,
        pq_is_initiator = px_is_initiator b\<rparr>
       \<lparr>eph_x25519_pk = our_pk, eph_mlkem_dec = replicate 64 0, eph_mlkem_enc = their_ek, eph_x25519_secret = our_pk\<rparr>
       their_ek their_pk"

text \<open>The wrapper drops the ciphertext and returns a fresh encapsulation beside the nonce.\<close>

definition legacy_encrypt_message ::
    "pq_prims \<Rightarrow> bytes \<Rightarrow> bytes \<Rightarrow> bytes \<Rightarrow> bytes \<Rightarrow> KemRatchetState
     \<Rightarrow> (PqError, HybridCiphertext \<times> bytes) result \<times> KemRatchetState" where
  "legacy_encrypt_message P rnd r pt ss st =
     (case pq_encrypt_message P rnd pt ss st of
        (Inl e, st1) \<Rightarrow> (Inl e, st1)
      | (Inr (c, nonce), st1) \<Rightarrow>
          (Inr (\<lparr>x25519_ct = eph_x25519_pk (our_ephemeral st1), mlkem_ct = fst (kem_encap P (eph_mlkem_enc (our_ephemeral st1)) r)\<rparr>, nonce), st1))"

definition legacy_decrypt_message ::
    "pq_prims \<Rightarrow> u64 \<Rightarrow> bytes \<Rightarrow> KemRatchetState \<Rightarrow> ((PqError, bytes) result \<times> KemRatchetState) option" where
  "legacy_decrypt_message P sq ss st = receive_key P ''missing msg key'' sq ss st"

definition legacy_ratchet_epoch ::
    "pq_prims \<Rightarrow> bytes \<Rightarrow> bytes \<Rightarrow> HybridKeypair \<Rightarrow> bytes \<Rightarrow> KemRatchetState \<Rightarrow> (HybridCiphertext \<times> bytes) \<times> KemRatchetState" where
  "legacy_ratchet_epoch P eph r ours peer_ek st =
     (let pk = x_pub P eph; dh_ss = x_dh P eph (their_x25519_pk st); (ct_m, ss_m) = kem_encap P peer_ek r;
          ss = combine_shared_secrets P dh_ss ss_m pk (x25519_public ours)
      in ((\<lparr>x25519_ct = pk, mlkem_ct = ct_m\<rparr>, ss),
          st\<lparr>our_ephemeral := (our_ephemeral st)\<lparr>eph_x25519_pk := pk\<rparr>,
             base := (base st)\<lparr>pq_send_chain_key := pq_hkdf P (Some (pq_send_chain_key (base st))) ss CHAIN_KEY_UPDATE_INFO 32\<rparr>\<rparr>))"

definition legacy_update_root_key :: "pq_prims \<Rightarrow> bytes \<Rightarrow> bytes \<Rightarrow> KemRatchetState \<Rightarrow> KemRatchetState" where
  "legacy_update_root_key P eph peer_pk st =
     st\<lparr>base := (base st)\<lparr>pq_root_key := pq_hkdf P (Some (pq_root_key (base st))) (x_dh P eph peer_pk) ROOT_KEY_UPDATE_INFO 32\<rparr>\<rparr>"

section \<open>Lemmas\<close>

subsection \<open>The store of message keys\<close>

definition keys_wf :: "KemRatchetState \<Rightarrow> bool" where
  "keys_wf st \<longleftrightarrow> length (pq_skipped_keys st) \<le> PQ_MAX_SKIPPED_KEYS \<and> distinct (map fst (pq_skipped_keys st))
     \<and> (\<forall>(s, k) \<in> set (pq_skipped_keys st). length k = 32)"

lemma drop_oldest_set: "set (drop_oldest ks) \<subseteq> set ks"
  by (auto simp: drop_oldest_def dest: in_set_dropD)

lemma drop_oldest_distinct: "distinct (map fst ks) \<Longrightarrow> distinct (map fst (drop_oldest ks))"
proof -
  assume "distinct (map fst ks)"
  then have "distinct (map fst (sort_key fst ks))" by (simp add: distinct_map)
  then show ?thesis using \<open>distinct (map fst ks)\<close> by (simp add: drop_oldest_def drop_map[symmetric])
qed

lemma drop_oldest_length: "length ks \<le> Suc PQ_MAX_SKIPPED_KEYS \<Longrightarrow> length (drop_oldest ks) \<le> PQ_MAX_SKIPPED_KEYS"
  by (auto simp: drop_oldest_def)

lemma keys_wf_store: "keys_wf st \<Longrightarrow> length k = 32 \<Longrightarrow> keys_wf (pq_store_skipped_key sq k st)"
  using drop_oldest_set[of "pq_skipped_keys st @ [(sq, k)]"] drop_oldest_distinct[of "pq_skipped_keys st @ [(sq, k)]"]
    drop_oldest_length[of "pq_skipped_keys st @ [(sq, k)]"]
  by (auto simp: keys_wf_def pq_store_skipped_key_def)

lemma store_unchanged [simp]:
  "base (pq_store_skipped_key sq k st) = base st" "our_ephemeral (pq_store_skipped_key sq k st) = our_ephemeral st"
  "pq_send_seq (pq_store_skipped_key sq k st) = pq_send_seq st" "pq_recv_seq (pq_store_skipped_key sq k st) = pq_recv_seq st"
  "phase (pq_store_skipped_key sq k st) = phase st" "their_x25519_pk (pq_store_skipped_key sq k st) = their_x25519_pk st"
  by (simp_all add: pq_store_skipped_key_def)

subsection \<open>The receiving loop\<close>

lemma recv_seq_advance [simp]: "pq_recv_seq (advance_recv_chain P ss st) = pq_recv_seq st + 1"
  by (simp add: advance_recv_chain_def Let_def split: prod.splits)

lemma advance_recv_to_iterate:
  assumes "sq \<noteq> - 1"
  shows "advance_recv_to P ss sq st = Some ((advance_recv_chain P ss ^^ (Suc (unat sq) - unat (pq_recv_seq st))) st)"
proof (induction "Suc (unat sq) - unat (pq_recv_seq st)" arbitrary: st)
  case 0
  then show ?case by (subst advance_recv_to.simps) (simp add: word_le_nat_alt)
next
  case (Suc n)
  then have le: "pq_recv_seq st \<le> sq" by (simp add: word_le_nat_alt)
  have "sq < - 1" using assms by (simp add: word_order.not_eq_extremum)
  then have "pq_recv_seq st < - 1" using le by simp
  from succ_no_wrap[OF this] have m: "n = Suc (unat sq) - unat (pq_recv_seq (advance_recv_chain P ss st))" using Suc.hyps(2) by simp
  have "advance_recv_to P ss sq st = advance_recv_to P ss sq (advance_recv_chain P ss st)"
    using le by (subst advance_recv_to.simps) simp
  also have "\<dots> = Some ((advance_recv_chain P ss ^^ n) (advance_recv_chain P ss st))"
    using Suc.hyps(1)[OF m] m by simp
  finally show ?case using Suc.hyps(2)[symmetric] by (simp add: funpow_swap1)
qed

subsection \<open>The chains of keys\<close>

primrec chain_key :: "pq_prims \<Rightarrow> bytes \<Rightarrow> bytes \<Rightarrow> nat \<Rightarrow> bytes" where
  "chain_key P ss ck 0 = ck"
| "chain_key P ss ck (Suc n) = snd (pq_derive_message_key P (chain_key P ss ck n) ss)"

definition message_key :: "pq_prims \<Rightarrow> bytes \<Rightarrow> bytes \<Rightarrow> nat \<Rightarrow> bytes" where
  "message_key P ss ck n = fst (pq_derive_message_key P (chain_key P ss ck n) ss)"

definition first_keys :: "pq_prims \<Rightarrow> bytes \<Rightarrow> bytes \<Rightarrow> nat \<Rightarrow> (u64 \<times> bytes) list" where
  "first_keys P ss ck n = map (\<lambda>i. (word_of_nat i, message_key P ss ck i)) [0..<n]"

lemma u64_small: "i \<le> 1024 \<Longrightarrow> unat (word_of_nat i :: u64) = i"
  by (simp add: unat_of_nat)

lemma u64_inj: "i \<le> 1024 \<Longrightarrow> j \<le> 1024 \<Longrightarrow> (word_of_nat i :: u64) = word_of_nat j \<longleftrightarrow> i = j"
  by (metis u64_small)

lemma first_keys_store:
  assumes "pq_skipped_keys st = first_keys P ss ck n" "n < 1024"
  shows "pq_skipped_keys (pq_store_skipped_key (word_of_nat n) (message_key P ss ck n) st) = first_keys P ss ck (Suc n)"
proof -
  have "word_of_nat n \<notin> fst ` set (first_keys P ss ck n)"
    using assms(2) by (auto simp: first_keys_def u64_inj)
  then show ?thesis
    using assms by (simp add: pq_store_skipped_key_def drop_oldest_def PQ_MAX_SKIPPED_KEYS_def) (simp add: first_keys_def)
qed

lemma first_keys_get:
  assumes "i < n" "n \<le> 1024"
  shows "map_of (first_keys P ss ck n) (word_of_nat i) = Some (message_key P ss ck i)"
proof -
  have "distinct (map fst (first_keys P ss ck n))"
    using u64_inj assms(2) by (auto simp: first_keys_def distinct_map inj_on_def)
  moreover have "(word_of_nat i, message_key P ss ck i) \<in> set (first_keys P ss ck n)" using assms(1) by (auto simp: first_keys_def)
  ultimately show ?thesis by simp
qed

definition recv_at :: "pq_prims \<Rightarrow> bytes \<Rightarrow> bytes \<Rightarrow> nat \<Rightarrow> KemRatchetState \<Rightarrow> bool" where
  "recv_at P ss ck n st \<longleftrightarrow> n \<le> 1024 \<and> pq_recv_chain_key (base st) = chain_key P ss ck n \<and> pq_recv_seq st = word_of_nat n
     \<and> pq_skipped_keys st = first_keys P ss ck n"

definition send_at :: "pq_prims \<Rightarrow> bytes \<Rightarrow> bytes \<Rightarrow> nat \<Rightarrow> KemRatchetState \<Rightarrow> bool" where
  "send_at P ss ck n st \<longleftrightarrow> n \<le> 1024 \<and> pq_send_chain_key (base st) = chain_key P ss ck n \<and> pq_send_seq st = word_of_nat n
     \<and> pq_skipped_keys st = first_keys P ss ck n"

lemma recv_at_step: "recv_at P ss ck n st \<Longrightarrow> n < 1024 \<Longrightarrow> recv_at P ss ck (Suc n) (advance_recv_chain P ss st)"
  using first_keys_store[of st P ss ck n]
  by (simp add: recv_at_def advance_recv_chain_def case_prod_beta Let_def message_key_def algebra_simps)

lemma send_at_step: "send_at P ss ck n st \<Longrightarrow> n < 1024 \<Longrightarrow> send_at P ss ck (Suc n) (advance_send_chain P ss st)"
  using first_keys_store[of st P ss ck n]
  by (simp add: send_at_def advance_send_chain_def case_prod_beta Let_def message_key_def algebra_simps)

lemma recv_at_steps: "recv_at P ss ck n st \<Longrightarrow> n + k \<le> 1024 \<Longrightarrow> recv_at P ss ck (n + k) ((advance_recv_chain P ss ^^ k) st)"
  by (induction k) (simp_all add: recv_at_step)

lemma receive_any_order:
  assumes "recv_at P ss ck n st" "i < 1024"
  shows "\<exists>st'. receive_key P e (word_of_nat i) ss st = Some (Inr (message_key P ss ck i), st') \<and> recv_at P ss ck (max n (Suc i)) st'"
proof -
  have n: "n \<le> 1024" "pq_recv_seq st = word_of_nat n" using assms(1) by (simp_all add: recv_at_def)
  have u: "unat (word_of_nat i :: u64) = i" "unat (word_of_nat n :: u64) = n"
    using assms(2) n(1) by (simp_all add: u64_small)
  have ne: "(word_of_nat i :: u64) \<noteq> - 1"
  proof
    assume "(word_of_nat i :: u64) = - 1"
    then have "unat (word_of_nat i :: u64) = unat (- 1 :: u64)" by simp
    then show False using assms(2) u(1) by (simp add: unsigned_minus_1_eq_mask mask_eq_exp_minus_1)
  qed
  have gap: "\<not> sat_sub (word_of_nat i) (pq_recv_seq st) > PQ_MAX_SKIP_AHEAD"
    using assms(2) u by (auto simp: sat_sub_def n(2) PQ_MAX_SKIP_AHEAD_def word_less_nat_alt unat_sub word_le_nat_alt)
  let ?k = "Suc i - n" and ?st = "(advance_recv_chain P ss ^^ (Suc i - n)) st"
  have "recv_at P ss ck (n + ?k) ?st" using recv_at_steps[OF assms(1)] assms(2) n(1) by simp
  moreover have "n + ?k = max n (Suc i)" by simp
  ultimately have at': "recv_at P ss ck (max n (Suc i)) ?st" by simp
  then have "pq_get_message_key (word_of_nat i) ?st = Some (message_key P ss ck i)"
    using first_keys_get[of i "max n (Suc i)"] by (simp add: pq_get_message_key_def recv_at_def)
  then show ?thesis
    using gap at' advance_recv_to_iterate[OF ne, of P ss st] by (simp add: receive_key_def u n(2))
qed

lemma send_next:
  assumes "send_at P ss ck n st" "n < 1024" "pq_aes_encrypt P (message_key P ss ck n) (xor_epoch (pq_root_key (base st) ! 0) rnd) pt = Some c"
  shows "\<exists>st'. pq_encrypt_message P rnd pt ss st = (Inr (c, xor_epoch (pq_root_key (base st) ! 0) rnd), st') \<and> send_at P ss ck (Suc n) st'
    \<and> pq_root_key (base st') = pq_root_key (base st)"
proof -
  let ?st = "advance_send_chain P ss st"
  have s: "send_at P ss ck (Suc n) ?st" by (rule send_at_step[OF assms(1,2)])
  have root: "pq_root_key (base ?st) = pq_root_key (base st)" by (simp add: advance_send_chain_def Let_def split: prod.splits)
  have sq: "sat_sub (pq_send_seq ?st) 1 = word_of_nat n"
  proof -
    have "pq_send_seq ?st = word_of_nat n + 1" using s by (simp add: send_at_def)
    moreover have "(1 :: u64) \<le> word_of_nat n + 1"
      using assms(2) u64_small[of "Suc n"] by (simp add: word_le_nat_alt add.commute)
    ultimately show ?thesis by (simp add: sat_sub_def)
  qed
  have "pq_get_message_key (word_of_nat n) ?st = Some (message_key P ss ck n)"
    using s first_keys_get[of n "Suc n"] assms(2) by (simp add: send_at_def pq_get_message_key_def)
  then show ?thesis using s root sq assms(3) by (simp add: pq_encrypt_message_def Let_def)
qed

subsection \<open>Reachable states\<close>

text \<open>All keys have their sizes, and the store of message keys is bounded and has one key for a number.\<close>

definition pq_typed :: "KemRatchetState \<Rightarrow> bool" where
  "pq_typed st \<longleftrightarrow> length (pq_root_key (base st)) = 32 \<and> length (pq_send_chain_key (base st)) = 32
     \<and> length (pq_recv_chain_key (base st)) = 32 \<and> length (eph_mlkem_dec (our_ephemeral st)) = 64
     \<and> length (eph_x25519_pk (our_ephemeral st)) = 32 \<and> keys_wf st"

inductive pq_reach :: "pq_prims \<Rightarrow> KemRatchetState \<Rightarrow> KemRatchetState \<Rightarrow> bool" for P st0 where
  init: "pq_reach P st0 st0"
| encrypt: "pq_reach P st0 st \<Longrightarrow> pq_reach P st0 (snd (pq_encrypt_message P rnd pt ss st))"
| decrypt: "pq_reach P st0 st \<Longrightarrow> pq_decrypt_message P sq ss nonce ct st = Some (r, st') \<Longrightarrow> pq_reach P st0 st'"
| root: "pq_reach P st0 st \<Longrightarrow> advance_root_ratchet P rn ct st = Some (r, st') \<Longrightarrow> pq_reach P st0 st'"
| request: "pq_reach P st0 st \<Longrightarrow> handle_kem_request P rn m st = Some (r, st') \<Longrightarrow> pq_reach P st0 st'"
| store: "pq_reach P st0 st \<Longrightarrow> length k = 32 \<Longrightarrow> pq_reach P st0 (pq_store_skipped_key sq k st)"
| prune: "pq_reach P st0 st \<Longrightarrow> pq_reach P st0 (pq_prune_skipped_keys st)"
| epoch: "pq_reach P st0 st \<Longrightarrow> pq_reach P st0 (snd (legacy_ratchet_epoch P eph r2 ours ek st))"
| update: "pq_reach P st0 st \<Longrightarrow> pq_reach P st0 (legacy_update_root_key P eph pk st)"

lemma derive_lengths:
  "pq_ok P \<Longrightarrow> length (fst (pq_derive_message_key P ck ss)) = 32" "pq_ok P \<Longrightarrow> length (snd (pq_derive_message_key P ck ss)) = 32"
  by (simp_all add: pq_derive_message_key_def Let_def pq_okD)

lemma keys_wf_update [simp]:
  "keys_wf (st\<lparr>base := b\<rparr>) = keys_wf st" "keys_wf (st\<lparr>pq_send_seq := n\<rparr>) = keys_wf st" "keys_wf (st\<lparr>pq_recv_seq := n\<rparr>) = keys_wf st"
  "keys_wf (st\<lparr>our_ephemeral := e\<rparr>) = keys_wf st" "keys_wf (st\<lparr>their_mlkem_enc := t\<rparr>) = keys_wf st"
  "keys_wf (st\<lparr>their_x25519_pk := x\<rparr>) = keys_wf st"
  by (simp_all add: keys_wf_def)

lemma advance_typed:
  assumes "pq_ok P" "pq_typed st"
  shows "pq_typed (advance_send_chain P ss st) \<and> phase (advance_send_chain P ss st) = phase st"
    "pq_typed (advance_recv_chain P ss st) \<and> phase (advance_recv_chain P ss st) = phase st"
  using assms keys_wf_store[of st] derive_lengths[OF assms(1)]
  by (simp_all add: pq_typed_def advance_send_chain_def advance_recv_chain_def Let_def case_prod_beta)

lemma advance_to_typed:
  "advance_recv_to P ss sq st = Some st' \<Longrightarrow> pq_ok P \<Longrightarrow> pq_typed st \<Longrightarrow> pq_typed st' \<and> phase st' = phase st"
proof -
  let ?Q = "\<lambda>(((P, ss :: bytes), sq :: u64), st) st'. pq_ok P \<longrightarrow> pq_typed st \<longrightarrow> pq_typed st' \<and> phase st' = phase st"
  assume a: "advance_recv_to P ss sq st = Some st'" "pq_ok P" "pq_typed st"
  have "?Q (((P, ss), sq), st) st'"
  proof (rule advance_recv_to.raw_induct[OF _ a(1)])
    fix loop P ss sq st st'
    assume IH: "\<And>P ss sq st st'. loop P ss sq st = Some st' \<Longrightarrow> ?Q (((P, ss), sq), st) st'"
      and "(if pq_recv_seq st \<le> sq then loop P ss sq (advance_recv_chain P ss st) else Some st) = Some st'"
    then show "?Q (((P, ss), sq), st) st'"
      using advance_typed(2)[of P st ss] IH[of P ss sq "advance_recv_chain P ss st" st'] by (auto split: if_splits)
  qed
  with a show ?thesis by simp
qed

lemma receive_typed:
  "receive_key P e sq ss st = Some (r, st') \<Longrightarrow> pq_ok P \<Longrightarrow> pq_typed st \<Longrightarrow> pq_typed st' \<and> phase st' = phase st"
  using advance_to_typed[of P ss sq st] by (auto simp: receive_key_def Let_def split: if_splits option.splits)

lemma pq_reach_typed:
  assumes "pq_reach P st0 st" "pq_ok P" "pq_typed st0"
  shows "pq_typed st \<and> phase st = phase st0"
  using assms(1)
proof induction
  case init
  then show ?case using assms(3) by simp
next
  case (encrypt st rnd pt ss)
  then show ?case
    using advance_typed(1)[OF assms(2)] by (auto simp: pq_encrypt_message_def Let_def split: option.splits)
next
  case (decrypt st sq ss nonce ct r st')
  then show ?case using receive_typed[OF _ assms(2)] by (auto simp: pq_decrypt_message_def)
next
  case (root st rn ct r st')
  then show ?case
    using pq_okD[OF assms(2)]
    by (auto simp: advance_root_ratchet_def pq_typed_def Let_def kem_generate_keypair_def seed_to_decap_key_def
        split: prod.splits sum.splits)
next
  case (request st rn m r st')
  then show ?case by (auto simp: handle_kem_request_def pq_typed_def Let_def split: prod.splits sum.splits if_splits)
next
  case (store st k sq)
  then show ?case by (simp add: pq_typed_def keys_wf_store)
next
  case (prune st)
  then have "keys_wf (pq_prune_skipped_keys st)"
    using drop_oldest_set[of "pq_skipped_keys st"] drop_oldest_distinct[of "pq_skipped_keys st"] drop_oldest_length[of "pq_skipped_keys st"]
    by (auto simp: pq_typed_def keys_wf_def pq_prune_skipped_keys_def)
  with prune show ?case by (auto simp: pq_typed_def pq_prune_skipped_keys_def)
next
  case (epoch st eph r2 ours ek)
  then show ?case using pq_okD[OF assms(2)] by (auto simp: legacy_ratchet_epoch_def pq_typed_def Let_def keys_wf_def split: prod.splits)
next
  case (update st eph pk)
  then show ?case using pq_okD[OF assms(2)] by (auto simp: legacy_update_root_key_def pq_typed_def)
qed

subsection \<open>Conversations\<close>

fun send_all :: "pq_prims \<Rightarrow> bytes \<Rightarrow> (bytes \<times> bytes) list \<Rightarrow> KemRatchetState \<Rightarrow> (PqError, bytes \<times> bytes) result list" where
  "send_all P ss [] st = []"
| "send_all P ss ((rnd, pt) # ms) st = (let (r, st1) = pq_encrypt_message P rnd pt ss st in r # send_all P ss ms st1)"

fun receive_all ::
    "pq_prims \<Rightarrow> bytes \<Rightarrow> (PqError, bytes \<times> bytes) result list \<Rightarrow> nat list \<Rightarrow> KemRatchetState \<Rightarrow> (PqError, bytes) result option list" where
  "receive_all P ss wire [] st = []"
| "receive_all P ss wire (i # is) st =
     (case wire ! i of
        Inl e \<Rightarrow> None # receive_all P ss wire is st
      | Inr (c, nonce) \<Rightarrow>
          (case pq_decrypt_message P (word_of_nat i) ss nonce c st of
             None \<Rightarrow> [None]
           | Some (r, st1) \<Rightarrow> Some r # receive_all P ss wire is st1))"

definition aes_ok :: "pq_prims \<Rightarrow> bool" where
  "aes_ok P \<longleftrightarrow> (\<forall>k n p. \<exists>c. pq_aes_encrypt P k n p = Some c \<and> pq_aes_decrypt P k n c = Some p)"

lemma send_all_keys:
  assumes "aes_ok P"
  shows "send_at P ss ck n st \<Longrightarrow> n + length ms \<le> 1024 \<Longrightarrow> i < length ms \<Longrightarrow>
    \<exists>c nonce. send_all P ss ms st ! i = Inr (c, nonce) \<and> pq_aes_decrypt P (message_key P ss ck (n + i)) nonce c = Some (snd (ms ! i))"
proof (induction ms arbitrary: st n i)
  case (Cons m ms)
  obtain rnd pt where m: "m = (rnd, pt)" by fastforce
  let ?nonce = "xor_epoch (pq_root_key (base st) ! 0) rnd"
  obtain c where c: "pq_aes_encrypt P (message_key P ss ck n) ?nonce pt = Some c" "pq_aes_decrypt P (message_key P ss ck n) ?nonce c = Some pt"
    using assms unfolding aes_ok_def by blast
  obtain st' where st': "pq_encrypt_message P rnd pt ss st = (Inr (c, ?nonce), st')" "send_at P ss ck (Suc n) st'"
    using send_next[OF Cons.prems(1) _ c(1)] Cons.prems(2) by auto
  show ?case
  proof (cases i)
    case 0
    then show ?thesis using c(2) st'(1) by (simp add: m)
  next
    case (Suc j)
    then show ?thesis using Cons.IH[OF st'(2), of j] Cons.prems(2,3) st'(1) by (simp add: m)
  qed
qed simp

lemma receive_all_plain:
  assumes "\<And>i. i \<in> set is \<Longrightarrow> i < 1024 \<and> (\<exists>c nonce. wire ! i = Inr (c, nonce) \<and> pq_aes_decrypt P (message_key P ss ck i) nonce c = Some (pt i))"
  shows "recv_at P ss ck n st \<Longrightarrow> receive_all P ss wire is st = map (\<lambda>i. Some (Inr (pt i))) is"
  using assms
proof (induction "is" arbitrary: st n)
  case (Cons i "is")
  obtain c nonce where c: "i < 1024" "wire ! i = Inr (c, nonce)" "pq_aes_decrypt P (message_key P ss ck i) nonce c = Some (pt i)"
    using Cons.prems(2)[of i] by auto
  obtain st' where st': "receive_key P ''missing msg key for seq'' (word_of_nat i) ss st = Some (Inr (message_key P ss ck i), st')"
      "recv_at P ss ck (max n (Suc i)) st'"
    using receive_any_order[OF Cons.prems(1) c(1)] by blast
  then show ?case using Cons.IH[OF st'(2)] Cons.prems(2) c by (simp add: pq_decrypt_message_def)
qed simp

section \<open>Properties\<close>

text \<open>C21: Up to 1024 messages of one direction are received in any order, with repetitions: when the sender's
  sending chain and the receiver's receiving chain start with the same key, every message the sender
  encrypts decrypts to its plaintext under its number, whatever was received before.\<close>

theorem pq_any_order:
  assumes "aes_ok P" "pq_send_chain_key (base S) = pq_recv_chain_key (base R)" "length ms \<le> 1024" "set order \<subseteq> {..<length ms}"
    and "pq_skipped_keys S = [] \<and> pq_send_seq S = 0" "pq_skipped_keys R = [] \<and> pq_recv_seq R = 0"
  shows "receive_all P ss (send_all P ss ms S) order R = map (\<lambda>i. Some (Inr (snd (ms ! i)))) order"
proof (rule receive_all_plain[where ck = "pq_recv_chain_key (base R)" and n = 0])
  have "send_at P ss (pq_recv_chain_key (base R)) 0 S" using assms(2,5) by (simp add: send_at_def first_keys_def)
  from send_all_keys[OF assms(1) this] assms(3,4)
  show "i < 1024 \<and> (\<exists>c nonce. send_all P ss ms S ! i = Inr (c, nonce)
      \<and> pq_aes_decrypt P (message_key P ss (pq_recv_chain_key (base R)) i) nonce c = Some (snd (ms ! i)))" if "i \<in> set order" for i
    using that by fastforce
  show "recv_at P ss (pq_recv_chain_key (base R)) 0 R" using assms(6) by (simp add: recv_at_def first_keys_def)
qed

definition toy_pq_session :: KemRatchetState where
  "toy_pq_session = from_pqxdh toy_pq
     \<lparr>px_root_key = replicate 32 1, px_send_chain_key = replicate 32 2, px_recv_chain_key = replicate 32 2,
      px_send_message_counter = 0, px_recv_message_counter = 0, px_is_initiator = True\<rparr> (replicate 32 3) (replicate 32 4) (replicate 1184 5)"

lemma toy_aes_ok: "aes_ok toy_pq"
  by (auto simp: aes_ok_def toy_pq_def)

lemma toy_pq_session_parts:
  "pq_skipped_keys toy_pq_session = []" "pq_send_seq toy_pq_session = 0" "pq_recv_seq toy_pq_session = 0"
  "pq_send_chain_key (base toy_pq_session) = replicate 32 2" "pq_recv_chain_key (base toy_pq_session) = replicate 32 2"
  "phase toy_pq_session = AwaitingKemResponse" "pq_typed toy_pq_session" "pq_root_key (base toy_pq_session) = replicate 32 1"
  by (simp_all add: toy_pq_session_def from_pqxdh_def KemRatchetState_new_def pq_typed_def keys_wf_def)

theorem pq_any_order_witness:
  "receive_all toy_pq [] (send_all toy_pq [] [(replicate 12 0, [10]), (replicate 12 0, [11])] toy_pq_session) [1, 0, 1] toy_pq_session
   = [Some (Inr [11]), Some (Inr [10]), Some (Inr [11])]"
  using pq_any_order[OF toy_aes_ok, of toy_pq_session toy_pq_session "[(replicate 12 0, [10]), (replicate 12 0, [11])]" "[1, 0, 1]" "[]"]
  by (simp add: toy_pq_session_parts)

text \<open>C22: Receiving ends: for every sequence number but the largest of its type, decryption returns after at
  most 1025 steps of the receiving chain.\<close>

theorem pq_receive_terminates:
  assumes "sq \<noteq> - 1"
  shows "\<exists>n r. n \<le> 1025 \<and> pq_decrypt_message P sq ss nonce ct st = Some (r, (advance_recv_chain P ss ^^ n) st)"
proof (cases "sat_sub sq (pq_recv_seq st) > PQ_MAX_SKIP_AHEAD")
  case True
  then show ?thesis by (intro exI[of _ 0]) (simp add: pq_decrypt_message_def receive_key_def Let_def)
next
  case False
  let ?n = "Suc (unat sq) - unat (pq_recv_seq st)"
  have "?n \<le> 1025"
  proof (cases "pq_recv_seq st \<le> sq")
    case True
    then have "unat (sat_sub sq (pq_recv_seq st)) = unat sq - unat (pq_recv_seq st)" by (simp add: sat_sub_def unat_sub)
    moreover have "unat (sat_sub sq (pq_recv_seq st)) \<le> 1024"
      using False by (simp add: PQ_MAX_SKIP_AHEAD_def word_less_nat_alt)
    ultimately show ?thesis by linarith
  next
    case False
    then show ?thesis by (simp add: word_le_nat_alt)
  qed
  then show ?thesis
    using False advance_recv_to_iterate[OF assms, of P ss st] by (auto simp: pq_decrypt_message_def receive_key_def Let_def)
qed

theorem pq_receive_terminates_witness:
  "\<exists>n r. n \<le> 1025 \<and> pq_decrypt_message toy_pq 5000 [] [] [] toy_pq_session = Some (r, (advance_recv_chain toy_pq [] ^^ n) toy_pq_session)"
  by (rule pq_receive_terminates) simp

text \<open>C23: In every reachable state all keys have their sizes and at most 1024 message keys are stored, one for
  a sequence number; the documented phase never changes, whatever requests and responses arrive.\<close>

theorem pq_ratchet_typed:
  assumes "pq_ok P" "pq_typed (KemRatchetState_new b eph ek pk)" "pq_reach P (KemRatchetState_new b eph ek pk) st"
  shows "pq_typed st \<and> phase st = AwaitingKemResponse"
  using pq_reach_typed[OF assms(3,1,2)] by (simp add: KemRatchetState_new_def)

theorem pq_ratchet_typed_witness:
  "pq_typed (snd (pq_encrypt_message toy_pq (replicate 12 0) [1] [] toy_pq_session))"
proof -
  obtain b eph ek pk where st: "toy_pq_session = KemRatchetState_new b eph ek pk"
    unfolding toy_pq_session_def from_pqxdh_def by blast
  from pq_ratchet_typed[OF toy_pq_ok, of b eph ek pk, OF _ pq_reach.encrypt[OF pq_reach.init]] toy_pq_session_parts(7)
  show ?thesis unfolding st by blast
qed

text \<open>The two directions share their message keys: after receiving message 0, the first reply is encrypted
  under the key of the received message, not under a key of the sending chain.\<close>

theorem pq_reply_reuses_key:
  assumes "pq_decrypt_message P 0 ss nonce ct st = Some (Inr pt, st1)" "pq_skipped_keys st = []" "pq_recv_seq st = 0" "pq_send_seq st = 0"
    and "fst (pq_encrypt_message P rnd pt' ss st1) = Inr (c, n)"
  shows "pq_aes_encrypt P (fst (pq_derive_message_key P (pq_recv_chain_key (base st)) ss)) n pt' = Some c"
proof -
  let ?k = "fst (pq_derive_message_key P (pq_recv_chain_key (base st)) ss)"
  have "advance_recv_to P ss 0 st = Some (advance_recv_chain P ss st)"
    using advance_recv_to_iterate[of 0 P ss st] assms(3) by simp
  then have st1: "st1 = advance_recv_chain P ss st"
    using assms(1,3) by (auto simp: pq_decrypt_message_def receive_key_def sat_sub_def Let_def split: if_splits)
  then have "pq_skipped_keys st1 = [(0, ?k)]" "pq_send_seq st1 = 0"
    using assms(2-4) by (simp_all add: advance_recv_chain_def Let_def case_prod_beta pq_store_skipped_key_def drop_oldest_def PQ_MAX_SKIPPED_KEYS_def)
  then have "pq_get_message_key (sat_sub (pq_send_seq (advance_send_chain P ss st1)) 1) (advance_send_chain P ss st1) = Some ?k"
    by (simp add: advance_send_chain_def Let_def case_prod_beta pq_store_skipped_key_def pq_get_message_key_def sat_sub_def)
  then show ?thesis using assms(5) by (auto simp: pq_encrypt_message_def Let_def split: option.splits)
qed

theorem pq_reply_reuses_key_witness:
  "\<exists>st1 c n. pq_decrypt_message toy_pq 0 [] [] [7] toy_pq_session = Some (Inr [], st1)
     \<and> fst (pq_encrypt_message toy_pq (replicate 12 0) [8] [] st1) = Inr (c, n)
     \<and> pq_aes_encrypt toy_pq (fst (pq_derive_message_key toy_pq (replicate 32 2) [])) n [8] = Some c"
proof -
  have a: "pq_aes_decrypt toy_pq k n c = Some (take (length c - length k) c)" "pq_aes_encrypt toy_pq k n p = Some (p @ k)" for k n c p
    by (simp_all add: toy_pq_def)
  have "advance_recv_to toy_pq [] 0 toy_pq_session = Some (advance_recv_chain toy_pq [] toy_pq_session)"
    using advance_recv_to_iterate[of 0 toy_pq "[]" toy_pq_session] by (simp add: toy_pq_session_parts)
  moreover have sk: "pq_skipped_keys (advance_recv_chain toy_pq [] toy_pq_session) = [(0, fst (pq_derive_message_key toy_pq (replicate 32 2) []))]"
      "pq_send_seq (advance_recv_chain toy_pq [] toy_pq_session) = 0"
    by (simp_all add: advance_recv_chain_def Let_def case_prod_beta pq_store_skipped_key_def drop_oldest_def PQ_MAX_SKIPPED_KEYS_def toy_pq_session_parts)
  moreover have "length (fst (pq_derive_message_key toy_pq (replicate 32 2) [])) = 32" by (rule derive_lengths(1)[OF toy_pq_ok])
  ultimately have d: "pq_decrypt_message toy_pq 0 [] [] [7] toy_pq_session = Some (Inr [], advance_recv_chain toy_pq [] toy_pq_session)"
    by (simp add: pq_decrypt_message_def receive_key_def sat_sub_def pq_get_message_key_def toy_pq_session_parts a Let_def)
  obtain c n where e: "fst (pq_encrypt_message toy_pq (replicate 12 0) [8] [] (advance_recv_chain toy_pq [] toy_pq_session)) = Inr (c, n)"
    using sk by (simp add: pq_encrypt_message_def advance_send_chain_def Let_def case_prod_beta pq_store_skipped_key_def
        pq_get_message_key_def sat_sub_def a)
  from pq_reply_reuses_key[OF d _ _ _ e] d e show ?thesis by (simp add: toy_pq_session_parts)
qed

text \<open>A ratchet message survives its wire format, with and without a ciphertext.\<close>

theorem km_wire_roundtrip:
  assumes "\<forall>t. utf8 (str_bytes t) = Some t" "length (km_version m) \<le> 255" "length (km_x25519_pk m) = 32" "length (km_mlkem_enc_key m) = 1184"
    and "\<forall>ct. km_hybrid_ct m = Some ct \<longrightarrow> length (x25519_ct ct) = 32 \<and> length (mlkem_ct ct) = 1088"
  shows "\<exists>wire. km_to_wire m = Some wire \<and> km_from_wire utf8 wire = Inr m"
proof -
  define hct where "hct = (case km_hybrid_ct m of None \<Rightarrow> [] | Some ct \<Rightarrow> x25519_ct ct @ mlkem_ct ct)"
  let ?v = "str_bytes (km_version m)" and ?x = "km_x25519_pk m" and ?k = "km_mlkem_enc_key m"
    and ?s = "u64_to_be_bytes (km_seq m)" and ?e = "u64_to_be_bytes (km_epoch m)" and ?n = "length (km_version m)"
  let ?l = "[word_of_nat ?n] :: bytes"
  let ?w = "?l @ ?v @ ?x @ ?k @ hct @ ?s @ ?e" and ?h = "length hct"
  have h: "?h = (if km_hybrid_ct m = None then 0 else 1120)" using assms(5) by (auto simp: hct_def split: option.splits)
  have ct: "(case km_hybrid_ct m of None \<Rightarrow> Some [] | Some ct \<Rightarrow> ct_to_bytes ct) = Some hct"
      "km_hybrid_ct m = Some c \<Longrightarrow> ct_from_bytes hct = Inr c" for c
    using assms(5) ct_bytes_roundtrip by (auto simp: hct_def split: option.splits)
  have w: "km_to_wire m = Some ?w" using ct(1) by (simp add: km_to_wire_def)
  have s: "slice 1 (1 + ?n) ?w = ?v" "slice (1 + ?n) (33 + ?n) ?w = ?x" "slice (33 + ?n) (1217 + ?n) ?w = ?k"
      "slice (1217 + ?n) (1217 + ?n + ?h) ?w = hct" "slice (1217 + ?n + ?h) (1225 + ?n + ?h) ?w = ?s"
      "slice (1225 + ?n + ?h) (1233 + ?n + ?h) ?w = ?e"
    using assms(3,4) slice_app[of ?l 1 "1 + ?n" ?v] slice_app[of "?l @ ?v" "1 + ?n" "33 + ?n" ?x]
      slice_app[of "?l @ ?v @ ?x" "33 + ?n" "1217 + ?n" ?k] slice_app[of "?l @ ?v @ ?x @ ?k" "1217 + ?n" "1217 + ?n + ?h" hct]
      slice_app[of "?l @ ?v @ ?x @ ?k @ hct" "1217 + ?n + ?h" "1225 + ?n + ?h" ?s]
      slice_app_end[of "?l @ ?v @ ?x @ ?k @ hct @ ?s" "1225 + ?n + ?h" "1233 + ?n + ?h" ?e]
    by simp_all
  have l: "length ?w = 1233 + ?n + ?h" using assms(3,4) by simp
  have u: "unat (?w ! 0) = ?n" "?w \<noteq> []" using assms(2) by (simp_all add: unat_of_nat)
  define W where "W = ?w"
  have "km_from_wire utf8 W = Inr m"
    using s l u h ct(2) assms(1)[rule_format, of "km_version m"] unfolding W_def[symmetric]
    by (cases "km_hybrid_ct m") (simp_all add: km_from_wire_def Let_def COMBINED_CT_SIZE_def X25519_CT_SIZE_def MLKEM768_CT_SIZE_def add.commute)
  with w show ?thesis by (simp add: W_def)
qed

theorem km_wire_roundtrip_witness:
  "let m = \<lparr>km_version = ''v1'', km_x25519_pk = replicate 32 1, km_mlkem_enc_key = replicate 1184 2,
            km_hybrid_ct = Some \<lparr>x25519_ct = replicate 32 3, mlkem_ct = replicate 1088 4\<rparr>, km_seq = 42, km_epoch = 1\<rparr>
   in \<exists>wire. km_to_wire m = Some wire \<and> km_from_wire (\<lambda>b. Some (bytes_str b)) wire = Inr m"
  using km_wire_roundtrip[of "\<lambda>b. Some (bytes_str b)" "\<lparr>km_version = ''v1'', km_x25519_pk = replicate 32 1, km_mlkem_enc_key = replicate 1184 2,
      km_hybrid_ct = Some \<lparr>x25519_ct = replicate 32 3, mlkem_ct = replicate 1088 4\<rparr>, km_seq = 42, km_epoch = 1\<rparr>"]
  by (simp add: Let_def)

text \<open>No request is ever answered: handling a request reports an invalid key or panics, because the
  1184-byte key is parsed as a 1216-byte combined key.\<close>

theorem kem_request_never_answered:
  "handle_kem_request P rnd m st = None \<or> (\<exists>e. handle_kem_request P rnd m st = Some (Inl e, st))"
  by (auto simp: handle_kem_request_def pk_from_bytes_def from_combined_public_key_def COMBINED_PK_SIZE_def X25519_PK_SIZE_def
      MLKEM768_PK_SIZE_def)

end
