(* ===== verification/Cbnp.thy ===== *)
theory Cbnp
  imports Prelude
begin

text \<open>
  Cover traffic (\<open>src/crypto/src/cbnp.rs\<close>): the session, cover packets and bursts, coordinated
  packets and the two delay computations. SHA-256, the random secret, packet sizes, random numbers
  and the clock are arguments. Delays in seconds are \<open>real\<close>.
\<close>

section \<open>Definitions\<close>

definition MIN_COVER_PACKET_SIZE :: nat where "MIN_COVER_PACKET_SIZE = 2048"
definition MAX_COVER_PACKET_SIZE :: nat where "MAX_COVER_PACKET_SIZE = 4096"
definition COVER_TAG_PREFIX :: u8 where "COVER_TAG_PREFIX = 0xC0"
definition MAX_JITTER_SECONDS :: real where "MAX_JITTER_SECONDS = 5"

record CbnpConfig =
  lambda_seconds :: real
  enabled :: bool
  max_burst :: u64
  global_epoch :: u64
  is_coordinator :: bool

definition cbnp_default :: CbnpConfig where
  "cbnp_default =
     \<lparr>lambda_seconds = 30, enabled = True, max_burst = 3, global_epoch = 1704067200, is_coordinator = False\<rparr>"

record CbnpSession =
  config :: CbnpConfig
  running :: bool
  cover_count :: u64
  cover_public_key :: bytes
  cover_secret :: bytes

definition cbnp_new :: "(bytes \<Rightarrow> bytes) \<Rightarrow> bytes \<Rightarrow> CbnpConfig \<Rightarrow> CbnpSession" where
  "cbnp_new sha secret cfg =
     \<lparr>config = cfg, running = False, cover_count = 0,
      cover_public_key = sha (str_bytes ''cbnp-cover-pk-v1'' @ secret), cover_secret = secret\<rparr>"

function cover_fill :: "(bytes \<Rightarrow> bytes) \<Rightarrow> bytes \<Rightarrow> nat \<Rightarrow> bytes" where
  "cover_fill sha fill_seed n =
     (if n = 0 then []
      else let out = sha (fill_seed @ str_bytes ''cbnp-fill'')
           in take (min n 32) out @ cover_fill sha out (n - 32))"
  by pat_completeness auto
termination
  by (relation "measure (\<lambda>(sha, seed, n). n)") auto

declare cover_fill.simps [simp del]

definition generate_cover_packet ::
    "(bytes \<Rightarrow> bytes) \<Rightarrow> nat \<Rightarrow> CbnpSession \<Rightarrow> bytes \<times> CbnpSession" where
  "generate_cover_packet sha packet_size s =
     (let seed_hash = sha (str_bytes ''cbnp-cover-packet-v1'' @ cover_secret s
                             @ u64_to_be_bytes (cover_count s))
      in (COVER_TAG_PREFIX # cover_fill sha seed_hash (packet_size - 1),
          s\<lparr>cover_count := cover_count s + 1\<rparr>))"

definition generate_coordinated_packet ::
    "(bytes \<Rightarrow> bytes) \<Rightarrow> nat \<Rightarrow> u64 \<Rightarrow> CbnpSession \<Rightarrow> bytes \<times> CbnpSession" where
  "generate_coordinated_packet sha packet_size slot s =
     (let seed_hash = sha (str_bytes ''cbnp-coordinated-v1'' @ cover_secret s @ u64_to_be_bytes slot)
      in (COVER_TAG_PREFIX # u64_to_be_bytes slot @ cover_fill sha seed_hash (packet_size - 9),
          s\<lparr>cover_count := cover_count s + 1\<rparr>))"

text \<open>\<open>sizes\<close> are the random packet sizes, one for each packet of the burst.\<close>

fun generate_cover_burst :: "(bytes \<Rightarrow> bytes) \<Rightarrow> nat list \<Rightarrow> CbnpSession \<Rightarrow> bytes list \<times> CbnpSession" where
  "generate_cover_burst sha [] s = ([], s)"
| "generate_cover_burst sha (n # ns) s =
     (case generate_cover_packet sha n s of (p, s') \<Rightarrow>
        (case generate_cover_burst sha ns s' of (ps, s'') \<Rightarrow> (p # ps, s'')))"

definition is_cover_traffic :: "bytes \<Rightarrow> bool" where
  "is_cover_traffic packet = (packet \<noteq> [] \<and> packet ! 0 = COVER_TAG_PREFIX)"

definition cbnp_start :: "CbnpSession \<Rightarrow> CbnpSession" where "cbnp_start s = s\<lparr>running := True\<rparr>"
definition cbnp_stop :: "CbnpSession \<Rightarrow> CbnpSession" where "cbnp_stop s = s\<lparr>running := False\<rparr>"

definition next_delay :: "real \<Rightarrow> real \<Rightarrow> CbnpSession \<Rightarrow> real" where
  "next_delay u jitter s =
     (if \<not> enabled (config s) then 3600
      else - ln (1 - u) / lambda_seconds (config s) + jitter)"

text \<open>A float to \<open>u64\<close> cast saturates.\<close>

definition sat_u64 :: "int \<Rightarrow> nat" where
  "sat_u64 i = nat (min (max i 0) (2 ^ 64 - 1))"

definition next_slot_time :: "real \<Rightarrow> CbnpConfig \<Rightarrow> real" where
  "next_slot_time now cfg =
     (let epoch = real (unat (global_epoch cfg)); slot_duration = lambda_seconds cfg;
          current_slot = sat_u64 \<lfloor>(now - epoch) / slot_duration\<rfloor>
      in epoch + real (current_slot + 1) * slot_duration)"

definition next_coordinated_delay :: "real \<Rightarrow> real \<Rightarrow> CbnpSession \<Rightarrow> real \<times> bool" where
  "next_coordinated_delay now jitter s =
     (let cfg = config s
      in if \<not> enabled cfg then (3600, False)
         else let delay_to_next_slot = next_slot_time now cfg - now
              in (min (max (delay_to_next_slot + jitter) 0) (lambda_seconds cfg * 2), is_coordinator cfg))"

section \<open>Packets\<close>

definition sha_ok :: "(bytes \<Rightarrow> bytes) \<Rightarrow> bool" where
  "sha_ok sha = (\<forall>x. length (sha x) = 32)"

lemma length_cover_fill: "sha_ok sha \<Longrightarrow> length (cover_fill sha seed n) = n"
proof (induction sha seed n rule: cover_fill.induct)
  case (1 sha seed n)
  then show ?case by (subst cover_fill.simps) (auto simp: Let_def sha_ok_def)
qed

lemma take_cover_fill:
  "sha_ok sha \<Longrightarrow> 32 \<le> n \<Longrightarrow> take 32 (cover_fill sha seed n) = sha (seed @ str_bytes ''cbnp-fill'')"
  by (subst cover_fill.simps) (simp add: Let_def sha_ok_def)

lemma generate_cover_packet_shape:
  assumes "sha_ok sha" "0 < n" "generate_cover_packet sha n s = (p, s')"
  shows "length p = n" "is_cover_traffic p" "s' = s\<lparr>cover_count := cover_count s + 1\<rparr>"
  using assms by (auto simp: generate_cover_packet_def Let_def is_cover_traffic_def length_cover_fill)

lemma u64_to_be_bytes_inj: "u64_to_be_bytes v = u64_to_be_bytes w \<Longrightarrow> v = w"
  by (metis u64_be_roundtrip)

lemma generate_cover_burst_shape:
  assumes "sha_ok sha" "\<forall>n \<in> set ns. 0 < n"
  shows "map length (fst (generate_cover_burst sha ns s)) = ns"
    and "list_all is_cover_traffic (fst (generate_cover_burst sha ns s))"
    and "snd (generate_cover_burst sha ns s) = s\<lparr>cover_count := cover_count s + word_of_nat (length ns)\<rparr>"
proof -
  have "case generate_cover_burst sha ns s of (ps, s') \<Rightarrow>
      map length ps = ns \<and> list_all is_cover_traffic ps
      \<and> s' = s\<lparr>cover_count := cover_count s + word_of_nat (length ns)\<rparr>"
    using assms
  proof (induction ns arbitrary: s)
    case (Cons n ns)
    obtain p s1 where p: "generate_cover_packet sha n s = (p, s1)" by (rule prod.exhaust)
    obtain ps s2 where "generate_cover_burst sha ns s1 = (ps, s2)" by (rule prod.exhaust)
    with Cons.IH[of s1] Cons.prems generate_cover_packet_shape[OF _ _ p] p show ?case
      by (simp add: add.assoc)
  qed simp
  then show "map length (fst (generate_cover_burst sha ns s)) = ns"
    and "list_all is_cover_traffic (fst (generate_cover_burst sha ns s))"
    and "snd (generate_cover_burst sha ns s) = s\<lparr>cover_count := cover_count s + word_of_nat (length ns)\<rparr>"
    by (auto split: prod.splits)
qed

text \<open>A burst has one packet for every size drawn, each of exactly that size and recognised as
  cover traffic, and advances the packet counter by the number of packets, modulo \<open>2 ^ 64\<close>.\<close>

theorem cover_burst_shape:
  assumes "sha_ok sha" "\<forall>n \<in> set ns. MIN_COVER_PACKET_SIZE \<le> n \<and> n \<le> MAX_COVER_PACKET_SIZE"
    and "generate_cover_burst sha ns s = (ps, s')"
  shows "map length ps = ns \<and> list_all is_cover_traffic ps
    \<and> (\<forall>p \<in> set ps. MIN_COVER_PACKET_SIZE \<le> length p \<and> length p \<le> MAX_COVER_PACKET_SIZE)
    \<and> s' = s\<lparr>cover_count := cover_count s + word_of_nat (length ns)\<rparr>"
proof -
  have "\<forall>n \<in> set ns. 0 < n" using assms(2) by (auto simp: MIN_COVER_PACKET_SIZE_def)
  note shape = generate_cover_burst_shape[OF assms(1) this, of s]
  have "length p \<in> set ns" if "p \<in> set ps" for p
    using that shape(1) assms(3) by (metis fst_conv image_eqI list.set_map)
  with shape assms show ?thesis by auto
qed

theorem cover_burst_shape_witness:
  "map length (fst (generate_cover_burst (\<lambda>x. replicate 32 (word_of_nat (length x))) [2048, 4096]
     (cbnp_new (\<lambda>x. replicate 32 0) (replicate 32 7) cbnp_default))) = [2048, 4096]"
  using cover_burst_shape[of "\<lambda>x. replicate 32 (word_of_nat (length x))" "[2048, 4096]"
      "cbnp_new (\<lambda>x. replicate 32 0) (replicate 32 7) cbnp_default", OF _ _ prod.collapse[symmetric]]
  by (simp add: sha_ok_def MIN_COVER_PACKET_SIZE_def MAX_COVER_PACKET_SIZE_def)

text \<open>Two cover packets of one session made at different counts differ, unless they show a collision
  of SHA-256.\<close>

theorem cover_packets_differ:
  assumes "sha_ok sha" "32 < n" "cover_count s \<noteq> c"
    and "fst (generate_cover_packet sha n s) = fst (generate_cover_packet sha n (s\<lparr>cover_count := c\<rparr>))"
  shows "\<exists>x y. x \<noteq> y \<and> sha x = sha y"
proof -
  let ?seed = "\<lambda>c. sha (str_bytes ''cbnp-cover-packet-v1'' @ cover_secret s @ u64_to_be_bytes c)"
  have "cover_fill sha (?seed (cover_count s)) (n - 1) = cover_fill sha (?seed c) (n - 1)"
    using assms(4) by (simp add: generate_cover_packet_def Let_def)
  then have eq: "sha (?seed (cover_count s) @ str_bytes ''cbnp-fill'') = sha (?seed c @ str_bytes ''cbnp-fill'')"
    using take_cover_fill[OF assms(1), of "n - 1" "?seed (cover_count s)"]
      take_cover_fill[OF assms(1), of "n - 1" "?seed c"] assms(2) by simp
  show ?thesis
  proof (cases "?seed (cover_count s) = ?seed c")
    case True
    moreover have "u64_to_be_bytes (cover_count s) \<noteq> u64_to_be_bytes c"
      using assms(3) u64_to_be_bytes_inj by blast
    ultimately show ?thesis by (metis same_append_eq)
  next
    case False
    then show ?thesis using eq by (metis append_same_eq)
  qed
qed

text \<open>A coordinated packet has the size drawn, is recognised as cover traffic and carries its slot
  number in bytes 1 to 8.\<close>

theorem coordinated_packet_slot:
  assumes "sha_ok sha" "9 \<le> n" "generate_coordinated_packet sha n slot s = (p, s')"
  shows "length p = n \<and> is_cover_traffic p \<and> u64_from_be_bytes (slice 1 9 p) = slot"
  using assms by (auto simp: generate_coordinated_packet_def Let_def is_cover_traffic_def length_cover_fill slice_def)

section \<open>Delays\<close>

lemma slot_bounds:
  assumes "0 < lambda_seconds cfg" "real (unat (global_epoch cfg)) \<le> now"
    and "(now - real (unat (global_epoch cfg))) / lambda_seconds cfg < 2 ^ 64 - 1"
  shows "0 < next_slot_time now cfg - now" "next_slot_time now cfg - now \<le> lambda_seconds cfg"
proof -
  define q where "q = (now - real (unat (global_epoch cfg))) / lambda_seconds cfg"
  have q0: "0 \<le> q" using assms by (simp add: q_def)
  have "q < 2 ^ 64 - 1" using assms(3) by (simp only: q_def)
  then have "\<lfloor>q\<rfloor> \<le> 2 ^ 64 - 1" by (simp add: floor_le_iff)
  then have slot: "real (sat_u64 \<lfloor>q\<rfloor>) = of_int \<lfloor>q\<rfloor>" using q0 by (simp add: sat_u64_def)
  have now: "now = real (unat (global_epoch cfg)) + q * lambda_seconds cfg"
    using assms(1) by (simp add: q_def)
  have diff: "next_slot_time now cfg - now = (of_int \<lfloor>q\<rfloor> + 1 - q) * lambda_seconds cfg"
    using slot now by (simp add: next_slot_time_def Let_def algebra_simps flip: q_def)
  have "0 < of_int \<lfloor>q\<rfloor> + 1 - q" "of_int \<lfloor>q\<rfloor> + 1 - q \<le> 1" by linarith+
  then show "0 < next_slot_time now cfg - now" "next_slot_time now cfg - now \<le> lambda_seconds cfg"
    using assms(1) diff by (simp_all add: mult_left_le_one_le)
qed

text \<open>A coordinated send happens at the next slot boundary, up to a tenth of a slot: for a clock
  past the epoch and jitter within a tenth of the slot, the delay is not negative and the time of the
  send differs from the next boundary by at most a tenth of a slot. Two nodes with the same
  configuration and clock therefore send within a fifth of a slot of each other.\<close>

theorem coordinated_delay_near_slot:
  assumes "enabled (config s)" "0 < lambda_seconds (config s)"
    and "real (unat (global_epoch (config s))) \<le> now"
    and "(now - real (unat (global_epoch (config s)))) / lambda_seconds (config s) < 2 ^ 64 - 1"
    and "\<bar>jitter\<bar> \<le> lambda_seconds (config s) / 10"
  shows "0 \<le> fst (next_coordinated_delay now jitter s)
    \<and> \<bar>now + fst (next_coordinated_delay now jitter s) - next_slot_time now (config s)\<bar> \<le> lambda_seconds (config s) / 10"
proof -
  note slot_bounds[OF assms(2,3,4)]
  then show ?thesis using assms(1,2,5)
    by (simp add: next_coordinated_delay_def Let_def min_def max_def abs_le_iff) linarith
qed

definition cover_now :: real where "cover_now = 1704067200 + 100"

theorem coordinated_delay_near_slot_witness:
  "\<bar>cover_now + fst (next_coordinated_delay cover_now 1 (cbnp_new (\<lambda>x. []) [] cbnp_default))
     - next_slot_time cover_now cbnp_default\<bar> \<le> 3"
  using coordinated_delay_near_slot[of "cbnp_new (\<lambda>x. []) [] cbnp_default" cover_now 1]
  by (simp add: cbnp_new_def cbnp_default_def cover_now_def)

text \<open>With the default configuration, which asks for thirty seconds between cover messages on
  average, every delay is below seven seconds: the exponential sample is divided by the mean interval
  instead of multiplied by it. The sample \<open>u\<close> is a double below 1, so it is at most
  \<open>1 - 2 ^ -53\<close>.\<close>

theorem default_delay_below_seven:
  assumes "config s = cbnp_default" "0 \<le> u" "u \<le> 1 - 1 / 2 ^ 53" "0 \<le> jitter" "jitter < MAX_JITTER_SECONDS"
  shows "0 \<le> next_delay u jitter s \<and> next_delay u jitter s < 7"
proof -
  have pos: "0 < 1 - u" "1 / 2 ^ 53 \<le> 1 - u" using assms(3) by simp_all
  have "- ln (1 - u) \<le> - ln (1 / 2 ^ 53)" using pos by (simp add: ln_mono)
  also have "\<dots> = 53 * ln 2" using ln_realpow[of 2 53] by (simp add: ln_div)
  also have "\<dots> < 53" using ln_2_less_1 by simp
  finally have "- ln (1 - u) < 53" .
  moreover have "0 \<le> - ln (1 - u)" using assms(2) pos by (simp add: ln_le_zero_iff)
  moreover define L where "L = - ln (1 - u)"
  ultimately have "0 \<le> L" "L < 53" by simp_all
  moreover have "next_delay u jitter s = L / 30 + jitter"
    using assms(1) by (simp add: next_delay_def cbnp_default_def L_def)
  ultimately show ?thesis using assms(4,5) by (simp add: MAX_JITTER_SECONDS_def)
qed

theorem default_delay_below_seven_witness:
  "next_delay (1 / 2) 1 (cbnp_new (\<lambda>x. []) [] cbnp_default) < 7"
  using default_delay_below_seven[of "cbnp_new (\<lambda>x. []) [] cbnp_default" "1 / 2" 1]
  by (simp add: cbnp_new_def MAX_JITTER_SECONDS_def)

end
