(* ===== verification/ClientNet.thy ===== *)
theory ClientNet
  imports Transport "HOL-Library.Multiset"
begin

text \<open>
  How the client finds and reaches servers, in \<open>client/src/main.rs\<close>: the DNS SRV lookups with their
  fallback lists, the WebSocket URL of a server, the choice of a relay, and one exchange of
  envelopes with a server.

  The network is the record \<open>net\<close> over a state \<open>'w\<close> of everything outside the client: what an SRV lookup
  returns, whether a connection is accepted, what comes back for a text sent over a fresh connection,
  and the identifier and clock reading a request is stamped with.
\<close>

section \<open>Definitions\<close>

subsection \<open>URLs\<close>

function replace_all :: "string \<Rightarrow> string \<Rightarrow> string \<Rightarrow> string" where
  "replace_all p q s =
     (if s = [] \<or> p = [] then s
      else if prefix p s then q @ replace_all p q (drop (length p) s)
      else hd s # replace_all p q (tl s))"
  by pat_completeness auto
termination
  by (relation "measure (\<lambda>(p, q, s). length s)") auto

declare replace_all.simps [simp del]

definition to_ws_url :: "string \<Rightarrow> string" where
  "to_ws_url url = replace_all ''https://'' ''wss://'' (replace_all ''http://'' ''ws://'' url)"

definition trim_end_matches :: "char \<Rightarrow> string \<Rightarrow> string" where
  "trim_end_matches c s = rev (dropWhile (\<lambda>x. x = c) (rev s))"

definition with_ws_path :: "string \<Rightarrow> string" where
  "with_ws_path url = (if suffix ''/ws'' url then url else trim_end_matches (CHR ''/'') url @ ''/ws'')"

subsection \<open>SRV records\<close>

record srv =
  srv_priority :: u16
  srv_weight :: u16
  srv_port :: u16
  srv_target :: string

text \<open>Ascending priority, then descending weight; the sort is stable.\<close>

definition srv_rank :: "srv \<Rightarrow> nat" where
  "srv_rank r = unat (srv_priority r) * 65536 + (65535 - unat (srv_weight r))"

definition srv_url :: "srv \<Rightarrow> string" where
  "srv_url r = ''wss://'' @ trim_end_matches (CHR ''.'') (srv_target r) @ '':'' @ show_nat (unat (srv_port r))"

text \<open>A lookup is the list of the SRV records of its answer, or \<open>None\<close> when it failed.\<close>

definition query_all_srv :: "srv list option \<Rightarrow> string list option" where
  "query_all_srv answer =
     (case answer of
        None \<Rightarrow> None
      | Some rs \<Rightarrow> if rs = [] then None else Some (map srv_url (sort_key srv_rank rs)))"

definition query_srv :: "srv list option \<Rightarrow> string option" where
  "query_srv answer =
     (case answer of
        None \<Rightarrow> None
      | Some rs \<Rightarrow> if rs = [] then None else Some (srv_url (hd (sort_key srv_rank rs))))"

definition BOOTSTRAP_US :: string where "BOOTSTRAP_US = ''wss://bootstrap-us.gnoppix.org/ws''"
definition BOOTSTRAP_EU :: string where "BOOTSTRAP_EU = ''wss://bootstrap-eu.gnoppix.org/ws''"
definition BOOTSTRAP_ASIA :: string where "BOOTSTRAP_ASIA = ''wss://bootstrap-asia.gnoppix.org/ws''"
definition FALLBACK_BOOTSTRAP :: string where "FALLBACK_BOOTSTRAP = ''wss://bootstrap-eu.gnoppix.org/ws''"
definition FALLBACK_RELAY_US :: string where "FALLBACK_RELAY_US = ''wss://relay-us.gnoppix.org/ws''"
definition FALLBACK_RELAY_EU :: string where "FALLBACK_RELAY_EU = ''wss://relay-eu.gnoppix.org/ws''"
definition FALLBACK_RELAY_ASIA :: string where "FALLBACK_RELAY_ASIA = ''wss://relay-asia.gnoppix.org/ws''"
definition BOOTSTRAP_SRV :: string where "BOOTSTRAP_SRV = ''_add-bootstrap._tcp.gnoppix.org''"
definition RELAY_SRV :: string where "RELAY_SRV = ''_add-relay._tcp.gnoppix.org''"

subsection \<open>The network\<close>

datatype ws_answer = SendFailed string | Answer ws_event

record 'w net =
  net_srv :: "string \<Rightarrow> 'w \<Rightarrow> srv list option \<times> 'w"
  net_connect :: "string \<Rightarrow> 'w \<Rightarrow> (string, unit) result \<times> 'w"
  net_ask :: "string \<Rightarrow> string \<Rightarrow> 'w \<Rightarrow> ws_answer \<times> 'w"
  net_stamp :: "'w \<Rightarrow> (string \<times> real) \<times> 'w"

definition primary_bootstrap :: "srv list option \<Rightarrow> string" where
  "primary_bootstrap answer =
     (case query_srv answer of
        Some url \<Rightarrow> trim_end_matches (CHR ''/'') url @ ''/ws''
      | None \<Rightarrow> FALLBACK_BOOTSTRAP)"

definition relays_of :: "srv list option \<Rightarrow> string list" where
  "relays_of answer =
     map with_ws_path
       (case query_all_srv answer of
          Some urls \<Rightarrow> urls
        | None \<Rightarrow> [FALLBACK_RELAY_US, FALLBACK_RELAY_EU, FALLBACK_RELAY_ASIA])"

definition bootstraps_of :: "srv list option \<Rightarrow> string list" where
  "bootstraps_of answer =
     map with_ws_path
       (case query_all_srv answer of
          Some urls \<Rightarrow> urls
        | None \<Rightarrow> [BOOTSTRAP_US, BOOTSTRAP_EU, BOOTSTRAP_ASIA])"

definition discover_servers :: "'w net \<Rightarrow> 'w \<Rightarrow> (string \<times> string list) \<times> 'w" where
  "discover_servers N w =
     (case net_srv N BOOTSTRAP_SRV w of (a1, w1) \<Rightarrow>
      (case net_srv N RELAY_SRV w1 of (a2, w2) \<Rightarrow> ((primary_bootstrap a1, relays_of a2), w2)))"

definition discover_all_servers :: "'w net \<Rightarrow> 'w \<Rightarrow> (string \<times> string list \<times> string list) \<times> 'w" where
  "discover_all_servers N w =
     (case net_srv N BOOTSTRAP_SRV w of (a1, w1) \<Rightarrow>
      (case net_srv N BOOTSTRAP_SRV w1 of (a2, w2) \<Rightarrow>
       (case net_srv N RELAY_SRV w2 of (a3, w3) \<Rightarrow>
          ((primary_bootstrap a1, bootstraps_of a2, relays_of a3), w3))))"

text \<open>The connections of the parallel attempts, with the URL when one succeeded in time; then the
  sequential attempts.\<close>

fun try_connects :: "'w net \<Rightarrow> string list \<Rightarrow> 'w \<Rightarrow> string option list \<times> 'w" where
  "try_connects N [] w = ([], w)"
| "try_connects N (url # urls) w =
     (case net_connect N (to_ws_url url) w of (r, w1) \<Rightarrow>
      (case try_connects N urls w1 of (rs, w2) \<Rightarrow>
         ((case r of Inr _ \<Rightarrow> Some url | Inl _ \<Rightarrow> None) # rs, w2)))"

fun first_connect :: "'w net \<Rightarrow> string list \<Rightarrow> 'w \<Rightarrow> string option \<times> 'w" where
  "first_connect N [] w = (None, w)"
| "first_connect N (url # urls) w =
     (case net_connect N (to_ws_url url) w of
        (Inr _, w1) \<Rightarrow> (Some url, w1)
      | (Inl _, w1) \<Rightarrow> first_connect N urls w1)"

definition select_fastest_relay :: "'w net \<Rightarrow> string list \<Rightarrow> 'w \<Rightarrow> string option \<times> 'w" where
  "select_fastest_relay N relay_urls w =
     (case try_connects N relay_urls w of (rs, w1) \<Rightarrow>
        (case List.find (\<lambda>r. r \<noteq> None) rs of
           Some (Some url) \<Rightarrow> (Some url, w1)
         | _ \<Rightarrow> first_connect N relay_urls w1))"

subsection \<open>One exchange\<close>

datatype ask = NoConnect string | NoText string | NoSend string | Answered ws_event

text \<open>A request over an open connection, and one over a fresh connection. A read ends with a frame or
  with the end of the connection; one that waits for ever is not represented.\<close>

definition ask_open ::
    "'w net \<Rightarrow> string \<Rightarrow> (string \<Rightarrow> real \<Rightarrow> (string, string) result) \<Rightarrow> 'w \<Rightarrow> ask \<times> 'w" where
  "ask_open N ws_url request w =
     (case net_stamp N w of ((uuid, now), w1) \<Rightarrow>
        (case request uuid now of
           Inl e \<Rightarrow> (NoText e, w1)
         | Inr t \<Rightarrow>
             (case net_ask N ws_url t w1 of
                (SendFailed e, w2) \<Rightarrow> (NoSend e, w2)
              | (Answer ev, w2) \<Rightarrow> (Answered ev, w2))))"

definition ask_server ::
    "'w net \<Rightarrow> string \<Rightarrow> (string \<Rightarrow> real \<Rightarrow> (string, string) result) \<Rightarrow> 'w \<Rightarrow> ask \<times> 'w" where
  "ask_server N ws_url request w =
     (case net_connect N ws_url w of
        (Inl e, w1) \<Rightarrow> (NoConnect e, w1)
      | (Inr _, w1) \<Rightarrow> ask_open N ws_url request w1)"

text \<open>The reply a caller that ignores every failure looks at.\<close>

definition reply_of :: "codec \<Rightarrow> ask \<Rightarrow> WireEnvelope option" where
  "reply_of C a =
     (case a of
        Answered (Frame (Text t)) \<Rightarrow> (case from_json C t of Inr env \<Rightarrow> Some env | Inl _ \<Rightarrow> None)
      | _ \<Rightarrow> None)"

section \<open>Properties\<close>


lemma suffix_with_ws_path: "suffix ''/ws'' (with_ws_path url)"
  by (simp add: with_ws_path_def suffix_def)

lemma srv_rank_less_iff:
  "srv_rank a \<le> srv_rank b \<longleftrightarrow>
     srv_priority a < srv_priority b \<or> srv_priority a = srv_priority b \<and> srv_weight b \<le> srv_weight a"
proof -
  have w: "unat (srv_weight x) < 65536" for x using unat_bound[of "srv_weight x"] by simp
  have "unat (srv_priority a) * 65536 + (65535 - unat (srv_weight a))
      \<le> unat (srv_priority b) * 65536 + (65535 - unat (srv_weight b))
    \<longleftrightarrow> unat (srv_priority a) < unat (srv_priority b)
      \<or> unat (srv_priority a) = unat (srv_priority b) \<and> unat (srv_weight b) \<le> unat (srv_weight a)"
    using w[of a] w[of b] by linarith
  then show ?thesis
    by (simp add: srv_rank_def word_less_nat_alt word_le_nat_alt word_unat_eq_iff)
qed

lemma srv_url_no_path: "\<not> suffix ''/ws'' (srv_url r)"
proof
  assume "suffix ''/ws'' (srv_url r)"
  then have "last (srv_url r) = CHR ''s''" by (auto simp: suffix_def)
  moreover have "last (srv_url r) \<in> set (show_nat (unat (srv_port r)))"
    by (simp add: srv_url_def)
  ultimately show False using show_nat_digits by (fastforce simp: is_digit_char_def)
qed

text \<open>The servers the client uses are the ones of the SRV answer, best first: the URLs of all
  records, none lost or added, ordered by ascending priority and, within one priority, descending weight;
  the primary server is the first of them, and every URL ends in the path of the WebSocket endpoint.\<close>

theorem bootstraps_ordered:
  assumes "rs \<noteq> []"
  shows "\<exists>rs'. mset rs' = mset rs
    \<and> sorted_wrt (\<lambda>a b. srv_priority a < srv_priority b
        \<or> srv_priority a = srv_priority b \<and> srv_weight b \<le> srv_weight a) rs'
    \<and> bootstraps_of (Some rs) = map (with_ws_path \<circ> srv_url) rs'
    \<and> primary_bootstrap (Some rs) = hd (bootstraps_of (Some rs))
    \<and> (\<forall>url \<in> set (bootstraps_of (Some rs)). suffix ''/ws'' url)"
proof (intro exI conjI)
  let ?s = "sort_key srv_rank rs"
  show "mset ?s = mset rs" by simp
  have "sorted (map srv_rank ?s)" by simp
  then show "sorted_wrt (\<lambda>a b. srv_priority a < srv_priority b
      \<or> srv_priority a = srv_priority b \<and> srv_weight b \<le> srv_weight a) ?s"
    unfolding srv_rank_less_iff[symmetric] by (simp add: sorted_wrt_map)
  have ne: "?s \<noteq> []" using assms by (metis length_sort length_0_conv)
  show all: "bootstraps_of (Some rs) = map (with_ws_path \<circ> srv_url) ?s"
    using assms by (simp add: bootstraps_of_def query_all_srv_def)
  show "primary_bootstrap (Some rs) = hd (bootstraps_of (Some rs))"
    using assms ne srv_url_no_path[of "hd ?s"]
    by (simp add: all hd_map primary_bootstrap_def query_srv_def with_ws_path_def)
  show "\<forall>url \<in> set (bootstraps_of (Some rs)). suffix ''/ws'' url"
    using suffix_with_ws_path by (auto simp: all)
qed

theorem bootstraps_ordered_witness:
  "\<exists>rs'. mset rs' = mset [\<lparr>srv_priority = 2, srv_weight = 5, srv_port = 443, srv_target = ''b.''\<rparr>]
    \<and> sorted_wrt (\<lambda>a b. srv_priority a < srv_priority b
        \<or> srv_priority a = srv_priority b \<and> srv_weight b \<le> srv_weight a) rs'
    \<and> bootstraps_of (Some [\<lparr>srv_priority = 2, srv_weight = 5, srv_port = 443, srv_target = ''b.''\<rparr>])
        = map (with_ws_path \<circ> srv_url) rs'"
  using bootstraps_ordered[of "[\<lparr>srv_priority = 2, srv_weight = 5, srv_port = 443, srv_target = ''b.''\<rparr>]"]
  by blast

text \<open>The relay that \<open>select_fastest_relay\<close> picks is the first of the list that accepts a connection,
  however slow: whenever the connection to the first relay succeeds, this relay is chosen.\<close>

theorem first_relay_wins:
  assumes "fst (net_connect N (to_ws_url url) w) = Inr ()"
  shows "fst (select_fastest_relay N (url # urls) w) = Some url"
  using assms by (auto simp: select_fastest_relay_def split: prod.splits)

definition open_net :: "unit net" where
  "open_net = \<lparr>net_srv = \<lambda>n w. (None, w), net_connect = \<lambda>u w. (Inr (), w),
     net_ask = \<lambda>u t w. (Answer StreamEnd, w), net_stamp = \<lambda>w. ((''id'', 0), w)\<rparr>"

theorem first_relay_wins_witness:
  "fst (select_fastest_relay open_net [''wss://slow'', ''wss://fast''] ()) = Some ''wss://slow''"
  by (rule first_relay_wins) (simp add: open_net_def)

end
