(* ===== verification/ClientCrypto.thy ===== *)
theory ClientCrypto
  imports DoubleRatchet RelayState
begin

text \<open>
  Cryptographic helpers of the client, \<open>client/src/main.rs\<close>: the database key and its file, encryption of
  database fields, blind indexes, message padding, safety numbers, the relay routing tag, address hosts and
  certificate pins; and the delivery tokens of \<open>crypto/src/delivery_tokens.rs\<close>.

  AES-256-GCM, Base64 and UTF-8 come with \<open>prims\<close>, HMAC and SHA-256 with \<open>crypto\<close>; the age file format, hex
  decoding and lossy UTF-8 decoding are arguments. A file is its content, if it exists.
\<close>

section \<open>Definitions\<close>

subsection \<open>Database fields\<close>

definition db_encrypt :: "('ek, 'dk) prims \<Rightarrow> bytes \<Rightarrow> bytes \<Rightarrow> string \<Rightarrow> (string, string) result" where
  "db_encrypt P key nonce plaintext =
     (case aes_encrypt P key nonce (str_bytes plaintext) of
        Inl e \<Rightarrow> Inl (''encryption failed: '' @ e)
      | Inr ct \<Rightarrow> Inr (b64_enc P (nonce @ ct)))"

definition db_decrypt :: "('ek, 'dk) prims \<Rightarrow> bytes \<Rightarrow> string \<Rightarrow> (string, string) result" where
  "db_decrypt P key encrypted =
     (case b64_dec P encrypted of
        Inl e \<Rightarrow> Inl e
      | Inr data \<Rightarrow>
          if length data < 12 + 16 then Inl ''ciphertext too short''
          else case aes_decrypt P key (take 12 data) (drop 12 data) of
                 Inl e \<Rightarrow> Inl (''decryption failed: '' @ e)
               | Inr pt \<Rightarrow> utf8 P pt)"

definition encrypt_opt :: "('ek, 'dk) prims \<Rightarrow> bytes \<Rightarrow> bytes \<Rightarrow> string option \<Rightarrow> (string, string option) result" where
  "encrypt_opt P key nonce p =
     (case p of None \<Rightarrow> Inr None | Some s \<Rightarrow> (case db_encrypt P key nonce s of Inl e \<Rightarrow> Inl e | Inr c \<Rightarrow> Inr (Some c)))"

definition ok_of :: "('e, 'a) result \<Rightarrow> 'a option" where
  "ok_of r = (case r of Inl _ \<Rightarrow> None | Inr x \<Rightarrow> Some x)"

definition decrypt_opt :: "('ek, 'dk) prims \<Rightarrow> bytes \<Rightarrow> string option \<Rightarrow> string option" where
  "decrypt_opt P key c = Option.bind c (\<lambda>s. ok_of (db_decrypt P key s))"

definition blind_index :: "('vk, 'sg) crypto \<Rightarrow> bytes \<Rightarrow> string \<Rightarrow> string" where
  "blind_index cr key v = hex_encode (take 16 (hmac_sha256 cr key (str_bytes v)))"

subsection \<open>The key file\<close>

datatype IoKind = NotFound | InvalidData | OtherKind

record key_env =
  age_encrypt :: "string \<Rightarrow> string \<Rightarrow> (string, string) result"
  age_decrypt :: "string \<Rightarrow> string \<Rightarrow> (string, string) result"
  hex_decode :: "string \<Rightarrow> (string, bytes) result"

definition AGE_HEADER :: string where "AGE_HEADER = ''-----BEGIN AGE ENCRYPTED FILE-----''"

text \<open>The outcome of writing the file: success, or an error with what is left on disk.\<close>

type_synonym write_result = "(IoKind \<times> string \<times> string option) option"

definition write_file :: "write_result \<Rightarrow> string \<Rightarrow> (IoKind \<times> string, unit) result \<times> string option" where
  "write_file w content = (case w of None \<Rightarrow> (Inr (), Some content) | Some (kind, e, left) \<Rightarrow> (Inl (kind, e), left))"

definition key_save ::
    "key_env \<Rightarrow> write_result \<Rightarrow> string option \<Rightarrow> bytes \<Rightarrow> string option \<Rightarrow> (IoKind \<times> string, unit) result \<times> string option" where
  "key_save E w passphrase key file =
     (case passphrase of
        Some pass \<Rightarrow>
          if pass = [] then write_file w (hex_encode key)
          else (case age_encrypt E (hex_encode key) pass of
                  Inl e \<Rightarrow> (Inl (OtherKind, e), file)
                | Inr armored \<Rightarrow> write_file w armored)
      | None \<Rightarrow> write_file w (hex_encode key))"

definition key_from_hex :: "key_env \<Rightarrow> string \<Rightarrow> (IoKind \<times> string, bytes) result" where
  "key_from_hex E s =
     (case hex_decode E s of
        Inl e \<Rightarrow> Inl (InvalidData, e)
      | Inr bs \<Rightarrow> if length bs \<noteq> 32 then Inl (InvalidData, ''invalid db key length'') else Inr bs)"

text \<open>\<open>rd\<close> is the error of reading the file, if there is one.\<close>

definition key_load ::
    "key_env \<Rightarrow> write_result \<Rightarrow> (IoKind \<times> string) option \<Rightarrow> bytes \<Rightarrow> string option \<Rightarrow> string option \<Rightarrow> (IoKind \<times> string, bytes) result \<times> string option" where
  "key_load E w rd random passphrase file =
     (case file of
        Some raw \<Rightarrow>
          (case rd of Some e \<Rightarrow> (Inl e, file) | None \<Rightarrow>
          let trimmed = str_trim raw
          in (if starts_with AGE_HEADER trimmed then
                (case passphrase of
                   None \<Rightarrow> Inl (NotFound, ''DB key is passphrase-encrypted; set ADD_DB_PASSPHRASE or run interactively'')
                 | Some pass \<Rightarrow>
                     (case age_decrypt E trimmed pass of
                        Inl e \<Rightarrow> Inl (InvalidData, e)
                      | Inr decrypted \<Rightarrow> key_from_hex E (str_trim decrypted)))
              else key_from_hex E trimmed, file))
      | None \<Rightarrow>
          (case key_save E w passphrase random file of
             (Inl e, file1) \<Rightarrow> (Inl e, file1) | (Inr _, file1) \<Rightarrow> (Inr random, file1)))"

text \<open>\<open>prompt\<close> is what the user enters, if there is a terminal and reading it succeeds.\<close>

definition read_db_passphrase :: "string option \<Rightarrow> string option" where
  "read_db_passphrase var = (case var of Some p \<Rightarrow> if p = [] then None else Some p | None \<Rightarrow> None)"

definition load_db_key_interactive ::
    "key_env \<Rightarrow> write_result \<Rightarrow> (IoKind \<times> string) option \<Rightarrow> bytes \<Rightarrow> string option \<Rightarrow> string option \<Rightarrow> string option \<Rightarrow> (string, bytes) result \<times> string option" where
  "load_db_key_interactive E w rd random prompt pass_env file =
     (case pass_env of
        Some p \<Rightarrow> apfst (map_sum snd id) (key_load E w rd random (Some p) file)
      | None \<Rightarrow>
          (case key_load E w rd random None file of
             (Inr k, file1) \<Rightarrow> (Inr k, file1)
           | (Inl (kind, e), file1) \<Rightarrow>
               if kind = NotFound then apfst (map_sum snd id) (key_load E w rd random None file1)
               else (case prompt of
                       Some p \<Rightarrow>
                         if p \<noteq> [] then apfst (map_sum snd id) (key_load E w rd random (Some p) file1)
                         else (Inl ''DB key is passphrase-encrypted; set ADD_DB_PASSPHRASE or run interactively'', file1)
                     | None \<Rightarrow> (Inl ''DB key is passphrase-encrypted; set ADD_DB_PASSPHRASE or run interactively'', file1))))"

subsection \<open>Padding\<close>

definition bucket_size :: "nat \<Rightarrow> nat" where
  "bucket_size n =
     (if n \<le> 256 then 256 else if n \<le> 512 then 512 else if n \<le> 1024 then 1024
      else if n \<le> 2048 then 2048 else if n \<le> 4096 then 4096 else if n \<le> 8192 then 8192
      else if n \<le> 16384 then 16384 else if n \<le> 32768 then 32768 else 65536)"

text \<open>The subtraction is on \<open>usize\<close>; a message above 65535 bytes makes it wrap (a panic in a debug build,
  an allocation failure otherwise), which is the value \<open>None\<close>. \<open>fill\<close> gives the random padding.\<close>

definition pad_message_bucket :: "(nat \<Rightarrow> bytes) \<Rightarrow> string \<Rightarrow> string option" where
  "pad_message_bucket fill message =
     (let msg_len = length message; bucket = bucket_size (msg_len + 1)
      in if bucket < msg_len + 1 then None
         else let pad_len = bucket - msg_len - 1
              in Some (hex_encode ([word_of_nat pad_len] @ str_bytes message @ fill pad_len)))"

definition unpad_message_bucket :: "key_env \<Rightarrow> (bytes \<Rightarrow> string) \<Rightarrow> string \<Rightarrow> (string, string) result" where
  "unpad_message_bucket E lossy padded_hex =
     (case hex_decode E padded_hex of
        Inl e \<Rightarrow> Inl e
      | Inr data \<Rightarrow>
          if data = [] then Inl ''empty padded message''
          else let pad_len = unat (data ! 0)
               in if length data < pad_len + 1 then Inl ''invalid padding length''
                  else Inr (lossy (slice 1 (length data - pad_len) data)))"

subsection \<open>Identifiers and addresses\<close>

fun le_string :: "string \<Rightarrow> string \<Rightarrow> bool" where
  "le_string [] b = True"
| "le_string (x # xs) [] = False"
| "le_string (x # xs) (y # ys) =
     ((of_char x :: nat) < of_char y \<or> (x = y \<and> le_string xs ys))"

definition safety_number :: "('vk, 'sg) crypto \<Rightarrow> string \<Rightarrow> string \<Rightarrow> string" where
  "safety_number cr fp1 fp2 =
     (let a = to_uppercase fp1; b = to_uppercase fp2;
          (x, y) = (if le_string a b then (a, b) else (b, a));
          hash = hex_encode (sha256 cr (str_bytes (x @ ''|'' @ y)))
      in join_with '' '' (map (\<lambda>i. slice (8 * i) (8 * i + 8) hash) [0..<8]))"

definition relay_routing_tag :: "('vk, 'sg) crypto \<Rightarrow> string option \<Rightarrow> u64 \<Rightarrow> string \<Rightarrow> string option" where
  "relay_routing_tag cr env_secret now nid =
     (case env_secret of
        None \<Rightarrow> None
      | Some secret \<Rightarrow>
          if secret = [] then None
          else let epoch = now div 3600
               in Some (hex_encode (hmac_sha256 cr (str_bytes secret) (str_bytes (nid @ ''|'' @ show_nat (unat epoch))))))"

definition rsplit_once :: "char \<Rightarrow> string \<Rightarrow> (string \<times> string) option" where
  "rsplit_once c s =
     (if c \<in> set s then
        Some (rev (tl (dropWhile (\<lambda>x. x \<noteq> c) (rev s))), rev (takeWhile (\<lambda>x. x \<noteq> c) (rev s)))
      else None)"

definition addr_host :: "string \<Rightarrow> string" where
  "addr_host addr =
     (let s = (case strip_prefix ''ws://'' addr of
                 Some r \<Rightarrow> r
               | None \<Rightarrow> (case strip_prefix ''wss://'' addr of Some r \<Rightarrow> r | None \<Rightarrow> addr));
          hostport = hd (split_on (CHR ''/'') s)
      in case rsplit_once (CHR '':'') hostport of Some (host, _) \<Rightarrow> host | None \<Rightarrow> hostport)"

definition resolve_recipient :: "string \<Rightarrow> (string, string) hmap \<Rightarrow> string" where
  "resolve_recipient input aliases = (case hm_get aliases input of Some nid \<Rightarrow> nid | None \<Rightarrow> input)"

text \<open>The certificate check on top of the chain validation: \<open>spki\<close> is the public key of the issuer (or of
  the leaf when there is no intermediate), if it parses. A failed write of the pin file is ignored, and the
  file then reads as \<open>left\<close> (no pins, when what is left does not parse).\<close>

definition verify_server_cert ::
    "('vk, 'sg) crypto \<Rightarrow> bool \<Rightarrow> (string, string) hmap option \<Rightarrow> bytes option \<Rightarrow> string \<Rightarrow> (string, string) hmap
     \<Rightarrow> bool \<times> (string, string) hmap" where
  "verify_server_cert cr chain_ok failed spki host pins =
     (if \<not> chain_ok then (False, pins)
      else case spki of
        None \<Rightarrow> (False, pins)
      | Some k \<Rightarrow>
          let hex = hex_encode (sha256 cr k)
          in case hm_get pins host of
               Some pinned \<Rightarrow> (pinned = hex, pins)
             | None \<Rightarrow> (True, case failed of None \<Rightarrow> hm_insert host hex pins | Some left \<Rightarrow> left))"

subsection \<open>Delivery tokens\<close>

definition DELIVERY_TOKEN_SIZE :: nat where "DELIVERY_TOKEN_SIZE = 32"
definition DELIVERY_SEED_SIZE :: nat where "DELIVERY_SEED_SIZE = 64"

definition derive_key :: "('vk, 'sg) crypto \<Rightarrow> bytes \<Rightarrow> string \<Rightarrow> bytes" where
  "derive_key cr master contact_id = take 32 (hmac_sha256 cr master (str_bytes ''add-delivery-key-v1'' @ str_bytes contact_id))"

definition derive_token_internal :: "('vk, 'sg) crypto \<Rightarrow> bytes \<Rightarrow> u64 \<Rightarrow> bytes" where
  "derive_token_internal cr key mid =
     take DELIVERY_TOKEN_SIZE (hmac_sha256 cr key (str_bytes ''add-delivery-token-v1'' @ u64_to_be_bytes mid))"

definition derive_token :: "('vk, 'sg) crypto \<Rightarrow> bytes \<Rightarrow> string \<Rightarrow> u64 \<Rightarrow> bytes" where
  "derive_token cr master contact_id mid = derive_token_internal cr (derive_key cr master contact_id) mid"

definition verify_token :: "('vk, 'sg) crypto \<Rightarrow> bytes \<Rightarrow> string \<Rightarrow> u64 \<Rightarrow> bytes \<Rightarrow> bool" where
  "verify_token cr master contact_id mid token = (derive_token cr master contact_id mid = token)"

definition token_from_hex :: "key_env \<Rightarrow> string \<Rightarrow> (CryptoError, bytes) result" where
  "token_from_hex E s =
     (case hex_decode E s of
        Inl e \<Rightarrow> Inl (DecryptFailed (''hex decode: '' @ e))
      | Inr bs \<Rightarrow>
          if length bs \<noteq> DELIVERY_TOKEN_SIZE then
            Inl (DecryptFailed (''wrong token size: '' @ show_nat (length bs) @ '' != '' @ show_nat DELIVERY_TOKEN_SIZE))
          else Inr bs)"

definition get_or_create_delivery_secret ::
    "key_env \<Rightarrow> bytes \<Rightarrow> string option \<Rightarrow> string \<Rightarrow> (string, string) hmap \<Rightarrow> (string, bytes) result \<times> (string, string) hmap" where
  "get_or_create_delivery_secret E random save_err contact secrets =
     (case hm_get secrets contact of
        Some hex \<Rightarrow>
          ((case hex_decode E hex of
              Inl e \<Rightarrow> Inl e
            | Inr bs \<Rightarrow> if length bs \<noteq> DELIVERY_SEED_SIZE then Inl ''invalid delivery secret length'' else Inr bs), secrets)
      | None \<Rightarrow>
          (case save_err of
             Some e \<Rightarrow> (Inl e, secrets)
           | None \<Rightarrow> (Inr random, hm_insert contact (hex_encode random) secrets)))"

section \<open>Lemmas\<close>

lemma db_roundtrip:
  assumes "prims_ok P ek dk" "length nonce = 12" "db_encrypt P key nonce s = Inr c"
  shows "db_decrypt P key c = Inr s"
proof -
  obtain ct where ct: "aes_encrypt P key nonce (str_bytes s) = Inr ct" "c = b64_enc P (nonce @ ct)"
    using assms(3) by (auto simp: db_encrypt_def split: sum.splits)
  note ok = prims_okD[OF assms(1)]
  show ?thesis
    using ok(1,2)[OF ct(1)] assms(2) by (simp add: db_decrypt_def ct(2) ok(7,8))
qed

lemma hexdigit_not_space: "is_ascii_hexdigit c \<Longrightarrow> \<not> is_space c"
  by (auto simp: is_ascii_hexdigit_def is_space_def Let_def)

lemma trim_hex: "str_trim (hex_encode bs) = hex_encode bs"
  using hex_encode_hexdigits[of bs] hexdigit_not_space by (intro trim_id) (auto simp: list_all_iff)

lemma hex_no_header: "\<not> starts_with AGE_HEADER (hex_encode bs)"
proof
  assume "starts_with AGE_HEADER (hex_encode bs)"
  then have "CHR ''-'' \<in> set (hex_encode bs)" by (auto simp: starts_with_def AGE_HEADER_def prefix_def)
  then show False using hex_encode_hexdigits[of bs] hexdigit_not_dash by (auto simp: list_all_iff)
qed

text \<open>What the client relies on of the age format and of hex decoding: a decrypted file gives back what was
  encrypted under the same passphrase, an encrypted file starts with its header, and hex decoding inverts
  encoding.\<close>

definition key_env_ok :: "key_env \<Rightarrow> bool" where
  "key_env_ok E \<longleftrightarrow>
     (\<forall>t p a. age_encrypt E t p = Inr a \<longrightarrow> starts_with AGE_HEADER (str_trim a) \<and> age_decrypt E (str_trim a) p = Inr t)
     \<and> (\<forall>bs. hex_decode E (hex_encode bs) = Inr bs)"

lemma key_env_okD:
  assumes "key_env_ok E"
  shows "age_encrypt E t p = Inr a \<Longrightarrow> starts_with AGE_HEADER (str_trim a)" "age_encrypt E t p = Inr a \<Longrightarrow> age_decrypt E (str_trim a) p = Inr t"
    "hex_decode E (hex_encode bs) = Inr bs"
  using assms unfolding key_env_ok_def by blast+

lemma bucket_size_ge: "n \<le> 65536 \<Longrightarrow> n \<le> bucket_size n"
  by (simp add: bucket_size_def)

lemma le_string_total: "le_string a b \<or> le_string b a"
proof (induction a b rule: le_string.induct)
  case (3 x xs y ys)
  then show ?case using of_char_eq_iff[of x y, where 'a = nat] by (auto simp del: of_char_eq_iff)
qed simp_all

lemma le_string_antisym: "le_string a b \<Longrightarrow> le_string b a \<Longrightarrow> a = b"
proof (induction a b rule: le_string.induct)
  case (1 b)
  then show ?case by (cases b) simp_all
qed auto

lemma unpad_padded:
  assumes "key_env_ok E" "length f = k"
  shows "unpad_message_bucket E lossy (hex_encode ([word_of_nat k] @ str_bytes m @ f))
    = Inr (lossy (str_bytes m @ take (k - k mod 256) f))"
proof -
  let ?d = "[word_of_nat k] @ str_bytes m @ f :: bytes"
  have u: "unat (?d ! 0) = k mod 256" by (simp add: unat_of_nat)
  have d: "length ?d = length m + 1 + k" "?d \<noteq> []" using assms(2) by simp_all
  have le: "k mod 256 \<le> k" by simp
  have "length m + 1 + k - k mod 256 = Suc (length m + (k - k mod 256))" using le by linarith
  then have "slice 1 (length ?d - k mod 256) ?d = str_bytes m @ take (k - k mod 256) f"
    unfolding d by (simp add: slice_def)
  then show ?thesis
    using key_env_okD(3)[OF assms(1), of ?d] d u le by (simp add: unpad_message_bucket_def Let_def del: append_Cons)
qed

definition nibble :: "char \<Rightarrow> nat" where
  "nibble c = (let n = of_char c in if n \<le> 57 then n - 48 else n - 87)"

fun unhex :: "string \<Rightarrow> (string, bytes) result" where
  "unhex [] = Inr []"
| "unhex [c] = Inl ''Odd number of digits''"
| "unhex (a # b # s) = map_sum id (\<lambda>bs. word_of_nat (16 * nibble a + nibble b) # bs) (unhex s)"

lemma nibble_hex_digit: "d < 16 \<Longrightarrow> nibble (hex_digit d) = d"
  by (simp add: nibble_def hex_digit_def Let_def)

lemma unhex_hex_encode: "unhex (hex_encode bs) = Inr bs"
proof (induction bs)
  case (Cons b bs)
  have "unat b < 256" using unsigned_less[of b] by simp
  then have "unat b div 16 < 16" by simp
  then have "(word_of_nat (16 * nibble (hex_digit (unat b div 16)) + nibble (hex_digit (unat b mod 16))) :: u8) = b"
    by (simp add: nibble_hex_digit)
  then show ?case using Cons by (simp add: hex_encode_def hex_byte_def)
qed (simp add: hex_encode_def)

definition toy_key_env :: key_env where
  "toy_key_env =
     \<lparr>age_encrypt = \<lambda>t p. if list_all (\<lambda>c. \<not> is_space c) t then Inr (AGE_HEADER @ t) else Inl ''age'',
      age_decrypt = \<lambda>a p. Inr (drop (length AGE_HEADER) a), hex_decode = unhex\<rparr>"

lemma trim_header: "list_all (\<lambda>c. \<not> is_space c) t \<Longrightarrow> str_trim (AGE_HEADER @ t) = AGE_HEADER @ t"
  by (cases t rule: rev_cases) (simp_all add: str_trim_def AGE_HEADER_def is_space_def)

lemma toy_key_env_ok: "key_env_ok toy_key_env"
  by (auto simp: key_env_ok_def toy_key_env_def unhex_hex_encode trim_header starts_with_def split: if_splits)

lemma pin_kept:
  "hm_get p host = Some x \<Longrightarrow> hm_get (snd (verify_server_cert cr c None k h p)) host = Some x"
  by (auto simp: verify_server_cert_def Let_def split: option.splits)

lemma pins_kept:
  "hm_get p host = Some x \<Longrightarrow> hm_get (fold (\<lambda>(c, k, h) p. snd (verify_server_cert cr c None k h p)) ls p) host = Some x"
  by (induction ls arbitrary: p) (auto simp: pin_kept)

section \<open>Properties\<close>

text \<open>The database key survives its file: what is saved, with or without a passphrase, is what a load
  with the same passphrase returns, and loading leaves the file as it is.\<close>

theorem key_file_roundtrip:
  assumes "key_env_ok E" "length key = 32" "key_save E w pass key file = (Inr (), file')"
  shows "key_load E w' None rnd pass file' = (Inr key, file')"
proof (cases "case pass of None \<Rightarrow> [] | Some p \<Rightarrow> p")
  case Nil
  then have "file' = Some (hex_encode key)"
    using assms(3) by (auto simp: key_save_def write_file_def split: option.splits prod.splits if_splits)
  then show ?thesis
    using assms(2) key_env_okD(3)[OF assms(1)]
    by (simp add: key_load_def trim_hex hex_no_header key_from_hex_def Let_def)
next
  case (Cons c cs)
  then obtain p a where p: "pass = Some p" "age_encrypt E (hex_encode key) p = Inr a" "file' = Some a"
    using assms(3) by (auto simp: key_save_def write_file_def split: option.splits prod.splits if_splits sum.splits)
  then show ?thesis
    using assms(2) key_env_okD[OF assms(1)] by (simp add: key_load_def trim_hex key_from_hex_def Let_def)
qed

theorem key_file_roundtrip_witness:
  "key_load toy_key_env None None [] (Some ''pw'') (Some (AGE_HEADER @ hex_encode (replicate 32 7)))
   = (Inr (replicate 32 7), Some (AGE_HEADER @ hex_encode (replicate 32 7)))"
proof -
  have "list_all (\<lambda>c. \<not> is_space c) (hex_encode (replicate 32 7))"
    using hex_encode_hexdigits[of "replicate 32 7"] hexdigit_not_space by (auto simp: list_all_iff)
  then have "key_save toy_key_env None (Some ''pw'') (replicate 32 7) None
      = (Inr (), Some (AGE_HEADER @ hex_encode (replicate 32 7)))"
    by (simp add: key_save_def write_file_def toy_key_env_def)
  from key_file_roundtrip[OF toy_key_env_ok _ this] show ?thesis by simp
qed

text \<open>A passphrase is never asked for: when the key file is encrypted and no passphrase is configured,
  the load fails, whatever the user would enter.\<close>

theorem prompt_unreachable:
  assumes "starts_with AGE_HEADER (str_trim raw)" "var \<in> {None, Some []}"
  shows "load_db_key_interactive E w None rnd prompt (read_db_passphrase var) (Some raw)
    = (Inl ''DB key is passphrase-encrypted; set ADD_DB_PASSPHRASE or run interactively'', Some raw)"
  using assms by (auto simp: read_db_passphrase_def load_db_key_interactive_def key_load_def Let_def)

theorem prompt_unreachable_witness:
  "fst (load_db_key_interactive toy_key_env None None [] (Some ''secret'') (read_db_passphrase None) (Some (AGE_HEADER @ ''x'')))
   = Inl ''DB key is passphrase-encrypted; set ADD_DB_PASSPHRASE or run interactively''"
proof -
  have "starts_with AGE_HEADER (str_trim (AGE_HEADER @ ''x''))"
    by (simp add: AGE_HEADER_def starts_with_def str_trim_def is_space_def)
  from prompt_unreachable[OF this, of None toy_key_env None "[]" "Some ''secret''"] show ?thesis by simp
qed

text \<open>C36: Padding hides the length and is undone exactly up to the header byte: the padded text has twice
  the bucket's size, and removing the padding gives the message followed by the padding bytes that the
  8-bit length does not count, which are none exactly when fewer than 256 bytes were added.\<close>

theorem padding_roundtrip:
  assumes "key_env_ok E" "length m \<le> 65535" "\<forall>n. length (fill n) = n"
  shows "\<exists>p. pad_message_bucket fill m = Some p \<and> length p = 2 * bucket_size (length m + 1)
    \<and> unpad_message_bucket E lossy p
      = (let k = bucket_size (length m + 1) - length m - 1
         in Inr (lossy (str_bytes m @ take (k - k mod 256) (fill k))))"
proof -
  define k where "k = bucket_size (length m + 1) - length m - 1"
  have b: "length m + 1 \<le> bucket_size (length m + 1)" using assms(2) by (intro bucket_size_ge) simp
  have "pad_message_bucket fill m = Some (hex_encode ([word_of_nat k] @ str_bytes m @ fill k))"
    using b by (simp add: pad_message_bucket_def Let_def k_def)
  moreover have "length (hex_encode ([word_of_nat k] @ str_bytes m @ fill k)) = 2 * bucket_size (length m + 1)"
    using b assms(3) by (simp add: k_def)
  ultimately show ?thesis
    using unpad_padded[OF assms(1), of "fill k" k lossy m] assms(3) unfolding k_def Let_def by auto
qed

theorem padding_roundtrip_witness:
  "\<exists>p. pad_message_bucket (\<lambda>n. replicate n 0) ''hi'' = Some p \<and> length p = 512
    \<and> unpad_message_bucket toy_key_env bytes_str p = Inr ''hi''"
  using padding_roundtrip[OF toy_key_env_ok, of "''hi''" "\<lambda>n. replicate n 0" bytes_str]
  by (simp add: bucket_size_def Let_def)

text \<open>Both parties see the same safety number, in eight groups of eight characters.\<close>

theorem safety_number_symmetric:
  assumes "\<forall>d. length (sha256 cr d) = 32"
  shows "safety_number cr a b = safety_number cr b a \<and> length (safety_number cr a b) = 71"
proof
  show "safety_number cr a b = safety_number cr b a"
    using le_string_total[of "to_uppercase a" "to_uppercase b"] le_string_antisym[of "to_uppercase a" "to_uppercase b"]
    by (auto simp: safety_number_def Let_def)
  have "length (join_with '' '' (map (\<lambda>i. slice (8 * i) (8 * i + 8) h) [0..<8])) = 71" if "length h = 64" for h
    using that by (simp add: upt_rec)
  then show "length (safety_number cr a b) = 71"
    using assms by (simp add: safety_number_def Let_def split: prod.splits)
qed

theorem safety_number_symmetric_witness:
  "safety_number toy_crypto ''ab'' ''Cd'' = safety_number toy_crypto ''Cd'' ''ab''"
proof -
  have "\<forall>d. length (sha256 toy_crypto d) = 32" by (auto simp: toy_crypto_def)
  from safety_number_symmetric[OF this] show ?thesis by simp
qed

text \<open>Client and relay agree on the blind tag: with the same secret, the tag the client sends in an epoch
  is the one the relay computes, and the relay's check accepts it.\<close>

theorem routing_tag_agrees:
  assumes "secret \<noteq> []" "routing_epoch now' = routing_epoch now"
  shows "relay_routing_tag (rc R) (Some secret) now nid = recipient_tag R (Some secret) nid (routing_epoch now')
    \<and> verify_recipient_tag R (Some secret) nid (routing_epoch now') (the (relay_routing_tag (rc R) (Some secret) now nid)) = Inr ()"
  using assms by (simp add: relay_routing_tag_def recipient_tag_def compute_hmac_def verify_recipient_tag_def
      routing_epoch_def ROUTING_EPOCH_SECS_def Let_def)

theorem routing_tag_agrees_witness:
  "relay_routing_tag (rc toy_relay) (Some ''s'') 10 ''bob'' = recipient_tag toy_relay (Some ''s'') ''bob'' (routing_epoch 3599)"
  using routing_tag_agrees[of "''s''" 3599 10 toy_relay "''bob''"] by (simp add: routing_epoch_def ROUTING_EPOCH_SECS_def)

text \<open>Certificate pins are trust on first use: while the pin file can be written, a host once pinned is
  accepted later exactly with the pinned issuer key, and its pin never changes.\<close>

theorem tls_pin_tofu:
  assumes "verify_server_cert cr True None (Some k) host [] = (ok, pins)"
    and "fold (\<lambda>(c, k, h) p. snd (verify_server_cert cr c None k h p)) later pins = pins'"
  shows "ok \<and> fst (verify_server_cert cr c failed (Some k') host pins') = (c \<and> sha256 cr k' = sha256 cr k)"
proof -
  have "ok" "hm_get pins host = Some (hex_encode (sha256 cr k))"
    using assms(1) by (auto simp: verify_server_cert_def Let_def)
  then have "hm_get pins' host = Some (hex_encode (sha256 cr k))" using pins_kept[of pins] assms(2) by blast
  with \<open>ok\<close> show ?thesis using hex_encode_inj[of "sha256 cr k" "sha256 cr k'"] by (auto simp: verify_server_cert_def Let_def)
qed

theorem tls_pin_tofu_witness:
  "\<not> fst (verify_server_cert toy_crypto True None (Some [2]) ''h''
      (snd (verify_server_cert toy_crypto True None (Some [2]) ''h'' [(''h'', hex_encode (sha256 toy_crypto [1]))])))"
proof -
  have p: "verify_server_cert toy_crypto True None (Some [1]) ''h'' [] = (True, [(''h'', hex_encode (sha256 toy_crypto [1]))])"
    by (simp add: verify_server_cert_def Let_def hm_insert_def)
  from tls_pin_tofu[OF p, of "[(True, Some [2], ''h'')]" _ True None "[2]"]
  show ?thesis by (simp add: toy_crypto_def)
qed

text \<open>A delivery token round-trips: the contact's secret, created once and read back from the file,
  derives the same token, whose hex form parses to it and verifies.\<close>

theorem delivery_token_roundtrip:
  assumes "key_env_ok E" "length rnd = DELIVERY_SEED_SIZE" "\<forall>k d. length (hmac_sha256 cr k d) = 32"
    and "get_or_create_delivery_secret E rnd None contact [] = (Inr master, secrets)"
  shows "fst (get_or_create_delivery_secret E rnd' err contact secrets) = Inr master
    \<and> token_from_hex E (hex_encode (derive_token cr master contact mid)) = Inr (derive_token cr master contact mid)
    \<and> verify_token cr master contact mid (derive_token cr master contact mid)"
  using assms key_env_okD(3)[OF assms(1)]
  by (auto simp: get_or_create_delivery_secret_def token_from_hex_def derive_token_def derive_token_internal_def
      verify_token_def DELIVERY_TOKEN_SIZE_def)

theorem delivery_token_roundtrip_witness:
  "let cr = toy_crypto\<lparr>hmac_sha256 := \<lambda>k d. replicate 32 1\<rparr>; rnd = replicate 64 5
   in token_from_hex toy_key_env (hex_encode (derive_token cr rnd ''bob'' 1)) = Inr (derive_token cr rnd ''bob'' 1)"
proof -
  let ?cr = "toy_crypto\<lparr>hmac_sha256 := \<lambda>k d. replicate 32 1\<rparr>" and ?rnd = "replicate 64 5 :: bytes"
  have "get_or_create_delivery_secret toy_key_env ?rnd None ''bob'' [] = (Inr ?rnd, [(''bob'', hex_encode ?rnd)])"
    by (simp add: get_or_create_delivery_secret_def hm_insert_def)
  from delivery_token_roundtrip[OF toy_key_env_ok _ _ this, of ?cr "[]" None 1]
  show ?thesis by (simp add: DELIVERY_SEED_SIZE_def Let_def)
qed

end
