(* ===== verification/KeyedStore.thy ===== *)
theory KeyedStore
  imports Prelude
begin

text \<open>
  The contract of a store of values under keys, as the code that resumes a session relies on it: what is saved
  is loaded back, a deleted entry is gone, other keys are not touched, and no operation fails, as long as the
  configuration, the surroundings of each call and the store are in order. The store behaves as a map.
\<close>

datatype ('k, 'v) kcmd = Save 'k 'v | Del 'k

fun kcmd_key :: "('k, 'v) kcmd \<Rightarrow> 'k" where
  "kcmd_key (Save k v) = k"
| "kcmd_key (Del k) = k"

fun kcmd_map :: "('k, 'v) kcmd \<Rightarrow> ('k \<rightharpoonup> 'v) \<Rightarrow> ('k \<rightharpoonup> 'v)" where
  "kcmd_map (Save k v) m = m(k \<mapsto> v)"
| "kcmd_map (Del k) m = m(k := None)"

locale keyed_store =
  fixes ok :: "'c \<Rightarrow> 'k set \<Rightarrow> bool"
    and iok :: "'io \<Rightarrow> bool"
    and inv :: "'s \<Rightarrow> bool"
    and load :: "'c \<Rightarrow> 'io \<Rightarrow> 'k \<Rightarrow> 's \<Rightarrow> ('e, 'v option) result"
    and save :: "'c \<Rightarrow> 'io \<Rightarrow> 'k \<Rightarrow> 'v \<Rightarrow> 's \<Rightarrow> ('e, unit) result \<times> 's"
    and del :: "'c \<Rightarrow> 'io \<Rightarrow> 'k \<Rightarrow> 's \<Rightarrow> ('e, unit) result \<times> 's"
  assumes save_ok: "ok c M \<Longrightarrow> iok io \<Longrightarrow> inv s \<Longrightarrow> fst (save c io k v s) = Inr () \<and> inv (snd (save c io k v s))"
    and del_ok: "ok c M \<Longrightarrow> iok io \<Longrightarrow> inv s \<Longrightarrow> fst (del c io k s) = Inr () \<and> inv (snd (del c io k s))"
    and load_save: "ok c M \<Longrightarrow> iok io \<Longrightarrow> iok io' \<Longrightarrow> inv s \<Longrightarrow> k \<in> M \<Longrightarrow> k' \<in> M \<Longrightarrow>
      load c io' k' (snd (save c io k v s)) = (if k' = k then Inr (Some v) else load c io' k' s)"
    and load_del: "ok c M \<Longrightarrow> iok io \<Longrightarrow> iok io' \<Longrightarrow> inv s \<Longrightarrow> k \<in> M \<Longrightarrow> k' \<in> M \<Longrightarrow>
      load c io' k' (snd (del c io k s)) = (if k' = k then Inr None else load c io' k' s)"
begin

definition exec :: "'c \<Rightarrow> ('k, 'v) kcmd \<times> 'io \<Rightarrow> 's \<Rightarrow> ('e, unit) result \<times> 's" where
  "exec c x s = (case x of (Save k v, io) \<Rightarrow> save c io k v s | (Del k, io) \<Rightarrow> del c io k s)"

lemma exec_step:
  assumes "ok c M" "iok io" "inv s" "kcmd_key cmd \<in> M" "\<forall>k io'. k \<in> M \<longrightarrow> iok io' \<longrightarrow> load c io' k s = Inr (m k)"
  shows "fst (exec c (cmd, io) s) = Inr () \<and> inv (snd (exec c (cmd, io) s))
    \<and> (\<forall>k io'. k \<in> M \<longrightarrow> iok io' \<longrightarrow> load c io' k (snd (exec c (cmd, io) s)) = Inr (kcmd_map cmd m k))"
proof (cases cmd)
  case (Save k v)
  then show ?thesis using assms save_ok[OF assms(1-3)] load_save[OF assms(1,2) _ assms(3)] by (simp add: exec_def)
next
  case (Del k)
  then show ?thesis using assms del_ok[OF assms(1-3)] load_del[OF assms(1,2) _ assms(3)] by (simp add: exec_def)
qed

text \<open>After any sequence of commands the store answers as the map does that the commands build.\<close>

lemma behaves_as_map:
  assumes "ok c M"
  shows "inv s \<Longrightarrow> \<forall>k io'. k \<in> M \<longrightarrow> iok io' \<longrightarrow> load c io' k s = Inr (m k) \<Longrightarrow> \<forall>(cmd, io) \<in> set cmds. iok io \<and> kcmd_key cmd \<in> M
    \<Longrightarrow> k \<in> M \<Longrightarrow> iok io'
    \<Longrightarrow> load c io' k (fold (\<lambda>x s. snd (exec c x s)) cmds s) = Inr (fold (\<lambda>(cmd, io). kcmd_map cmd) cmds m k)"
proof (induction cmds arbitrary: s m)
  case (Cons x cmds)
  obtain cmd io where x: "x = (cmd, io)" by fastforce
  have "iok io" "kcmd_key cmd \<in> M" using Cons.prems(3) x by auto
  note st = exec_step[OF assms this(1) Cons.prems(1) this(2) Cons.prems(2)]
  have "\<forall>(cmd, io) \<in> set cmds. iok io \<and> kcmd_key cmd \<in> M" using Cons.prems(3) by simp
  with Cons.IH[OF conjunct1[OF conjunct2[OF st]] conjunct2[OF conjunct2[OF st]]] Cons.prems(4,5)
  show ?case by (simp add: x)
qed simp

end

text \<open>The hash map of the standard library meets the contract.\<close>

interpretation hmap_store: keyed_store "\<lambda>_ _. True" "\<lambda>_. True" "\<lambda>_. True" "\<lambda>_ _ k m. Inr (hm_get m k)"
    "\<lambda>_ _ k v m. (Inr (), hm_insert k v m)" "\<lambda>_ _ k m. (Inr (), hm_remove k m)"
  by unfold_locales simp_all

end
