(* ===== verification/MessageStore.thy ===== *)
theory MessageStore
  imports ClientCrypto KeyedStore
begin

text \<open>
  The client's message store, \<open>MessageStore\<close> in \<open>client/src/main.rs\<close>: an SQLite database whose message bodies
  and metadata are encrypted field by field and looked up through keyed blind indexes, the history ledger, the
  ratchet sessions, and the migration of stores written before metadata was encrypted.

  A table is the list of its rows. The contents of the store change only through these operations, so SQLite is
  modelled by what its documentation says of the statements used: \<open>INSERT OR IGNORE\<close> skips a row that violates
  the \<open>UNIQUE\<close> index, \<open>ON CONFLICT\<close> needs such an index to exist, a negative \<open>LIMIT\<close> is none. What a call
  takes from its surroundings (clock, nonces, the next row identifier, query failures) is the record \<open>store_io\<close>.
\<close>

section \<open>Definitions\<close>

subsection \<open>Surroundings and state\<close>

record ('ek, 'dk, 'vk, 'sg) store_keys =
  kp :: "('ek, 'dk) prims"
  kc :: "('vk, 'sg) crypto"
  db_key :: bytes
  json_text :: "json \<Rightarrow> string"

record store_io =
  clock :: string
  nonces :: "nat \<Rightarrow> bytes"
  fault :: "nat \<Rightarrow> string option"
  next_rowid :: "int option"
  conn_rowid :: int

record StoredMessage =
  sm_id :: int
  sm_from_nid :: string
  sm_to_nid :: string
  sm_ciphertext :: string
  sm_timestamp :: string
  sm_delivered :: bool
  sm_status :: u8
  sm_status_updated_at :: string
  sm_read_receipt_at :: "string option"
  sm_message_id :: string

record MessageRow =
  row_id :: int
  from_nid_enc :: string
  to_nid_enc :: string
  row_ciphertext :: string
  timestamp_enc :: string
  mr_delivered :: int
  row_status :: int
  row_status_updated_at :: string
  read_receipt_at_enc :: "string option"
  message_id_enc :: string

record session_row =
  peer_nid_enc :: string
  session_data :: string
  updated_at :: string

record history_row =
  h_message_id_idx :: string
  record_enc :: string
  created_at :: string

text \<open>The tables, the messages and the sessions by their blind index. \<open>messages_unique\<close> and \<open>sessions_unique\<close>: the index
  column of the table carries the \<open>UNIQUE\<close> constraint, as it does in a table that this build created and not
  where the migration added the column to an older table.\<close>

record MessageStore =
  messages_unique :: bool
  sessions_unique :: bool
  messages :: "(string \<times> MessageRow) list"
  message_history :: "history_row list"
  ratchet_sessions :: "(string, session_row) hmap"

definition MessageStore_new :: MessageStore where
  "MessageStore_new = \<lparr>messages_unique = True, sessions_unique = True, messages = [], message_history = [], ratchet_sessions = []\<rparr>"

definition and_then :: "('e, 'a) result \<Rightarrow> ('a \<Rightarrow> ('e, 'b) result) \<Rightarrow> ('e, 'b) result" where
  "and_then r f = (case r of Inl e \<Rightarrow> Inl e | Inr x \<Rightarrow> f x)"

definition enc :: "('ek, 'dk, 'vk, 'sg) store_keys \<Rightarrow> store_io \<Rightarrow> nat \<Rightarrow> string \<Rightarrow> (string, string) result" where
  "enc K io i s = db_encrypt (kp K) (db_key K) (nonces io i) s"

definition dec :: "('ek, 'dk, 'vk, 'sg) store_keys \<Rightarrow> string \<Rightarrow> (string, string) result" where
  "dec K s = db_decrypt (kp K) (db_key K) s"

definition bidx :: "('ek, 'dk, 'vk, 'sg) store_keys \<Rightarrow> string \<Rightarrow> string" where
  "bidx K s = blind_index (kc K) (db_key K) s"

subsection \<open>Messages\<close>

definition store_message_row ::
    "('ek, 'dk, 'vk, 'sg) store_keys \<Rightarrow> store_io \<Rightarrow> string \<Rightarrow> string \<Rightarrow> string \<Rightarrow> u8 \<Rightarrow> string \<Rightarrow> (string, int \<Rightarrow> MessageRow) result" where
  "store_message_row K io from to ct status mid =
     and_then (enc K io 0 ct) (\<lambda>encrypted_ct.
     and_then (enc K io 1 from) (\<lambda>from_enc.
     and_then (enc K io 2 to) (\<lambda>to_enc.
     and_then (enc K io 3 (clock io)) (\<lambda>ts_enc.
     and_then (enc K io 4 mid) (\<lambda>mid_enc.
       Inr (\<lambda>i. \<lparr>row_id = i, from_nid_enc = from_enc, to_nid_enc = to_enc, row_ciphertext = encrypted_ct, timestamp_enc = ts_enc,
                 mr_delivered = (if 2 \<le> status then 1 else 0), row_status = uint status, row_status_updated_at = clock io,
                 read_receipt_at_enc = None, message_id_enc = mid_enc\<rparr>))))))"

text \<open>The returned identifier is the connection's last inserted row; when the row is ignored that is an
  earlier row of the connection.\<close>

definition ms_store_message ::
    "('ek, 'dk, 'vk, 'sg) store_keys \<Rightarrow> store_io \<Rightarrow> string \<Rightarrow> string \<Rightarrow> string \<Rightarrow> u8 \<Rightarrow> string \<Rightarrow> MessageStore
     \<Rightarrow> (string, int) result \<times> MessageStore" where
  "ms_store_message K io from to ct status mid S =
     (case store_message_row K io from to ct status mid of
        Inl e \<Rightarrow> (Inl e, S)
      | Inr row \<Rightarrow>
          (case fault io 0 of
             Some e \<Rightarrow> (Inl e, S)
           | None \<Rightarrow>
               if messages_unique S \<and> bidx K mid \<in> set (map fst (messages S)) then (Inr (conn_rowid io), S)
               else (case next_rowid io of
                       None \<Rightarrow> (Inl ''database or disk is full'', S)
                     | Some i \<Rightarrow> (Inr i, S\<lparr>messages := messages S @ [(bidx K mid, row i)]\<rparr>))))"

definition decrypt_row :: "('ek, 'dk, 'vk, 'sg) store_keys \<Rightarrow> MessageRow \<Rightarrow> StoredMessage option" where
  "decrypt_row K r =
     Option.bind (ok_of (dec K (row_ciphertext r))) (\<lambda>pt.
     Option.bind (ok_of (dec K (from_nid_enc r))) (\<lambda>f.
     Option.bind (ok_of (dec K (to_nid_enc r))) (\<lambda>t.
     Option.bind (ok_of (dec K (timestamp_enc r))) (\<lambda>ts.
     Option.bind (ok_of (dec K (message_id_enc r))) (\<lambda>mid.
       Some \<lparr>sm_id = row_id r, sm_from_nid = f, sm_to_nid = t, sm_ciphertext = pt, sm_timestamp = ts,
             sm_delivered = (mr_delivered r \<noteq> 0), sm_status = word_of_int (row_status r),
             sm_status_updated_at = row_status_updated_at r,
             sm_read_receipt_at = decrypt_opt (kp K) (db_key K) (read_receipt_at_enc r), sm_message_id = mid\<rparr>)))))"

definition by_id_desc :: "('a \<Rightarrow> int) \<Rightarrow> 'a list \<Rightarrow> 'a list" where
  "by_id_desc f xs = rev (sort_key f xs)"

definition sql_limit :: "int \<Rightarrow> 'a list \<Rightarrow> 'a list" where
  "sql_limit k xs = (if k < 0 then xs else take (nat k) xs)"

definition get_messages ::
    "('ek, 'dk, 'vk, 'sg) store_keys \<Rightarrow> store_io \<Rightarrow> int \<Rightarrow> MessageStore \<Rightarrow> (string, StoredMessage list) result" where
  "get_messages K io k S =
     (case fault io 0 of
        Some e \<Rightarrow> Inl e
      | None \<Rightarrow> Inr (List.map_filter (decrypt_row K) (sql_limit k (by_id_desc row_id (map snd (messages S))))))"

text \<open>The limit is cast to \<open>usize\<close>: a negative one is larger than any list.\<close>

definition get_messages_from ::
    "('ek, 'dk, 'vk, 'sg) store_keys \<Rightarrow> store_io \<Rightarrow> string \<Rightarrow> int \<Rightarrow> MessageStore \<Rightarrow> (string, StoredMessage list) result" where
  "get_messages_from K io from k S =
     (case fault io 0 of
        Some e \<Rightarrow> Inl e
      | None \<Rightarrow>
          Inr (sql_limit k (filter (\<lambda>m. sm_from_nid m = from)
                (List.map_filter (decrypt_row K) (by_id_desc row_id (map snd (messages S)))))))"

definition delete_message :: "store_io \<Rightarrow> int \<Rightarrow> MessageStore \<Rightarrow> (string, bool) result \<times> MessageStore" where
  "delete_message io i S =
     (case fault io 0 of
        Some e \<Rightarrow> (Inl e, S)
      | None \<Rightarrow>
          (Inr (\<exists>r \<in> set (messages S). row_id (snd r) = i), S\<lparr>messages := filter (\<lambda>r. row_id (snd r) \<noteq> i) (messages S)\<rparr>))"

definition reason :: "u8 \<Rightarrow> string" where
  "reason status = (if status = 1 then ''relay_ack'' else if status = 2 then ''delivered''
     else if status = 3 then ''read_receipt'' else ''status_change'')"

definition history_record ::
    "('ek, 'dk, 'vk, 'sg) store_keys \<Rightarrow> store_io \<Rightarrow> string \<Rightarrow> MessageRow \<Rightarrow> u8 \<Rightarrow> string" where
  "history_record K io mid r status =
     (let or_empty = (\<lambda>x. case ok_of x of Some s \<Rightarrow> s | None \<Rightarrow> [])
      in json_text K (JObject
           [(''message_id'', JString mid), (''from_nid'', JString (or_empty (dec K (from_nid_enc r)))),
            (''to_nid'', JString (or_empty (dec K (to_nid_enc r)))),
            (''old_status'', JInt (uint (word_of_int (row_status r) :: u8))), (''new_status'', JInt (uint status)),
            (''status_updated_at'', JString (clock io)), (''transition_reason'', JString (reason status))]))"

text \<open>The update and the history entry are two statements outside a transaction: a failure of the second
  reports an error after the first has taken effect.\<close>

definition update_message_status ::
    "('ek, 'dk, 'vk, 'sg) store_keys \<Rightarrow> store_io \<Rightarrow> string \<Rightarrow> u8 \<Rightarrow> MessageStore \<Rightarrow> (string, bool) result \<times> MessageStore" where
  "update_message_status K io mid status S =
     (case fault io 0 of
        Some e \<Rightarrow> (Inl e, S)
      | None \<Rightarrow>
          (case map_of (messages S) (bidx K mid) of
             None \<Rightarrow> (Inr False, S)
           | Some r \<Rightarrow>
               (case fault io 1 of
                  Some e \<Rightarrow> (Inl e, S)
                | None \<Rightarrow>
                    let S1 = S\<lparr>messages := map (\<lambda>(ix, r). (ix, if ix = bidx K mid
                                 then r\<lparr>row_status := uint status, row_status_updated_at := clock io,
                                        mr_delivered := (if 2 \<le> status then 1 else 0)\<rparr> else r)) (messages S)\<rparr>
                    in case enc K io 0 (history_record K io mid r status) of
                         Inl e \<Rightarrow> (Inl e, S1)
                       | Inr rec \<Rightarrow>
                           (case fault io 2 of
                              Some e \<Rightarrow> (Inl e, S1)
                            | None \<Rightarrow>
                                (Inr True, S1\<lparr>message_history := message_history S1
                                   @ [\<lparr>h_message_id_idx = bidx K mid, record_enc = rec, created_at = clock io\<rparr>]\<rparr>)))))"

subsection \<open>Ratchet sessions\<close>

definition save_session ::
    "('ek, 'dk, 'vk, 'sg) store_keys \<Rightarrow> store_io \<Rightarrow> string \<Rightarrow> string \<Rightarrow> MessageStore \<Rightarrow> (string, unit) result \<times> MessageStore" where
  "save_session K io peer sess S =
     (case enc K io 0 sess of
        Inl e \<Rightarrow> (Inl e, S)
      | Inr data \<Rightarrow>
          (case enc K io 1 peer of
             Inl e \<Rightarrow> (Inl e, S)
           | Inr nid_enc \<Rightarrow>
               (case fault io 0 of
                  Some e \<Rightarrow> (Inl e, S)
                | None \<Rightarrow>
                    if \<not> sessions_unique S then
                      (Inl ''ON CONFLICT clause does not match any PRIMARY KEY or UNIQUE constraint'', S)
                    else (Inr (), S\<lparr>ratchet_sessions := hm_insert (bidx K peer)
                            \<lparr>peer_nid_enc = nid_enc, session_data = data, updated_at = clock io\<rparr> (ratchet_sessions S)\<rparr>))))"

definition load_session ::
    "('ek, 'dk, 'vk, 'sg) store_keys \<Rightarrow> store_io \<Rightarrow> string \<Rightarrow> MessageStore \<Rightarrow> (string, string option) result" where
  "load_session K io peer S =
     (case fault io 0 of
        Some e \<Rightarrow> Inl e
      | None \<Rightarrow>
          (case hm_get (ratchet_sessions S) (bidx K peer) of
             None \<Rightarrow> Inr None
           | Some r \<Rightarrow> map_sum id Some (dec K (session_data r))))"

definition delete_session ::
    "('ek, 'dk, 'vk, 'sg) store_keys \<Rightarrow> store_io \<Rightarrow> string \<Rightarrow> MessageStore \<Rightarrow> (string, unit) result \<times> MessageStore" where
  "delete_session K io peer S =
     (case fault io 0 of
        Some e \<Rightarrow> (Inl e, S)
      | None \<Rightarrow> (Inr (), S\<lparr>ratchet_sessions := hm_remove (bidx K peer) (ratchet_sessions S)\<rparr>))"

subsection \<open>Migration\<close>

record legacy_message =
  lm_id :: int
  lm_from_nid :: string
  lm_to_nid :: string
  lm_timestamp :: string
  lm_message_id :: string
  lm_read_receipt_at :: "string option"
  lm_ciphertext :: string
  lm_delivered :: int
  lm_status :: int
  lm_status_updated_at :: string

definition migrate_message ::
    "('ek, 'dk, 'vk, 'sg) store_keys \<Rightarrow> store_io \<Rightarrow> legacy_message \<Rightarrow> (string, string \<times> MessageRow) result" where
  "migrate_message K io m =
     and_then (enc K io 0 (lm_ciphertext m)) (\<lambda>body_enc.
     and_then (enc K io 1 (lm_from_nid m)) (\<lambda>from_enc.
     and_then (enc K io 2 (lm_to_nid m)) (\<lambda>to_enc.
     and_then (enc K io 3 (lm_timestamp m)) (\<lambda>ts_enc.
     and_then (enc K io 4 (lm_message_id m)) (\<lambda>mid_enc.
     and_then (encrypt_opt (kp K) (db_key K) (nonces io 5) (lm_read_receipt_at m)) (\<lambda>rra_enc.
     case fault io 1 of
       Some e \<Rightarrow> Inl e
     | None \<Rightarrow>
         Inr (bidx K (lm_message_id m),
           \<lparr>row_id = lm_id m, from_nid_enc = from_enc, to_nid_enc = to_enc, row_ciphertext = body_enc, timestamp_enc = ts_enc,
            mr_delivered = lm_delivered m, row_status = lm_status m, row_status_updated_at = lm_status_updated_at m,
            read_receipt_at_enc = rra_enc, message_id_enc = mid_enc\<rparr>)))))))"

definition migrate_session ::
    "('ek, 'dk, 'vk, 'sg) store_keys \<Rightarrow> store_io \<Rightarrow> string \<times> string \<times> string \<Rightarrow> (string, string \<times> session_row) result" where
  "migrate_session K io row =
     (case row of (peer, sess, upd) \<Rightarrow>
        and_then (enc K io 0 peer) (\<lambda>nid_enc.
        and_then (enc K io 1 sess) (\<lambda>data_enc.
        case fault io 1 of
          Some e \<Rightarrow> Inl e
        | None \<Rightarrow> Inr (bidx K peer, \<lparr>peer_nid_enc = nid_enc, session_data = data_enc, updated_at = upd\<rparr>))))"

text \<open>A row of a table that the migration extended is its old columns, which stay as they are, with its new
  ones, if they are filled. The loop goes over the rows that are not: every row is its own statement, and a
  failure ends the loop with the earlier rows filled. \<open>fill n\<close> fills the \<open>n\<close>-th of them.\<close>

fun migrate_rows :: "(nat \<Rightarrow> 'a \<Rightarrow> (string, 'b) result) \<Rightarrow> nat \<Rightarrow> ('a \<times> 'b option) list \<Rightarrow> (string, unit) result \<times> ('a \<times> 'b option) list" where
  "migrate_rows fill n [] = (Inr (), [])"
| "migrate_rows fill n ((a, Some b) # rows) = apsnd (Cons (a, Some b)) (migrate_rows fill n rows)"
| "migrate_rows fill n ((a, None) # rows) =
     (case fill n a of
        Inl e \<Rightarrow> (Inl e, (a, None) # rows)
      | Inr b \<Rightarrow> apsnd (Cons (a, Some b)) (migrate_rows fill (Suc n) rows))"

text \<open>A failing \<open>SELECT\<close> (a fresh database has no plaintext columns) skips its table without an error.\<close>

definition migrate_legacy_plaintext_store ::
    "('ek, 'dk, 'vk, 'sg) store_keys \<Rightarrow> (nat \<Rightarrow> store_io) \<Rightarrow> (nat \<Rightarrow> store_io) \<Rightarrow> bool \<Rightarrow> bool
     \<Rightarrow> (legacy_message \<times> (string \<times> MessageRow) option) list \<Rightarrow> ((string \<times> string \<times> string) \<times> (string \<times> session_row) option) list
     \<Rightarrow> (string, unit) result \<times> (legacy_message \<times> (string \<times> MessageRow) option) list
        \<times> ((string \<times> string \<times> string) \<times> (string \<times> session_row) option) list" where
  "migrate_legacy_plaintext_store K ios ios' select_msgs select_sess ms ss =
     (case (if select_msgs then migrate_rows (\<lambda>n. migrate_message K (ios n)) 0 ms else (Inr (), ms)) of
        (Inl e, ms1) \<Rightarrow> (Inl e, ms1, ss)
      | (Inr _, ms1) \<Rightarrow>
          (case (if select_sess then migrate_rows (\<lambda>n. migrate_session K (ios' n)) 0 ss else (Inr (), ss)) of
             (r, ss1) \<Rightarrow> (r, ms1, ss1)))"

section \<open>Abstract specification\<close>

text \<open>The plaintext store the encrypted one stands for: a list of messages without two of the same
  identifier.\<close>

definition a_store :: "store_io \<Rightarrow> string \<Rightarrow> string \<Rightarrow> string \<Rightarrow> u8 \<Rightarrow> string \<Rightarrow> StoredMessage list \<Rightarrow> int \<times> StoredMessage list" where
  "a_store io from to ct status mid ms =
     (if mid \<in> sm_message_id ` set ms then (conn_rowid io, ms)
      else let i = the (next_rowid io)
           in (i, ms @ [\<lparr>sm_id = i, sm_from_nid = from, sm_to_nid = to, sm_ciphertext = ct, sm_timestamp = clock io,
                         sm_delivered = (2 \<le> status), sm_status = status, sm_status_updated_at = clock io,
                         sm_read_receipt_at = None, sm_message_id = mid\<rparr>]))"

definition a_get :: "int \<Rightarrow> StoredMessage list \<Rightarrow> StoredMessage list" where
  "a_get k ms = sql_limit k (by_id_desc sm_id ms)"

definition a_from :: "string \<Rightarrow> int \<Rightarrow> StoredMessage list \<Rightarrow> StoredMessage list" where
  "a_from from k ms = sql_limit k (filter (\<lambda>m. sm_from_nid m = from) (by_id_desc sm_id ms))"

definition a_delete :: "int \<Rightarrow> StoredMessage list \<Rightarrow> bool \<times> StoredMessage list" where
  "a_delete i ms = (i \<in> sm_id ` set ms, filter (\<lambda>m. sm_id m \<noteq> i) ms)"

definition a_status :: "store_io \<Rightarrow> string \<Rightarrow> u8 \<Rightarrow> StoredMessage list \<Rightarrow> bool \<times> StoredMessage list" where
  "a_status io mid status ms =
     (mid \<in> sm_message_id ` set ms,
      map (\<lambda>m. if sm_message_id m = mid
               then m\<lparr>sm_status := status, sm_status_updated_at := clock io, sm_delivered := (2 \<le> status)\<rparr> else m) ms)"

datatype store_op =
    OpStore string string string u8 string
  | OpGet int
  | OpFrom string int
  | OpDelete int
  | OpStatus string u8

datatype store_reply = RowId int | Messages "StoredMessage list" | Changed bool

fun c_step :: "('ek, 'dk, 'vk, 'sg) store_keys \<Rightarrow> store_op \<times> store_io \<Rightarrow> MessageStore \<Rightarrow> (string, store_reply) result \<times> MessageStore" where
  "c_step K (OpStore from to ct status mid, io) S = apfst (map_sum id RowId) (ms_store_message K io from to ct status mid S)"
| "c_step K (OpGet k, io) S = (map_sum id Messages (get_messages K io k S), S)"
| "c_step K (OpFrom from k, io) S = (map_sum id Messages (get_messages_from K io from k S), S)"
| "c_step K (OpDelete i, io) S = apfst (map_sum id Changed) (delete_message io i S)"
| "c_step K (OpStatus mid status, io) S = apfst (map_sum id Changed) (update_message_status K io mid status S)"

fun a_step :: "store_op \<times> store_io \<Rightarrow> StoredMessage list \<Rightarrow> store_reply \<times> StoredMessage list" where
  "a_step (OpStore from to ct status mid, io) ms = apfst RowId (a_store io from to ct status mid ms)"
| "a_step (OpGet k, io) ms = (Messages (a_get k ms), ms)"
| "a_step (OpFrom from k, io) ms = (Messages (a_from from k ms), ms)"
| "a_step (OpDelete i, io) ms = apfst Changed (a_delete i ms)"
| "a_step (OpStatus mid status, io) ms = apfst Changed (a_status io mid status ms)"

fun run :: "('o \<Rightarrow> 's \<Rightarrow> 'r \<times> 's) \<Rightarrow> 'o list \<Rightarrow> 's \<Rightarrow> 'r list \<times> 's" where
  "run step [] s = ([], s)"
| "run step (oo # os) s = (let (r, s1) = step oo s; (rs, s2) = run step os s1 in (r # rs, s2))"

definition abs_store :: "('ek, 'dk, 'vk, 'sg) store_keys \<Rightarrow> MessageStore \<Rightarrow> StoredMessage list" where
  "abs_store K S = map (\<lambda>r. the (decrypt_row K (snd r))) (messages S)"

section \<open>Lemmas\<close>

text \<open>What the store relies on: the laws of the primitives, and that AES-GCM encrypts every field.\<close>

definition keys_ok :: "('ek, 'dk, 'vk, 'sg) store_keys \<Rightarrow> bool" where
  "keys_ok K \<longleftrightarrow> (\<exists>ek dk. prims_ok (kp K) ek dk) \<and> (\<forall>n p. length n = 12 \<longrightarrow> (\<exists>c. aes_encrypt (kp K) (db_key K) n p = Inr c))"

definition io_ok :: "store_io \<Rightarrow> bool" where
  "io_ok io \<longleftrightarrow> (\<forall>i. length (nonces io i) = 12) \<and> (\<forall>i. fault io i = None) \<and> next_rowid io \<noteq> None"

lemma enc_dec:
  assumes "keys_ok K" "io_ok io"
  shows "\<exists>c. enc K io i s = Inr c \<and> dec K c = Inr s"
proof -
  obtain ek dk where P: "prims_ok (kp K) ek dk" using assms(1) unfolding keys_ok_def by blast
  obtain c where c: "aes_encrypt (kp K) (db_key K) (nonces io i) (str_bytes s) = Inr c"
    using assms unfolding keys_ok_def io_ok_def by blast
  then have e: "enc K io i s = Inr (b64_enc (kp K) (nonces io i @ c))" by (simp add: enc_def db_encrypt_def)
  have "length (nonces io i) = 12" using assms(2) by (simp add: io_ok_def)
  from db_roundtrip[OF P this] e show ?thesis unfolding enc_def dec_def by blast
qed

lemma and_then_simps [simp]: "and_then (Inl e) f = Inl e" "and_then (Inr x) f = f x"
  by (simp_all add: and_then_def)

lemma ok_of_simps [simp]: "ok_of (Inl e) = None" "ok_of (Inr x) = Some x"
  by (simp_all add: ok_of_def)

lemma io_okD: "io_ok io \<Longrightarrow> fault io i = None" "io_ok io \<Longrightarrow> next_rowid io = Some (the (next_rowid io))"
  by (auto simp: io_ok_def)

text \<open>Every row decrypts, and is filed under the blind index of its identifier.\<close>

definition store_inv :: "('ek, 'dk, 'vk, 'sg) store_keys \<Rightarrow> MessageStore \<Rightarrow> bool" where
  "store_inv K S \<longleftrightarrow> messages_unique S \<and>
     (\<forall>ix r. (ix, r) \<in> set (messages S) \<longrightarrow> (\<exists>m. decrypt_row K r = Some m \<and> ix = bidx K (sm_message_id m)))"

lemma decrypt_row_id: "decrypt_row K r = Some m \<Longrightarrow> sm_id m = row_id r"
  by (auto simp: decrypt_row_def bind_eq_Some_conv)

lemma decrypt_row_status:
  "decrypt_row K (r\<lparr>row_status := uint st, row_status_updated_at := t, mr_delivered := d\<rparr>)
   = map_option (\<lambda>m. m\<lparr>sm_status := st, sm_status_updated_at := t, sm_delivered := (d \<noteq> 0)\<rparr>) (decrypt_row K r)"
  by (simp add: decrypt_row_def map_option_bind comp_def)

lemma map_filter_the: "(\<And>x. x \<in> set xs \<Longrightarrow> f x \<noteq> None) \<Longrightarrow> List.map_filter f xs = map (\<lambda>x. the (f x)) xs"
proof (induction xs)
  case (Cons a xs)
  obtain y where "f a = Some y" using Cons.prems[of a] by auto
  then show ?case using Cons by simp
qed simp

lemma sort_key_map: "(\<And>x. x \<in> set xs \<Longrightarrow> f (g x) = h x) \<Longrightarrow> sort_key f (map g xs) = map g (sort_key h xs)"
proof (induction xs)
  case (Cons x xs)
  have "insort_key f (g x) (map g ys) = map g (insort_key h x ys)" if "\<And>y. y \<in> insert x (set ys) \<Longrightarrow> f (g y) = h y" for ys
    using that by (induction ys) auto
  from this[of "sort_key h xs"] show ?case using Cons by simp
qed simp

lemma by_id_desc_map: "(\<And>x. x \<in> set xs \<Longrightarrow> f (g x) = h x) \<Longrightarrow> by_id_desc f (map g xs) = map g (by_id_desc h xs)"
  by (simp add: by_id_desc_def sort_key_map rev_map)

lemma sql_limit_map: "sql_limit k (map f xs) = map f (sql_limit k xs)"
  by (simp add: sql_limit_def take_map)

lemma set_by_id_desc [simp]: "set (by_id_desc f xs) = set xs"
  by (simp add: by_id_desc_def)

lemma set_sql_limit: "set (sql_limit k xs) \<subseteq> set xs"
  by (simp add: sql_limit_def set_take_subset)

lemma store_invD: "store_inv K S \<Longrightarrow> (ix, r) \<in> set (messages S) \<Longrightarrow>
    \<exists>m. decrypt_row K r = Some m \<and> the (decrypt_row K r) = m \<and> ix = bidx K (sm_message_id m) \<and> sm_id m = row_id r"
  unfolding store_inv_def using decrypt_row_id by fastforce

lemma abs_ids:
  assumes "store_inv K S" "mid \<in> M" "sm_message_id ` set (abs_store K S) \<subseteq> M" "inj_on (bidx K) M"
  shows "bidx K mid \<in> fst ` set (messages S) \<longleftrightarrow> mid \<in> sm_message_id ` set (abs_store K S)"
proof
  assume "bidx K mid \<in> fst ` set (messages S)"
  then obtain r where r: "(bidx K mid, r) \<in> set (messages S)" by auto
  from store_invD[OF assms(1) r] obtain m where m: "the (decrypt_row K r) = m" "bidx K mid = bidx K (sm_message_id m)" by blast
  have "m \<in> set (abs_store K S)" using r m(1) by (force simp: abs_store_def)
  moreover from this have "sm_message_id m = mid" using m(2) assms(2-4) by (metis image_subset_iff inj_onD)
  ultimately show "mid \<in> sm_message_id ` set (abs_store K S)" by blast
next
  assume "mid \<in> sm_message_id ` set (abs_store K S)"
  then obtain ix r where r: "(ix, r) \<in> set (messages S)" "mid = sm_message_id (the (decrypt_row K r))"
    by (auto simp: abs_store_def)
  with store_invD[OF assms(1) r(1)] show "bidx K mid \<in> fst ` set (messages S)" by force
qed

lemma row_decrypts:
  assumes "keys_ok K" "io_ok io"
  shows "\<exists>row. store_message_row K io from to ct status mid = Inr row \<and> (\<forall>i. decrypt_row K (row i) =
    Some \<lparr>sm_id = i, sm_from_nid = from, sm_to_nid = to, sm_ciphertext = ct, sm_timestamp = clock io, sm_delivered = (2 \<le> status),
          sm_status = status, sm_status_updated_at = clock io, sm_read_receipt_at = None, sm_message_id = mid\<rparr>)"
proof -
  obtain c where "\<And>i s. enc K io i s = Inr (c i s)" "\<And>i s. dec K (c i s) = Inr s" using enc_dec[OF assms] by metis
  then show ?thesis by (simp add: store_message_row_def decrypt_row_def decrypt_opt_def)
qed

lemma store_refines:
  assumes "keys_ok K" "io_ok io" "store_inv K S" "mid \<in> M" "sm_message_id ` set (abs_store K S) \<subseteq> M" "inj_on (bidx K) M"
    and "ms_store_message K io from to ct status mid S = (r, S')"
  shows "r = Inr (fst (a_store io from to ct status mid (abs_store K S)))
    \<and> abs_store K S' = snd (a_store io from to ct status mid (abs_store K S)) \<and> store_inv K S'"
proof -
  obtain row where row: "store_message_row K io from to ct status mid = Inr row" "\<forall>i. decrypt_row K (row i) =
    Some \<lparr>sm_id = i, sm_from_nid = from, sm_to_nid = to, sm_ciphertext = ct, sm_timestamp = clock io, sm_delivered = (2 \<le> status),
          sm_status = status, sm_status_updated_at = clock io, sm_read_receipt_at = None, sm_message_id = mid\<rparr>"
    using row_decrypts[OF assms(1,2)] by blast
  have u: "messages_unique S" using assms(3) by (simp add: store_inv_def)
  obtain i where i: "next_rowid io = Some i" using io_okD(2)[OF assms(2)] by blast
  show ?thesis
  proof (cases "mid \<in> sm_message_id ` set (abs_store K S)")
    case True
    then have "bidx K mid \<in> fst ` set (messages S)" using abs_ids[OF assms(3-6)] by blast
    then show ?thesis using assms(3,7) u True by (auto simp: ms_store_message_def row(1) io_okD(1)[OF assms(2)] a_store_def)
  next
    case False
    then have "bidx K mid \<notin> fst ` set (messages S)" using abs_ids[OF assms(3-6)] by blast
    then have S': "r = Inr i" "S' = S\<lparr>messages := messages S @ [(bidx K mid, row i)]\<rparr>"
      using assms(7) by (auto simp: ms_store_message_def row(1) io_okD(1)[OF assms(2)] i)
    have "store_inv K S'" using assms(3) row(2) unfolding store_inv_def S'(2) by (auto dest: spec)
    then show ?thesis using False row(2) i by (simp add: S' a_store_def Let_def abs_store_def)
  qed
qed

lemma get_refines:
  assumes "store_inv K S"
  shows "List.map_filter (decrypt_row K) (by_id_desc row_id (map snd (messages S))) = by_id_desc sm_id (abs_store K S)"
    "List.map_filter (decrypt_row K) (sql_limit k (by_id_desc row_id (map snd (messages S)))) = a_get k (abs_store K S)"
proof -
  have some: "decrypt_row K r \<noteq> None" and ids: "sm_id (the (decrypt_row K r)) = row_id r" if "r \<in> set (map snd (messages S))" for r
    using that store_invD[OF assms] by force+
  have a: "by_id_desc sm_id (abs_store K S) = map (\<lambda>r. the (decrypt_row K r)) (by_id_desc row_id (map snd (messages S)))"
    using by_id_desc_map[of "map snd (messages S)" sm_id "\<lambda>r. the (decrypt_row K r)" row_id, OF ids]
    by (simp add: abs_store_def comp_def)
  then show "List.map_filter (decrypt_row K) (by_id_desc row_id (map snd (messages S))) = by_id_desc sm_id (abs_store K S)"
    using some by (subst map_filter_the) auto
  have "set (sql_limit k (by_id_desc row_id (map snd (messages S)))) \<subseteq> set (map snd (messages S))"
    using set_sql_limit by fastforce
  then show "List.map_filter (decrypt_row K) (sql_limit k (by_id_desc row_id (map snd (messages S)))) = a_get k (abs_store K S)"
    using some a by (subst map_filter_the) (blast, simp add: a_get_def sql_limit_map)
qed

lemma delete_refines:
  assumes "store_inv K S" "io_ok io" "delete_message io i S = (r, S')"
  shows "r = Inr (fst (a_delete i (abs_store K S))) \<and> abs_store K S' = snd (a_delete i (abs_store K S)) \<and> store_inv K S'"
proof -
  have ids: "sm_id (the (decrypt_row K (snd r))) = row_id (snd r)" if "r \<in> set (messages S)" for r
    using that store_invD[OF assms(1), of "fst r" "snd r"] by auto
  have r: "r = Inr (\<exists>r \<in> set (messages S). row_id (snd r) = i)" "S' = S\<lparr>messages := filter (\<lambda>r. row_id (snd r) \<noteq> i) (messages S)\<rparr>"
    using assms(2,3) by (auto simp: delete_message_def io_okD(1))
  have "(\<exists>r \<in> set (messages S). row_id (snd r) = i) \<longleftrightarrow> i \<in> sm_id ` set (abs_store K S)"
    using ids by (force simp: abs_store_def)
  moreover have "filter (\<lambda>m. sm_id m \<noteq> i) (abs_store K S) = abs_store K S'"
    using ids unfolding abs_store_def r(2) by (simp add: filter_map comp_def cong: filter_cong)
  moreover have "store_inv K S'" using assms(1) unfolding store_inv_def r(2) by auto
  ultimately show ?thesis by (simp add: r(1) a_delete_def)
qed

lemma status_refines:
  assumes "keys_ok K" "io_ok io" "store_inv K S" "mid \<in> M" "sm_message_id ` set (abs_store K S) \<subseteq> M" "inj_on (bidx K) M"
    and "update_message_status K io mid status S = (r, S')"
  shows "r = Inr (fst (a_status io mid status (abs_store K S)))
    \<and> abs_store K S' = snd (a_status io mid status (abs_store K S)) \<and> store_inv K S'"
proof (cases "map_of (messages S) (bidx K mid)")
  case None
  then have "mid \<notin> sm_message_id ` set (abs_store K S)"
    using abs_ids[OF assms(3-6)] by (auto simp: map_of_eq_None_iff)
  then show ?thesis using assms(2,3,7) None by (auto simp: update_message_status_def io_okD(1) a_status_def intro!: map_idI[symmetric])
next
  case (Some row)
  let ?upd = "\<lambda>r. r\<lparr>row_status := uint status, row_status_updated_at := clock io, mr_delivered := (if 2 \<le> status then 1 else 0)\<rparr>"
  let ?aupd = "\<lambda>m. m\<lparr>sm_status := status, sm_status_updated_at := clock io, sm_delivered := (2 \<le> status)\<rparr>"
  let ?ms = "map (\<lambda>(ix, r). (ix, if ix = bidx K mid then ?upd r else r)) (messages S)"
  obtain c where "enc K io 0 (history_record K io mid row status) = Inr c" using enc_dec[OF assms(1,2)] by blast
  then have S': "r = Inr True" "messages S' = ?ms" "messages_unique S' = messages_unique S"
    using assms(2,7) Some by (auto simp: update_message_status_def io_okD(1) Let_def)
  have mid: "mid \<in> sm_message_id ` set (abs_store K S)"
    using abs_ids[OF assms(3-6)] Some by (force dest: map_of_SomeD)
  have row: "\<exists>m. decrypt_row K x = Some m \<and> ix = bidx K (sm_message_id m) \<and> (ix = bidx K mid \<longleftrightarrow> sm_message_id m = mid)"
    if x: "(ix, x) \<in> set (messages S)" for ix x
  proof -
    from store_invD[OF assms(3) x] obtain m where m: "decrypt_row K x = Some m" "ix = bidx K (sm_message_id m)" by blast
    have "sm_message_id m \<in> M" using assms(5) x m(1) by (force simp: abs_store_def)
    then show ?thesis using m assms(4,6) by (auto dest: inj_onD)
  qed
  have upd: "decrypt_row K (?upd x) = map_option ?aupd (decrypt_row K x)" for x
    by (simp add: decrypt_row_status)
  have "the (decrypt_row K (if ix = bidx K mid then ?upd x else x))
      = (if sm_message_id (the (decrypt_row K x)) = mid then ?aupd (the (decrypt_row K x)) else the (decrypt_row K x))"
    if "(ix, x) \<in> set (messages S)" for ix x
    using row[OF that] upd[of x] by auto
  then have "abs_store K S' = snd (a_status io mid status (abs_store K S))"
    unfolding abs_store_def S'(2) a_status_def by (auto simp: case_prod_beta)
  moreover have "store_inv K S'"
    unfolding store_inv_def S'(2,3) using assms(3) row upd by (fastforce simp: store_inv_def)
  ultimately show ?thesis using mid by (simp add: S'(1) a_status_def)
qed

fun op_ids :: "store_op \<Rightarrow> string set" where
  "op_ids (OpStore from to ct status mid) = {mid}"
| "op_ids (OpStatus mid status) = {mid}"
| "op_ids _ = {}"

lemma step_refines:
  assumes "keys_ok K" "io_ok io" "store_inv K S" "op_ids oo \<subseteq> M" "sm_message_id ` set (abs_store K S) \<subseteq> M" "inj_on (bidx K) M"
    and "c_step K (oo, io) S = (r, S')"
  shows "r = Inr (fst (a_step (oo, io) (abs_store K S))) \<and> abs_store K S' = snd (a_step (oo, io) (abs_store K S)) \<and> store_inv K S'"
proof (cases oo)
  case (OpStore f t ct status mid)
  obtain r0 where "ms_store_message K io f t ct status mid S = (r0, S')" "r = map_sum id RowId r0"
    using assms(7) OpStore by (cases "ms_store_message K io f t ct status mid S") auto
  with store_refines[OF assms(1-3) _ assms(5,6) this(1)] show ?thesis using assms(4) OpStore by simp
next
  case (OpDelete i)
  obtain r0 where "delete_message io i S = (r0, S')" "r = map_sum id Changed r0"
    using assms(7) OpDelete by (cases "delete_message io i S") auto
  with delete_refines[OF assms(3,2) this(1)] show ?thesis using OpDelete by simp
next
  case (OpStatus mid status)
  obtain r0 where "update_message_status K io mid status S = (r0, S')" "r = map_sum id Changed r0"
    using assms(7) OpStatus by (cases "update_message_status K io mid status S") auto
  with status_refines[OF assms(1-3) _ assms(5,6) this(1)] show ?thesis using assms(4) OpStatus by simp
qed (use assms in \<open>auto simp: get_messages_def get_messages_from_def io_okD(1) get_refines a_from_def\<close>)

lemma a_step_ids: "sm_message_id ` set (snd (a_step (oo, io) ms)) \<subseteq> op_ids oo \<union> sm_message_id ` set ms"
  by (cases oo) (auto simp: a_store_def a_delete_def a_status_def Let_def)

lemma run_refines:
  assumes "keys_ok K" "inj_on (bidx K) M"
  shows "store_inv K S \<Longrightarrow> sm_message_id ` set (abs_store K S) \<subseteq> M \<Longrightarrow> \<forall>(oo, io) \<in> set ops. io_ok io \<and> op_ids oo \<subseteq> M
    \<Longrightarrow> fst (run (c_step K) ops S) = map Inr (fst (run a_step ops (abs_store K S)))
      \<and> abs_store K (snd (run (c_step K) ops S)) = snd (run a_step ops (abs_store K S))"
proof (induction ops arbitrary: S)
  case (Cons x ops)
  obtain oo io r S' where x: "x = (oo, io)" and c: "c_step K (oo, io) S = (r, S')" by (metis surj_pair)
  have ok: "io_ok io" "op_ids oo \<subseteq> M" using Cons.prems(3) x by auto
  note st = step_refines[OF assms(1) ok(1) Cons.prems(1) ok(2) Cons.prems(2) assms(2) c]
  have "sm_message_id ` set (abs_store K S') \<subseteq> M"
    using st a_step_ids[of oo io "abs_store K S"] ok(2) Cons.prems(2) by (metis Un_least order_trans)
  moreover have "\<forall>(oo, io) \<in> set ops. io_ok io \<and> op_ids oo \<subseteq> M" using Cons.prems(3) by simp
  ultimately have IH: "fst (run (c_step K) ops S') = map Inr (fst (run a_step ops (abs_store K S')))
      \<and> abs_store K (snd (run (c_step K) ops S')) = snd (run a_step ops (abs_store K S'))"
    using Cons.IH st by blast
  obtain a ms where a: "a_step (oo, io) (abs_store K S) = (a, ms)" by fastforce
  show ?case using IH st by (simp add: x c a case_prod_beta Let_def)
qed simp

lemma load_save_session:
  assumes "keys_ok K" "inj_on (bidx K) M" "io_ok io" "io_ok io'" "sessions_unique S"
  shows "fst (save_session K io p d S) = Inr () \<and> sessions_unique (snd (save_session K io p d S))"
    "fst (delete_session K io p S) = Inr () \<and> sessions_unique (snd (delete_session K io p S))"
    "p \<in> M \<Longrightarrow> q \<in> M \<Longrightarrow> load_session K io' q (snd (save_session K io p d S)) = (if q = p then Inr (Some d) else load_session K io' q S)"
    "p \<in> M \<Longrightarrow> q \<in> M \<Longrightarrow> load_session K io' q (snd (delete_session K io p S)) = (if q = p then Inr None else load_session K io' q S)"
proof -
  obtain c where c: "\<And>i s. enc K io i s = Inr (c i s)" "\<And>i s. dec K (c i s) = Inr s" using enc_dec[OF assms(1,3)] by metis
  note f = io_okD(1)[OF assms(3)] io_okD(1)[OF assms(4)]
  show "fst (save_session K io p d S) = Inr () \<and> sessions_unique (snd (save_session K io p d S))"
    "fst (delete_session K io p S) = Inr () \<and> sessions_unique (snd (delete_session K io p S))"
    using assms(5) by (simp_all add: save_session_def delete_session_def c f)
  assume "p \<in> M" "q \<in> M"
  then have i: "bidx K q = bidx K p \<longleftrightarrow> q = p" using assms(2) by (auto dest: inj_onD)
  show "load_session K io' q (snd (save_session K io p d S)) = (if q = p then Inr (Some d) else load_session K io' q S)"
    "load_session K io' q (snd (delete_session K io p S)) = (if q = p then Inr None else load_session K io' q S)"
    using assms(5) i by (simp_all add: load_session_def save_session_def delete_session_def c f)
qed

interpretation session_store: keyed_store "\<lambda>K M. keys_ok K \<and> inj_on (bidx K) M" io_ok sessions_unique
    load_session save_session delete_session
proof unfold_locales
  fix K :: "('a, 'b, 'c, 'd) store_keys" and M io io' and S :: MessageStore and p q d :: string
  assume K: "keys_ok K \<and> inj_on (bidx K) M" and io: "io_ok io" and S: "sessions_unique S"
  note l = load_save_session[OF conjunct1[OF K] conjunct2[OF K] io _ S]
  show "fst (save_session K io p d S) = Inr () \<and> sessions_unique (snd (save_session K io p d S))" by (rule l(1)[OF io])
  show "fst (delete_session K io p S) = Inr () \<and> sessions_unique (snd (delete_session K io p S))" by (rule l(2)[OF io])
  assume io': "io_ok io'" and pq: "p \<in> M" "q \<in> M"
  show "load_session K io' q (snd (save_session K io p d S)) = (if q = p then Inr (Some d) else load_session K io' q S)"
    by (rule l(3)[OF io' pq])
  show "load_session K io' q (snd (delete_session K io p S)) = (if q = p then Inr None else load_session K io' q S)"
    by (rule l(4)[OF io' pq])
qed

lemma migrate_rows_legacy: "map fst (snd (migrate_rows fill n rows)) = map fst rows"
  by (induction fill n rows rule: migrate_rows.induct) (auto split: sum.splits)

lemma migrate_rows_complete:
  assumes "\<And>n a. a \<in> fst ` set rows \<Longrightarrow> \<exists>b. fill n a = Inr b \<and> Q a b" "\<And>a b. (a, Some b) \<in> set rows \<Longrightarrow> Q a b"
  shows "fst (migrate_rows fill n rows) = Inr () \<and> (\<forall>(a, ob) \<in> set (snd (migrate_rows fill n rows)). \<exists>b. ob = Some b \<and> Q a b)"
  using assms
proof (induction fill n rows rule: migrate_rows.induct)
  case (3 fill n a rows)
  obtain b where b: "fill n a = Inr b" "Q a b" using 3(2)[of a n] by auto
  have "fst (migrate_rows fill (Suc n) rows) = Inr () \<and> (\<forall>(a, ob) \<in> set (snd (migrate_rows fill (Suc n) rows)). \<exists>b. ob = Some b \<and> Q a b)"
    using 3(1)[OF b(1)] 3(2,3) by auto
  then show ?case using b by auto
qed auto

text \<open>An interrupted loop leaves a table from which the loop, run again, fills the rest: the rows already
  filled stay as they are.\<close>

lemma migrate_rows_keeps:
  "i < length rows \<Longrightarrow> snd (rows ! i) = Some b \<Longrightarrow> snd (snd (migrate_rows fill n rows) ! i) = Some b"
proof (induction fill n rows arbitrary: i rule: migrate_rows.induct)
  case (2 fill n a b' rows)
  then show ?case by (cases i) simp_all
next
  case (3 fill n a rows)
  then show ?case by (cases i) (auto split: sum.splits)
qed simp

definition same_message :: "('ek, 'dk, 'vk, 'sg) store_keys \<Rightarrow> legacy_message \<Rightarrow> string \<times> MessageRow \<Rightarrow> bool" where
  "same_message K m x \<longleftrightarrow> fst x = bidx K (lm_message_id m) \<and>
     decrypt_row K (snd x) = Some \<lparr>sm_id = lm_id m, sm_from_nid = lm_from_nid m, sm_to_nid = lm_to_nid m, sm_ciphertext = lm_ciphertext m,
        sm_timestamp = lm_timestamp m, sm_delivered = (lm_delivered m \<noteq> 0), sm_status = word_of_int (lm_status m),
        sm_status_updated_at = lm_status_updated_at m, sm_read_receipt_at = lm_read_receipt_at m, sm_message_id = lm_message_id m\<rparr>"

lemma migrate_message_ok:
  assumes "keys_ok K" "io_ok io"
  shows "\<exists>x. migrate_message K io m = Inr x \<and> same_message K m x"
proof -
  obtain c where c: "\<And>i s. enc K io i s = Inr (c i s)" "\<And>i s. dec K (c i s) = Inr s" using enc_dec[OF assms] by metis
  have "\<exists>y. encrypt_opt (kp K) (db_key K) (nonces io 5) (lm_read_receipt_at m) = Inr y \<and> decrypt_opt (kp K) (db_key K) y = lm_read_receipt_at m"
    using c[of 5] by (cases "lm_read_receipt_at m") (simp_all add: encrypt_opt_def decrypt_opt_def enc_def dec_def)
  then show ?thesis
    using io_okD(1)[OF assms(2)] by (auto simp: migrate_message_def same_message_def decrypt_row_def c)
qed

lemma store_inv_new: "store_inv K MessageStore_new" "abs_store K MessageStore_new = []" "sessions_unique MessageStore_new"
  by (simp_all add: store_inv_def abs_store_def MessageStore_new_def)

definition toy_keys :: "(unit, unit, nat, nat) store_keys" where
  "toy_keys = \<lparr>kp = toy_prims, kc = toy_crypto, db_key = replicate 32 7, json_text = \<lambda>_. ''{}''\<rparr>"

definition toy_io :: "string \<Rightarrow> int \<Rightarrow> store_io" where
  "toy_io t i = \<lparr>clock = t, nonces = \<lambda>_. replicate 12 0, fault = \<lambda>_. None, next_rowid = Some i, conn_rowid = i - 1\<rparr>"

lemma toy_keys_ok: "keys_ok toy_keys" "io_ok (toy_io t i)"
  using toy_prims_ok by (auto simp: keys_ok_def toy_keys_def io_ok_def toy_io_def toy_prims_def)

lemma toy_idx_inj: "inj_on (bidx toy_keys) {''a'', ''b''}"
  using hex_encode_inj by (fastforce simp: inj_on_def bidx_def toy_keys_def blind_index_def toy_crypto_def str_bytes_def)

section \<open>Properties\<close>

text \<open>C12: The encrypted message store refines the plaintext one: from a new store, any sequence of storing,
  listing, listing by sender, deleting and changing the status of messages gives the replies of the plaintext
  store, none of them an error, and ends in a store that decrypts to its contents. Needed are that the field
  encryption round-trips, that blind indexes tell the message identifiers in use apart, and that no query fails.\<close>

theorem message_store_refines:
  assumes "keys_ok K" "inj_on (bidx K) M" "\<forall>(oo, io) \<in> set ops. io_ok io \<and> op_ids oo \<subseteq> M"
  shows "fst (run (c_step K) ops MessageStore_new) = map Inr (fst (run a_step ops []))
    \<and> abs_store K (snd (run (c_step K) ops MessageStore_new)) = snd (run a_step ops [])"
  using run_refines[OF assms(1,2) store_inv_new(1) _ assms(3)] by (simp add: store_inv_new(2))

theorem message_store_refines_witness:
  "let ops = [(OpStore ''me'' ''you'' ''hi'' 0 ''a'', toy_io ''t1'' 1), (OpStore ''me'' ''you'' ''again'' 0 ''a'', toy_io ''t2'' 2),
              (OpStatus ''a'' 3, toy_io ''t3'' 2), (OpGet 10, toy_io ''t4'' 2)]
   in map (\<lambda>m. (sm_ciphertext m, sm_status m, sm_delivered m)) (abs_store toy_keys (snd (run (c_step toy_keys) ops MessageStore_new)))
      = [(''hi'', 3, True)]"
proof -
  let ?ops = "[(OpStore ''me'' ''you'' ''hi'' 0 ''a'', toy_io ''t1'' 1), (OpStore ''me'' ''you'' ''again'' 0 ''a'', toy_io ''t2'' 2),
              (OpStatus ''a'' 3, toy_io ''t3'' 2), (OpGet 10, toy_io ''t4'' 2)]"
  have ok: "\<forall>(oo, io) \<in> set ?ops. io_ok io \<and> op_ids oo \<subseteq> {''a'', ''b''}" by (simp add: toy_keys_ok(2))
  have "map (\<lambda>m. (sm_ciphertext m, sm_status m, sm_delivered m)) (snd (run a_step ?ops [])) = [(''hi'', 3, True)]"
    by (simp add: a_store_def a_status_def Let_def toy_io_def)
  then show ?thesis unfolding Let_def conjunct2[OF message_store_refines[OF toy_keys_ok(1) toy_idx_inj ok]] .
qed

text \<open>Ratchet sessions are stored as a map: after any saves and deletions that met no query failure, a
  load returns the session saved last for the peer, or none if it was deleted or never saved.\<close>

theorem session_store_is_map:
  assumes "keys_ok K" "inj_on (bidx K) M" "\<forall>(cmd, io) \<in> set cmds. io_ok io \<and> kcmd_key cmd \<in> M" "peer \<in> M" "io_ok io'"
  shows "load_session K io' peer
      (fold (\<lambda>x S. snd (case x of (Save p d, io) \<Rightarrow> save_session K io p d S | (Del p, io) \<Rightarrow> delete_session K io p S)) cmds MessageStore_new)
    = Inr (fold (\<lambda>(cmd, io). kcmd_map cmd) cmds Map.empty peer)"
proof -
  have "\<forall>k io'. k \<in> M \<longrightarrow> io_ok io' \<longrightarrow> load_session K io' k MessageStore_new = Inr (Map.empty k)"
    by (simp add: load_session_def MessageStore_new_def io_okD(1))
  from session_store.behaves_as_map[OF conjI[OF assms(1,2)] store_inv_new(3) this assms(3-5)]
  show ?thesis by (simp add: session_store.exec_def)
qed

theorem session_store_is_map_witness:
  "load_session toy_keys (toy_io ''t'' 1) ''a''
     (snd (delete_session toy_keys (toy_io ''t'' 1) ''b'' (snd (save_session toy_keys (toy_io ''t'' 1) ''a'' ''state'' MessageStore_new))))
   = Inr (Some ''state'')"
  using session_store_is_map[OF toy_keys_ok(1) toy_idx_inj, of "[(Save ''a'' ''state'', toy_io ''t'' 1), (Del ''b'', toy_io ''t'' 1)]"
      "''a''" "toy_io ''t'' 1"] toy_keys_ok(2)
  by simp

text \<open>The migration fills every row and loses nothing: when no statement fails it succeeds, every message
  row decrypts to its legacy contents and is filed under the index of its identifier, every session row
  decrypts to its legacy session; and the legacy plaintext columns of both tables stay in place.\<close>

theorem migration_complete:
  assumes "keys_ok K" "\<forall>n. io_ok (ios n) \<and> io_ok (ios' n)"
    and "migrate_legacy_plaintext_store K ios ios' True True (map (\<lambda>m. (m, None)) ms) (map (\<lambda>s. (s, None)) ss) = (r, ms', ss')"
  shows "r = Inr () \<and> map fst ms' = ms \<and> map fst ss' = ss
    \<and> (\<forall>(m, x) \<in> set ms'. \<exists>y. x = Some y \<and> same_message K m y)
    \<and> (\<forall>((peer, d, upd), x) \<in> set ss'. \<exists>ix row. x = Some (ix, row) \<and> ix = bidx K peer \<and> dec K (session_data row) = Inr d)"
proof -
  let ?m = "migrate_rows (\<lambda>n. migrate_message K (ios n)) 0 (map (\<lambda>m. (m, None)) ms)"
  let ?s = "migrate_rows (\<lambda>n. migrate_session K (ios' n)) 0 (map (\<lambda>s. (s, None)) ss)"
  let ?Q = "\<lambda>(peer, d, upd :: string) (ix, row). ix = bidx K peer \<and> dec K (session_data row) = Inr d"
  have m: "fst ?m = Inr () \<and> (\<forall>(a, ob) \<in> set (snd ?m). \<exists>b. ob = Some b \<and> same_message K a b)"
    using migrate_message_ok[OF assms(1)] assms(2) by (intro migrate_rows_complete) (blast, auto)
  have "\<exists>b. migrate_session K (ios' n) a = Inr b \<and> ?Q a b" for n a
  proof -
    obtain c where "\<And>i s. enc K (ios' n) i s = Inr (c i s)" "\<And>i s. dec K (c i s) = Inr s"
      using enc_dec[OF assms(1)] assms(2) by metis
    then show ?thesis using assms(2) by (cases a) (simp add: migrate_session_def io_okD(1))
  qed
  then have s: "fst ?s = Inr () \<and> (\<forall>(a, ob) \<in> set (snd ?s). \<exists>b. ob = Some b \<and> ?Q a b)"
    by (intro migrate_rows_complete) auto
  have "r = Inr ()" "ms' = snd ?m" "ss' = snd ?s"
    using assms(3) m s by (auto simp: migrate_legacy_plaintext_store_def split: prod.splits sum.splits)
  then show ?thesis
    using m s migrate_rows_legacy[of "\<lambda>n. migrate_message K (ios n)" 0 "map (\<lambda>m. (m, None)) ms"]
      migrate_rows_legacy[of "\<lambda>n. migrate_session K (ios' n)" 0 "map (\<lambda>s. (s, None)) ss"]
    by (fastforce simp: comp_def)
qed

theorem migration_complete_witness:
  "fst (migrate_legacy_plaintext_store toy_keys (\<lambda>_. toy_io ''t'' 1) (\<lambda>_. toy_io ''t'' 1) True True [] [((''a'', ''s'', ''t''), None)]) = Inr ()"
proof -
  obtain r ms ss where m: "migrate_legacy_plaintext_store toy_keys (\<lambda>_. toy_io ''t'' 1) (\<lambda>_. toy_io ''t'' 1) True True
      (map (\<lambda>m. (m, None)) []) (map (\<lambda>s. (s, None)) [(''a'', ''s'', ''t'')]) = (r, ms, ss)"
    using prod_cases3 by blast
  with migration_complete[OF toy_keys_ok(1) _ m] toy_keys_ok(2) show ?thesis by simp
qed

text \<open>In tables that were extended by the migration the indexes are not unique: no session can be saved
  any more, and a message stored twice is there twice.\<close>

theorem migrated_store_degrades:
  assumes "\<not> messages_unique S" "\<not> sessions_unique S" "keys_ok K" "io_ok io" "io_ok io'"
  shows "(\<exists>e. save_session K io peer d S = (Inl e, S))
    \<and> length (messages (snd (ms_store_message K io' from to ct st mid (snd (ms_store_message K io from to ct st mid S)))))
      = length (messages S) + 2"
proof -
  obtain c where "\<And>i s. enc K io i s = Inr (c i s)" using enc_dec[OF assms(3,4)] by metis
  moreover obtain r where "store_message_row K io from to ct st mid = Inr r" using row_decrypts[OF assms(3,4)] by blast
  moreover obtain r' where "store_message_row K io' from to ct st mid = Inr r'" using row_decrypts[OF assms(3,5)] by blast
  moreover obtain i j where "next_rowid io = Some i" "next_rowid io' = Some j"
    using io_okD(2)[OF assms(4)] io_okD(2)[OF assms(5)] by blast
  ultimately show ?thesis
    using assms(1,2) by (simp add: save_session_def ms_store_message_def io_okD(1)[OF assms(4)] io_okD(1)[OF assms(5)])
qed

theorem migrated_store_degrades_witness:
  "\<exists>e. save_session toy_keys (toy_io ''t'' 1) ''a'' ''s'' (MessageStore_new\<lparr>messages_unique := False, sessions_unique := False\<rparr>)
     = (Inl e, MessageStore_new\<lparr>messages_unique := False, sessions_unique := False\<rparr>)"
  using migrated_store_degrades[OF _ _ toy_keys_ok(1) toy_keys_ok(2) toy_keys_ok(2),
      where S = "MessageStore_new\<lparr>messages_unique := False, sessions_unique := False\<rparr>"]
  by auto

end
