(* ===== verification/Vault.thy ===== *)
theory Vault
  imports ClientCrypto
begin

text \<open>
  Keys at rest: the sealed vault with its counter of failed attempts (\<open>crypto/src/tpm_vault.rs\<close>), the ML-KEM-1024
  key files (\<open>crypto/src/kyber.rs\<close>) and the hierarchy of derived keys (\<open>crypto/src/hardware_keys.rs\<close>).

  Argon2id, AES-256-GCM with associated data, HKDF, Base64, the TPM and the JSON text of a value are the record
  \<open>vault_env\<close>; a file is its content, if it exists, and what can go wrong with it is an argument. Locking and
  zeroing memory is not modelled. A panic is \<open>None\<close>.
\<close>

section \<open>Definitions\<close>

subsection \<open>The vault\<close>

definition MAK_LEN :: nat where "MAK_LEN = 32"

datatype VaultKind = Tpm string | Passphrase string

record VaultFile =
  vf_version :: u8
  vf_kind :: VaultKind
  pw_salt_b64 :: "string option"

record vault_env =
  argon2id :: "nat \<Rightarrow> bytes \<Rightarrow> string \<Rightarrow> (string, bytes) result"
  salt_from_b64 :: "string \<Rightarrow> (string, string) result"
  gcm_encrypt :: "bytes \<Rightarrow> bytes \<Rightarrow> bytes \<Rightarrow> bytes \<Rightarrow> (string, bytes) result"
  gcm_decrypt :: "bytes \<Rightarrow> bytes \<Rightarrow> bytes \<Rightarrow> bytes \<Rightarrow> (string, bytes) result"
  v_hkdf256 :: "bytes \<Rightarrow> bytes \<Rightarrow> bytes \<Rightarrow> nat \<Rightarrow> bytes"
  v_hkdf512 :: "bytes \<Rightarrow> bytes \<Rightarrow> nat \<Rightarrow> bytes"
  v_b64_enc :: "bytes \<Rightarrow> string"
  v_b64_dec :: "string \<Rightarrow> (string, bytes) result"
  tpm_seal :: "bytes \<Rightarrow> bytes \<Rightarrow> (CryptoError, bytes) result"
  tpm_unseal :: "bytes \<Rightarrow> bytes \<Rightarrow> (CryptoError, bytes) result"
  v_text :: "json \<Rightarrow> string"
  v_parse :: "string \<Rightarrow> (string, json) result"
  v_key_env :: key_env

definition map_err :: "('e \<Rightarrow> 'f) \<Rightarrow> ('e, 'a) result \<Rightarrow> ('f, 'a) result" where
  "map_err f r = map_sum f id r"

definition derive_kek :: "vault_env \<Rightarrow> bytes \<Rightarrow> string \<Rightarrow> (CryptoError, bytes) result" where
  "derive_kek E credential salt = map_err DerivationFailed (argon2id E 32 credential salt)"

definition mak_aad :: bytes where "mak_aad = str_bytes ''add-mak-v1''"

definition aes_wrap :: "vault_env \<Rightarrow> bytes \<Rightarrow> bytes \<Rightarrow> bytes \<Rightarrow> (CryptoError, bytes) result" where
  "aes_wrap E nonce kek plaintext =
     (case gcm_encrypt E kek nonce plaintext mak_aad of
        Inl e \<Rightarrow> Inl (EncryptFailed (''aes-wrap: '' @ e))
      | Inr ct \<Rightarrow> Inr (nonce @ ct))"

definition aes_unwrap :: "vault_env \<Rightarrow> bytes \<Rightarrow> bytes \<Rightarrow> (CryptoError, bytes) result" where
  "aes_unwrap E kek wrapped =
     (if length wrapped < 12 then Inl (DecryptFailed ''aes-unwrap: too short'')
      else case gcm_decrypt E kek (take 12 wrapped) (drop 12 wrapped) mak_aad of
        Inl _ \<Rightarrow> Inl (DecryptFailed ''aes-unwrap: auth failed (bad password)'')
      | Inr pt \<Rightarrow> Inr pt)"

definition seal_with_passphrase ::
    "vault_env \<Rightarrow> string \<Rightarrow> bytes \<Rightarrow> bytes \<Rightarrow> bytes \<Rightarrow> (CryptoError, VaultFile) result" where
  "seal_with_passphrase E salt nonce mak password =
     (case derive_kek E password salt of
        Inl e \<Rightarrow> Inl e
      | Inr kek \<Rightarrow>
          (case aes_wrap E nonce kek mak of
             Inl e \<Rightarrow> Inl e
           | Inr wrapped \<Rightarrow> Inr \<lparr>vf_version = 1, vf_kind = Passphrase (v_b64_enc E wrapped), pw_salt_b64 = Some salt\<rparr>))"

definition mak_of :: "bytes \<Rightarrow> (CryptoError, bytes) result" where
  "mak_of raw = (if length raw \<noteq> MAK_LEN then Inl (DecryptFailed ''unexpected MAK length'') else Inr raw)"

definition unseal_with_passphrase :: "vault_env \<Rightarrow> VaultFile \<Rightarrow> bytes \<Rightarrow> (CryptoError, bytes) result" where
  "unseal_with_passphrase E vault password =
     (case vf_kind vault of
        Tpm _ \<Rightarrow> Inl (DecryptFailed ''vault is not passphrase mode'')
      | Passphrase wrapped_b64 \<Rightarrow>
          (case pw_salt_b64 vault of
             None \<Rightarrow> Inl (DecryptFailed ''passphrase vault missing salt'')
           | Some s \<Rightarrow>
               (case salt_from_b64 E s of
                  Inl e \<Rightarrow> Inl (DecryptFailed (''bad salt: '' @ e))
                | Inr salt \<Rightarrow>
                    (case v_b64_dec E wrapped_b64 of
                       Inl e \<Rightarrow> Inl (DecryptFailed (''bad wrapped b64: '' @ e))
                     | Inr wrapped \<Rightarrow>
                         (case derive_kek E password salt of
                            Inl e \<Rightarrow> Inl e
                          | Inr kek \<Rightarrow> (case aes_unwrap E kek wrapped of Inl e \<Rightarrow> Inl e | Inr raw \<Rightarrow> mak_of raw))))))"

definition seal_to_tpm :: "vault_env \<Rightarrow> bytes \<Rightarrow> bytes \<Rightarrow> (CryptoError, VaultFile) result" where
  "seal_to_tpm E mak pin =
     (case tpm_seal E mak pin of
        Inl e \<Rightarrow> Inl e
      | Inr blob \<Rightarrow> Inr \<lparr>vf_version = 1, vf_kind = Tpm (v_b64_enc E blob), pw_salt_b64 = None\<rparr>)"

definition unseal_from_tpm :: "vault_env \<Rightarrow> VaultFile \<Rightarrow> bytes \<Rightarrow> (CryptoError, bytes) result" where
  "unseal_from_tpm E vault pin =
     (case vf_kind vault of
        Passphrase _ \<Rightarrow> Inl (DecryptFailed ''vault is not TPM mode'')
      | Tpm sealed_b64 \<Rightarrow>
          (case v_b64_dec E sealed_b64 of
             Inl e \<Rightarrow> Inl (DecryptFailed (''bad sealed b64: '' @ e))
           | Inr blob \<Rightarrow> (case tpm_unseal E blob pin of Inl e \<Rightarrow> Inl e | Inr raw \<Rightarrow> mak_of raw)))"

definition encrypt_with_mak :: "vault_env \<Rightarrow> bytes \<Rightarrow> bytes \<Rightarrow> bytes \<Rightarrow> (CryptoError, bytes) result" where
  "encrypt_with_mak E nonce mak pt = aes_wrap E nonce mak pt"

definition decrypt_with_mak :: "vault_env \<Rightarrow> bytes \<Rightarrow> bytes \<Rightarrow> (CryptoError, bytes) result" where
  "decrypt_with_mak E mak wrapped = aes_unwrap E mak wrapped"

subsection \<open>Failed attempts\<close>

text \<open>\<open>settings\<close> is the parsed settings file, if there is one. A file that cannot be read as a number
  counts as 0.\<close>

definition max_wrong_attempts :: "json option \<Rightarrow> u8" where
  "max_wrong_attempts settings =
     (case settings of
        None \<Rightarrow> 10
      | Some s \<Rightarrow>
          (case Option.bind (json_get s ''selfDestructThreshold'') as_u64 of
             None \<Rightarrow> 10
           | Some t \<Rightarrow> ucast (max 3 (min 20 t))))"

definition parse_count :: "vault_env \<Rightarrow> string \<Rightarrow> u8" where
  "parse_count E content =
     (case v_parse E content of
        Inr (JInt i) \<Rightarrow> if 0 \<le> i \<and> i < 256 then word_of_int i else 0
      | _ \<Rightarrow> 0)"

definition sat_succ :: "u8 \<Rightarrow> u8" where
  "sat_succ c = (if c = - 1 then c else c + 1)"

definition check_failed_attempts ::
    "vault_env \<Rightarrow> json option \<Rightarrow> string option \<Rightarrow> (string \<times> string option) option \<Rightarrow> bool \<Rightarrow> string option
     \<Rightarrow> (CryptoError, bool) result \<times> string option" where
  "check_failed_attempts E settings read_err write_err increment file =
     (case (case file of
              None \<Rightarrow> Inr 0
            | Some content \<Rightarrow> (case read_err of Some e \<Rightarrow> Inl (CryptoIo (''failed-read: '' @ e)) | None \<Rightarrow> Inr (parse_count E content))) of
        Inl e \<Rightarrow> (Inl e, file)
      | Inr count \<Rightarrow>
          if increment then
            let count1 = sat_succ count
            in if count1 \<ge> max_wrong_attempts settings then (Inr True, file)
               else (case write_err of
                       Some (e, left) \<Rightarrow> (Inl (CryptoIo (''failed-write: '' @ e)), left)
                     | None \<Rightarrow> (Inr False, Some (v_text E (JInt (uint count1)))))
          else (Inr False, file))"

definition reset_failed_attempts :: "string option \<Rightarrow> string option \<Rightarrow> (CryptoError, unit) result \<times> string option" where
  "reset_failed_attempts remove_err file =
     (case file of
        None \<Rightarrow> (Inr (), None)
      | Some c \<Rightarrow> (case remove_err of Some e \<Rightarrow> (Inl (CryptoIo (''failed-remove: '' @ e)), Some c) | None \<Rightarrow> (Inr (), None)))"

subsection \<open>Key files\<close>

record kem_keypair =
  kp_enc :: bytes
  kp_dec :: bytes

definition aes_file_key :: "vault_env \<Rightarrow> bytes \<Rightarrow> bytes \<Rightarrow> bytes" where
  "aes_file_key E salt key = v_hkdf256 E salt key (str_bytes ''add-kyber-key-enc-v1'') 32"

definition kyber_save ::
    "vault_env \<Rightarrow> bytes \<Rightarrow> bytes \<Rightarrow> (string \<times> string option) option \<Rightarrow> kem_keypair \<Rightarrow> bytes \<Rightarrow> string option
     \<Rightarrow> (CryptoError, unit) result \<times> string option" where
  "kyber_save E salt nonce write_err kp key file =
     (case gcm_encrypt E (aes_file_key E salt key) nonce (kp_dec kp) [] of
        Inl e \<Rightarrow> (Inl (KeyPersistence (''AES-GCM encrypt: '' @ e)), file)
      | Inr ct \<Rightarrow>
          (case write_err of
             Some (e, left) \<Rightarrow> (Inl (KeyPersistence (''write failed: '' @ e)), left)
           | None \<Rightarrow>
               (Inr (), Some (v_text E (JObject
                  [(''salt'', JString (hex_encode salt)), (''enc'', JString (hex_encode (kp_enc kp))),
                   (''nonce'', JString (hex_encode nonce)), (''dec_encrypted'', JString (hex_encode ct))])))))"

definition field_str :: "json \<Rightarrow> string \<Rightarrow> string option" where
  "field_str v k = Option.bind (json_get v k) as_str"

definition need :: "string \<Rightarrow> 'a option \<Rightarrow> (CryptoError, 'a) result" where
  "need msg x = (case x of None \<Rightarrow> Inl (KeyPersistence msg) | Some v \<Rightarrow> Inr v)"

definition unhex_field :: "vault_env \<Rightarrow> string \<Rightarrow> string \<Rightarrow> (CryptoError, bytes) result" where
  "unhex_field E what h = map_err (\<lambda>e. KeyPersistence (what @ '' hex decode: '' @ e)) (hex_decode (v_key_env E) h)"

definition on_ok :: "('e, 'a) result \<Rightarrow> ('a \<Rightarrow> ('e, 'b) result option) \<Rightarrow> ('e, 'b) result option" where
  "on_ok r f = (case r of Inl e \<Rightarrow> Some (Inl e) | Inr x \<Rightarrow> f x)"

text \<open>\<open>ek1024_valid\<close>: the ML-KEM library accepts the encapsulation key. A nonce of another size than 12 panics.\<close>

definition kyber_load ::
    "vault_env \<Rightarrow> (bytes \<Rightarrow> bool) \<Rightarrow> (string, string) result \<Rightarrow> bytes \<Rightarrow> (CryptoError, kem_keypair) result option" where
  "kyber_load E ek1024_valid content key =
     on_ok (map_err (\<lambda>e. KeyPersistence (''read failed: '' @ e)) content) (\<lambda>text.
     on_ok (map_err (\<lambda>e. KeyPersistence (''parse failed: '' @ e)) (v_parse E text)) (\<lambda>data.
     on_ok (need ''missing enc field'' (field_str data ''enc'')) (\<lambda>enc_hex.
     on_ok (need ''missing nonce field'' (field_str data ''nonce'')) (\<lambda>nonce_hex.
     on_ok (need ''missing dec_encrypted field'' (field_str data ''dec_encrypted'')) (\<lambda>dec_hex.
     on_ok (case field_str data ''salt'' of Some s \<Rightarrow> unhex_field E ''salt'' s | None \<Rightarrow> Inr (replicate 32 0)) (\<lambda>salt.
     on_ok (unhex_field E ''enc'' enc_hex) (\<lambda>enc_bytes.
     on_ok (unhex_field E ''nonce'' nonce_hex) (\<lambda>nonce_bytes.
     on_ok (unhex_field E ''dec_encrypted'' dec_hex) (\<lambda>dec_ct.
     if length nonce_bytes \<noteq> 12 then None
     else on_ok (map_err (\<lambda>e. KeyPersistence (''AES-GCM decrypt: '' @ e)) (gcm_decrypt E (aes_file_key E salt key) nonce_bytes dec_ct [])) (\<lambda>dec_bytes.
          if \<not> ek1024_valid enc_bytes then Some (Inl (KeyPersistence ''invalid enc key bytes''))
          else if length dec_bytes \<noteq> 64 then Some (Inl (KeyPersistence ''invalid seed length''))
          else Some (Inr \<lparr>kp_enc = enc_bytes, kp_dec = dec_bytes\<rparr>)))))))))))"

definition load_or_generate ::
    "vault_env \<Rightarrow> (bytes \<Rightarrow> bool) \<Rightarrow> kem_keypair \<Rightarrow> bytes \<Rightarrow> bytes \<Rightarrow> (string \<times> string option) option \<Rightarrow> string option \<Rightarrow> bytes
     \<Rightarrow> string option \<Rightarrow> (CryptoError, kem_keypair) result option \<times> string option" where
  "load_or_generate E valid fresh salt nonce write_err read_err key file =
     (case file of
        Some content \<Rightarrow> (kyber_load E valid (case read_err of Some e \<Rightarrow> Inl e | None \<Rightarrow> Inr content) key, file)
      | None \<Rightarrow>
          (case kyber_save E salt nonce write_err fresh key file of
             (Inl e, file1) \<Rightarrow> (Some (Inl e), file1) | (Inr _, file1) \<Rightarrow> (Some (Inr fresh), file1)))"

definition save_unencrypted ::
    "vault_env \<Rightarrow> (string \<times> string option) option \<Rightarrow> kem_keypair \<Rightarrow> (CryptoError, unit) result \<times> string option" where
  "save_unencrypted E write_err kp =
     (case write_err of
        Some (e, left) \<Rightarrow> (Inl (KeyPersistence (''write failed: '' @ e)), left)
      | None \<Rightarrow> (Inr (), Some (v_text E (JObject [(''enc'', JString (hex_encode (kp_enc kp))), (''dec'', JString (hex_encode (kp_dec kp)))]))))"

definition load_unencrypted ::
    "vault_env \<Rightarrow> (bytes \<Rightarrow> bool) \<Rightarrow> (string, string) result \<Rightarrow> (CryptoError, kem_keypair) result option" where
  "load_unencrypted E ek1024_valid content =
     on_ok (map_err (\<lambda>e. KeyPersistence (''read failed: '' @ e)) content) (\<lambda>text.
     on_ok (map_err (\<lambda>e. KeyPersistence (''parse failed: '' @ e)) (v_parse E text)) (\<lambda>data.
     on_ok (need ''missing enc field'' (field_str data ''enc'')) (\<lambda>enc_hex.
     on_ok (need ''missing dec field'' (field_str data ''dec'')) (\<lambda>dec_hex.
     on_ok (unhex_field E ''enc'' enc_hex) (\<lambda>enc_bytes.
     on_ok (unhex_field E ''dec'' dec_hex) (\<lambda>dec_bytes.
     if \<not> ek1024_valid enc_bytes then Some (Inl (KeyPersistence ''invalid enc key bytes''))
     else if length dec_bytes \<noteq> 64 then Some (Inl (KeyPersistence ''invalid seed length''))
     else Some (Inr \<lparr>kp_enc = enc_bytes, kp_dec = dec_bytes\<rparr>)))))))"

subsection \<open>Derived keys\<close>

datatype HardwareKeyError = HsmUnavailable string | HwDerivationFailed string | InvalidCredential

datatype RootSecretSource = Hsm | Argon2idSource

record RootSecret =
  rs_source :: RootSecretSource
  rs_material :: bytes

record SessionKeys =
  ratchet_root :: bytes
  cbnp_cover :: bytes
  sealed_sender :: bytes
  delivery_token :: bytes
  auth_hmac :: bytes

text \<open>\<open>vault\<close> is what reading the vault file gives, an error as its text.\<close>

definition from_tpm :: "vault_env \<Rightarrow> (string, VaultFile) result \<Rightarrow> bytes \<Rightarrow> (HardwareKeyError, RootSecret) result" where
  "from_tpm E vault pin =
     (case vault of
        Inl e \<Rightarrow> Inl (HsmUnavailable (''read vault: '' @ e))
      | Inr v \<Rightarrow>
          (case vf_kind v of
             Passphrase _ \<Rightarrow> Inl (HsmUnavailable ''vault is not TPM mode'')
           | Tpm _ \<Rightarrow>
               (case unseal_from_tpm E v pin of
                  Inl _ \<Rightarrow> Inl InvalidCredential
                | Inr mak \<Rightarrow> Inr \<lparr>rs_source = Hsm, rs_material = mak\<rparr>)))"

text \<open>The random salt is not kept.\<close>

definition from_passphrase :: "vault_env \<Rightarrow> string \<Rightarrow> bytes \<Rightarrow> (HardwareKeyError, RootSecret) result" where
  "from_passphrase E salt passphrase =
     (case argon2id E 64 passphrase salt of
        Inl e \<Rightarrow> Inl (HwDerivationFailed e)
      | Inr out \<Rightarrow> Inr \<lparr>rs_source = Argon2idSource, rs_material = out\<rparr>)"

definition verify_passphrase :: "vault_env \<Rightarrow> RootSecret \<Rightarrow> bytes \<Rightarrow> string \<Rightarrow> bool" where
  "verify_passphrase E root_secret passphrase stored_salt =
     (if rs_source root_secret \<noteq> Argon2idSource then False
      else case salt_from_b64 E stored_salt of
        Inl _ \<Rightarrow> False
      | Inr salt \<Rightarrow> (case argon2id E 64 passphrase salt of Inl _ \<Rightarrow> False | Inr _ \<Rightarrow> True))"

definition identity_derive :: "vault_env \<Rightarrow> RootSecret \<Rightarrow> bytes" where
  "identity_derive E root_secret = v_hkdf512 E (rs_material root_secret) (str_bytes ''add-identity-root-v1'') 64"

definition hw_session_keys :: "vault_env \<Rightarrow> bytes \<Rightarrow> SessionKeys" where
  "hw_session_keys E identity =
     \<lparr>ratchet_root = v_hkdf512 E identity (str_bytes ''add-double-ratchet-v1'') 32,
      cbnp_cover = v_hkdf512 E identity (str_bytes ''add-cbnp-cover-v1'') 32,
      sealed_sender = v_hkdf512 E identity (str_bytes ''add-sealed-sender-v1'') 32,
      delivery_token = v_hkdf512 E identity (str_bytes ''add-delivery-token-v1'') 32,
      auth_hmac = v_hkdf512 E identity (str_bytes ''add-auth-hmac-v1'') 32\<rparr>"

definition mlkem_seed :: "vault_env \<Rightarrow> bytes \<Rightarrow> bytes" where
  "mlkem_seed E identity = v_hkdf512 E (ratchet_root (hw_session_keys E identity)) (str_bytes ''add-mlkem-seed-v1'') 64"

section \<open>Lemmas\<close>

text \<open>What the code relies on: decryption inverts encryption under the same key, nonce and associated data,
  Base64, hex and the JSON text of numbers and of objects of strings invert their encoders, a generated salt parses to itself, and the TPM returns
  what it sealed under the same PIN.\<close>

definition string_object :: "(string \<times> string) list \<Rightarrow> json" where
  "string_object kvs = JObject (map (apsnd JString) kvs)"

definition vault_ok :: "vault_env \<Rightarrow> bool" where
  "vault_ok E \<longleftrightarrow> (\<forall>k n p a c. gcm_encrypt E k n p a = Inr c \<longrightarrow> gcm_decrypt E k n c a = Inr p)
     \<and> (\<forall>b. v_b64_dec E (v_b64_enc E b) = Inr b) \<and> (\<forall>i. v_parse E (v_text E (JInt i)) = Inr (JInt i))
     \<and> (\<forall>kvs. v_parse E (v_text E (string_object kvs)) = Inr (string_object kvs)) \<and> key_env_ok (v_key_env E)
     \<and> (\<forall>d p b. tpm_seal E d p = Inr b \<longrightarrow> tpm_unseal E b p = Inr d)"

lemma vault_okD:
  assumes "vault_ok E"
  shows "gcm_encrypt E k n p a = Inr c \<Longrightarrow> gcm_decrypt E k n c a = Inr p" "v_b64_dec E (v_b64_enc E b) = Inr b"
    "v_parse E (v_text E (JInt i)) = Inr (JInt i)" "hex_decode (v_key_env E) (hex_encode b) = Inr b"
    "tpm_seal E d pin = Inr bl \<Longrightarrow> tpm_unseal E bl pin = Inr d"
    "v_parse E (v_text E (string_object kvs)) = Inr (string_object kvs)"
  using assms key_env_okD(3) unfolding vault_ok_def by blast+

lemma on_ok_simps [simp]: "on_ok (Inl e) f = Some (Inl e)" "on_ok (Inr x) f = f x"
  by (simp_all add: on_ok_def)

lemma map_err_simps [simp]: "map_err f (Inl e) = Inl (f e)" "map_err f (Inr x) = Inr x"
  by (simp_all add: map_err_def)

lemma wrap_unwrap:
  assumes "vault_ok E" "length nonce = 12" "aes_wrap E nonce kek pt = Inr w"
  shows "aes_unwrap E kek w = Inr pt"
  using assms vault_okD(1)[OF assms(1)] by (auto simp: aes_wrap_def aes_unwrap_def split: sum.splits)

lemma field_str_object [simp]: "field_str (string_object kvs) k = map_of kvs k"
  by (induction kvs) (auto simp: field_str_def json_get_def string_object_def)

lemma unhex_field_hex: "vault_ok E \<Longrightarrow> unhex_field E what (hex_encode b) = Inr b"
  by (simp add: unhex_field_def vault_okD(4))

subsection \<open>Attempts\<close>

lemma max_wrong_attempts_range: "3 \<le> unat (max_wrong_attempts s) \<and> unat (max_wrong_attempts s) \<le> 20"
proof (cases "Option.bind s (\<lambda>s. Option.bind (json_get s ''selfDestructThreshold'') as_u64)")
  case None
  then have "max_wrong_attempts s = 10" by (auto simp: max_wrong_attempts_def split: option.splits)
  then show ?thesis by simp
next
  case (Some t)
  let ?m = "max 3 (min 20 t)"
  have m: "max_wrong_attempts s = ucast ?m" using Some by (auto simp: max_wrong_attempts_def bind_eq_Some_conv split: option.splits)
  have "3 \<le> ?m" "?m \<le> 20" by simp_all
  then have r: "3 \<le> unat ?m" "unat ?m \<le> 20" by (simp_all only: word_le_nat_alt, simp_all)
  then have "unat (ucast ?m :: u8) = unat ?m" by (simp add: unsigned_ucast_eq take_bit_nat_eq_self)
  then show ?thesis using m r by simp
qed

definition attempt_file :: "vault_env \<Rightarrow> nat \<Rightarrow> string option" where
  "attempt_file E n = (if n = 0 then None else Some (v_text E (JInt (int n))))"

lemma parse_attempt_file:
  "vault_ok E \<Longrightarrow> 0 < n \<Longrightarrow> n < 256 \<Longrightarrow> attempt_file E n = Some c \<Longrightarrow> parse_count E c = word_of_nat n"
  by (auto simp: attempt_file_def parse_count_def vault_okD(3))

lemma failed_attempt:
  assumes "vault_ok E" "n < unat (max_wrong_attempts s)"
  shows "check_failed_attempts E s None None True (attempt_file E n)
    = (if Suc n = unat (max_wrong_attempts s) then (Inr True, attempt_file E n) else (Inr False, attempt_file E (Suc n)))"
proof -
  let ?m = "max_wrong_attempts s"
  have m: "unat ?m \<le> 20" using max_wrong_attempts_range by blast
  have u: "unat (word_of_nat n :: u8) = n" using assms(2) m by (simp add: unat_of_nat)
  have c: "(case attempt_file E n of None \<Rightarrow> Inr 0 | Some content \<Rightarrow> Inr (parse_count E content)) = (Inr (word_of_nat n) :: (CryptoError, u8) result)"
    using parse_attempt_file[OF assms(1), of n] assms(2) m by (auto simp: attempt_file_def split: option.splits)
  have lt: "(word_of_nat n :: u8) < - 1"
    using u assms(2) m by (simp add: word_less_nat_alt unsigned_minus_1_eq_mask mask_eq_exp_minus_1)
  then have s: "sat_succ (word_of_nat n) = word_of_nat n + 1" "unat (word_of_nat n + 1 :: u8) = Suc n"
    using succ_no_wrap[OF lt] u by (auto simp: sat_succ_def)
  have "uint (word_of_nat n + 1 :: u8) = int (Suc n)" using s(2) by (metis int_nat_eq uint_nat)
  then show ?thesis
    using c s assms(2) by (auto simp: check_failed_attempts_def Let_def word_le_nat_alt attempt_file_def)
qed

fun failures :: "vault_env \<Rightarrow> json option \<Rightarrow> nat \<Rightarrow> string option \<Rightarrow> (CryptoError, bool) result list" where
  "failures E s 0 file = []"
| "failures E s (Suc n) file = (let (r, file1) = check_failed_attempts E s None None True file in r # failures E s n file1)"

lemma failures_from:
  assumes "vault_ok E"
  shows "k < unat (max_wrong_attempts s) \<Longrightarrow>
    failures E s n (attempt_file E k) = map (\<lambda>i. Inr (unat (max_wrong_attempts s) \<le> k + i)) [1..<Suc n]"
proof (induction n arbitrary: k)
  case (Suc n)
  let ?m = "unat (max_wrong_attempts s)"
  have upt: "[1..<Suc (Suc n)] = 1 # map Suc [1..<Suc n]" by (simp add: map_Suc_upt upt_conv_Cons)
  show ?case
  proof (cases "Suc k = ?m")
    case True
    then have "failures E s (Suc n) (attempt_file E k) = Inr True # failures E s n (attempt_file E k)"
      using failed_attempt[OF assms Suc.prems] by simp
    moreover have "(?m \<le> k + Suc i) = True" "(?m \<le> k + 1) = True" for i using True by simp_all
    moreover have "map (\<lambda>i. Inr (?m \<le> k + i)) [1..<Suc n] = map (\<lambda>i. (Inr True :: (CryptoError, bool) result)) [1..<Suc n]"
      using True by (intro map_cong) auto
    ultimately show ?thesis using Suc.IH[OF Suc.prems] unfolding upt by (simp add: comp_def)
  next
    case False
    then have "failures E s (Suc n) (attempt_file E k) = Inr False # failures E s n (attempt_file E (Suc k))"
      using failed_attempt[OF assms Suc.prems] by simp
    then show ?thesis using Suc.IH[of "Suc k"] Suc.prems False unfolding upt by (simp add: comp_def)
  qed
qed simp

subsection \<open>A small instance\<close>

definition toy_str :: "string \<Rightarrow> string" where
  "toy_str s = replicate (length s) (CHR ''a'') @ CHR ''b'' # s"

definition toy_unstr :: "string \<Rightarrow> string \<times> string" where
  "toy_unstr t = (let n = length (takeWhile (\<lambda>c. c = CHR ''a'') t); r = drop (Suc n) t in (take n r, drop n r))"

fun toy_unfields :: "nat \<Rightarrow> string \<Rightarrow> (string \<times> string) list" where
  "toy_unfields 0 t = []"
| "toy_unfields (Suc f) t =
     (if t = [] then [] else let (k, t1) = toy_unstr t; (v, t2) = toy_unstr t1 in (k, v) # toy_unfields f t2)"

definition toy_fields :: "(string \<times> string) list \<Rightarrow> string" where
  "toy_fields kvs = concat (map (\<lambda>(k, v). toy_str k @ toy_str v) kvs)"

definition json_string :: "json \<Rightarrow> string" where
  "json_string v = (case as_str v of Some s \<Rightarrow> s | None \<Rightarrow> [])"

fun toy_text :: "json \<Rightarrow> string" where
  "toy_text (JInt i) = (if i < 0 then CHR ''-'' else CHR ''+'') # replicate (nat \<bar>i\<bar>) (CHR ''a'')"
| "toy_text (JObject kvs) = CHR ''o'' # toy_fields (map (apsnd json_string) kvs)"
| "toy_text _ = []"

fun toy_parse :: "string \<Rightarrow> (string, json) result" where
  "toy_parse [] = Inl ''empty''"
| "toy_parse (c # t) =
     (if c = CHR ''o'' then Inr (string_object (toy_unfields (length t) t))
      else Inr (JInt (if c = CHR ''-'' then - int (length t) else int (length t))))"

lemma toy_unstr_app: "toy_unstr (toy_str s @ t) = (s, t)"
proof -
  have "takeWhile (\<lambda>c. c = CHR ''a'') (replicate n (CHR ''a'') @ CHR ''b'' # r) = replicate n (CHR ''a'')" for n r
    by (induction n) simp_all
  then show ?thesis by (simp add: toy_unstr_def toy_str_def Let_def)
qed

lemma toy_fields_inv: "length kvs \<le> f \<Longrightarrow> toy_unfields f (toy_fields kvs) = kvs"
proof (induction kvs arbitrary: f)
  case Nil
  then show ?case by (cases f) (simp_all add: toy_fields_def)
next
  case (Cons x kvs)
  obtain k v g where x: "x = (k, v)" "f = Suc g" using Cons.prems by (cases x, cases f) auto
  have t: "toy_fields (x # kvs) = toy_str k @ toy_str v @ toy_fields kvs" by (simp add: toy_fields_def x)
  have "toy_fields (x # kvs) \<noteq> []" unfolding t by (simp add: toy_str_def)
  then show ?case using Cons.IH[of g] Cons.prems by (simp add: x(2) t toy_unstr_app Let_def) (simp add: x)
qed

lemma toy_fields_length: "length kvs \<le> length (toy_fields kvs)"
  by (induction kvs) (auto simp: toy_fields_def toy_str_def)

lemma json_string_object: "map (apsnd json_string) (map (apsnd JString) kvs) = kvs"
  by (induction kvs) (auto simp: json_string_def)

definition toy_vault :: vault_env where
  "toy_vault =
     \<lparr>argon2id = \<lambda>n p s. Inr (take n (p @ replicate n 0)), salt_from_b64 = Inr, gcm_encrypt = \<lambda>k n p a. Inr p,
      gcm_decrypt = \<lambda>k n c a. Inr c, v_hkdf256 = \<lambda>s k i n. replicate n 0, v_hkdf512 = \<lambda>k i n. replicate n 0,
      v_b64_enc = bytes_str, v_b64_dec = \<lambda>s. Inr (str_bytes s), tpm_seal = \<lambda>d p. Inr d, tpm_unseal = \<lambda>b p. Inr b,
      v_text = toy_text, v_parse = toy_parse, v_key_env = toy_key_env\<rparr>"

lemma toy_vault_ok: "vault_ok toy_vault"
  using toy_fields_inv[OF toy_fields_length] toy_key_env_ok
  by (auto simp: vault_ok_def toy_vault_def string_object_def json_string_object simp del: map_map)

section \<open>Properties\<close>

text \<open>C38: The vault destroys itself at the threshold: with failed attempts in a row and no I/O error, the
  \<open>i\<close>-th one asks for the wipe exactly when \<open>i\<close> has reached the configured number, which lies between 3 and 20.\<close>

theorem self_destruct_exact:
  assumes "vault_ok E"
  shows "failures E settings n None = map (\<lambda>i. Inr (unat (max_wrong_attempts settings) \<le> i)) [1..<Suc n]
    \<and> 3 \<le> unat (max_wrong_attempts settings) \<and> unat (max_wrong_attempts settings) \<le> 20"
proof -
  have "0 < unat (max_wrong_attempts settings)" using max_wrong_attempts_range[of settings] by linarith
  from failures_from[OF assms this, of n] show ?thesis using max_wrong_attempts_range by (simp add: attempt_file_def)
qed

theorem self_destruct_exact_witness:
  "failures toy_vault (Some (JObject [(''selfDestructThreshold'', JInt 3)])) 4 None = [Inr False, Inr False, Inr True, Inr True]"
proof -
  have m: "max_wrong_attempts (Some (JObject [(''selfDestructThreshold'', JInt 3)])) = 3"
    by (simp add: max_wrong_attempts_def json_get_def u64_range_def min_def max_def word_le_nat_alt)
  show ?thesis
    using conjunct1[OF self_destruct_exact[OF toy_vault_ok, of "Some (JObject [(''selfDestructThreshold'', JInt 3)])" 4]]
    by (simp add: m upt_rec)
qed

text \<open>A sealed vault opens with its own password or PIN, and what is encrypted under the key inside it
  decrypts.\<close>

theorem vault_roundtrip:
  assumes "vault_ok E" "length mak = MAK_LEN" "length nonce = 12" "salt_from_b64 E salt = Inr salt"
  shows "(seal_with_passphrase E salt nonce mak pw = Inr v \<longrightarrow> unseal_with_passphrase E v pw = Inr mak)
    \<and> (seal_to_tpm E mak pin = Inr v \<longrightarrow> unseal_from_tpm E v pin = Inr mak)
    \<and> (encrypt_with_mak E nonce mak d = Inr w \<longrightarrow> decrypt_with_mak E mak w = Inr d)"
  using assms wrap_unwrap[OF assms(1,3)] vault_okD(2,5)[OF assms(1)]
  by (auto simp: seal_with_passphrase_def unseal_with_passphrase_def seal_to_tpm_def unseal_from_tpm_def mak_of_def
      encrypt_with_mak_def decrypt_with_mak_def split: sum.splits)

theorem vault_roundtrip_witness:
  "\<exists>v. seal_with_passphrase toy_vault ''salt'' (replicate 12 0) (replicate 32 1) [5] = Inr v
     \<and> unseal_with_passphrase toy_vault v [5] = Inr (replicate 32 1)"
proof -
  obtain v where v: "seal_with_passphrase toy_vault ''salt'' (replicate 12 0) (replicate 32 1) [5] = Inr v"
    by (simp add: seal_with_passphrase_def derive_kek_def aes_wrap_def toy_vault_def)
  have s: "salt_from_b64 toy_vault ''salt'' = Inr ''salt''" by (simp add: toy_vault_def)
  from vault_roundtrip[OF toy_vault_ok _ _ s, of "replicate 32 1" "replicate 12 0" "[5]" v] v
  show ?thesis by (simp add: MAK_LEN_def)
qed

text \<open>A key pair survives both of its file formats, and \<open>load_or_generate\<close> returns the pair it once
  generated on every later start.\<close>

theorem kyber_file_roundtrip:
  assumes "vault_ok E" "length (kp_dec kp) = 64" "valid (kp_enc kp)" "length nonce = 12"
  shows "(kyber_save E salt nonce None kp key file = (Inr (), Some c) \<longrightarrow> kyber_load E valid (Inr c) key = Some (Inr kp))
    \<and> (save_unencrypted E None kp = (Inr (), Some c) \<longrightarrow> load_unencrypted E valid (Inr c) = Some (Inr kp))
    \<and> (load_or_generate E valid kp salt nonce None None key None = (Some (Inr kp), Some c)
        \<longrightarrow> load_or_generate E valid fresh salt' nonce' werr None key (Some c) = (Some (Inr kp), Some c))"
proof -
  have load: "kyber_load E valid (Inr c) key = Some (Inr kp)" if sv: "kyber_save E salt nonce None kp key f = (Inr (), Some c)" for f c
  proof -
    obtain ct where ct: "gcm_encrypt E (aes_file_key E salt key) nonce (kp_dec kp) [] = Inr ct"
      using sv by (auto simp: kyber_save_def split: sum.splits)
    have "c = v_text E (string_object [(''salt'', hex_encode salt), (''enc'', hex_encode (kp_enc kp)), (''nonce'', hex_encode nonce), (''dec_encrypted'', hex_encode ct)])"
      using sv ct by (simp add: kyber_save_def string_object_def)
    then show ?thesis
      using vault_okD(1)[OF assms(1) ct] assms(2-4)
      by (simp add: kyber_load_def vault_okD(6)[OF assms(1)] need_def unhex_field_hex[OF assms(1)])
  qed
  moreover have "load_unencrypted E valid (Inr c) = Some (Inr kp)" if "save_unencrypted E None kp = (Inr (), Some c)"
  proof -
    have "c = v_text E (string_object [(''enc'', hex_encode (kp_enc kp)), (''dec'', hex_encode (kp_dec kp))])"
      using that by (simp add: save_unencrypted_def string_object_def)
    then show ?thesis
      using assms(2,3)
      by (simp add: load_unencrypted_def vault_okD(6)[OF assms(1)] need_def unhex_field_hex[OF assms(1)])
  qed
  moreover have "kyber_save E salt nonce None kp key None = (Inr (), Some c)"
    if "load_or_generate E valid kp salt nonce None None key None = (Some (Inr kp), Some c)"
    using that by (auto simp: load_or_generate_def split: prod.splits sum.splits)
  ultimately show ?thesis by (auto simp: load_or_generate_def)
qed

theorem kyber_file_roundtrip_witness:
  "\<exists>c. save_unencrypted toy_vault None \<lparr>kp_enc = [1], kp_dec = replicate 64 2\<rparr> = (Inr (), Some c)
     \<and> load_unencrypted toy_vault (\<lambda>_. True) (Inr c) = Some (Inr \<lparr>kp_enc = [1], kp_dec = replicate 64 2\<rparr>)"
  using kyber_file_roundtrip[OF toy_vault_ok, of "\<lparr>kp_enc = [1], kp_dec = replicate 64 2\<rparr>" "\<lambda>_. True" "replicate 12 0"]
  by (simp add: save_unencrypted_def)

text \<open>The check of a passphrase accepts every passphrase that can be hashed: the result is not compared with
  the root secret.\<close>

lemma verify_passphrase_accepts_all:
  assumes "from_passphrase E salt pw = Inr r" "salt_from_b64 E stored = Inr s" "argon2id E 64 other s = Inr out"
  shows "verify_passphrase E r other stored"
  using assms by (auto simp: from_passphrase_def verify_passphrase_def split: sum.splits)

end
