(* ===== verification/ClientRelay.thy ===== *)
theory ClientRelay
  imports MessageStore Vault Transport RelayHandlers "HOL-Library.Countable"
begin

text \<open>
  Messages of the client that travel through a relay, in \<open>client/src/main.rs\<close>: \<open>send_via_relay\<close>,
  \<open>relay_decrypt_message\<close> and the receiving half of the \<open>read\<close> command.

  The ratchet, the padding, the message store and the relay are those of the other theories. The JSON text of
  values and of sessions, number formatting and signing are arguments; a WebSocket is the list of events it will
  deliver. A call that panics or waits for ever has no result (\<open>None\<close>).
\<close>

section \<open>Definitions\<close>

subsection \<open>Surroundings\<close>

record Identity =
  id_fingerprint :: string
  id_null_id :: string
  ml_dsa87_signing_key :: "string option"

record ('ek, 'dk, 'vk, 'sg) client_env =
  ce_keys :: "('ek, 'dk, 'vk, 'sg) store_keys"
  ce_parse :: "string \<Rightarrow> (string, json) result"
  sess_text :: "RatchetState \<Rightarrow> (string, string) result"
  sess_parse :: "string \<Rightarrow> (string, RatchetState) result"
  ce_hex :: key_env
  ce_lossy :: "bytes \<Rightarrow> string"
  ce_pick :: pick
  ce_fmt_f64 :: "real \<Rightarrow> string"
  verifying_key_of :: "string \<Rightarrow> (string, string) result"

fun crypto_error_text :: "CryptoError \<Rightarrow> string" where
  "crypto_error_text (CryptoInvalidFingerprint e) = ''invalid fingerprint: '' @ e"
| "crypto_error_text (EncryptFailed e) = ''encryption failed: '' @ e"
| "crypto_error_text (DecryptFailed e) = ''decryption failed: '' @ e"
| "crypto_error_text (CryptoSerialization e) = ''serialization error: '' @ e"
| "crypto_error_text (Ratchet e) = ''ratchet error: '' @ e"
| "crypto_error_text (KeyPersistence e) = ''key persistence error: '' @ e"
| "crypto_error_text (CryptoPir e) = ''PIR error: '' @ e"
| "crypto_error_text (HardwareError e) = ''hardware/TPM error: '' @ e"
| "crypto_error_text (CryptoIo e) = ''I/O error: '' @ e"
| "crypto_error_text (DerivationFailed e) = ''key derivation failed: '' @ e"

definition ce_prims :: "('ek, 'dk, 'vk, 'sg) client_env \<Rightarrow> ('ek, 'dk) prims" where
  "ce_prims E = kp (ce_keys E)"

definition with_context :: "string \<Rightarrow> (CryptoError, 'a) result \<Rightarrow> (string, 'a) result" where
  "with_context pre r = map_sum (\<lambda>e. pre @ crypto_error_text e) id r"

definition session_serialize :: "('ek, 'dk, 'vk, 'sg) client_env \<Rightarrow> RatchetState \<Rightarrow> (CryptoError, string) result" where
  "session_serialize E st = map_sum CryptoSerialization id (sess_text E st)"

definition session_deserialize :: "('ek, 'dk, 'vk, 'sg) client_env \<Rightarrow> string \<Rightarrow> (CryptoError, RatchetState) result" where
  "session_deserialize E data = map_sum CryptoSerialization id (sess_parse E data)"

subsection \<open>Decrypting a relayed message\<close>

definition blob_sender :: "('ek, 'dk) prims \<Rightarrow> json \<Rightarrow> string \<Rightarrow> string \<Rightarrow> (string, string \<times> string) result" where
  "blob_sender P env snid sfp =
     (let blob_nid = unwrap_or [] (field_str env ''sender_nid''); blob_fp = unwrap_or [] (field_str env ''sender_fp'')
      in if blob_nid \<noteq> [] \<and> blob_fp \<noteq> [] then Inr (blob_nid, blob_fp)
         else if snid \<noteq> [] \<and> snid \<noteq> ''anonymous'' then Inr (snid, sfp)
         else if sfp \<noteq> [] \<and> sfp \<noteq> ''anonymous'' then Inr (null_id P sfp, sfp)
         else Inl ''relay message has no recoverable sender identification'')"

definition first_session ::
    "('ek, 'dk, 'vk, 'sg) client_env \<Rightarrow> 'dk \<Rightarrow> string \<Rightarrow> string \<Rightarrow> string \<Rightarrow> string \<Rightarrow> (string, RatchetState) result" where
  "first_session E dk sfp nid ofp kyber_ct_hex =
     (case hex_decode (ce_hex E) kyber_ct_hex of
        Inl e \<Rightarrow> Inl (''kyber_ct hex decode: '' @ e)
      | Inr b \<Rightarrow>
          (case parse_ct (ce_prims E) b of
             Inl e \<Rightarrow> Inl (''kyber_ct parse: '' @ e)
           | Inr ct \<Rightarrow>
               (case decapsulate (ce_prims E) dk ct of
                  Inl e \<Rightarrow> Inl (''kyber decapsulate: '' @ e)
                | Inr ss \<Rightarrow> with_context ''ratchet init: '' (session_new (ce_prims E) sfp nid ofp False ss))))"

definition receiving_session ::
    "('ek, 'dk, 'vk, 'sg) client_env \<Rightarrow> 'dk \<Rightarrow> string \<Rightarrow> string \<Rightarrow> string \<Rightarrow> string option \<Rightarrow> string option
     \<Rightarrow> (string, RatchetState) result" where
  "receiving_session E dk sfp nid ofp kyber_ct session_json =
     (if nid = null_id (ce_prims E) ofp then
        (case session_json of
           Some j \<Rightarrow> with_context ''ratchet deserialize: '' (session_deserialize E j)
         | None \<Rightarrow> Inl (''no self session for '' @ nid @ '' (send to yourself first)''))
      else case kyber_ct of
        Some h \<Rightarrow> first_session E dk sfp nid ofp h
      | None \<Rightarrow>
          (case session_json of
             Some j \<Rightarrow> with_context ''ratchet deserialize: '' (session_deserialize E j)
           | None \<Rightarrow> Inl (''no ratchet session for sender '' @ nid @ '' (need first message with kyber_ciphertext)'')))"

definition relay_decrypt_message ::
    "('ek, 'dk, 'vk, 'sg) client_env \<Rightarrow> 'dk \<Rightarrow> store_io \<Rightarrow> store_io \<Rightarrow> string \<Rightarrow> string \<Rightarrow> string \<Rightarrow> string \<Rightarrow> MessageStore
     \<Rightarrow> (string, string) result \<times> MessageStore" where
  "relay_decrypt_message E dk lio sio blob snid sfp ofp S =
     (case ce_parse E blob of Inl e \<Rightarrow> (Inl (''parse signed_blob: '' @ e), S) | Inr env \<Rightarrow>
      case blob_sender (ce_prims E) env snid sfp of Inl e \<Rightarrow> (Inl e, S) | Inr (nid, _) \<Rightarrow>
      if nid = [] then (Inl ''relay message has no sender identification'', S)
      else case field_str env ''ciphertext'' of None \<Rightarrow> (Inl ''no ciphertext in relay message'', S) | Some ciphertext \<Rightarrow>
      let sq = unwrap_or 0 (Option.bind (json_get env ''seq'') as_u64); kyber_ct = field_str env ''kyber_ciphertext''
      in case load_session (ce_keys E) lio nid S of Inl e \<Rightarrow> (Inl e, S) | Inr session_json \<Rightarrow>
      case receiving_session E dk sfp nid ofp kyber_ct session_json of Inl e \<Rightarrow> (Inl e, S) | Inr session \<Rightarrow>
      case (if kyber_ct \<noteq> None then decrypt_first (ce_prims E) (ce_pick E) ciphertext session
            else decrypt_message (ce_prims E) (ce_pick E) ciphertext dk sq session) of
        (Inl e, _) \<Rightarrow> (Inl (''ratchet decrypt: '' @ crypto_error_text e), S)
      | (Inr padded, session1) \<Rightarrow>
          (case unpad_message_bucket (ce_hex E) (ce_lossy E) padded of Inl e \<Rightarrow> (Inl e, S) | Inr plaintext \<Rightarrow>
           case with_context ''ratchet re-serialize: '' (session_serialize E session1) of Inl e \<Rightarrow> (Inl e, S) | Inr j \<Rightarrow>
           case save_session (ce_keys E) sio nid j S of
             (Inl e, S1) \<Rightarrow> (Inl (''ratchet re-save: '' @ e), S1)
           | (Inr _, S1) \<Rightarrow> (Inr plaintext, S1)))"

subsection \<open>Sending through a relay\<close>

record 'ek send_io =
  connect_err :: "string option"
  own_kyber_err :: "string option"
  peer_kyber :: "(string, 'ek) result"
  kem_rnd :: bytes
  msg_rnd :: bytes
  msg_nonce :: bytes
  pad_fill :: "nat \<Rightarrow> bytes"
  load_io :: store_io
  save_io :: store_io
  now_ns :: int
  now_secs :: real
  sign_for_transport :: "string \<Rightarrow> (string, string) result"
  reloaded :: "(string, Identity) result"
  tag_secret :: "string option"
  tag_now :: u64
  ws_send_err :: "string option"
  ws_events :: "ws_event list"

definition sending_session ::
    "('ek, 'dk, 'vk, 'sg) client_env \<Rightarrow> 'ek \<Rightarrow> bytes \<Rightarrow> Identity \<Rightarrow> string \<Rightarrow> string \<Rightarrow> string option
     \<Rightarrow> (string, RatchetState \<times> string option) result" where
  "sending_session E ek rnd ident rnid rfp session_json =
     (if rnid = id_null_id ident then
        (case session_json of
           Some j \<Rightarrow> map_sum id (\<lambda>s. (s, None)) (with_context ''ratchet load self: '' (session_deserialize E j))
         | None \<Rightarrow>
             (case encapsulate (ce_prims E) ek rnd of
                Inl e \<Rightarrow> Inl (''kyber encapsulate: '' @ e)
              | Inr (_, ss) \<Rightarrow>
                  map_sum id (\<lambda>s. (s, None)) (with_context ''ratchet init self: ''
                    (session_new_self (ce_prims E) rfp rnid (id_fingerprint ident) ss))))
      else case session_json of
        Some j \<Rightarrow> map_sum id (\<lambda>s. (s, None)) (with_context ''ratchet load: '' (session_deserialize E j))
      | None \<Rightarrow>
          (case encapsulate (ce_prims E) ek rnd of
             Inl e \<Rightarrow> Inl (''kyber encapsulate: '' @ e)
           | Inr (ct, ss) \<Rightarrow>
               map_sum id (\<lambda>s. (s, Some (hex_encode ct))) (with_context ''ratchet init: ''
                 (session_new (ce_prims E) rfp rnid (id_fingerprint ident) True ss))))"

definition encrypt_for_relay ::
    "('ek, 'dk, 'vk, 'sg) client_env \<Rightarrow> 'ek \<Rightarrow> bytes \<Rightarrow> bytes \<Rightarrow> bool \<Rightarrow> string option \<Rightarrow> string \<Rightarrow> RatchetState
     \<Rightarrow> (string, bytes) result \<times> RatchetState" where
  "encrypt_for_relay E ek rnd nonce is_self kyber_ct padded session =
     (if is_self then apfst (with_context ''ratchet encrypt_first (self): '') (encrypt_first (ce_prims E) nonce padded session)
      else if kyber_ct \<noteq> None then apfst (with_context ''ratchet encrypt_first: '') (encrypt_first (ce_prims E) nonce padded session)
      else apfst (with_context ''ratchet encrypt: '') (encrypt_message (ce_prims E) rnd nonce padded ek session))"

definition relay_blob :: "string \<Rightarrow> string \<Rightarrow> string \<Rightarrow> string \<Rightarrow> string option \<Rightarrow> json" where
  "relay_blob nid fp ciphertext_b64 msg_hash kyber_ct =
     JObject ([(''type'', JString ''p2p-message''), (''seq'', JInt 1), (''sender_nid'', JString nid), (''sender_fp'', JString fp),
               (''ciphertext'', JString ciphertext_b64), (''msg_hash'', JString msg_hash)]
              @ (case kyber_ct of None \<Rightarrow> [] | Some k \<Rightarrow> [(''kyber_ciphertext'', JString k)]))"

fun await_relay_ok :: "('ek, 'dk, 'vk, 'sg) client_env \<Rightarrow> ws_event list \<Rightarrow> (string, unit) result option" where
  "await_relay_ok E [] = None"
| "await_relay_ok E (Frame (Text resp) # es) =
     Some (case ce_parse E resp of
             Inl e \<Rightarrow> Inl e
           | Inr v \<Rightarrow> if json_get v ''ok'' = Some (JBool True) then Inr () else Inl (''relay error: '' @ resp))"
| "await_relay_ok E (StreamError e # es) = Some (Inl (''relay websocket error: '' @ e))"
| "await_relay_ok E (StreamEnd # es) = Some (Inl ''no response from relay'')"
| "await_relay_ok E (_ # es) = await_relay_ok E es"

definition relay_store_request ::
    "('ek, 'dk, 'vk, 'sg) client_env \<Rightarrow> 'ek send_io \<Rightarrow> Identity \<Rightarrow> string \<Rightarrow> bytes \<Rightarrow> string option
     \<Rightarrow> (string, MailboxStoreRequest) result" where
  "relay_store_request E io ident rnid ciphertext kyber_ct =
     (let blob = relay_blob (id_null_id ident) (id_fingerprint ident) (b64_enc (ce_prims E) ciphertext)
                   (hex_encode (sha256 (kc (ce_keys E)) ciphertext)) kyber_ct;
          sig_data = join_with ''|'' [rnid, id_null_id ident, id_fingerprint ident, show_int 1,
                                      ce_fmt_f64 E (now_secs io), show_int (now_ns io)]
      in and_then (sign_for_transport io sig_data) (\<lambda>sg.
         and_then (reloaded io) (\<lambda>ident2.
         and_then (case ml_dsa87_signing_key ident2 of None \<Rightarrow> Inr [] | Some sk \<Rightarrow> verifying_key_of E sk) (\<lambda>vk.
           Inr \<lparr>sr_recipient_nid = rnid, sr_signed_blob = json_text (ce_keys E) blob, sr_sender_nid = id_null_id ident2,
                sr_sender_fp = id_fingerprint ident2, sr_seq = 1, sr_sender_sig = sg, sr_timestamp = now_secs io,
                sr_nonce = show_int (now_ns io), sr_sender_cert = [], sr_sender_verifying_key = vk, sr_sealed_sender = [],
                sr_recipient_tag = unwrap_or [] (relay_routing_tag (kc (ce_keys E)) (tag_secret io) (tag_now io) rnid)\<rparr>))))"

text \<open>The request and the session after encryption, or the error before anything is sent; \<open>None\<close> is the panic of the
  padding. The lifetime \<open>ttl\<close> of the command line goes into the request as a field that the relay does not read.\<close>

definition relay_message ::
    "('ek, 'dk, 'vk, 'sg) client_env \<Rightarrow> 'ek send_io \<Rightarrow> Identity \<Rightarrow> string \<Rightarrow> string \<Rightarrow> string \<Rightarrow> bool \<Rightarrow> MessageStore
     \<Rightarrow> (string, MailboxStoreRequest \<times> RatchetState) result option" where
  "relay_message E io ident rnid rfp message force_first S =
     (case and_then (case connect_err io of Some e \<Rightarrow> Inl (''Relay connect failed: '' @ e) | None \<Rightarrow> Inr ()) (\<lambda>_.
           and_then (case own_kyber_err io of Some e \<Rightarrow> Inl e | None \<Rightarrow> Inr ()) (\<lambda>_.
           and_then (peer_kyber io) (\<lambda>ek.
           and_then (if force_first then Inr None else load_session (ce_keys E) (load_io io) rnid S) (\<lambda>session_json.
           and_then (sending_session E ek (kem_rnd io) ident rnid rfp session_json) (\<lambda>(session, kyber_ct).
             Inr (ek, session, kyber_ct)))))) of
        Inl e \<Rightarrow> Some (Inl e)
      | Inr (ek, session, kyber_ct) \<Rightarrow>
          map_option (\<lambda>padded.
            case encrypt_for_relay E ek (msg_rnd io) (msg_nonce io) (rnid = id_null_id ident) kyber_ct padded session of
              (r, session1) \<Rightarrow>
                and_then r (\<lambda>ciphertext.
                and_then (relay_store_request E io ident rnid ciphertext kyber_ct) (\<lambda>req. Inr (req, session1))))
            (pad_message_bucket (pad_fill io) message))"

text \<open>The result, if the call returns; the request that was sent; and the store.\<close>

definition send_via_relay ::
    "('ek, 'dk, 'vk, 'sg) client_env \<Rightarrow> 'ek send_io \<Rightarrow> Identity \<Rightarrow> string \<Rightarrow> string \<Rightarrow> string \<Rightarrow> bool \<Rightarrow> MessageStore
     \<Rightarrow> (string, unit) result option \<times> MailboxStoreRequest option \<times> MessageStore" where
  "send_via_relay E io ident rnid rfp message force_first S =
     (case relay_message E io ident rnid rfp message force_first S of
        None \<Rightarrow> (None, None, S)
      | Some (Inl e) \<Rightarrow> (Some (Inl e), None, S)
      | Some (Inr (req, session)) \<Rightarrow>
          (case ws_send_err io of
             Some e \<Rightarrow> (Some (Inl (''relay-store send failed: '' @ e)), None, S)
           | None \<Rightarrow>
               (case await_relay_ok E (ws_events io) of
                  None \<Rightarrow> (None, Some req, S)
                | Some (Inl e) \<Rightarrow> (Some (Inl e), Some req, S)
                | Some (Inr _) \<Rightarrow>
                    (case with_context ''ratchet serialize: '' (session_serialize E session) of
                       Inl e \<Rightarrow> (Some (Inl e), Some req, S)
                     | Inr j \<Rightarrow>
                         (case save_session (ce_keys E) (save_io io) rnid j S of
                            (Inl e, S1) \<Rightarrow> (Some (Inl (''ratchet save: '' @ e)), Some req, S1)
                          | (Inr _, S1) \<Rightarrow> (Some (Inr ()), Some req, S1))))))"

subsection \<open>Reading from the relays\<close>

text \<open>The loop over the fetched entries (blob, sender, fingerprint): \<open>ios n\<close> are the surroundings of the \<open>n\<close>-th
  decryption.\<close>

fun read_entries ::
    "('ek, 'dk, 'vk, 'sg) client_env \<Rightarrow> 'dk \<Rightarrow> string \<Rightarrow> (string, string) hmap \<Rightarrow> (nat \<Rightarrow> store_io \<times> store_io) \<Rightarrow> nat
     \<Rightarrow> (string \<times> string \<times> string) list \<Rightarrow> string set \<Rightarrow> MessageStore \<Rightarrow> (string \<times> string) list \<times> MessageStore" where
  "read_entries E dk ofp contacts ios n [] seen S = ([], S)"
| "read_entries E dk ofp contacts ios n ((blob, snid, sfp) # rs) seen S =
     (case relay_decrypt_message E dk (fst (ios n)) (snd (ios n)) blob snid sfp ofp S of
        (Inl _, S1) \<Rightarrow> read_entries E dk ofp contacts ios (Suc n) rs seen S1
      | (Inr decrypted, S1) \<Rightarrow>
          (let msg_hash = hex_encode (sha256 (kc (ce_keys E)) (str_bytes decrypted))
           in if msg_hash \<in> seen then read_entries E dk ofp contacts ios (Suc n) rs seen S1
              else apfst (\<lambda>ms. (if hm_contains contacts snid then [(snid, decrypted)] else []) @ ms)
                     (read_entries E dk ofp contacts ios (Suc n) rs (insert msg_hash seen) S1)))"

fun store_delivered ::
    "('ek, 'dk, 'vk, 'sg) client_env \<Rightarrow> string \<Rightarrow> (nat \<Rightarrow> store_io) \<Rightarrow> nat \<Rightarrow> (string \<times> string) list \<Rightarrow> MessageStore \<Rightarrow> MessageStore" where
  "store_delivered E own sios n [] S = S"
| "store_delivered E own sios n ((snid, msg) # ms) S =
     store_delivered E own sios (Suc n) ms
       (snd (ms_store_message (ce_keys E) (sios n) snid own msg 2 (hex_encode (sha256 (kc (ce_keys E)) (str_bytes msg))) S))"

text \<open>The first half of \<open>read\<close>: the messages shown as new, whether the relays are asked to purge the mailbox, and
  the store.\<close>

definition read_received ::
    "('ek, 'dk, 'vk, 'sg) client_env \<Rightarrow> (string, 'dk) result \<Rightarrow> Identity \<Rightarrow> (string, string) hmap \<Rightarrow> bool
     \<Rightarrow> (nat \<Rightarrow> store_io \<times> store_io) \<Rightarrow> (nat \<Rightarrow> store_io) \<Rightarrow> (string \<times> string \<times> string) list \<Rightarrow> MessageStore
     \<Rightarrow> (string, (string \<times> string) list \<times> bool) result \<times> MessageStore" where
  "read_received E kyber ident contacts json_out ios sios results S =
     (if results = [] then (Inr ([], False), S)
      else case kyber of
        Inl e \<Rightarrow> (Inl e, S)
      | Inr dk \<Rightarrow>
          (case read_entries E dk (id_fingerprint ident) contacts ios 0 results {} S of
             (ms, S1) \<Rightarrow>
               (Inr (ms, ms \<noteq> []), if json_out then S1 else store_delivered E (id_null_id ident) sios 0 ms S1)))"

text \<open>The second half lists the last twenty rows of the local store. A text longer than 40 bytes is cut with a byte
  slice, which panics inside a character (\<open>None\<close>).\<close>

datatype checkmark = Mark_sent | Mark_relayed | Mark_delivered | Mark_read | Mark_unknown

definition status_mark :: "u8 \<Rightarrow> checkmark" where
  "status_mark s =
     (if s = 0 then Mark_sent else if s = 1 then Mark_relayed else if s = 2 then Mark_delivered
      else if s = 3 then Mark_read else Mark_unknown)"

definition is_char_boundary :: "nat \<Rightarrow> string \<Rightarrow> bool" where
  "is_char_boundary i t = (i = 0 \<or> i = length t \<or> i < length t \<and> (of_char (t ! i) :: nat) div 64 \<noteq> 2)"

definition preview :: "string \<Rightarrow> string option" where
  "preview t =
     (if length t > 40 then (if is_char_boundary 40 t then Some (take 40 t @ ''...'') else None) else Some t)"

datatype stored_line = JsonLine string string | TextLine nat checkmark string string string

definition stored_line_of :: "bool \<Rightarrow> string \<Rightarrow> nat \<Rightarrow> StoredMessage \<Rightarrow> string \<Rightarrow> stored_line" where
  "stored_line_of json_out own idx m shown =
     (if json_out then JsonLine (if sm_from_nid m = own then sm_to_nid m else sm_from_nid m) shown
      else TextLine (idx + 1) (status_mark (sm_status m)) (sm_from_nid m) (sm_to_nid m) shown)"

text \<open>The lines printed, and whether the loop reached its end.\<close>

fun stored_lines :: "bool \<Rightarrow> string \<Rightarrow> nat \<Rightarrow> StoredMessage list \<Rightarrow> stored_line list \<times> bool" where
  "stored_lines json_out own idx [] = ([], True)"
| "stored_lines json_out own idx (m # ms) =
     (case preview (sm_ciphertext m) of
        None \<Rightarrow> ([], False)
      | Some shown \<Rightarrow> apfst (\<lambda>ls. stored_line_of json_out own idx m shown # ls) (stored_lines json_out own (idx + 1) ms))"

text \<open>The whole command, with what it printed (the new messages, whether it asked for a purge, the stored lines), its
  result (\<open>None\<close> is a panic) and the store.\<close>

definition read_command ::
    "('ek, 'dk, 'vk, 'sg) client_env \<Rightarrow> (string, 'dk) result \<Rightarrow> Identity \<Rightarrow> (string, string) hmap \<Rightarrow> bool \<Rightarrow> bool
     \<Rightarrow> (nat \<Rightarrow> store_io \<times> store_io) \<Rightarrow> (nat \<Rightarrow> store_io) \<Rightarrow> store_io \<Rightarrow> (string \<times> string \<times> string) list \<Rightarrow> MessageStore
     \<Rightarrow> ((string \<times> string) list \<times> bool \<times> stored_line list) \<times> (string, unit) result option \<times> MessageStore" where
  "read_command E kyber ident contacts json_out no_stored ios sios gio results S =
     (case read_received E kyber ident contacts json_out ios sios results S of
        (Inl e, S1) \<Rightarrow> (([], False, []), Some (Inl e), S1)
      | (Inr (ms, purge), S1) \<Rightarrow>
          (case get_messages (ce_keys E) gio 20 S1 of
             Inl e \<Rightarrow> ((ms, purge, []), Some (Inl e), S1)
           | Inr stored \<Rightarrow>
               if no_stored \<or> stored = [] then ((ms, purge, []), Some (Inr ()), S1)
               else (case stored_lines json_out (id_null_id ident) 0 stored of
                       (ls, finished) \<Rightarrow> ((ms, purge, ls), if finished then Some (Inr ()) else None, S1))))"

section \<open>Lemmas\<close>

subsection \<open>What the client relies on\<close>

text \<open>The laws of the ratchet and of the store, and that a blob and a session survive their JSON text.\<close>

definition client_ok :: "('ek, 'dk, 'vk, 'sg) client_env \<Rightarrow> 'ek \<Rightarrow> 'dk \<Rightarrow> bool" where
  "client_ok E ek dk \<longleftrightarrow> prims_ok (ce_prims E) ek dk \<and> key_env_ok (ce_hex E) \<and> keys_ok (ce_keys E)
     \<and> (\<forall>nid fp c h k. ce_parse E (json_text (ce_keys E) (relay_blob nid fp c h k)) = Inr (relay_blob nid fp c h k))
     \<and> (\<forall>st. \<exists>j. sess_text E st = Inr j \<and> sess_parse E j = Inr st)"

lemma client_okD:
  assumes "client_ok E ek dk"
  shows "prims_ok (ce_prims E) ek dk" "key_env_ok (ce_hex E)" "keys_ok (ce_keys E)"
    "ce_parse E (json_text (ce_keys E) (relay_blob nid fp c h k)) = Inr (relay_blob nid fp c h k)"
    "\<exists>j. sess_text E st = Inr j \<and> sess_parse E j = Inr st"
  using assms unfolding client_ok_def by blast+

definition has_session :: "('ek, 'dk, 'vk, 'sg) client_env \<Rightarrow> string \<Rightarrow> RatchetState \<Rightarrow> MessageStore \<Rightarrow> bool" where
  "has_session E nid R S \<longleftrightarrow> sessions_unique S \<and> (\<exists>j. sess_parse E j = Inr R \<and>
     (\<forall>io. io_ok io \<longrightarrow> load_session (ce_keys E) io nid S = Inr (Some j)))"

lemma with_context_simps [simp]:
  "with_context p (Inl e) = Inl (p @ crypto_error_text e)" "with_context p (Inr x) = Inr x"
  by (simp_all add: with_context_def)

lemma with_context_Inr: "with_context p r = Inr x \<longleftrightarrow> r = Inr x"
  by (cases r) simp_all

lemma blob_fields [simp]:
  "field_str (relay_blob nid fp c h k) ''sender_nid'' = Some nid" "field_str (relay_blob nid fp c h k) ''sender_fp'' = Some fp"
  "field_str (relay_blob nid fp c h k) ''ciphertext'' = Some c" "field_str (relay_blob nid fp c h k) ''kyber_ciphertext'' = k"
  "Option.bind (json_get (relay_blob nid fp c h k) ''seq'') as_u64 = Some 1"
  by (simp_all add: relay_blob_def field_str_def json_get_def u64_range_def split: option.split)

text \<open>A decrypted message is returned and the advanced session is stored.\<close>

lemma save_has_session:
  assumes "client_ok E ek dk" "sessions_unique S" "io_ok sio"
  obtains j S1 where "session_serialize E R = Inr j" "save_session (ce_keys E) sio nid j S = (Inr (), S1)" "has_session E nid R S1"
proof -
  obtain j where j: "sess_text E R = Inr j" "sess_parse E j = Inr R" using client_okD(5)[OF assms(1)] by blast
  have inj: "inj_on (bidx (ce_keys E)) {nid}" by simp
  note l = load_save_session[OF client_okD(3)[OF assms(1)] inj assms(3) _ assms(2)]
  have ok: "fst (save_session (ce_keys E) sio nid j S) = Inr ()" "sessions_unique (snd (save_session (ce_keys E) sio nid j S))"
    using l(1)[OF assms(3)] by blast+
  have "has_session E nid R (snd (save_session (ce_keys E) sio nid j S))"
    unfolding has_session_def using j(2) ok(2) l(3)[of _ nid nid j] by auto
  then show thesis using that[of j] j(1) ok(1) by (metis map_sum.simps(2) id_apply prod.collapse session_serialize_def)
qed

lemma relay_decrypt_accepts:
  assumes C: "client_ok E ek dk" and "sessions_unique S" "io_ok sio" "nid \<noteq> []" "fp \<noteq> []"
    and "load_session (ce_keys E) lio nid S = Inr sj" "receiving_session E dk sfp nid ofp kct sj = Inr R"
    and "(if kct \<noteq> None then decrypt_first (ce_prims E) (ce_pick E) c R else decrypt_message (ce_prims E) (ce_pick E) c dk 1 R) = (Inr p, R1)"
    and "unpad_message_bucket (ce_hex E) (ce_lossy E) p = Inr text"
  shows "\<exists>S1. relay_decrypt_message E dk lio sio (json_text (ce_keys E) (relay_blob nid fp c h kct)) snid sfp ofp S = (Inr text, S1)
    \<and> has_session E nid R1 S1"
proof -
  obtain j S1 where j: "session_serialize E R1 = Inr j" "save_session (ce_keys E) sio nid j S = (Inr (), S1)" "has_session E nid R1 S1"
    using save_has_session[OF C assms(2,3)] by blast
  have "blob_sender (ce_prims E) (relay_blob nid fp c h kct) snid sfp = Inr (nid, fp)"
    using assms(4,5) by (simp add: blob_sender_def)
  then show ?thesis
    using assms(4,6-9) j by (simp add: relay_decrypt_message_def client_okD(4)[OF C] del: not_None_eq)
qed

subsection \<open>First and later messages\<close>

lemma first_message_received:
  assumes C: "client_ok E ek dk" and "sessions_unique S" "io_ok sio" "nid \<noteq> []" "fp \<noteq> []" "nid \<noteq> null_id (ce_prims E) ofp"
    and "load_session (ce_keys E) lio nid S = Inr sj"
    and enc: "encapsulate (ce_prims E) ek rnd = Inr (ct, ss)" "session_new (ce_prims E) a b d True ss = Inr A"
      "encrypt_first (ce_prims E) nonce p A = (Inr c, A')" "length nonce = NONCE_SIZE"
    and "unpad_message_bucket (ce_hex E) (ce_lossy E) p = Inr text"
  shows "\<exists>S1 R. relay_decrypt_message E dk lio sio
      (json_text (ce_keys E) (relay_blob nid fp (b64_enc (ce_prims E) c) h (Some (hex_encode ct)))) snid sfp ofp S = (Inr text, S1)
    \<and> has_session E nid R S1 \<and> in_sync 1 A' R"
proof -
  note P = client_okD(1)[OF C]
  obtain B where B: "session_new (ce_prims E) sfp nid ofp False ss = Inr B"
    using enc(2) by (fastforce simp: session_new_def new_with_mode_def Let_def split: if_splits)
  obtain R where R: "decrypt_first (ce_prims E) (ce_pick E) (b64_enc (ce_prims E) c) B = (Inr p, R)" "in_sync 1 A' R"
    using first_roundtrip[OF P new_in_sync(1)[OF enc(2) B] enc(4,3)] by blast
  have "first_session E dk sfp nid ofp (hex_encode ct) = Inr B"
    using prims_okD(3,4)[OF P enc(1)] key_env_okD(3)[OF client_okD(2)[OF C]] B by (simp add: first_session_def)
  then have "receiving_session E dk sfp nid ofp (Some (hex_encode ct)) sj = Inr B"
    using assms(6) by (simp add: receiving_session_def)
  from relay_decrypt_accepts[OF C assms(2-5,7) this _ assms(12), of _ R] R show ?thesis by fastforce
qed

lemma later_session:
  assumes "has_session E nid R S" "io_ok lio"
  obtains sj where "load_session (ce_keys E) lio nid S = Inr sj" "receiving_session E dk sfp nid ofp None sj = Inr R"
proof -
  obtain j where j: "sess_parse E j = Inr R" "load_session (ce_keys E) lio nid S = Inr (Some j)"
    using assms unfolding has_session_def by blast
  then show thesis by (intro that[OF j(2)]) (simp add: receiving_session_def session_deserialize_def)
qed

lemma later_message_received:
  assumes C: "client_ok E ek dk" and S: "has_session E nid R S" "io_ok lio" "io_ok sio" and n: "nid \<noteq> []" "fp \<noteq> []"
    and "in_sync 1 A R" "encrypt_message (ce_prims E) rnd nonce p ek A = (Inr c, A')" "length nonce = NONCE_SIZE"
    and "unpad_message_bucket (ce_hex E) (ce_lossy E) p = Inr text"
  shows "\<exists>S1 R1 kct kss. relay_decrypt_message E dk lio sio
      (json_text (ce_keys E) (relay_blob nid fp (b64_enc (ce_prims E) c) h None)) snid sfp ofp S = (Inr text, S1)
    \<and> has_session E nid R1 S1 \<and> in_sync 2 A' R1 \<and> encapsulate (ce_prims E) ek rnd = Inr (kct, kss)
    \<and> (hm_len (skipped_keys R) < MAX_SKIPPED_KEYS \<longrightarrow>
         hm_get (skipped_keys R1) (show_nat 1) = Some (fst (derive_message_key (ce_prims E) (send_chain_key A @ kss))))"
proof -
  have two: "Suc 1 < 2 ^ 64" by simp
  obtain R1 kct kss where R1: "decrypt_message (ce_prims E) (ce_pick E) (b64_enc (ce_prims E) c) dk 1 R = (Inr p, R1)"
      "in_sync 2 A' R1" "encapsulate (ce_prims E) ek rnd = Inr (kct, kss)"
      "hm_len (skipped_keys R) < MAX_SKIPPED_KEYS \<longrightarrow>
         hm_get (skipped_keys R1) (show_nat 1) = Some (fst (derive_message_key (ce_prims E) (send_chain_key A @ kss)))"
    using message_roundtrip[OF client_okD(1)[OF C] assms(7) two assms(9,8), of "ce_pick E"] by (auto simp: numeral_2_eq_2)
  obtain sj where sj: "load_session (ce_keys E) lio nid S = Inr sj" "receiving_session E dk sfp nid ofp None sj = Inr R"
    using later_session[OF S(1,2)] by blast
  have u: "sessions_unique S" using S(1) by (simp add: has_session_def)
  from relay_decrypt_accepts[OF C u S(3) n sj _ assms(10), of "b64_enc (ce_prims E) c" R1] R1 show ?thesis by fastforce
qed

text \<open>A kept key is the only one tried for its number.\<close>

lemma kept_key_refuses:
  assumes P: "prims_ok P ek dk" and "hm_get (skipped_keys R) (show_nat (unat sq)) = Some k" "NONCE_SIZE + 16 + 2 \<le> length c"
    and "aes_decrypt P k (take NONCE_SIZE c) (drop NONCE_SIZE c) = Inl e"
  shows "decrypt_message P pk (b64_enc P c) dk sq R = (Inl (DecryptFailed (''AES-GCM (skipped): '' @ e)), R)"
  using assms(2-4) by (simp add: decrypt_message_def prims_okD(7)[OF P])

lemma later_message_refused:
  assumes C: "client_ok E ek dk" and S: "has_session E nid R S" "io_ok lio" and n: "nid \<noteq> []" "fp \<noteq> []"
    and "decrypt_message (ce_prims E) (ce_pick E) c dk 1 R = (Inl e, R')"
  shows "relay_decrypt_message E dk lio sio (json_text (ce_keys E) (relay_blob nid fp c h None)) snid sfp ofp S
    = (Inl (''ratchet decrypt: '' @ crypto_error_text e), S)"
proof -
  obtain sj where sj: "load_session (ce_keys E) lio nid S = Inr sj" "receiving_session E dk sfp nid ofp None sj = Inr R"
    using later_session[OF S] by blast
  have "blob_sender (ce_prims E) (relay_blob nid fp c h None) snid sfp = Inr (nid, fp)" using n by (simp add: blob_sender_def)
  then show ?thesis using n sj assms(6) by (simp add: relay_decrypt_message_def client_okD(4)[OF C])
qed

subsection \<open>What is sent\<close>

lemma and_then_Inr: "and_then r f = Inr y \<longleftrightarrow> (\<exists>x. r = Inr x \<and> f x = Inr y)"
  by (cases r) simp_all

lemma map_sum_Inr: "map_sum f g r = Inr y \<longleftrightarrow> (\<exists>x. r = Inr x \<and> y = g x)"
  by (cases r) auto

lemma relay_message_first:
  assumes "relay_message E io ident rnid rfp msg force S = Some (Inr (req, A'))" "rnid \<noteq> id_null_id ident"
    and "force \<or> load_session (ce_keys E) (load_io io) rnid S = Inr None" "peer_kyber io = Inr ek"
  shows "\<exists>ct ss A p c h. encapsulate (ce_prims E) ek (kem_rnd io) = Inr (ct, ss)
    \<and> session_new (ce_prims E) rfp rnid (id_fingerprint ident) True ss = Inr A \<and> pad_message_bucket (pad_fill io) msg = Some p
    \<and> encrypt_first (ce_prims E) (msg_nonce io) p A = (Inr c, A') \<and> sr_recipient_nid req = rnid
    \<and> sr_signed_blob req = json_text (ce_keys E) (relay_blob (id_null_id ident) (id_fingerprint ident) (b64_enc (ce_prims E) c) h (Some (hex_encode ct)))"
proof -
  have l: "(if force then Inr None else load_session (ce_keys E) (load_io io) rnid S) = Inr None" using assms(3) by auto
  obtain session kct where s: "sending_session E ek (kem_rnd io) ident rnid rfp None = Inr (session, kct)"
      and m: "map_option (\<lambda>p. case encrypt_for_relay E ek (msg_rnd io) (msg_nonce io) False kct p session of
            (r, A) \<Rightarrow> and_then r (\<lambda>c. and_then (relay_store_request E io ident rnid c kct) (\<lambda>req. Inr (req, A))))
          (pad_message_bucket (pad_fill io) msg) = Some (Inr (req, A'))"
    using assms(1,2,4) l unfolding relay_message_def
    by (cases "sending_session E ek (kem_rnd io) ident rnid rfp None") (auto split: option.splits)
  obtain p c where p: "pad_message_bucket (pad_fill io) msg = Some p"
      and c: "encrypt_for_relay E ek (msg_rnd io) (msg_nonce io) False kct p session = (Inr c, A')"
      and r: "relay_store_request E io ident rnid c kct = Inr req"
    using m by (auto simp: and_then_Inr case_prod_beta) (metis prod.collapse)
  obtain ct ss where e: "encapsulate (ce_prims E) ek (kem_rnd io) = Inr (ct, ss)" "kct = Some (hex_encode ct)"
      "session_new (ce_prims E) rfp rnid (id_fingerprint ident) True ss = Inr session"
    using s assms(2) by (auto simp: sending_session_def map_sum_Inr with_context_Inr split: sum.splits)
  have "encrypt_first (ce_prims E) (msg_nonce io) p session = (Inr c, A')"
    using c e(2) by (auto simp: encrypt_for_relay_def with_context_Inr apfst_def map_prod_def split: prod.splits)
  moreover have "sr_recipient_nid req = rnid"
    "sr_signed_blob req = json_text (ce_keys E) (relay_blob (id_null_id ident) (id_fingerprint ident) (b64_enc (ce_prims E) c)
       (hex_encode (sha256 (kc (ce_keys E)) c)) (Some (hex_encode ct)))"
    using r e(2) by (auto simp: relay_store_request_def and_then_Inr Let_def)
  ultimately show ?thesis using e p by blast
qed

lemma send_via_relay_ok:
  assumes "send_via_relay E io ident rnid rfp msg force S = (Some (Inr ()), Some req, S')"
  shows "\<exists>A. relay_message E io ident rnid rfp msg force S = Some (Inr (req, A))"
  using assms by (auto simp: send_via_relay_def split: option.splits sum.splits prod.splits)

lemma padded_text:
  assumes "key_env_ok X" "pad_message_bucket fill m = Some p" "\<forall>n. length (fill n) = n"
  shows "unpad_message_bucket X lossy p
    = (let k = bucket_size (length m + 1) - length m - 1 in Inr (lossy (str_bytes m @ take (k - k mod 256) (fill k))))"
  using assms unpad_padded[OF assms(1), of "fill (bucket_size (length m + 1) - length m - 1)" _ lossy m]
  by (auto simp: pad_message_bucket_def Let_def split: if_splits)

text \<open>A store request that the relay accepts reaches its storage.\<close>

lemma relay_store_reaches_storage:
  assumes "relay_store R None rnd tm (Inr req) st = (Inr rep, st')"
  shows "\<exists>st1. same_store st st1 \<and> store_message R None rnd (tm 3) (tm 4) req st1 = (Inr (), st')"
proof -
  obtain s1 s2 where v: "verify_store_signature R req st = (Inr (), s1)" "ensure_nonce (tm 1) (sr_sender_fp req) (sr_nonce req) s1 = (Inr (), s2)"
      "store_message R None rnd (tm 3) (tm 4) req s2 = (Inr (), st')"
    using assms by (auto simp: relay_store_def then_ok_Inr parsed_Inr pair_Inr simp del: store_then)
  have "same_store st s2"
    using same_store_trans[OF same_store_verify[of st R req] same_store_nonce[of "snd (verify_store_signature R req st)" "tm 1" "sr_sender_fp req" "sr_nonce req"]] v
    by simp
  with v(3) show ?thesis by blast
qed

subsection \<open>Reading\<close>

definition text_hash :: "('ek, 'dk, 'vk, 'sg) client_env \<Rightarrow> string \<Rightarrow> string" where
  "text_hash E t = hex_encode (sha256 (kc (ce_keys E)) (str_bytes t))"

definition shown_ok ::
    "('ek, 'dk, 'vk, 'sg) client_env \<Rightarrow> 'dk \<Rightarrow> string \<Rightarrow> (string, string) hmap \<Rightarrow> (string \<times> string \<times> string) list \<Rightarrow> string set
     \<Rightarrow> (string \<times> string) list \<Rightarrow> bool" where
  "shown_ok E dk ofp contacts rs seen ms \<longleftrightarrow>
     (\<forall>m \<in> set ms. hm_contains contacts (fst m) \<and> (\<exists>blob fp lio sio S0. (blob, fst m, fp) \<in> set rs
        \<and> fst (relay_decrypt_message E dk lio sio blob (fst m) fp ofp S0) = Inr (snd m)))
     \<and> distinct (map (text_hash E \<circ> snd) ms) \<and> (\<forall>m \<in> set ms. text_hash E (snd m) \<notin> seen)"

lemma shown_ok_mono: "shown_ok E dk ofp contacts rs seen ms \<Longrightarrow> seen' \<subseteq> seen \<Longrightarrow> shown_ok E dk ofp contacts (r # rs) seen' ms"
  unfolding shown_ok_def by (meson list.set_intros(2) subsetD)

lemma shown_ok_Cons:
  assumes "shown_ok E dk ofp contacts rs (insert (text_hash E t) seen) ms" "text_hash E t \<notin> seen" "hm_contains contacts snid"
    and "fst (relay_decrypt_message E dk lio sio blob snid fp ofp S0) = Inr t"
  shows "shown_ok E dk ofp contacts ((blob, snid, fp) # rs) seen ((snid, t) # ms)"
proof -
  have "shown_ok E dk ofp contacts ((blob, snid, fp) # rs) seen ms" using shown_ok_mono[OF assms(1)] by blast
  moreover have "text_hash E t \<notin> set (map (text_hash E \<circ> snd) ms)" using assms(1) unfolding shown_ok_def by auto
  moreover have "\<exists>b f lio sio S0. (b, snid, f) \<in> set ((blob, snid, fp) # rs) \<and> fst (relay_decrypt_message E dk lio sio b snid f ofp S0) = Inr t"
    using assms(4) by (meson list.set_intros(1))
  ultimately show ?thesis using assms(2,3) unfolding shown_ok_def by simp
qed

lemma read_entries_sound:
  assumes "read_entries E dk ofp contacts ios n rs seen S = (ms, S')"
  shows "shown_ok E dk ofp contacts rs seen ms"
  using assms
proof (induction rs arbitrary: n seen S ms)
  case Nil
  then show ?case by (simp add: shown_ok_def)
next
  case (Cons x rs)
  obtain blob snid sfp where x: "x = (blob, snid, sfp)" by (cases x) auto
  obtain r S1 where r: "relay_decrypt_message E dk (fst (ios n)) (snd (ios n)) blob snid sfp ofp S = (r, S1)" by fastforce
  show ?case
  proof (cases "\<exists>t. r = Inr t \<and> text_hash E t \<notin> seen")
    case False
    then have "read_entries E dk ofp contacts ios (Suc n) rs seen S1 = (ms, S')"
      using Cons.prems x r by (cases r) (auto simp: text_hash_def)
    from shown_ok_mono[OF Cons.IH[OF this] order_refl] show ?thesis .
  next
    case True
    then obtain t where t: "r = Inr t" "text_hash E t \<notin> seen" by blast
    obtain ms1 where m: "read_entries E dk ofp contacts ios (Suc n) rs (insert (text_hash E t) seen) S1 = (ms1, S')"
        "ms = (if hm_contains contacts snid then [(snid, t)] else []) @ ms1"
      using Cons.prems x r t unfolding text_hash_def by (cases "read_entries E dk ofp contacts ios (Suc n) rs
        (insert (hex_encode (sha256 (kc (ce_keys E)) (str_bytes t))) seen) S1") simp
    have "fst (relay_decrypt_message E dk (fst (ios n)) (snd (ios n)) blob snid sfp ofp S) = Inr t" using r t by simp
    from shown_ok_Cons[OF Cons.IH[OF m(1)] t(2) _ this] shown_ok_mono[OF Cons.IH[OF m(1)], of seen x] show ?thesis
      using m(2) x by auto
  qed
qed

subsection \<open>The stored messages that \<open>read\<close> lists\<close>

definition cut_text :: "string \<Rightarrow> string" where
  "cut_text t = (if length t > 40 then take 40 t @ ''...'' else t)"

definition stored_readably :: "('ek, 'dk, 'vk, 'sg) store_keys \<Rightarrow> StoredMessage \<Rightarrow> MessageStore \<Rightarrow> bool" where
  "stored_readably K m S = (\<exists>r \<in> set (map snd (messages S)). decrypt_row K r = Some m)"

lemma preview_cut: "preview t = Some s \<Longrightarrow> s = cut_text t"
  by (auto simp: preview_def cut_text_def split: if_splits)

lemma stored_lines_length: "length (fst (stored_lines json_out own idx ms)) \<le> length ms"
  by (induction ms arbitrary: idx) (auto split: option.splits)

lemma stored_lines_finished:
  "snd (stored_lines json_out own idx ms) \<Longrightarrow> fst (stored_lines json_out own idx ms)
     = map (\<lambda>(i, m). stored_line_of json_out own i m (cut_text (sm_ciphertext m))) (enumerate idx ms)"
  by (induction ms arbitrary: idx) (auto dest: preview_cut split: option.splits)

lemma stored_lines_covers:
  "snd (stored_lines json_out own idx ms) \<Longrightarrow> m \<in> set ms
   \<Longrightarrow> \<exists>i. stored_line_of json_out own i m (cut_text (sm_ciphertext m)) \<in> set (fst (stored_lines json_out own idx ms))"
  by (induction ms arbitrary: idx) (fastforce dest: preview_cut split: option.splits)+

lemma stored_lines_stuck: "m \<in> set ms \<Longrightarrow> preview (sm_ciphertext m) = None \<Longrightarrow> \<not> snd (stored_lines json_out own idx ms)"
  by (induction ms arbitrary: idx) (auto split: option.splits)

lemma map_filter_length: "length (List.map_filter f xs) \<le> length xs"
  by (induction xs) (auto simp: List.map_filter_simps split: option.splits)

lemma get_messages_limit: "get_messages K io 20 S = Inr stored \<Longrightarrow> length stored \<le> 20"
  using map_filter_length[of "decrypt_row K" "take 20 (by_id_desc row_id (map snd (messages S)))"]
  by (auto simp: get_messages_def sql_limit_def split: option.splits)

lemma get_messages_all:
  assumes "length (messages S) \<le> 20" "stored_readably K m S" "get_messages K io 20 S = Inr stored"
  shows "m \<in> set stored"
proof -
  have "sql_limit 20 (by_id_desc row_id (map snd (messages S))) = by_id_desc row_id (map snd (messages S))"
    using assms(1) by (simp add: sql_limit_def by_id_desc_def)
  then show ?thesis using assms(2,3)
    by (auto simp: get_messages_def stored_readably_def List.map_filter_def split: option.splits) force
qed

lemma store_message_readable:
  assumes "keys_ok K" "io_ok io" "bidx K mid \<notin> fst ` set (messages S)"
  shows "\<exists>m. stored_readably K m (snd (ms_store_message K io from to ct status mid S))
     \<and> sm_from_nid m = from \<and> sm_to_nid m = to \<and> sm_ciphertext m = ct \<and> sm_status m = status
     \<and> length (messages (snd (ms_store_message K io from to ct status mid S))) = Suc (length (messages S))"
proof -
  obtain row i where "store_message_row K io from to ct status mid = Inr row" "next_rowid io = Some i" "decrypt_row K (row i) =
    Some \<lparr>sm_id = i, sm_from_nid = from, sm_to_nid = to, sm_ciphertext = ct, sm_timestamp = clock io, sm_delivered = (2 \<le> status),
          sm_status = status, sm_status_updated_at = clock io, sm_read_receipt_at = None, sm_message_id = mid\<rparr>"
    using row_decrypts[OF assms(1,2)] io_okD(2)[OF assms(2)] by blast
  then show ?thesis using assms(3) io_okD(1)[OF assms(2)]
    by (auto simp: ms_store_message_def stored_readably_def)
qed

lemma save_session_messages: "messages (snd (save_session K io peer j S)) = messages S"
  by (simp add: save_session_def split: sum.splits option.splits)

lemma relay_decrypt_messages: "messages (snd (relay_decrypt_message E dk lio sio blob snid sfp ofp S)) = messages S"
  using save_session_messages[of "ce_keys E" sio _ _ S]
  by (auto simp: relay_decrypt_message_def Let_def split: sum.splits option.splits prod.splits) (metis snd_conv)+

lemma MessageStore_new_messages: "messages MessageStore_new = []"
  by (simp add: MessageStore_new_def)

lemma read_received_new:
  assumes "read_received E (Inr dk) ident contacts json_out ios sios results S = (r, S')"
  shows "\<exists>ms. r = Inr (ms, ms \<noteq> []) \<and> shown_ok E dk (id_fingerprint ident) contacts results {} ms"
proof (cases "results = []")
  case False
  obtain ms S1 where e: "read_entries E dk (id_fingerprint ident) contacts ios 0 results {} S = (ms, S1)" by force
  from read_entries_sound[OF e] e False assms show ?thesis by (auto simp: read_received_def)
qed (use assms in \<open>auto simp: read_received_def shown_ok_def intro!: exI[of _ "[]"]\<close>)

subsection \<open>A small instance\<close>

instance RatchetState_ext :: (countable) countable
proof
  let ?f = "\<lambda>r :: 'a RatchetState_ext. to_nat ((peer_fp r, peer_nid r, our_fp r, is_initiator r, self_mode r),
    (root_key r, send_chain_key r, recv_chain_key r, send_message_number r, recv_message_number r, skipped_keys r), RatchetState.more r)"
  have "inj ?f" by (rule injI) (simp add: RatchetState.equality)
  then show "\<exists>f :: 'a RatchetState_ext \<Rightarrow> nat. inj f" by blast
qed

definition toy_blob_parse :: "string \<Rightarrow> (string, json) result" where
  "toy_blob_parse t =
     (if t = ''ok'' then Inr (JObject [(''ok'', JBool True)])
      else Inr (JObject (map (\<lambda>(k, v). (k, if k = ''seq'' then JInt 1 else JString v)) (toy_unfields (length (tl t)) (tl t)))))"

definition toy_client :: "(unit, unit, nat, nat) client_env" where
  "toy_client =
     \<lparr>ce_keys = toy_keys\<lparr>kp := toy_prims\<lparr>encapsulate := \<lambda>ek r. Inr ([7], replicate 32 0), decapsulate := \<lambda>dk ct. Inr (replicate 32 0)\<rparr>,
                         json_text := toy_text\<rparr>,
      ce_parse = toy_blob_parse, sess_text = \<lambda>st. Inr (replicate (to_nat st) (CHR ''a'')), sess_parse = \<lambda>t. Inr (from_nat (length t)),
      ce_hex = toy_key_env, ce_lossy = bytes_str, ce_pick = \<lambda>m. map_option fst (case m of [] \<Rightarrow> None | x # _ \<Rightarrow> Some x),
      ce_fmt_f64 = \<lambda>_. ''0'', verifying_key_of = Inr\<rparr>"

lemma toy_blob_codec: "toy_blob_parse (toy_text (relay_blob nid fp c h k)) = Inr (relay_blob nid fp c h k)"
proof -
  let ?kvs = "[(''type'', ''p2p-message''), (''seq'', []), (''sender_nid'', nid), (''sender_fp'', fp), (''ciphertext'', c), (''msg_hash'', h)]
    @ (case k of None \<Rightarrow> [] | Some x \<Rightarrow> [(''kyber_ciphertext'', x)])"
  have t: "toy_text (relay_blob nid fp c h k) = CHR ''o'' # toy_fields ?kvs"
    by (simp add: relay_blob_def json_string_def split: option.split)
  have ne: "CHR ''o'' # toy_fields ?kvs \<noteq> ''ok''" by (simp add: toy_fields_def toy_str_def)
  show ?thesis
    unfolding t toy_blob_parse_def if_not_P[OF ne] list.sel toy_fields_inv[OF toy_fields_length]
    by (simp add: relay_blob_def split: option.split)
qed

lemma toy_client_prims: "ce_prims toy_client = toy_prims\<lparr>encapsulate := \<lambda>ek r. Inr ([7], replicate 32 0), decapsulate := \<lambda>dk ct. Inr (replicate 32 0)\<rparr>"
  by (simp add: ce_prims_def toy_client_def toy_keys_def)

lemma toy_client_ok: "client_ok toy_client () ()"
proof -
  have p: "prims_ok (ce_prims toy_client) () ()" unfolding toy_client_prims by (simp add: prims_ok_def toy_prims_def)
  moreover have "keys_ok (ce_keys toy_client)"
    using p unfolding keys_ok_def ce_prims_def by (auto simp: toy_client_def toy_prims_def toy_keys_def)
  ultimately show ?thesis
    unfolding client_ok_def by (simp add: toy_client_def toy_keys_def toy_blob_codec toy_key_env_ok)
qed

definition toy_alice :: Identity where
  "toy_alice = \<lparr>id_fingerprint = ''AA'', id_null_id = ''alice'', ml_dsa87_signing_key = Some ''k''\<rparr>"

definition toy_send :: "unit send_io" where
  "toy_send =
     \<lparr>connect_err = None, own_kyber_err = None, peer_kyber = Inr (), kem_rnd = [], msg_rnd = [], msg_nonce = replicate 12 0,
      pad_fill = \<lambda>n. replicate n 0, load_io = toy_io ''t'' 1, save_io = toy_io ''t'' 1, now_ns = 0, now_secs = 0,
      sign_for_transport = \<lambda>_. Inr ''s'', reloaded = Inr toy_alice, tag_secret = None, tag_now = 0, ws_send_err = None,
      ws_events = [Frame (Text ''ok'')]\<rparr>"

lemma toy_relay_message:
  "\<exists>req st. relay_message toy_client toy_send toy_alice ''bob'' ''BB'' ''hi'' True S = Some (Inr (req, st))
     \<and> sr_sender_sig req = ''s'' \<and> sr_sender_fp req = ''AA'' \<and> sr_sender_verifying_key req = ''k'' \<and> sr_sealed_sender req = []
     \<and> sr_timestamp req = 0 \<and> sr_recipient_tag req = []"
proof -
  obtain p where p: "pad_message_bucket (\<lambda>n. replicate n 0) ''hi'' = Some p" by (simp add: pad_message_bucket_def bucket_size_def Let_def)
  obtain A where A: "session_new (ce_prims toy_client) ''BB'' ''bob'' ''AA'' True (replicate 32 0) = Inr A"
    by (simp add: session_new_def new_with_mode_def Let_def)
  obtain c A' where c: "encrypt_first (ce_prims toy_client) (replicate 12 0) p A = (Inr c, A')"
    by (cases "derive_message_key (ce_prims toy_client) (send_chain_key A)") (simp add: encrypt_first_def toy_client_prims toy_prims_def Let_def)
  have e: "encapsulate (ce_prims toy_client) ek r = Inr ([7], replicate 32 0)" for ek r by (simp add: toy_client_prims)
  have v: "verifying_key_of toy_client = Inr" by (simp add: toy_client_def)
  show ?thesis
    by (simp add: relay_message_def toy_send_def sending_session_def toy_alice_def e A p encrypt_for_relay_def c relay_store_request_def
        v relay_routing_tag_def Let_def)
qed

lemma toy_sent:
  "\<exists>req S' st'. send_via_relay toy_client toy_send toy_alice ''bob'' ''BB'' ''hi'' True MessageStore_new = (Some (Inr ()), Some req, S')
     \<and> relay_store toy_relay None [] (\<lambda>_. 0) (Inr req) (toy_state None None) = (Inr OkEmpty, st')"
proof -
  obtain req st where r: "relay_message toy_client toy_send toy_alice ''bob'' ''BB'' ''hi'' True MessageStore_new = Some (Inr (req, st))"
      "sr_sender_sig req = ''s''" "sr_sender_fp req = ''AA''" "sr_sender_verifying_key req = ''k''" "sr_sealed_sender req = []"
      "sr_timestamp req = 0" "sr_recipient_tag req = []"
    using toy_relay_message by blast
  obtain j S' where j: "session_serialize toy_client st = Inr j" "save_session (ce_keys toy_client) (toy_io ''t'' 1) ''bob'' j MessageStore_new = (Inr (), S')"
    using save_has_session[OF toy_client_ok store_inv_new(3) toy_keys_ok(2)] by blast
  have "send_via_relay toy_client toy_send toy_alice ''bob'' ''BB'' ''hi'' True MessageStore_new = (Some (Inr ()), Some req, S')"
    using r(1) j by (simp add: send_via_relay_def toy_send_def toy_client_def toy_blob_parse_def json_get_def)
  moreover have "\<exists>st'. relay_store toy_relay None [] (\<lambda>_. 0) (Inr req) (toy_state None None) = (Inr OkEmpty, st')"
    using r by (simp add: relay_store_def parsed_def verify_store_signature_def toy_checks toy_nonce verify_recipient_tag_def)
  ultimately show ?thesis by blast
qed

lemma toy_hi: "unpad_message_bucket (ce_hex toy_client) (ce_lossy toy_client) (hex_encode [0, 104, 105]) = Inr ''hi''"
  using unpad_padded[OF toy_key_env_ok, of "[]" 0 bytes_str "''hi''"] bytes_str_bytes[of "''hi''"]
  by (simp add: toy_client_def str_bytes_def del: bytes_str_bytes)

lemma toy_first:
  obtains M c M' where "encapsulate (ce_prims toy_client) () [] = Inr ([7], replicate 32 0)"
    "session_new (ce_prims toy_client) [] [] [] True (replicate 32 0) = Inr M"
    "encrypt_first (ce_prims toy_client) (replicate 12 0) (hex_encode [0, 104, 105]) M = (Inr c, M')"
proof -
  obtain M where "session_new (ce_prims toy_client) [] [] [] True (replicate 32 0) = Inr M"
    by (simp add: session_new_def new_with_mode_def Let_def)
  moreover obtain c M' where "encrypt_first (ce_prims toy_client) (replicate 12 0) (hex_encode [0, 104, 105]) M = (Inr c, M')"
    by (cases "derive_message_key (ce_prims toy_client) (send_chain_key M)") (simp add: encrypt_first_def toy_client_prims toy_prims_def Let_def)
  ultimately show thesis using that by (simp add: toy_client_prims)
qed

text \<open>A first message of anyone, read by \<open>BB\<close>.\<close>

lemma toy_first_read:
  assumes "sessions_unique S" "load_session (ce_keys toy_client) (toy_io ''t'' 1) nid S = Inr sj" "nid \<noteq> []" "nid \<noteq> null_id (ce_prims toy_client) ''BB''"
  shows "\<exists>b S1 R. relay_decrypt_message toy_client () (toy_io ''t'' 1) (toy_io ''t'' 1) b snid sfp ''BB'' S = (Inr ''hi'', S1) \<and> has_session toy_client nid R S1"
proof -
  obtain M c M' where m: "encapsulate (ce_prims toy_client) () [] = Inr ([7], replicate 32 0)"
    "session_new (ce_prims toy_client) [] [] [] True (replicate 32 0) = Inr M"
    "encrypt_first (ce_prims toy_client) (replicate 12 0) (hex_encode [0, 104, 105]) M = (Inr c, M')" by (rule toy_first)
  have n: "length (replicate 12 0 :: bytes) = NONCE_SIZE" "''AA'' \<noteq> []" by (simp_all add: NONCE_SIZE_def)
  show ?thesis
    using first_message_received[OF toy_client_ok assms(1) toy_keys_ok(2) assms(3) n(2) assms(4,2) m n(1) toy_hi] by blast
qed

lemma toy_new_store: "load_session (ce_keys toy_client) (toy_io ''t'' 1) nid MessageStore_new = Inr None"
  by (simp add: load_session_def toy_io_def MessageStore_new_def)

section \<open>Properties\<close>

text \<open>C7: End to end through a relay: when \<open>send_via_relay\<close> has sent a first message and the relay has accepted its
  request, a fetch for the recipient within the epochs and the lifetime the relay supports returns an entry that the
  recipient decrypts, whatever its store holds for the sender, to the text that was sent, followed by the padding
  bytes the 8-bit length does not count (none for a message within 256 bytes of its bucket).\<close>

theorem relay_end_to_end:
  assumes C: "client_ok B ek dk" and same: "ce_prims A = ce_prims B" "json_text (ce_keys A) = json_text (ce_keys B)"
    and send: "send_via_relay A io ident rnid rfp msg force S = (Some (Inr ()), Some req, S')" "peer_kyber io = Inr ek"
      "force \<or> load_session (ce_keys A) (load_io io) rnid S = Inr None" "rnid \<noteq> id_null_id ident"
      "id_null_id ident \<noteq> []" "id_fingerprint ident \<noteq> []" "length (msg_nonce io) = NONCE_SIZE" "\<forall>n. length (pad_fill io n) = n"
    and relay: "relay_store R None rnd tm (Inr req) st = (Inr rep, st')"
      "(\<exists>rows. db_pool st = Some rows) \<and> (shared_secret st = None \<or> routing_epoch (as_secs t) = routing_epoch (as_secs (tm 3))
            \<or> routing_epoch (as_secs t) = routing_epoch (as_secs (tm 3)) + 1)
         \<or> db_pool st = None \<and> (shared_secret st = None \<or> routing_epoch (as_secs t) = routing_epoch (as_secs (tm 3)))
            \<and> as_secs tf - (as_secs (tm 4) div 60) * 60 < 604800"
    and recv: "sessions_unique T" "io_ok sio" "load_session (ce_keys B) lio (id_null_id ident) T = Inr sj"
      "id_null_id ident \<noteq> null_id (ce_prims B) ofp"
  shows "\<exists>e \<in> set (fetch_messages R None t tf rnid st'). \<exists>T'.
    relay_decrypt_message B dk lio sio (signed_blob e) (sender_nid e) (sender_fp e) ofp T
    = (let k = bucket_size (length msg + 1) - length msg - 1
       in Inr (ce_lossy B (str_bytes msg @ take (k - k mod 256) (pad_fill io k))), T')"
proof -
  obtain M where "relay_message A io ident rnid rfp msg force S = Some (Inr (req, M))" using send_via_relay_ok[OF send(1)] by blast
  from relay_message_first[OF this send(4,3,2)] obtain ct ss A0 p c h where
    m: "encapsulate (ce_prims B) ek (kem_rnd io) = Inr (ct, ss)" "session_new (ce_prims B) rfp rnid (id_fingerprint ident) True ss = Inr A0"
      "encrypt_first (ce_prims B) (msg_nonce io) p A0 = (Inr c, M)"
    and p: "pad_message_bucket (pad_fill io) msg = Some p"
    and req: "sr_recipient_nid req = rnid" "sr_signed_blob req
      = json_text (ce_keys B) (relay_blob (id_null_id ident) (id_fingerprint ident) (b64_enc (ce_prims B) c) h (Some (hex_encode ct)))"
    unfolding same by blast
  obtain st1 where st1: "same_store st st1" "store_message R None rnd (tm 3) (tm 4) req st1 = (Inr (), st')"
    using relay_store_reaches_storage[OF relay(1)] by blast
  obtain e where e: "e \<in> set (fetch_messages R None t tf rnid st')" "signed_blob e = sr_signed_blob req"
    using stored_is_fetched[OF st1(2), of t tf] relay(2) st1(1) req(1) unfolding same_store_def by auto
  note u = padded_text[OF client_okD(2)[OF C] p send(8), of "ce_lossy B", unfolded Let_def]
  from first_message_received[OF C recv(1,2) send(5,6) recv(4,3) m send(7) u] e req(2) show ?thesis
    unfolding Let_def by (metis (no_types, lifting))
qed

theorem relay_end_to_end_witness:
  "\<exists>req S' st'. send_via_relay toy_client toy_send toy_alice ''bob'' ''BB'' ''hi'' True MessageStore_new = (Some (Inr ()), Some req, S')
    \<and> relay_store toy_relay None [] (\<lambda>_. 0) (Inr req) (toy_state None None) = (Inr OkEmpty, st')
    \<and> (\<exists>e \<in> set (fetch_messages toy_relay None 0 0 ''bob'' st').
         fst (relay_decrypt_message toy_client () (toy_io ''t'' 1) (toy_io ''t'' 1) (signed_blob e) (sender_nid e) (sender_fp e) ''BB'' MessageStore_new)
         = Inr ''hi'')"
proof -
  obtain req S' st' where r: "send_via_relay toy_client toy_send toy_alice ''bob'' ''BB'' ''hi'' True MessageStore_new = (Some (Inr ()), Some req, S')"
      "relay_store toy_relay None [] (\<lambda>_. 0) (Inr req) (toy_state None None) = (Inr OkEmpty, st')"
    using toy_sent by blast
  have "\<exists>e \<in> set (fetch_messages toy_relay None 0 0 ''bob'' st'). \<exists>T'.
    relay_decrypt_message toy_client () (toy_io ''t'' 1) (toy_io ''t'' 1) (signed_blob e) (sender_nid e) (sender_fp e) ''BB'' MessageStore_new
    = (let k = bucket_size (length ''hi'' + 1) - length ''hi'' - 1
       in Inr (ce_lossy toy_client (str_bytes ''hi'' @ take (k - k mod 256) (pad_fill toy_send k))), T')"
  proof (rule relay_end_to_end[OF toy_client_ok refl refl r(1) _ _ _ _ _ _ _ r(2) _ store_inv_new(3) toy_keys_ok(2) toy_new_store])
    show "id_null_id toy_alice \<noteq> null_id (ce_prims toy_client) ''BB''" by (simp add: toy_alice_def null_id_def Let_def)
  qed (simp_all add: toy_send_def toy_alice_def NONCE_SIZE_def as_secs_def)
  then show ?thesis using r by (force simp: bucket_size_def toy_client_def)
qed

text \<open>C8: A later message makes the next ones unreadable: every relayed message carries the sequence number 1, and the
  recipient keeps the key of the message it decrypted under that number. The second message of a sender is delivered;
  each one after it is tried with the second one's key only, and if that does not authenticate it, it is refused and
  the recipient's store stays as it is, so that the sender's chain is never followed again.\<close>

theorem relay_third_message_refused:
  assumes C: "client_ok E ek dk" and S: "has_session E nid R S" "io_ok lio" "io_ok sio" "nid \<noteq> []" "fp \<noteq> []"
    and A: "in_sync 1 A R" "hm_len (skipped_keys R) < MAX_SKIPPED_KEYS"
      "encrypt_message (ce_prims E) rnd nonce p ek A = (Inr c, A')" "length nonce = NONCE_SIZE"
      "unpad_message_bucket (ce_hex E) (ce_lossy E) p = Inr text"
  shows "\<exists>S1 kct kss. relay_decrypt_message E dk lio sio (json_text (ce_keys E) (relay_blob nid fp (b64_enc (ce_prims E) c) h None))
        snid sfp ofp S = (Inr text, S1) \<and> encapsulate (ce_prims E) ek rnd = Inr (kct, kss)
    \<and> (\<forall>c3 e h3 lio3 sio3. io_ok lio3 \<longrightarrow> NONCE_SIZE + 18 \<le> length c3 \<longrightarrow>
         aes_decrypt (ce_prims E) (fst (derive_message_key (ce_prims E) (send_chain_key A @ kss))) (take NONCE_SIZE c3) (drop NONCE_SIZE c3) = Inl e \<longrightarrow>
         relay_decrypt_message E dk lio3 sio3 (json_text (ce_keys E) (relay_blob nid fp (b64_enc (ce_prims E) c3) h3 None)) snid sfp ofp S1
         = (Inl (''ratchet decrypt: decryption failed: AES-GCM (skipped): '' @ e), S1))"
proof -
  obtain S1 R1 kct kss where r: "relay_decrypt_message E dk lio sio (json_text (ce_keys E) (relay_blob nid fp (b64_enc (ce_prims E) c) h None))
        snid sfp ofp S = (Inr text, S1)" "has_session E nid R1 S1" "encapsulate (ce_prims E) ek rnd = Inr (kct, kss)"
      and k: "hm_get (skipped_keys R1) (show_nat (unat (1 :: u64))) = Some (fst (derive_message_key (ce_prims E) (send_chain_key A @ kss)))"
    using later_message_received[OF C S A(1,3-5)] A(2) by fastforce
  note refuse = kept_key_refuses[OF client_okD(1)[OF C] k]
  show ?thesis
    by (intro exI conjI allI impI, rule r(1), rule r(3))
      (simp add: later_message_refused[OF C r(2) _ S(4,5) refuse])
qed

theorem relay_third_message_refused_witness:
  "\<exists>S S1 c2 A2 c3 A3.
     encrypt_message (ce_prims toy_client) [] (replicate 12 0) (hex_encode [0, 104, 105]) () (toy_session True) = (Inr c2, A2)
   \<and> encrypt_message (ce_prims toy_client) [] (replicate 12 0) (hex_encode [0, 104, 105]) () A2 = (Inr c3, A3)
   \<and> relay_decrypt_message toy_client () (toy_io ''t'' 1) (toy_io ''t'' 1) (json_text (ce_keys toy_client)
       (relay_blob ''alice'' ''AA'' (b64_enc (ce_prims toy_client) c2) [] None)) [] [] ''BB'' S = (Inr ''hi'', S1)
   \<and> relay_decrypt_message toy_client () (toy_io ''t'' 1) (toy_io ''t'' 1) (json_text (ce_keys toy_client)
       (relay_blob ''alice'' ''AA'' (b64_enc (ce_prims toy_client) c3) [] None)) [] [] ''BB'' S1
     = (Inl (''ratchet decrypt: decryption failed: AES-GCM (skipped): tag''), S1)"
proof -
  let ?P = "ce_prims toy_client" and ?p = "hex_encode [0, 104, 105]" and ?n = "replicate 12 0 :: bytes"
  let ?R = "(toy_session False)\<lparr>recv_message_number := 1\<rparr>"
  obtain S where S: "has_session toy_client ''alice'' ?R S"
    using save_has_session[OF toy_client_ok store_inv_new(3) toy_keys_ok(2)] by metis
  have sync: "in_sync 1 (toy_session True) ?R" "hm_len (skipped_keys ?R) < MAX_SKIPPED_KEYS"
    by (simp_all add: in_sync_def toy_session_def hm_contains_def MAX_SKIPPED_KEYS_def)
  have u: "be_bytes 2 (Suc 0) = [0, 1]" by (simp add: numeral_2_eq_2)
  have enc: "\<exists>t A'. encrypt_message ?P [] ?n ?p () A = (Inr (?n @ (str_bytes ?p @ replicate 16 t) @ [7] @ [0, 1]), A')" for A
    by (cases "derive_message_key ?P (send_chain_key A @ replicate 32 0)")
      (simp add: encrypt_message_def toy_client_prims toy_prims_def u16_be_def u Let_def)
  obtain t2 A2 t3 A3 where e: "encrypt_message ?P [] ?n ?p () (toy_session True) = (Inr (?n @ (str_bytes ?p @ replicate 16 t2) @ [7] @ [0, 1]), A2)"
      "encrypt_message ?P [] ?n ?p () A2 = (Inr (?n @ (str_bytes ?p @ replicate 16 t3) @ [7] @ [0, 1]), A3)"
    using enc by metis
  let ?c3 = "?n @ (str_bytes ?p @ replicate 16 t3) @ [7] @ [0, 1]"
  have tag: "aes_decrypt ?P k (take NONCE_SIZE ?c3) (drop NONCE_SIZE ?c3) = Inl ''tag''" for k
  proof -
    have "xs @ [7, 0, 1] \<noteq> replicate 16 x" for xs and x :: u8
      by (rule notI) (drule arg_cong[of _ _ set], simp, metis insertCI singletonD zero_neq_one)
    then show ?thesis by (simp add: toy_client_prims toy_prims_def NONCE_SIZE_def)
  qed
  note io = toy_keys_ok(2)[of "''t''" 1]
  have side: "''alice'' \<noteq> []" "''AA'' \<noteq> []" "length ?n = NONCE_SIZE" "NONCE_SIZE + 18 \<le> length ?c3" by (simp_all add: NONCE_SIZE_def)
  from relay_third_message_refused[OF toy_client_ok S io io side(1,2) sync e(1) side(3) toy_hi, of "[]" "[]" "[]" "''BB''"]
  obtain S1 where r: "relay_decrypt_message toy_client () (toy_io ''t'' 1) (toy_io ''t'' 1) (json_text (ce_keys toy_client)
       (relay_blob ''alice'' ''AA'' (b64_enc ?P (?n @ (str_bytes ?p @ replicate 16 t2) @ [7] @ [0, 1])) [] None)) [] [] ''BB'' S = (Inr ''hi'', S1)"
     "relay_decrypt_message toy_client () (toy_io ''t'' 1) (toy_io ''t'' 1) (json_text (ce_keys toy_client)
       (relay_blob ''alice'' ''AA'' (b64_enc ?P ?c3) [] None)) [] [] ''BB'' S1
     = (Inl (''ratchet decrypt: decryption failed: AES-GCM (skipped): '' @ ''tag''), S1)"
    using tag io side(4) by blast
  show ?thesis using e r by (intro exI conjI) (assumption | simp)+
qed

text \<open>Any first message takes over a session: whoever can encapsulate to the recipient's public key and names a
  null identifier inside the blob is believed, whatever sender the relay reports and whatever session is stored for
  that identifier; the stored session is replaced by one shared with the author of the message.\<close>

theorem first_message_takes_over:
  assumes C: "client_ok E ek dk" and S: "has_session E nid R S" "io_ok lio" "io_ok sio"
    and n: "nid \<noteq> []" "fp \<noteq> []" "nid \<noteq> null_id (ce_prims E) ofp"
    and enc: "encapsulate (ce_prims E) ek rnd = Inr (ct, ss)" "session_new (ce_prims E) a b d True ss = Inr M"
      "encrypt_first (ce_prims E) nonce p M = (Inr c, M')" "length nonce = NONCE_SIZE"
      "unpad_message_bucket (ce_hex E) (ce_lossy E) p = Inr text"
  shows "\<exists>S1 R1. relay_decrypt_message E dk lio sio
      (json_text (ce_keys E) (relay_blob nid fp (b64_enc (ce_prims E) c) h (Some (hex_encode ct)))) snid sfp ofp S = (Inr text, S1)
    \<and> has_session E nid R1 S1 \<and> in_sync 1 M' R1"
proof -
  obtain sj where "load_session (ce_keys E) lio nid S = Inr sj" using later_session[OF S(1,2)] by blast
  moreover have "sessions_unique S" using S(1) by (simp add: has_session_def)
  ultimately show ?thesis using first_message_received[OF C _ S(3) n _ enc] by blast
qed

theorem first_message_takes_over_witness:
  "\<exists>S b S1 R1. has_session toy_client ''alice'' (toy_session True) S
     \<and> relay_decrypt_message toy_client () (toy_io ''t'' 1) (toy_io ''t'' 1) b ''mallory'' ''MM'' ''BB'' S = (Inr ''hi'', S1)
     \<and> has_session toy_client ''alice'' R1 S1 \<and> unat (recv_message_number R1) = 1"
proof -
  obtain S where S: "has_session toy_client ''alice'' (toy_session True) S"
    using save_has_session[OF toy_client_ok store_inv_new(3) toy_keys_ok(2)] by metis
  obtain M c M' where m: "encapsulate (ce_prims toy_client) () [] = Inr ([7], replicate 32 0)"
    "session_new (ce_prims toy_client) [] [] [] True (replicate 32 0) = Inr M"
    "encrypt_first (ce_prims toy_client) (replicate 12 0) (hex_encode [0, 104, 105]) M = (Inr c, M')" by (rule toy_first)
  note io = toy_keys_ok(2)[of "''t''" 1]
  have n: "''alice'' \<noteq> []" "''AA'' \<noteq> []" "''alice'' \<noteq> null_id (ce_prims toy_client) ''BB''" "length (replicate 12 0 :: bytes) = NONCE_SIZE"
    by (simp_all add: NONCE_SIZE_def null_id_def Let_def)
  from first_message_takes_over[OF toy_client_ok S io io n(1-3) m n(4) toy_hi, of "[]" "''mallory''" "''MM''"]
  show ?thesis using S unfolding in_sync_def by blast
qed

text \<open>C34: What \<open>read\<close> prints. A message shown as newly received comes from an entry whose sender, as the relay reports
  it, is a contact and whose blob decrypted to it; no text is shown twice among these; and the mailboxes are purged
  exactly when there is one. After them, unless suppressed, come the at most twenty newest readable rows of the local
  store as it is then, the rows just received included, in order and without a look at the contacts, each text cut
  after 40 bytes; nothing else is printed as a message.\<close>

theorem read_shows_contacts_once:
  assumes "read_command E (Inr dk) ident contacts json_out no_stored ios sios gio results S = ((ms, purge, ls), res, S')"
  shows "(\<forall>m \<in> set ms. hm_contains contacts (fst m) \<and> (\<exists>blob fp lio sio S0. (blob, fst m, fp) \<in> set results
      \<and> fst (relay_decrypt_message E dk lio sio blob (fst m) fp (id_fingerprint ident) S0) = Inr (snd m)))
    \<and> distinct (map (text_hash E \<circ> snd) ms) \<and> purge = (ms \<noteq> [])
    \<and> length ls \<le> 20 \<and> (no_stored \<longrightarrow> ls = [])
    \<and> (\<not> no_stored \<and> res = Some (Inr ()) \<longrightarrow> (\<exists>stored. get_messages (ce_keys E) gio 20 S' = Inr stored
         \<and> ls = map (\<lambda>(i, m). stored_line_of json_out (id_null_id ident) i m (cut_text (sm_ciphertext m))) (enumerate 0 stored)))"
proof -
  obtain r S1 where r: "read_received E (Inr dk) ident contacts json_out ios sios results S = (r, S1)" by force
  note n = read_received_new[OF r]
  show ?thesis
  proof (cases r)
    case (Inl e)
    with n show ?thesis by simp
  next
    case (Inr mp)
    obtain ms1 p1 where mp: "r = Inr (ms1, p1)" using Inr by (cases mp) simp
    from assms r have parts: "ms = ms1" "purge = p1" "S' = S1"
      by (auto simp: read_command_def mp split: sum.splits prod.splits if_splits)
    have "length ls \<le> 20 \<and> (no_stored \<longrightarrow> ls = [])
      \<and> (\<not> no_stored \<and> res = Some (Inr ()) \<longrightarrow> (\<exists>stored. get_messages (ce_keys E) gio 20 S1 = Inr stored
         \<and> ls = map (\<lambda>(i, m). stored_line_of json_out (id_null_id ident) i m (cut_text (sm_ciphertext m))) (enumerate 0 stored)))"
    proof (cases "get_messages (ce_keys E) gio 20 S1")
      case (Inl e)
      then show ?thesis using assms r by (auto simp: read_command_def mp)
    next
      case (Inr stored)
      note f = stored_lines_finished[of json_out "id_null_id ident" 0 stored]
      have "length (fst (stored_lines json_out (id_null_id ident) 0 stored)) \<le> 20"
        using stored_lines_length get_messages_limit[OF Inr] by (rule order_trans)
      then show ?thesis using assms r Inr f
        by (auto simp: read_command_def mp split: prod.splits if_splits)
    qed
    with n mp parts show ?thesis unfolding shown_ok_def by blast
  qed
qed

theorem read_shows_contacts_once_witness:
  "\<exists>b S' ls. read_command toy_client (Inr ()) (toy_alice\<lparr>id_fingerprint := ''BB''\<rparr>) [(''alice'', ''AA'')] True False
      (\<lambda>_. (toy_io ''t'' 1, toy_io ''t'' 1)) (\<lambda>_. toy_io ''t'' 1) (toy_io ''t'' 1) [(b, ''alice'', ''AA'')] MessageStore_new
      = (([(''alice'', ''hi'')], True, ls), Some (Inr ()), S') \<and> length ls \<le> 20
    \<and> (\<exists>fp lio sio S0. fst (relay_decrypt_message toy_client () lio sio b ''alice'' fp ''BB'' S0) = Inr ''hi'')"
proof -
  have n: "''alice'' \<noteq> []" "''alice'' \<noteq> null_id (ce_prims toy_client) ''BB''" by (simp_all add: null_id_def Let_def)
  obtain b S1 where b: "relay_decrypt_message toy_client () (toy_io ''t'' 1) (toy_io ''t'' 1) b ''alice'' ''AA'' ''BB'' MessageStore_new = (Inr ''hi'', S1)"
    using toy_first_read[OF store_inv_new(3) toy_new_store n] by blast
  then have "messages S1 = []" using relay_decrypt_messages by (metis snd_conv MessageStore_new_messages)
  then have g: "get_messages (ce_keys toy_client) (toy_io ''t'' 1) 20 S1 = Inr []"
    by (simp add: get_messages_def toy_io_def by_id_desc_def sql_limit_def)
  then have r: "read_command toy_client (Inr ()) (toy_alice\<lparr>id_fingerprint := ''BB''\<rparr>) [(''alice'', ''AA'')] True False
      (\<lambda>_. (toy_io ''t'' 1, toy_io ''t'' 1)) (\<lambda>_. toy_io ''t'' 1) (toy_io ''t'' 1) [(b, ''alice'', ''AA'')] MessageStore_new
      = (([(''alice'', ''hi'')], True, []), Some (Inr ()), S1)"
    using b by (simp add: read_command_def read_received_def hm_contains_def Let_def)
  from read_shows_contacts_once[OF this] r show ?thesis by fastforce
qed

text \<open>A text just received is printed twice: without \<open>--json\<close> it is stored before the stored messages are listed.\<close>

theorem received_shown_again:
  assumes "read_entries E dk (id_fingerprint ident) contacts ios 0 results {} S = ([(snid, msg)], S1)"
    and "keys_ok (ce_keys E)" "io_ok (sios 0)" "bidx (ce_keys E) (text_hash E msg) \<notin> fst ` set (messages S1)" "length (messages S1) < 20"
    and "read_command E (Inr dk) ident contacts False False ios sios gio results S = ((ms, purge, ls), Some (Inr ()), S')"
  shows "ms = [(snid, msg)] \<and> (\<exists>i. TextLine i Mark_delivered snid (id_null_id ident) (cut_text msg) \<in> set ls)"
proof -
  let ?K = "ce_keys E"
  have "results \<noteq> []" using assms(1) by auto
  then obtain S2 where S2: "S2 = store_delivered E (id_null_id ident) sios 0 [(snid, msg)] S1"
    and rr: "read_received E (Inr dk) ident contacts False ios sios results S = (Inr ([(snid, msg)], True), S2)"
    using assms(1) by (simp add: read_received_def)
  obtain m where m: "stored_readably ?K m S2"
    "sm_from_nid m = snid" "sm_to_nid m = id_null_id ident" "sm_ciphertext m = msg" "sm_status m = 2"
    and len: "length (messages S2) \<le> 20"
    using store_message_readable[OF assms(2,3,4), of snid "id_null_id ident" msg 2] assms(5) by (auto simp: S2 text_hash_def)
  obtain stored where g: "get_messages ?K gio 20 S2 = Inr stored"
    using assms(6) by (auto simp: read_command_def rr split: sum.splits)
  with get_messages_all[OF len m(1)] have "m \<in> set stored" by blast
  moreover from assms(6) this have "ls = fst (stored_lines False (id_null_id ident) 0 stored)" "snd (stored_lines False (id_null_id ident) 0 stored)"
    "ms = [(snid, msg)]"
    by (auto simp: read_command_def rr g split: prod.splits if_splits)
  ultimately show ?thesis using stored_lines_covers[of False "id_null_id ident" 0 stored m] m(2-5)
    by (auto simp: stored_line_of_def status_mark_def)
qed

text \<open>Listing a stored text of more than 40 bytes whose 40th and 41st byte belong to one character aborts the command.\<close>

theorem read_listing_panics:
  assumes "read_received E kyber ident contacts json_out ios sios results S = (Inr (ms, purge), S1)"
    and "get_messages (ce_keys E) gio 20 S1 = Inr stored" "m \<in> set stored"
    and "40 < length (sm_ciphertext m)" "\<not> is_char_boundary 40 (sm_ciphertext m)"
  shows "fst (snd (read_command E kyber ident contacts json_out False ios sios gio results S)) = None"
proof -
  have "preview (sm_ciphertext m) = None" using assms(4,5) by (simp add: preview_def)
  from stored_lines_stuck[OF assms(3) this, of json_out "id_null_id ident" 0] assms(1-3) show ?thesis
    by (cases "stored_lines json_out (id_null_id ident) 0 stored") (auto simp: read_command_def)
qed

text \<open>A stranger hides a message: texts are counted before the sender is checked, so an entry of a stranger with the
  same text makes the message of a contact disappear.\<close>

theorem stranger_hides_message:
  assumes "relay_decrypt_message E dk (fst (ios 0)) (snd (ios 0)) b1 n1 f1 (id_fingerprint ident) S = (Inr t, S1)"
    and "relay_decrypt_message E dk (fst (ios 1)) (snd (ios 1)) b2 n2 f2 (id_fingerprint ident) S1 = (Inr t, S2)"
    and "\<not> hm_contains contacts n1"
  shows "read_received E (Inr dk) ident contacts json_out ios sios [(b1, n1, f1), (b2, n2, f2)] S = (Inr ([], False), S2)"
  using assms by (simp add: read_received_def Let_def)

theorem stranger_hides_message_witness:
  "\<exists>b1 b2 S2. read_received toy_client (Inr ()) (toy_alice\<lparr>id_fingerprint := ''BB''\<rparr>) [(''alice'', ''AA'')] True
      (\<lambda>_. (toy_io ''t'' 1, toy_io ''t'' 1)) (\<lambda>_. toy_io ''t'' 1) [(b1, ''mallory'', ''MM''), (b2, ''alice'', ''AA'')] MessageStore_new
    = (Inr ([], False), S2)"
proof -
  have n: "''alice'' \<noteq> []" "''alice'' \<noteq> null_id (ce_prims toy_client) ''BB''" by (simp_all add: null_id_def Let_def)
  note io = toy_keys_ok(2)[of "''t''" 1]
  obtain b1 S1 R where b1: "relay_decrypt_message toy_client () (toy_io ''t'' 1) (toy_io ''t'' 1) b1 ''mallory'' ''MM'' ''BB'' MessageStore_new = (Inr ''hi'', S1)"
      "has_session toy_client ''alice'' R S1"
    using toy_first_read[OF store_inv_new(3) toy_new_store n] by blast
  then obtain sj where "sessions_unique S1" "load_session (ce_keys toy_client) (toy_io ''t'' 1) ''alice'' S1 = Inr sj"
    using io unfolding has_session_def by blast
  then obtain b2 S2 where b2: "relay_decrypt_message toy_client () (toy_io ''t'' 1) (toy_io ''t'' 1) b2 ''alice'' ''AA'' ''BB'' S1 = (Inr ''hi'', S2)"
    using toy_first_read[OF _ _ n] by blast
  have "\<not> hm_contains [(''alice'', ''AA'')] ''mallory''" by (simp add: hm_contains_def)
  from stranger_hides_message[OF _ _ this, of toy_client "()" "\<lambda>_. (toy_io ''t'' 1, toy_io ''t'' 1)" b1 "''MM''" "toy_alice\<lparr>id_fingerprint := ''BB''\<rparr>"
      MessageStore_new "''hi''" S1 b2 "''alice''" "''AA''" S2] b1(1) b2
  show ?thesis by fastforce
qed

end
