(* ===== verification/WireCodec.thy ===== *)
theory WireCodec
  imports Transport "HOL-Library.Countable_Set"
begin

text \<open>
  What the programs rely on of the JSON text of an envelope: an envelope whose numbers are rational, as
  every double is, is written and read back with the same type, identifier, time, signature and payload
  fields. The order of the fields of an object may change. The last section gives a codec with this
  property.
\<close>

section \<open>Definitions\<close>

fun rat_json :: "json \<Rightarrow> bool" where
  "rat_json (JFloat r) = (r \<in> \<rat>)"
| "rat_json (JArray xs) = (\<forall>x \<in> set xs. rat_json x)"
| "rat_json (JObject kvs) = (\<forall>kv \<in> set kvs. rat_json (snd kv))"
| "rat_json _ = True"

definition rat_env :: "WireEnvelope \<Rightarrow> bool" where
  "rat_env env \<longleftrightarrow> ts env \<in> \<rat> \<and> rat_json (payload env)"

definition env_agrees :: "WireEnvelope \<Rightarrow> WireEnvelope \<Rightarrow> bool" where
  "env_agrees env env' \<longleftrightarrow>
     msg_type env' = msg_type env \<and> msg_id env' = msg_id env \<and> ts env' = ts env \<and> sig env' = sig env
     \<and> (\<forall>k. payload_str env' k = payload_str env k \<and> payload_i64 env' k = payload_i64 env k)"

definition wire_ok :: "codec \<Rightarrow> bool" where
  "wire_ok C \<longleftrightarrow>
     (\<forall>env. rat_env env \<longrightarrow> (\<exists>t env'. to_json C env = Inr t \<and> from_json C t = Inr env' \<and> env_agrees env env'))"

section \<open>Lemmas\<close>

lemma wire_okE:
  assumes "wire_ok C" "rat_env env"
  obtains t env' where "to_json C env = Inr t" "from_json C t = Inr env'" "env_agrees env env'"
  using assms unfolding wire_ok_def by blast

lemma env_agrees_refl [simp]: "env_agrees env env"
  by (simp add: env_agrees_def)

lemma env_agreesD:
  assumes "env_agrees env env'"
  shows "msg_type env' = msg_type env" "ts env' = ts env" "sig env' = sig env"
    "payload_str env' k = payload_str env k" "payload_i64 env' k = payload_i64 env k"
  using assms by (simp_all add: env_agrees_def)

lemma env_agrees_trans: "env_agrees a b \<Longrightarrow> env_agrees b c \<Longrightarrow> env_agrees a c"
  by (simp add: env_agrees_def)

section \<open>A codec\<close>

datatype jsonq = QNull | QBool bool | QInt int | QFloat rat | QString string | QArray "jsonq list"
  | QObject "(string \<times> jsonq) list"

instance jsonq :: countable
  by countable_datatype

fun of_q :: "jsonq \<Rightarrow> json" where
  "of_q QNull = JNull"
| "of_q (QBool b) = JBool b"
| "of_q (QInt i) = JInt i"
| "of_q (QFloat r) = JFloat (of_rat r)"
| "of_q (QString s) = JString s"
| "of_q (QArray xs) = JArray (map of_q xs)"
| "of_q (QObject kvs) = JObject (map (\<lambda>kv. (fst kv, of_q (snd kv))) kvs)"

lemma map_surj: "\<forall>x \<in> set xs. \<exists>q. f q = x \<Longrightarrow> \<exists>qs. map f qs = xs"
  by (induction xs) (auto intro: exI[of _ "_ # _"] exI[of _ "[]"])

lemma rat_json_of_q: "rat_json j \<Longrightarrow> \<exists>q. of_q q = j"
proof (induction j rule: rat_json.induct)
  case (1 r)
  then obtain q where "r = of_rat q" by (auto simp: Rats_def)
  then show ?case by (intro exI[of _ "QFloat q"]) simp
next
  case (2 xs)
  then have "\<exists>qs. map of_q qs = xs" by (intro map_surj) auto
  then show ?case by (metis of_q.simps(6))
next
  case (3 kvs)
  have "\<exists>qs. map (\<lambda>kv. (fst kv, of_q (snd kv))) qs = kvs"
  proof (rule map_surj, intro ballI)
    fix kv assume "kv \<in> set kvs"
    then obtain q where "of_q q = snd kv" using 3 by (metis rat_json.simps(3))
    then show "\<exists>p. (fst p, of_q (snd p)) = kv" by (intro exI[of _ "(fst kv, q)"]) simp
  qed
  then show ?case by (metis of_q.simps(7))
qed (metis of_q.simps)+

lemma countable_rat_env: "countable (Collect rat_env)"
proof -
  let ?f = "\<lambda>(a, p, i, t, s). \<lparr>msg_type = a, payload = of_q p, msg_id = i, ts = of_rat t, sig = s\<rparr>"
  have "env \<in> range ?f" if r: "rat_env env" for env
  proof -
    obtain q where "of_q q = payload env"
      using r rat_json_of_q[of "payload env"] by (auto simp: rat_env_def)
    moreover obtain t where "of_rat t = ts env" using r by (auto simp: rat_env_def Rats_def)
    ultimately have "?f (msg_type env, q, msg_id env, t, sig env) = env" by simp
    then show ?thesis by (intro image_eqI[of _ ?f "(msg_type env, q, msg_id env, t, sig env)"]) simp_all
  qed
  then have "Collect rat_env \<subseteq> range ?f" by blast
  then show ?thesis by (rule countable_subset) simp
qed

definition nat_codec :: codec where
  "nat_codec =
     \<lparr>to_json = \<lambda>env. Inr (replicate (to_nat_on (Collect rat_env) env) (CHR ''a'')),
      from_json = \<lambda>t. Inr (from_nat_into (Collect rat_env) (length t))\<rparr>"

lemma nat_codec_wire_ok: "wire_ok nat_codec"
  using countable_rat_env by (auto simp: wire_ok_def nat_codec_def from_nat_into_to_nat_on)

end
