(* ===== verification/BlobService.thy ===== *)
theory BlobService
  imports WireCodec
begin

text \<open>
  What a client of a blob store relies on, as an interface: a service answers envelopes and keeps a state;
  a put of a blob is acknowledged, a get of its key returns its value until it expires, gets change nothing,
  and a put leaves every other key as it was. A service may refuse puts; \<open>admits\<close> says which it takes.
\<close>

definition is_blob_get :: "WireEnvelope \<Rightarrow> string \<Rightarrow> bool" where
  "is_blob_get env key \<longleftrightarrow> msg_type env = ''blob-get'' \<and> payload_str env ''key'' = Some key \<and> key \<noteq> []"

definition is_blob_put :: "WireEnvelope \<Rightarrow> string \<Rightarrow> string \<Rightarrow> int \<Rightarrow> bool" where
  "is_blob_put env key v ttl \<longleftrightarrow>
     msg_type env = ''blob-put'' \<and> payload_str env ''key'' = Some key \<and> key \<noteq> []
     \<and> payload_str env ''value'' = Some v \<and> length v \<le> MAX_VALUE_SIZE \<and> payload_i64 env ''ttl'' = Some ttl"

definition is_put_of :: "WireEnvelope \<Rightarrow> string \<Rightarrow> bool" where
  "is_put_of env key \<longleftrightarrow> msg_type env = ''blob-put'' \<and> payload_str env ''key'' = Some key"

definition found_value :: "WireEnvelope \<Rightarrow> string \<Rightarrow> bool" where
  "found_value r v \<longleftrightarrow> msg_type r = ''dht-found'' \<and> payload_str r ''value'' = Some v \<and> rat_env r"

lemma is_blob_put_key: "is_blob_put env key v ttl \<Longrightarrow> is_put_of env key"
  by (simp add: is_blob_put_def is_put_of_def)

locale blob_service =
  fixes serve :: "'e \<Rightarrow> WireEnvelope \<Rightarrow> 'n \<Rightarrow> WireEnvelope \<times> 'n"
    and ready :: "'e \<Rightarrow> bool"
    and clock :: "'e \<Rightarrow> real"
    and admits :: "'e \<Rightarrow> WireEnvelope \<Rightarrow> 'n \<Rightarrow> bool"
  assumes put_found: "ready E \<Longrightarrow> is_blob_put env key v ttl \<Longrightarrow> admits E env n \<Longrightarrow> found_value (fst (serve E env n)) v"
    and get_put: "ready E \<Longrightarrow> is_blob_put env key v ttl \<Longrightarrow> admits E env n \<Longrightarrow> ready E' \<Longrightarrow> is_blob_get env' key
      \<Longrightarrow> clock E' < clock E + real_of_int ttl \<Longrightarrow> found_value (fst (serve E' env' (snd (serve E env n)))) v"
    and get_pure: "is_blob_get env key \<Longrightarrow> snd (serve E env n) = n"
    and put_other: "is_put_of env key \<Longrightarrow> is_blob_get env' key' \<Longrightarrow> key' \<noteq> key
      \<Longrightarrow> fst (serve E' env' (snd (serve E env n))) = fst (serve E' env' n)"
begin

text \<open>A state holds a blob until a time: every get before that time returns it.\<close>

definition holds :: "string \<Rightarrow> string \<Rightarrow> real \<Rightarrow> 'n \<Rightarrow> bool" where
  "holds key v until n \<longleftrightarrow>
     (\<forall>E env. ready E \<longrightarrow> clock E < until \<longrightarrow> is_blob_get env key \<longrightarrow> found_value (fst (serve E env n)) v)"

lemma holds_get:
  "holds key v until n \<Longrightarrow> ready E \<Longrightarrow> clock E < until \<Longrightarrow> is_blob_get env key \<Longrightarrow> found_value (fst (serve E env n)) v"
  by (auto simp: holds_def)

lemma holds_mono: "holds key v until n \<Longrightarrow> until' \<le> until \<Longrightarrow> holds key v until' n"
  by (auto simp: holds_def)

lemma holds_put:
  "ready E \<Longrightarrow> is_blob_put env key v ttl \<Longrightarrow> admits E env n \<Longrightarrow> holds key v (clock E + real_of_int ttl) (snd (serve E env n))"
  using get_put by (auto simp: holds_def)

lemma holds_put_other:
  "holds key v until n \<Longrightarrow> is_put_of env key' \<Longrightarrow> key' \<noteq> key \<Longrightarrow> holds key v until (snd (serve E env n))"
  using put_other[of env key'] by (auto simp: holds_def)

lemma holds_get_other:
  "holds key v until n \<Longrightarrow> is_blob_get env key' \<Longrightarrow> holds key v until (snd (serve E env n))"
  by (simp add: get_pure)

text \<open>A later put of the same key wins, whoever sends it.\<close>

lemma holds_overwrite:
  "ready E' \<Longrightarrow> is_blob_put env' key v' ttl' \<Longrightarrow> admits E' env' (snd (serve E env n))
   \<Longrightarrow> holds key v' (clock E' + real_of_int ttl') (snd (serve E' env' (snd (serve E env n))))"
  by (rule holds_put)

end

end
