(* ===== verification/ReplayGuard.thy ===== *)
theory ReplayGuard
  imports Prelude
begin

text \<open>
  The contract of a replay guard: an operation \<open>submit\<close> accepts or refuses a request; a request
  carries a token (\<open>tok\<close>), an accepted request was fresh, leaves its token recorded, and no request
  removes a recorded token. Under this contract no token is accepted twice in any history.
\<close>

locale replay_guard =
  fixes inv :: "'s \<Rightarrow> bool"
    and seen :: "'s \<Rightarrow> 't \<Rightarrow> bool"
    and tok :: "'r \<Rightarrow> 't"
    and submit :: "'r \<Rightarrow> 's \<Rightarrow> bool \<times> 's"
  assumes submit_inv: "inv s \<Longrightarrow> inv (snd (submit r s))"
    and submit_fresh: "inv s \<Longrightarrow> fst (submit r s) \<Longrightarrow> \<not> seen s (tok r)"
    and submit_records: "inv s \<Longrightarrow> fst (submit r s) \<Longrightarrow> seen (snd (submit r s)) (tok r)"
    and submit_keeps: "inv s \<Longrightarrow> seen s t \<Longrightarrow> seen (snd (submit r s)) t"
begin

fun accepted :: "'r list \<Rightarrow> 's \<Rightarrow> 't list" where
  "accepted [] s = []"
| "accepted (r # rs) s = (if fst (submit r s) then [tok r] else []) @ accepted rs (snd (submit r s))"

lemma accepted_unseen: "inv s \<Longrightarrow> seen s t \<Longrightarrow> t \<notin> set (accepted rs s)"
proof (induction rs arbitrary: s)
  case (Cons r rs)
  then show ?case
    using submit_fresh submit_keeps submit_inv by auto
qed simp

theorem accepted_distinct: "inv s \<Longrightarrow> distinct (accepted rs s)"
proof (induction rs arbitrary: s)
  case (Cons r rs)
  then show ?case
    using accepted_unseen submit_records submit_inv by auto
qed simp

end

end
