(* ===== verification/DhtStore.thy ===== *)
theory DhtStore
  imports Envelope ReplayGuard
begin

text \<open>
  The SQLite store of \<open>dht-core/src/sqlite_store.rs\<close>: the table \<open>kv_store\<close> keyed by the record key and
  the table \<open>nonce_log\<close> keyed by key and nonce. Every query may fail: \<open>faults\<close> gives the database
  error of each query site of a call, if any. A transaction that fails before its commit leaves
  both tables as they were.
\<close>

section \<open>Definitions\<close>

definition NONCE_RETENTION_SECS :: int where "NONCE_RETENTION_SECS = 7 * 24 * 3600"
definition NONCE_LOG_MAX_ENTRIES :: int where "NONCE_LOG_MAX_ENTRIES = 1000000"

datatype DhtError =
    Storage string
  | DhtSerialization string
  | Database string
  | DhtIo string
  | SignatureInvalid
  | PowInvalid
  | InvalidKey
  | InvalidFingerprint
  | ValueTooLarge
  | StaleSequence
  | NonceReplay
  | StaleTimestamp
  | RateLimited

record KvRecord =
  kv_value :: string
  kv_salt :: string
  kv_seq :: int
  kv_publisher_fp :: string
  stored_at :: real
  expires_at :: real
  kv_sig :: string

record DhtStore =
  kv_store :: "(string, KvRecord) hmap"
  nonce_log :: "(string \<times> int, int) hmap"

datatype query =
    Q_get | Q_nonce_seen | Q_seq | Q_begin | Q_insert_nonce | Q_insert_kv | Q_commit
  | Q_delete_expired | Q_count | Q_has_key | Q_count_nonces | Q_prune

type_synonym faults = "query \<Rightarrow> string option"

definition store_empty :: DhtStore where
  "store_empty = \<lparr>kv_store = [], nonce_log = []\<rparr>"

definition store_get :: "faults \<Rightarrow> real \<Rightarrow> string \<Rightarrow> DhtStore \<Rightarrow> (DhtError, KvRecord option) result" where
  "store_get F now key st =
     (case F Q_get of
        Some e \<Rightarrow> Inl (Database e)
      | None \<Rightarrow>
          Inr (case hm_get (kv_store st) key of
                 None \<Rightarrow> None
               | Some r \<Rightarrow> if expires_at r > now then Some r else None))"

definition is_nonce_seen :: "faults \<Rightarrow> string \<Rightarrow> int \<Rightarrow> DhtStore \<Rightarrow> (DhtError, bool) result" where
  "is_nonce_seen F key nonce st =
     (case F Q_nonce_seen of
        Some e \<Rightarrow> Inl (Database e)
      | None \<Rightarrow> Inr (hm_contains (nonce_log st) (key, nonce)))"

text \<open>\<open>INSERT OR IGNORE\<close> and \<open>INSERT OR REPLACE\<close>; \<open>recorded_at\<close> defaults to the time in seconds.\<close>

definition insert_nonce :: "real \<Rightarrow> string \<Rightarrow> int \<Rightarrow> DhtStore \<Rightarrow> DhtStore" where
  "insert_nonce now key nonce st =
     (if hm_contains (nonce_log st) (key, nonce) then st
      else st\<lparr>nonce_log := hm_insert (key, nonce) \<lfloor>now\<rfloor> (nonce_log st)\<rparr>)"

definition replace_kv :: "string \<Rightarrow> KvRecord \<Rightarrow> DhtStore \<Rightarrow> DhtStore" where
  "replace_kv key r st = st\<lparr>kv_store := hm_insert key r (kv_store st)\<rparr>"

text \<open>\<open>put\<close> first reads, outside any transaction, whether the request may be stored, then writes both
  rows in one transaction.\<close>

definition put_check :: "faults \<Rightarrow> string \<Rightarrow> string \<Rightarrow> int \<Rightarrow> int \<Rightarrow> DhtStore \<Rightarrow> (DhtError, bool) result" where
  "put_check F key v seq nonce st =
     (if length v > MAX_VALUE_SIZE then Inr False
      else case is_nonce_seen F key nonce st of
        Inl e \<Rightarrow> Inl e
      | Inr True \<Rightarrow> Inr False
      | Inr False \<Rightarrow>
          (case F Q_seq of
             Some e \<Rightarrow> Inl (Database e)
           | None \<Rightarrow>
               (case hm_get (kv_store st) key of
                  Some r \<Rightarrow> Inr (\<not> kv_seq r \<ge> seq)
                | None \<Rightarrow> Inr True)))"

definition put_write ::
    "faults \<Rightarrow> real \<Rightarrow> string \<Rightarrow> string \<Rightarrow> string \<Rightarrow> int \<Rightarrow> string \<Rightarrow> int \<Rightarrow> string \<Rightarrow> int \<Rightarrow> DhtStore
     \<Rightarrow> (DhtError, bool) result \<times> DhtStore" where
  "put_write F now key v salt seq fp ttl sg nonce st =
     (let r = \<lparr>kv_value = v, kv_salt = salt, kv_seq = seq, kv_publisher_fp = fp, stored_at = now,
               expires_at = now + real_of_int ttl, kv_sig = sg\<rparr>
      in case F Q_begin of Some e \<Rightarrow> (Inl (Database e), st) | None \<Rightarrow>
         case F Q_insert_nonce of Some e \<Rightarrow> (Inl (Database e), st) | None \<Rightarrow>
         case F Q_insert_kv of Some e \<Rightarrow> (Inl (Database e), st) | None \<Rightarrow>
         case F Q_commit of Some e \<Rightarrow> (Inl (Database e), st) | None \<Rightarrow>
           (Inr True, replace_kv key r (insert_nonce now key nonce st)))"

definition store_put ::
    "faults \<Rightarrow> real \<Rightarrow> string \<Rightarrow> string \<Rightarrow> string \<Rightarrow> int \<Rightarrow> string \<Rightarrow> int \<Rightarrow> string \<Rightarrow> int \<Rightarrow> DhtStore
     \<Rightarrow> (DhtError, bool) result \<times> DhtStore" where
  "store_put F now key v salt seq fp ttl sg nonce st =
     (case put_check F key v seq nonce st of
        Inl e \<Rightarrow> (Inl e, st)
      | Inr False \<Rightarrow> (Inr False, st)
      | Inr True \<Rightarrow> put_write F now key v salt seq fp ttl sg nonce st)"

definition put_blob ::
    "faults \<Rightarrow> real \<Rightarrow> string \<Rightarrow> string \<Rightarrow> string \<Rightarrow> string \<Rightarrow> int \<Rightarrow> string \<Rightarrow> DhtStore
     \<Rightarrow> (DhtError, bool) result \<times> DhtStore" where
  "put_blob F now key v salt fp ttl sg st =
     (if length v > MAX_VALUE_SIZE then (Inr False, st)
      else case F Q_insert_kv of
        Some e \<Rightarrow> (Inl (Database e), st)
      | None \<Rightarrow>
          (Inr True, replace_kv key
             \<lparr>kv_value = v, kv_salt = salt, kv_seq = \<lfloor>now\<rfloor>, kv_publisher_fp = fp, stored_at = now,
              expires_at = now + real_of_int ttl, kv_sig = sg\<rparr> st))"

definition delete_expired :: "faults \<Rightarrow> real \<Rightarrow> DhtStore \<Rightarrow> (DhtError, nat) result \<times> DhtStore" where
  "delete_expired F now st =
     (case F Q_delete_expired of
        Some e \<Rightarrow> (Inl (Database e), st)
      | None \<Rightarrow>
          (Inr (length (filter (\<lambda>(_, r). expires_at r \<le> now) (kv_store st))),
           st\<lparr>kv_store := filter (\<lambda>(_, r). \<not> expires_at r \<le> now) (kv_store st)\<rparr>))"

definition count_keys :: "faults \<Rightarrow> real \<Rightarrow> DhtStore \<Rightarrow> (DhtError, nat) result" where
  "count_keys F now st =
     (case F Q_count of
        Some e \<Rightarrow> Inl (Database e)
      | None \<Rightarrow> Inr (length (filter (\<lambda>(_, r). expires_at r > now) (kv_store st))))"

definition has_key :: "faults \<Rightarrow> string \<Rightarrow> DhtStore \<Rightarrow> (DhtError, bool) result" where
  "has_key F key st =
     (case F Q_has_key of Some e \<Rightarrow> Inl (Database e) | None \<Rightarrow> Inr (hm_contains (kv_store st) key))"

text \<open>The statement that trims the log uses the row identifier of a table declared without one; what
  the database makes of it is the argument \<open>trim\<close>.\<close>

definition record_nonce ::
    "faults \<Rightarrow> (nat \<Rightarrow> (string \<times> int, int) hmap \<Rightarrow> (string, (string \<times> int, int) hmap) result) \<Rightarrow> real
     \<Rightarrow> string \<Rightarrow> int \<Rightarrow> DhtStore \<Rightarrow> (DhtError, unit) result \<times> DhtStore" where
  "record_nonce F trim now key nonce st =
     (case F Q_insert_nonce of
        Some e \<Rightarrow> (Inl (Database e), st)
      | None \<Rightarrow>
          (let st1 = insert_nonce now key nonce st
           in case F Q_count_nonces of
                Some e \<Rightarrow> (Inl (Database e), st1)
              | None \<Rightarrow>
                  (let count = int (hm_len (nonce_log st1))
                   in if count > NONCE_LOG_MAX_ENTRIES then
                        (case trim (nat (count - NONCE_LOG_MAX_ENTRIES)) (nonce_log st1) of
                           Inl e \<Rightarrow> (Inl (Database e), st1)
                         | Inr trimmed \<Rightarrow> (Inr (), st1\<lparr>nonce_log := trimmed\<rparr>))
                      else (Inr (), st1))))"

definition prune_old_nonces :: "faults \<Rightarrow> int \<Rightarrow> DhtStore \<Rightarrow> (DhtError, nat) result \<times> DhtStore" where
  "prune_old_nonces F cutoff st =
     (case F Q_prune of
        Some e \<Rightarrow> (Inl (Database e), st)
      | None \<Rightarrow>
          (Inr (length (filter (\<lambda>(_, t). t < cutoff) (nonce_log st))),
           st\<lparr>nonce_log := filter (\<lambda>(_, t). \<not> t < cutoff) (nonce_log st)\<rparr>))"

section \<open>Lemmas\<close>

lemma store_put_True:
  assumes "store_put F now key v salt seq fp ttl sg nonce st = (Inr True, st')"
  shows "put_check F key v seq nonce st = Inr True"
    and "st' = replace_kv key
           \<lparr>kv_value = v, kv_salt = salt, kv_seq = seq, kv_publisher_fp = fp, stored_at = now,
            expires_at = now + real_of_int ttl, kv_sig = sg\<rparr> (insert_nonce now key nonce st)"
  using assms
  by (auto simp: store_put_def put_write_def Let_def split: sum.splits bool.splits option.splits)

lemma store_put_not_True:
  "fst (store_put F now key v salt seq fp ttl sg nonce st) \<noteq> Inr True
   \<Longrightarrow> snd (store_put F now key v salt seq fp ttl sg nonce st) = st"
  by (auto simp: store_put_def put_write_def Let_def split: sum.splits bool.splits option.splits)

lemma put_check_True:
  assumes "put_check F key v seq nonce st = Inr True"
  shows "length v \<le> MAX_VALUE_SIZE" "\<not> hm_contains (nonce_log st) (key, nonce)"
    "hm_get (kv_store st) key = Some r \<Longrightarrow> kv_seq r < seq"
  using assms
  by (auto simp: put_check_def is_nonce_seen_def split: if_splits sum.splits bool.splits option.splits)

lemma insert_nonce_kv [simp]: "kv_store (insert_nonce now key nonce st) = kv_store st"
  by (simp add: insert_nonce_def)

lemma replace_kv_simps [simp]:
  "nonce_log (replace_kv key r st) = nonce_log st"
  "kv_store (replace_kv key r st) = hm_insert key r (kv_store st)"
  by (simp_all add: replace_kv_def)

lemma insert_nonce_contains [simp]:
  "hm_contains (nonce_log (insert_nonce now key nonce st)) kn
   \<longleftrightarrow> kn = (key, nonce) \<or> hm_contains (nonce_log st) kn"
  by (auto simp: insert_nonce_def hm_contains_def)

text \<open>A request of the store and its outcome, for histories.\<close>

record put_request =
  pr_faults :: faults
  pr_now :: real
  pr_key :: string
  pr_value :: string
  pr_salt :: string
  pr_seq :: int
  pr_fp :: string
  pr_ttl :: int
  pr_sig :: string
  pr_nonce :: int

definition run_put :: "put_request \<Rightarrow> DhtStore \<Rightarrow> (DhtError, bool) result \<times> DhtStore" where
  "run_put r st =
     store_put (pr_faults r) (pr_now r) (pr_key r) (pr_value r) (pr_salt r) (pr_seq r) (pr_fp r) (pr_ttl r)
       (pr_sig r) (pr_nonce r) st"

definition submit_put :: "put_request \<Rightarrow> DhtStore \<Rightarrow> bool \<times> DhtStore" where
  "submit_put r st = (fst (run_put r st) = Inr True, snd (run_put r st))"

definition request_token :: "put_request \<Rightarrow> string \<times> int" where
  "request_token r = (pr_key r, pr_nonce r)"

lemma submit_put_accepts:
  assumes "fst (submit_put r st)"
  shows "put_check (pr_faults r) (pr_key r) (pr_value r) (pr_seq r) (pr_nonce r) st = Inr True"
    and "hm_contains (nonce_log (snd (submit_put r st))) kn
       \<longleftrightarrow> kn = request_token r \<or> hm_contains (nonce_log st) kn"
    and "\<exists>rec. hm_get (kv_store (snd (submit_put r st))) (pr_key r) = Some rec \<and> kv_seq rec = pr_seq r"
    and "k \<noteq> pr_key r \<Longrightarrow> hm_get (kv_store (snd (submit_put r st))) k = hm_get (kv_store st) k"
proof -
  have eq: "run_put r st = (Inr True, snd (submit_put r st))"
    using assms by (simp add: submit_put_def prod_eq_iff)
  note ok = store_put_True[OF eq[unfolded run_put_def]]
  show "put_check (pr_faults r) (pr_key r) (pr_value r) (pr_seq r) (pr_nonce r) st = Inr True" by (rule ok(1))
  show "hm_contains (nonce_log (snd (submit_put r st))) kn
       \<longleftrightarrow> kn = request_token r \<or> hm_contains (nonce_log st) kn"
    by (subst ok(2)) (simp add: request_token_def)
  show "\<exists>rec. hm_get (kv_store (snd (submit_put r st))) (pr_key r) = Some rec \<and> kv_seq rec = pr_seq r"
    by (subst ok(2)) simp
  show "k \<noteq> pr_key r \<Longrightarrow> hm_get (kv_store (snd (submit_put r st))) k = hm_get (kv_store st) k"
    by (subst ok(2)) simp
qed

lemma submit_put_refuses: "\<not> fst (submit_put r st) \<Longrightarrow> snd (submit_put r st) = st"
  by (simp add: submit_put_def run_put_def store_put_not_True)

lemma submit_put_keeps:
  "hm_contains (nonce_log st) kn \<Longrightarrow> hm_contains (nonce_log (snd (submit_put r st))) kn"
  by (cases "fst (submit_put r st)") (simp_all add: submit_put_refuses submit_put_accepts(2))

interpretation put_replay: replay_guard "\<lambda>_. True" "\<lambda>st kn. hm_contains (nonce_log st) kn" request_token submit_put
proof unfold_locales
  show "\<not> hm_contains (nonce_log s) (request_token r)" if "fst (submit_put r s)" for r s
    using put_check_True(2)[OF submit_put_accepts(1)[OF that]] by (simp add: request_token_def)
  show "hm_contains (nonce_log (snd (submit_put r s))) (request_token r)" if "fst (submit_put r s)" for r s
    using submit_put_accepts(2)[OF that] by simp
  show "hm_contains (nonce_log (snd (submit_put r s))) t" if "hm_contains (nonce_log s) t" for r s t
    using submit_put_keeps[OF that] .
qed simp

text \<open>The sequence numbers a history of puts stores under a key.\<close>

fun stored_seqs :: "put_request list \<Rightarrow> string \<Rightarrow> DhtStore \<Rightarrow> int list" where
  "stored_seqs [] k st = []"
| "stored_seqs (r # rs) k st =
     (if fst (submit_put r st) \<and> pr_key r = k then [pr_seq r] else []) @ stored_seqs rs k (snd (submit_put r st))"

lemma stored_seqs_above:
  "hm_get (kv_store st) k = Some rec \<Longrightarrow> s \<in> set (stored_seqs rs k st) \<Longrightarrow> kv_seq rec < s"
proof (induction rs arbitrary: st rec)
  case (Cons r rs)
  show ?case
  proof (cases "fst (submit_put r st) \<and> pr_key r = k")
    case True
    then have lt: "kv_seq rec < pr_seq r"
      using put_check_True(3)[OF submit_put_accepts(1)] Cons.prems(1) by blast
    obtain rec' where rec': "hm_get (kv_store (snd (submit_put r st))) k = Some rec'" "kv_seq rec' = pr_seq r"
      using submit_put_accepts(3)[of r st] True by blast
    from True Cons.prems(2) consider "s = pr_seq r" | "s \<in> set (stored_seqs rs k (snd (submit_put r st)))" by auto
    then show ?thesis using lt Cons.IH[OF rec'(1)] rec'(2) by cases force+
  next
    case False
    then have "hm_get (kv_store (snd (submit_put r st))) k = Some rec"
      using submit_put_accepts(4)[of r st k] submit_put_refuses[of r st] Cons.prems(1) by (cases "fst (submit_put r st)") auto
    with Cons.IH Cons.prems(2) False show ?thesis by auto
  qed
qed simp

lemma stored_seqs_sorted: "sorted_wrt (<) (stored_seqs rs k st)"
proof (induction rs arbitrary: st)
  case (Cons r rs)
  show ?case
  proof (cases "fst (submit_put r st) \<and> pr_key r = k")
    case True
    obtain rec' where rec': "hm_get (kv_store (snd (submit_put r st))) k = Some rec'" "kv_seq rec' = pr_seq r"
      using submit_put_accepts(3)[of r st] True by blast
    with True Cons.IH stored_seqs_above[OF rec'(1)] show ?thesis by auto
  next
    case False
    then show ?thesis using Cons.IH by auto
  qed
qed simp

text \<open>Histories of every operation that writes to the store. \<open>nonce_prune_round\<close> is a round of the
  task the node starts (\<open>dht_node.rs\<close>): it prunes with the cutoff of the retention.\<close>

datatype store_op =
    OpPut put_request
  | OpPutBlob faults real string string string string int string
  | OpDeleteExpired faults real
  | OpPruneNonces faults int
  | OpRecordNonce faults "nat \<Rightarrow> (string \<times> int, int) hmap \<Rightarrow> (string, (string \<times> int, int) hmap) result" real string int

fun apply_op :: "store_op \<Rightarrow> DhtStore \<Rightarrow> DhtStore" where
  "apply_op (OpPut r) st = snd (submit_put r st)"
| "apply_op (OpPutBlob F now key v salt fp ttl sg) st = snd (put_blob F now key v salt fp ttl sg st)"
| "apply_op (OpDeleteExpired F now) st = snd (delete_expired F now st)"
| "apply_op (OpPruneNonces F cutoff) st = snd (prune_old_nonces F cutoff st)"
| "apply_op (OpRecordNonce F trim now key nonce) st = snd (record_nonce F trim now key nonce st)"

fun run_ops :: "store_op list \<Rightarrow> DhtStore \<Rightarrow> DhtStore" where
  "run_ops [] st = st"
| "run_ops (op # ops) st = run_ops ops (apply_op op st)"

fun all_steps :: "(store_op \<Rightarrow> DhtStore \<Rightarrow> bool) \<Rightarrow> store_op list \<Rightarrow> DhtStore \<Rightarrow> bool" where
  "all_steps P [] st = True"
| "all_steps P (op # ops) st = (P op st \<and> all_steps P ops (apply_op op st))"

definition nonce_prune_round :: "faults \<Rightarrow> int \<Rightarrow> store_op" where
  "nonce_prune_round F now = OpPruneNonces F (now - NONCE_RETENTION_SECS)"

text \<open>The steps that can undo the protection: pruning past the second \<open>t\<close>, or recording a nonce into a
  full log (whatever the trimming statement then does); and for the sequence number, an expired row
  deleted or a row replaced by a blob that is older than its sequence number.\<close>

definition forgets_nonce :: "int \<Rightarrow> store_op \<Rightarrow> DhtStore \<Rightarrow> bool" where
  "forgets_nonce t op st =
     (case op of
        OpPruneNonces F cutoff \<Rightarrow> F Q_prune = None \<and> t < cutoff
      | OpRecordNonce F trim now key nonce \<Rightarrow> NONCE_LOG_MAX_ENTRIES \<le> int (hm_len (nonce_log st))
      | _ \<Rightarrow> False)"

definition resets_seq :: "string \<Rightarrow> store_op \<Rightarrow> DhtStore \<Rightarrow> bool" where
  "resets_seq k op st =
     (case hm_get (kv_store st) k of
        None \<Rightarrow> False
      | Some rec \<Rightarrow>
          (case op of
             OpDeleteExpired F now \<Rightarrow> F Q_delete_expired = None \<and> expires_at rec \<le> now
           | OpPutBlob F now key v salt fp ttl sg \<Rightarrow> key = k \<and> \<lfloor>now\<rfloor> < kv_seq rec
           | _ \<Rightarrow> False))"

definition seq_at_least :: "string \<Rightarrow> int \<Rightarrow> DhtStore \<Rightarrow> bool" where
  "seq_at_least k s st = (case hm_get (kv_store st) k of None \<Rightarrow> False | Some rec \<Rightarrow> s \<le> kv_seq rec)"

lemma hm_get_filter_keep: "hm_get m k = Some v \<Longrightarrow> P (k, v) \<Longrightarrow> hm_get (filter P m) k = Some v"
  by (induction m) (auto split: if_splits)

lemma insert_nonce_keeps: "hm_get (nonce_log st) kn = Some t \<Longrightarrow> hm_get (nonce_log (insert_nonce now key nonce st)) kn = Some t"
  by (auto simp: insert_nonce_def hm_contains_def)

lemma insert_nonce_len: "hm_len (nonce_log (insert_nonce now key nonce st)) \<le> Suc (hm_len (nonce_log st))"
  by (simp add: insert_nonce_def hm_len_insert_le le_SucI)

lemma submit_put_result:
  assumes "fst (submit_put r st)"
  shows "snd (submit_put r st) = replace_kv (pr_key r)
     \<lparr>kv_value = pr_value r, kv_salt = pr_salt r, kv_seq = pr_seq r, kv_publisher_fp = pr_fp r, stored_at = pr_now r,
      expires_at = pr_now r + real_of_int (pr_ttl r), kv_sig = pr_sig r\<rparr> (insert_nonce (pr_now r) (pr_key r) (pr_nonce r) st)"
proof -
  have "run_put r st = (Inr True, snd (submit_put r st))" using assms by (simp add: submit_put_def prod_eq_iff)
  from store_put_True(2)[OF this[unfolded run_put_def]] show ?thesis .
qed

lemma submit_put_nonce:
  "fst (submit_put r st) \<Longrightarrow> hm_get (nonce_log (snd (submit_put r st))) (request_token r) = Some \<lfloor>pr_now r\<rfloor>"
  using put_check_True(2)[OF submit_put_accepts(1)]
  by (simp add: submit_put_result insert_nonce_def request_token_def)

lemma submit_put_seq: "fst (submit_put r st) \<Longrightarrow> seq_at_least (pr_key r) (pr_seq r) (snd (submit_put r st))"
  by (simp add: submit_put_result seq_at_least_def)

lemma submit_put_keeps_nonce:
  "hm_get (nonce_log st) kn = Some t \<Longrightarrow> hm_get (nonce_log (snd (submit_put r st))) kn = Some t"
  by (cases "fst (submit_put r st)") (simp_all add: submit_put_refuses submit_put_result insert_nonce_keeps)

lemma submit_put_keeps_seq:
  assumes "seq_at_least k s st" shows "seq_at_least k s (snd (submit_put r st))"
proof (cases "fst (submit_put r st)")
  case True
  from put_check_True(3)[OF submit_put_accepts(1)[OF True]] assms show ?thesis
    by (fastforce simp: submit_put_result[OF True] seq_at_least_def split: option.splits)
qed (simp add: submit_put_refuses assms)

text \<open>One operation, then a history.\<close>

lemma apply_op_nonce:
  assumes "hm_get (nonce_log st) kn = Some t" "\<not> forgets_nonce t op st"
  shows "hm_get (nonce_log (apply_op op st)) kn = Some t"
proof (cases op)
  case (OpRecordNonce F trim now key nonce)
  then have "\<not> NONCE_LOG_MAX_ENTRIES < int (hm_len (nonce_log (insert_nonce now key nonce st)))"
    using assms(2) insert_nonce_len[of now key nonce st] by (simp add: forgets_nonce_def)
  then show ?thesis using OpRecordNonce assms(1)
    by (simp add: record_nonce_def Let_def insert_nonce_keeps split: option.splits)
next
  case (OpPutBlob F now key v salt fp ttl sg)
  then show ?thesis using assms(1) by (simp add: put_blob_def split: option.splits)
next
  case (OpPruneNonces F cutoff)
  then show ?thesis using assms
    by (cases kn) (auto simp: prune_old_nonces_def forgets_nonce_def intro!: hm_get_filter_keep split: option.splits)
qed (use assms in \<open>simp_all add: submit_put_keeps_nonce delete_expired_def split: option.splits\<close>)

lemma apply_op_seq:
  assumes "seq_at_least k s st" "\<not> resets_seq k op st"
  shows "seq_at_least k s (apply_op op st)"
proof -
  obtain rec where rec: "hm_get (kv_store st) k = Some rec" "s \<le> kv_seq rec"
    using assms(1) by (auto simp: seq_at_least_def split: option.splits)
  show ?thesis
  proof (cases op)
    case (OpDeleteExpired F now)
    then show ?thesis using assms(2) rec
      by (auto simp: delete_expired_def seq_at_least_def resets_seq_def hm_get_filter_keep split: option.splits)
  next
    case (OpPutBlob F now key v salt fp ttl sg)
    then show ?thesis using assms rec
      by (auto simp: put_blob_def seq_at_least_def resets_seq_def split: option.splits)
  next
    case (OpRecordNonce F trim now key nonce)
    then show ?thesis using assms(1)
      by (simp add: record_nonce_def Let_def seq_at_least_def split: option.splits sum.splits)
  next
    case (OpPut r)
    then show ?thesis using submit_put_keeps_seq[OF assms(1)] by simp
  next
    case (OpPruneNonces F cutoff)
    then show ?thesis using assms(1) by (simp add: prune_old_nonces_def seq_at_least_def split: option.splits)
  qed
qed

lemma run_ops_nonce:
  "hm_get (nonce_log st) kn = Some t \<Longrightarrow> all_steps (\<lambda>op s. \<not> forgets_nonce t op s) ops st
   \<Longrightarrow> hm_get (nonce_log (run_ops ops st)) kn = Some t"
  by (induction ops arbitrary: st) (simp_all add: apply_op_nonce)

lemma run_ops_seq:
  "seq_at_least k s st \<Longrightarrow> all_steps (\<lambda>op s. \<not> resets_seq k op s) ops st \<Longrightarrow> seq_at_least k s (run_ops ops st)"
  by (induction ops arbitrary: st) (simp_all add: apply_op_seq)

section \<open>Properties\<close>

text \<open>A put that reports success is visible: until its time to live ends, a get of the key returns
  exactly the stored record; every other key is untouched.\<close>

theorem store_put_get:
  assumes "store_put F now key v salt seq fp ttl sg nonce st = (Inr True, st')" "G Q_get = None"
  shows "(t < now + real_of_int ttl \<longrightarrow>
            store_get G t key st' = Inr (Some
              \<lparr>kv_value = v, kv_salt = salt, kv_seq = seq, kv_publisher_fp = fp, stored_at = now,
               expires_at = now + real_of_int ttl, kv_sig = sg\<rparr>))
       \<and> (now + real_of_int ttl \<le> t \<longrightarrow> store_get G t key st' = Inr None)
       \<and> (key' \<noteq> key \<longrightarrow> store_get G t key' st' = store_get G t key' st)"
  using store_put_True[OF assms(1)] assms(2) by (simp add: store_get_def)

theorem store_put_get_witness:
  "store_get (\<lambda>_. None) 50 ''k'' (snd (store_put (\<lambda>_. None) 10 ''k'' ''v'' ''s'' 1 ''fp'' 100 ''sig'' 7 store_empty))
   = Inr (Some \<lparr>kv_value = ''v'', kv_salt = ''s'', kv_seq = 1, kv_publisher_fp = ''fp'', stored_at = 10,
                expires_at = 10 + real_of_int 100, kv_sig = ''sig''\<rparr>)"
proof -
  have ok: "store_put (\<lambda>_. None) 10 ''k'' ''v'' ''s'' 1 ''fp'' 100 ''sig'' 7 store_empty
    = (Inr True, snd (store_put (\<lambda>_. None) 10 ''k'' ''v'' ''s'' 1 ''fp'' 100 ''sig'' 7 store_empty))"
    by (simp add: store_put_def put_check_def is_nonce_seen_def put_write_def store_empty_def
        MAX_VALUE_SIZE_def hm_contains_def Let_def)
  from store_put_get[OF ok, of "\<lambda>_. None" 50] show ?thesis by simp
qed

text \<open>In a history of puts alone, whatever database errors occur, a key and nonce are accepted at most
  once, and the sequence numbers stored under a key strictly increase.\<close>

theorem put_history_replay_safe:
  "distinct (put_replay.accepted rs st) \<and> sorted_wrt (<) (stored_seqs rs k st)"
  using put_replay.accepted_distinct stored_seqs_sorted by simp

text \<open>C3: Replay protection over every sequential history of the store's operations (puts, blob upserts,
  deletions of expired rows, prunings of the nonce log, nonces recorded alone), whatever database
  errors occur. After an accepted put, a put of the same key is refused and changes nothing when it
  carries the same nonce, as long as no pruning with a cutoff after the second of the first put has run
  and no nonce was recorded into a full log; and also when its sequence number is not larger, as long
  as no deletion of expired rows found the row of the key expired and no blob upsert of the key
  replaced the row by one with a smaller sequence number.\<close>

theorem store_put_replay_safe:
  assumes "fst (submit_put r1 st)" "pr_key r2 = pr_key r1"
    and "st2 = run_ops mid (snd (submit_put r1 st))"
    and "pr_nonce r2 = pr_nonce r1 \<and> all_steps (\<lambda>op s. \<not> forgets_nonce \<lfloor>pr_now r1\<rfloor> op s) mid (snd (submit_put r1 st))
       \<or> pr_seq r2 \<le> pr_seq r1 \<and> all_steps (\<lambda>op s. \<not> resets_seq (pr_key r1) op s) mid (snd (submit_put r1 st))"
  shows "\<not> fst (submit_put r2 st2) \<and> snd (submit_put r2 st2) = st2"
proof -
  have "\<not> fst (submit_put r2 st2)"
    using assms(4)
  proof
    assume a: "pr_nonce r2 = pr_nonce r1 \<and> all_steps (\<lambda>op s. \<not> forgets_nonce \<lfloor>pr_now r1\<rfloor> op s) mid (snd (submit_put r1 st))"
    have "hm_get (nonce_log st2) (request_token r2) = Some \<lfloor>pr_now r1\<rfloor>"
      using run_ops_nonce[OF submit_put_nonce[OF assms(1)]] a assms(2,3) by (simp add: request_token_def)
    then show ?thesis using put_check_True(2)[OF submit_put_accepts(1)[of r2 st2]]
      by (auto simp: request_token_def hm_contains_def)
  next
    assume a: "pr_seq r2 \<le> pr_seq r1 \<and> all_steps (\<lambda>op s. \<not> resets_seq (pr_key r1) op s) mid (snd (submit_put r1 st))"
    have "seq_at_least (pr_key r2) (pr_seq r1) st2"
      using run_ops_seq[of "pr_key r1" "pr_seq r1"] submit_put_seq[OF assms(1)] a assms(2,3) by simp
    then show ?thesis using put_check_True(3)[OF submit_put_accepts(1)[of r2 st2]] a
      by (fastforce simp: seq_at_least_def split: option.splits)
  qed
  then show ?thesis using submit_put_refuses by simp
qed

theorem store_put_replay_safe_witness:
  "(let r = (\<lambda>t n s. \<lparr>pr_faults = \<lambda>_. None, pr_now = t, pr_key = ''k'', pr_value = ''v'', pr_salt = [], pr_seq = s,
              pr_fp = ''fp'', pr_ttl = 100, pr_sig = ''sg'', pr_nonce = n\<rparr>);
        mid = [OpPut (r 20 8 2), OpDeleteExpired (\<lambda>_. None) 60, OpPruneNonces (\<lambda>_. None) 10,
               OpPutBlob (\<lambda>_. None) 61 ''x'' ''b'' [] [] 5 []]
    in \<not> fst (submit_put (r 70 7 9) (run_ops mid (snd (submit_put (r 10 7 1) store_empty))))
     \<and> \<not> fst (submit_put (r 70 9 1) (run_ops mid (snd (submit_put (r 10 7 1) store_empty)))))"
proof -
  define r where "r = (\<lambda>t n s. \<lparr>pr_faults = \<lambda>_. None, pr_now = t, pr_key = ''k'', pr_value = ''v'', pr_salt = [], pr_seq = s,
              pr_fp = ''fp'', pr_ttl = 100, pr_sig = ''sg'', pr_nonce = n\<rparr>)"
  define mid where "mid = [OpPut (r 20 8 2), OpDeleteExpired (\<lambda>_. None) 60, OpPruneNonces (\<lambda>_. None) 10,
               OpPutBlob (\<lambda>_. None) 61 ''x'' ''b'' [] [] 5 []]"
  note defs = submit_put_def run_put_def store_put_def put_check_def is_nonce_seen_def put_write_def store_empty_def
    MAX_VALUE_SIZE_def hm_contains_def Let_def insert_nonce_def replace_kv_def r_def
  have ok: "fst (submit_put (r 10 7 1) store_empty)" by (simp add: defs)
  have steps: "all_steps (\<lambda>op s. \<not> forgets_nonce \<lfloor>pr_now (r 10 7 1)\<rfloor> op s) mid (snd (submit_put (r 10 7 1) store_empty))"
    "all_steps (\<lambda>op s. \<not> resets_seq (pr_key (r 10 7 1)) op s) mid (snd (submit_put (r 10 7 1) store_empty))"
    by (simp_all add: mid_def forgets_nonce_def resets_seq_def defs delete_expired_def prune_old_nonces_def hm_insert_def)
  show ?thesis
    using store_put_replay_safe[OF ok _ refl, of "r 70 7 9" mid] store_put_replay_safe[OF ok _ refl, of "r 70 9 1" mid] steps
    by (simp add: r_def mid_def Let_def)
qed

text \<open>Under the pruning task of the node a nonce is refused for at least the retention of seven days:
  the rounds of the task that run before then keep it.\<close>

theorem nonce_kept_for_retention:
  assumes "fst (submit_put r1 st)" "\<And>F t. (F, t) \<in> set rounds \<Longrightarrow> t \<le> \<lfloor>pr_now r1\<rfloor> + NONCE_RETENTION_SECS"
    and "request_token r2 = request_token r1"
  shows "\<not> fst (submit_put r2 (run_ops (map (\<lambda>(F, t). nonce_prune_round F t) rounds) (snd (submit_put r1 st))))"
proof -
  have "all_steps (\<lambda>op s. \<not> forgets_nonce \<lfloor>pr_now r1\<rfloor> op s) (map (\<lambda>(F, t). nonce_prune_round F t) rounds) s" for s
    using assms(2) by (induction rounds arbitrary: s) (force simp: forgets_nonce_def nonce_prune_round_def)+
  from run_ops_nonce[OF submit_put_nonce[OF assms(1)] this] show ?thesis
    using put_check_True(2)[OF submit_put_accepts(1)[of r2]] assms(3)
    by (fastforce simp: request_token_def hm_contains_def)
qed

text \<open>A put that does not report success leaves both tables exactly as they were, at whichever query
  the database failed.\<close>

theorem store_put_atomic:
  assumes "fst (store_put F now key v salt seq fp ttl sg nonce st) \<noteq> Inr True"
  shows "snd (store_put F now key v salt seq fp ttl sg nonce st) = st"
  using assms by (rule store_put_not_True)

theorem store_put_atomic_witness:
  "snd (store_put (\<lambda>q. if q = Q_commit then Some ''disk full'' else None) 10 ''k'' ''v'' ''s'' 1 ''fp'' 100 ''sig'' 7
          store_empty) = store_empty"
  by (rule store_put_atomic)
    (simp add: store_put_def put_check_def is_nonce_seen_def put_write_def store_empty_def
      MAX_VALUE_SIZE_def hm_contains_def Let_def)

text \<open>The checks of a put are not part of its transaction. Two puts of a new key with one nonce can
  both pass their checks before either writes; then both are stored although they share the nonce, and
  the one that writes last remains, even when its sequence number is the smaller one.\<close>

theorem store_put_check_write_race:
  assumes "hm_get (kv_store st) key = None" "\<not> hm_contains (nonce_log st) (key, nonce)"
    and "length v1 \<le> MAX_VALUE_SIZE" "length v2 \<le> MAX_VALUE_SIZE"
  shows "put_check (\<lambda>_. None) key v1 seq1 nonce st = Inr True
       \<and> put_check (\<lambda>_. None) key v2 seq2 nonce st = Inr True
       \<and> (\<exists>st2 st1. put_write (\<lambda>_. None) now key v2 salt seq2 fp ttl sg2 nonce st = (Inr True, st2)
            \<and> put_write (\<lambda>_. None) now key v1 salt seq1 fp ttl sg1 nonce st2 = (Inr True, st1)
            \<and> map_option kv_seq (hm_get (kv_store st1) key) = Some seq1)"
  using assms by (simp add: put_check_def is_nonce_seen_def put_write_def Let_def)

theorem store_put_check_write_race_witness:
  "\<exists>st2 st1. put_write (\<lambda>_. None) 0 ''k'' ''new'' [] 2 ''fp'' 100 ''b'' 7 store_empty = (Inr True, st2)
       \<and> put_write (\<lambda>_. None) 0 ''k'' ''old'' [] 1 ''fp'' 100 ''a'' 7 st2 = (Inr True, st1)
       \<and> map_option kv_seq (hm_get (kv_store st1) ''k'') = Some 1"
proof -
  have fresh: "hm_get (kv_store store_empty) ''k'' = None" "\<not> hm_contains (nonce_log store_empty) (''k'', 7)"
    "length ''old'' \<le> MAX_VALUE_SIZE" "length ''new'' \<le> MAX_VALUE_SIZE"
    by (simp_all add: store_empty_def hm_contains_def MAX_VALUE_SIZE_def)
  from store_put_check_write_race[OF fresh, of 1 2] show ?thesis by blast
qed

text \<open>A blob upsert checks neither sequence nor nonce: it replaces any record, and because it stores
  the clock in seconds as the sequence number, a later genuine put of the key with a smaller sequence
  number is refused for as long as the row stays.\<close>

theorem put_blob_blocks_key:
  assumes "put_blob F now key v salt fp ttl sg st = (Inr True, st')" "seq \<le> \<lfloor>now\<rfloor>"
  shows "fst (store_put G now' key v' salt' seq fp' ttl' sg' nonce st') \<noteq> Inr True"
proof -
  have st': "hm_get (kv_store st') key = Some \<lparr>kv_value = v, kv_salt = salt, kv_seq = \<lfloor>now\<rfloor>, kv_publisher_fp = fp,
      stored_at = now, expires_at = now + real_of_int ttl, kv_sig = sg\<rparr>"
    using assms(1) by (auto simp: put_blob_def split: if_splits option.splits)
  show ?thesis
  proof
    assume "fst (store_put G now' key v' salt' seq fp' ttl' sg' nonce st') = Inr True"
    then obtain s where "store_put G now' key v' salt' seq fp' ttl' sg' nonce st' = (Inr True, s)"
      by (metis prod.collapse)
    from put_check_True(3)[OF store_put_True(1)[OF this] st'] assms(2) show False by simp
  qed
qed

theorem put_blob_blocks_key_witness:
  "fst (store_put (\<lambda>_. None) 1700000001 ''k'' ''v'' [] 5 ''fp'' 100 ''s'' 7
     (snd (put_blob (\<lambda>_. None) 1700000000 ''k'' ''x'' [] [] 100 [] store_empty))) \<noteq> Inr True"
  by (rule put_blob_blocks_key[of "\<lambda>_. None" 1700000000 "''k''" "''x''" "[]" "[]" 100 "[]" store_empty])
    (simp_all add: put_blob_def MAX_VALUE_SIZE_def)

end
