(* ===== verification/RateLimit.thy ===== *)
theory RateLimit
  imports Prelude
begin

text \<open>
  The sliding-window rate limiter of \<open>dht-core/src/ratelimit.rs\<close>. The clock reading of a call is an
  argument, and so is the first key of the hash map's iteration order, which decides the eviction.
\<close>

section \<open>Definitions\<close>

record RateLimiter =
  rl_max :: nat
  window :: real
  max_buckets :: nat
  buckets :: "(string, real list) hmap"

definition RateLimiter_new :: "nat \<Rightarrow> real \<Rightarrow> RateLimiter" where
  "RateLimiter_new max_per_window window_sec =
     \<lparr>rl_max = max_per_window, window = window_sec, max_buckets = 100000, buckets = []\<rparr>"

definition allow :: "real \<Rightarrow> string option \<Rightarrow> string \<Rightarrow> RateLimiter \<Rightarrow> bool \<times> RateLimiter" where
  "allow now first_key key rl =
     (let cutoff = now - window rl;
          b1 = (if hm_len (buckets rl) \<ge> max_buckets rl \<and> \<not> hm_contains (buckets rl) key
                then (case first_key of None \<Rightarrow> buckets rl | Some oldest \<Rightarrow> hm_remove oldest (buckets rl))
                else buckets rl);
          entries = filter (\<lambda>t. t \<ge> cutoff) (case hm_get b1 key of None \<Rightarrow> [] | Some es \<Rightarrow> es)
      in if length entries \<ge> rl_max rl then (False, rl\<lparr>buckets := hm_insert key entries b1\<rparr>)
         else (True, rl\<lparr>buckets := hm_insert key (entries @ [now]) b1\<rparr>))"

definition prune :: "real \<Rightarrow> RateLimiter \<Rightarrow> RateLimiter" where
  "prune now rl =
     (let cutoff = now - window rl;
          retained = map (\<lambda>(k, es). (k, filter (\<lambda>t. t \<ge> cutoff) es)) (buckets rl);
          keys_to_remove = map fst (filter (\<lambda>(_, es). es = []) retained)
      in rl\<lparr>buckets := fold hm_remove keys_to_remove retained\<rparr>)"

section \<open>Lemmas\<close>

text \<open>The argument for the iteration order is a key of the map, unless the map is empty.\<close>

definition first_key_ok :: "RateLimiter \<Rightarrow> string option \<Rightarrow> bool" where
  "first_key_ok rl fk \<longleftrightarrow>
     (case fk of None \<Rightarrow> buckets rl = [] | Some k \<Rightarrow> hm_contains (buckets rl) k)"

definition rl_inv :: "RateLimiter \<Rightarrow> bool" where
  "rl_inv rl \<longleftrightarrow> hm_wf (buckets rl) \<and> hm_len (buckets rl) \<le> max_buckets rl \<and> 0 < max_buckets rl
     \<and> (\<forall>k es. hm_get (buckets rl) k = Some es \<longrightarrow> length es \<le> rl_max rl)"

lemma rl_inv_new: "rl_inv (RateLimiter_new n w)"
  by (simp add: rl_inv_def RateLimiter_new_def hm_len_def)

lemma rl_inv_allow:
  assumes "rl_inv rl" "first_key_ok rl fk"
  shows "rl_inv (snd (allow now fk key rl))"
proof -
  define b1 where "b1 = (if hm_len (buckets rl) \<ge> max_buckets rl \<and> \<not> hm_contains (buckets rl) key
                then (case fk of None \<Rightarrow> buckets rl | Some oldest \<Rightarrow> hm_remove oldest (buckets rl))
                else buckets rl)"
  have wf: "hm_wf b1" using assms(1) by (auto simp: b1_def rl_inv_def split: option.splits)
  have sub: "hm_get b1 k = Some es \<Longrightarrow> hm_get (buckets rl) k = Some es" for k es
    by (auto simp: b1_def split: if_splits option.splits)
  have len: "hm_len (hm_insert key v b1) \<le> max_buckets rl" for v
    using assms by (auto simp: b1_def rl_inv_def first_key_ok_def hm_len_insert hm_len_remove hm_contains_def
        hm_len_def[of "[]"] split: option.splits if_splits)
  have cnt: "length es \<le> rl_max rl" if "hm_get b1 k = Some es" for k es
    using sub[OF that] assms(1) by (simp add: rl_inv_def)
  have bound: "length (filter P (case hm_get b1 key of None \<Rightarrow> [] | Some es \<Rightarrow> es)) \<le> rl_max rl" for P
    using cnt[of key] by (cases "hm_get b1 key") (auto intro!: order_trans[OF length_filter_le])
  show ?thesis
    unfolding allow_def b1_def[symmetric] Let_def
    using assms(1) wf cnt len bound by (auto simp: rl_inv_def not_le Suc_le_eq)
qed

definition bucket :: "RateLimiter \<Rightarrow> string \<Rightarrow> real list" where
  "bucket rl k = (case hm_get (buckets rl) k of None \<Rightarrow> [] | Some es \<Rightarrow> es)"

lemma retained_get:
  "hm_get (buckets (prune now rl)) k = Some es
   \<Longrightarrow> \<exists>es0. hm_get (buckets rl) k = Some es0 \<and> es = filter (\<lambda>t. t \<ge> now - window rl) es0"
  by (auto simp: prune_def Let_def split: if_splits)

lemma bucket_prune:
  assumes "hm_wf (buckets rl)"
  shows "bucket (prune now rl) k = filter (\<lambda>t. t \<ge> now - window rl) (bucket rl k)"
proof -
  let ?r = "map (\<lambda>(k, es). (k, filter (\<lambda>t. t \<ge> now - window rl) es)) (buckets rl)"
  have wf: "hm_wf ?r" using assms by simp
  show ?thesis
    unfolding bucket_def prune_def Let_def
    using hm_get_filter_keys[OF wf, of k "\<lambda>es. es = []"] by (simp split: option.splits)
qed

lemma rl_inv_prune:
  assumes "rl_inv rl"
  shows "rl_inv (prune now rl)"
proof -
  have "hm_wf (buckets (prune now rl))"
    using assms by (simp add: rl_inv_def prune_def Let_def)
  moreover have "hm_len (buckets (prune now rl)) \<le> hm_len (buckets rl)"
    unfolding prune_def Let_def by (simp add: order_trans[OF hm_len_fold_remove_le])
  moreover have "length es \<le> rl_max rl" if "hm_get (buckets (prune now rl)) k = Some es" for k es
    using retained_get[OF that] assms by (auto simp: rl_inv_def intro: order_trans[OF length_filter_le])
  ultimately show ?thesis using assms by (auto simp: rl_inv_def prune_def Let_def)
qed

text \<open>A history of the limiter: calls, each with its time, the first key of the iteration order and
  its key, and background prunes. \<open>admitted\<close> lists the times of the calls of a key that were let through.\<close>

datatype rl_op = Call real "string option" string | Prune real

fun op_time :: "rl_op \<Rightarrow> real" where
  "op_time (Call now fk key) = now"
| "op_time (Prune now) = now"

fun apply_op :: "rl_op \<Rightarrow> RateLimiter \<Rightarrow> RateLimiter" where
  "apply_op (Call now fk key) rl = snd (allow now fk key rl)"
| "apply_op (Prune now) rl = prune now rl"

fun admits :: "rl_op \<Rightarrow> RateLimiter \<Rightarrow> string \<Rightarrow> bool" where
  "admits (Call now fk key) rl k = (key = k \<and> fst (allow now fk key rl))"
| "admits (Prune now) rl k = False"

fun evicts :: "string \<Rightarrow> rl_op \<Rightarrow> RateLimiter \<Rightarrow> bool" where
  "evicts k (Call now fk key) rl = (fk = Some k \<and> max_buckets rl \<le> hm_len (buckets rl) \<and> \<not> hm_contains (buckets rl) key)"
| "evicts k (Prune now) rl = False"

fun evicted :: "string \<Rightarrow> rl_op list \<Rightarrow> RateLimiter \<Rightarrow> bool" where
  "evicted k [] rl = False"
| "evicted k (p # ps) rl = (evicts k p rl \<or> evicted k ps (apply_op p rl))"

fun call_keys :: "rl_op list \<Rightarrow> string set" where
  "call_keys [] = {}"
| "call_keys (Call now fk key # ps) = insert key (call_keys ps)"
| "call_keys (Prune now # ps) = call_keys ps"

fun admitted :: "rl_op list \<Rightarrow> string \<Rightarrow> RateLimiter \<Rightarrow> real list" where
  "admitted [] k rl = []"
| "admitted (p # ps) k rl = (if admits p rl k then [op_time p] else []) @ admitted ps k (apply_op p rl)"

lemma admitted_times: "set (admitted ps k rl) \<subseteq> op_time ` set ps"
  by (induction ps arbitrary: rl) auto

lemma allow_keeps [simp]:
  "rl_max (snd (allow now fk key rl)) = rl_max rl" "window (snd (allow now fk key rl)) = window rl"
  "max_buckets (snd (allow now fk key rl)) = max_buckets rl"
  by (simp_all add: allow_def Let_def)

lemma prune_keeps [simp]:
  "rl_max (prune now rl) = rl_max rl" "window (prune now rl) = window rl" "max_buckets (prune now rl) = max_buckets rl"
  by (simp_all add: prune_def Let_def)

lemma apply_op_keeps [simp]: "rl_max (apply_op p rl) = rl_max rl" "window (apply_op p rl) = window rl"
  by (cases p; simp)+

lemma hm_wf_apply_op: "hm_wf (buckets rl) \<Longrightarrow> hm_wf (buckets (apply_op p rl))"
  by (cases p) (auto simp: allow_def prune_def Let_def split: option.splits)

text \<open>One operation and the bucket of a key that it does not evict: the times it still counts, plus
  the call itself when it is admitted, and the call is admitted only if there is room.\<close>

lemma bucket_apply_op:
  assumes "hm_wf (buckets rl)" "\<not> evicts k p rl"
  obtains es where "bucket (apply_op p rl) k = es @ (if admits p rl k then [op_time p] else [])"
    "es = bucket rl k \<or> es = filter (\<lambda>t. t \<ge> op_time p - window rl) (bucket rl k)"
    "admits p rl k \<longrightarrow> length es < rl_max rl"
proof (cases p)
  case (Call now fk key)
  show thesis
  proof (cases "key = k")
    case True
    with Call assms(2) that[of "filter (\<lambda>t. t \<ge> now - window rl) (bucket rl k)"] show thesis
      by (auto simp: allow_def bucket_def Let_def split: option.splits if_splits)
  next
    case False
    with Call assms(2) that[of "bucket rl k"] show thesis
      by (auto simp: allow_def bucket_def Let_def split: option.splits if_splits)
  qed
next
  case (Prune now)
  with that[of "filter (\<lambda>t. t \<ge> now - window rl) (bucket rl k)"] bucket_prune[OF assms(1), of now k] show thesis
    by simp
qed

abbreviation in_window :: "real \<Rightarrow> real \<Rightarrow> real list \<Rightarrow> nat" where
  "in_window t0 w ts \<equiv> length (filter (\<lambda>t. t0 \<le> t \<and> t \<le> t0 + w) ts)"

lemma admitted_window:
  assumes "sorted (map op_time ps)" "hm_wf (buckets rl)" "\<not> evicted k ps rl"
    "\<forall>p \<in> set ps. \<forall>t \<in> set (bucket rl k). t \<le> op_time p" "in_window t0 (window rl) (bucket rl k) \<le> rl_max rl"
  shows "in_window t0 (window rl) (bucket rl k) + in_window t0 (window rl) (admitted ps k rl) \<le> rl_max rl"
  using assms
proof (induction ps arbitrary: rl)
  case Nil
  then show ?case by simp
next
  case (Cons p ps)
  let ?w = "window rl" and ?rl = "apply_op p rl" and ?new = "if admits p rl k then [op_time p] else []"
  show ?case
  proof (cases "op_time p \<le> t0 + ?w")
    case False
    have "t > t0 + ?w" if "t \<in> set (admitted (p # ps) k rl)" for t
      using subsetD[OF admitted_times that] Cons.prems(1) False by auto
    then have "in_window t0 ?w (admitted (p # ps) k rl) = 0"
      by (auto simp: filter_empty_conv simp del: admitted.simps) (meson linorder_not_le)
    with Cons.prems(5) show ?thesis by (simp del: admitted.simps)
  next
    case True
    obtain es where es: "bucket ?rl k = es @ ?new" "es = bucket rl k \<or> es = filter (\<lambda>t. t \<ge> op_time p - ?w) (bucket rl k)"
      "admits p rl k \<longrightarrow> length es < rl_max rl"
      using bucket_apply_op[OF Cons.prems(2), of k p] Cons.prems(3) by auto
    have keep: "filter (\<lambda>t. t0 \<le> t \<and> t \<le> t0 + ?w) es = filter (\<lambda>t. t0 \<le> t \<and> t \<le> t0 + ?w) (bucket rl k)"
      using es(2)
    proof
      assume e: "es = filter (\<lambda>t. t \<ge> op_time p - ?w) (bucket rl k)"
      show ?thesis unfolding e filter_filter using True by (intro filter_cong) auto
    qed simp
    have room: "in_window t0 ?w (bucket ?rl k) \<le> rl_max rl"
    proof (cases "admits p rl k")
      case True
      then have "in_window t0 ?w es < rl_max rl"
        using es(3) by (meson le_less_trans length_filter_le)
      with True es(1) show ?thesis by simp
    next
      case False
      with es(1) keep Cons.prems(5) show ?thesis by simp
    qed
    have times: "\<forall>q \<in> set ps. \<forall>t \<in> set (bucket ?rl k). t \<le> op_time q"
      using es(1,2) Cons.prems(1,4) by auto
    have "in_window t0 ?w (bucket ?rl k) + in_window t0 ?w (admitted ps k ?rl) \<le> rl_max rl"
      using Cons.IH[of ?rl] Cons.prems(1,3) hm_wf_apply_op[OF Cons.prems(2)] times room by simp
    then show ?thesis using es(1) keep by simp
  qed
qed

text \<open>While no more keys are in use than the limiter has room for, it evicts none.\<close>

lemma apply_op_keys: "set (hm_keys (buckets (apply_op p rl))) \<subseteq> call_keys [p] \<union> set (hm_keys (buckets rl))"
proof (cases p)
  case (Call now fk key)
  then show ?thesis by (auto simp: allow_def Let_def hm_keys_insert hm_keys_remove split: option.splits if_splits)
next
  case (Prune now)
  have "k \<in> set (hm_keys (buckets rl))" if "k \<in> set (hm_keys (buckets (prune now rl)))" for k
    using that retained_get[of now rl k] by (force simp: hm_contains_iff[symmetric] hm_contains_def)
  with Prune show ?thesis by auto
qed

lemma few_keys_not_evicted:
  assumes "finite K" "card K \<le> max_buckets rl" "hm_wf (buckets rl)" "set (hm_keys (buckets rl)) \<subseteq> K" "call_keys ps \<subseteq> K"
  shows "\<not> evicted k ps rl"
  using assms(2-5)
proof (induction ps arbitrary: rl)
  case (Cons p ps)
  have "\<not> evicts k p rl"
  proof (cases p)
    case (Call now fk key)
    show ?thesis
    proof (cases "hm_contains (buckets rl) key")
      case False
      then have "set (hm_keys (buckets rl)) \<subset> K" using Call Cons.prems(3,4) by (auto simp: hm_contains_iff)
      with assms(1) have "card (set (hm_keys (buckets rl))) < card K" by (rule psubset_card_mono)
      then show ?thesis using Cons.prems(1) Call by (simp add: hm_len_card[OF Cons.prems(2)])
    qed (simp add: Call)
  qed simp
  moreover have "call_keys [p] \<subseteq> K" "call_keys ps \<subseteq> K" using Cons.prems(4) by (cases p; simp)+
  moreover have "max_buckets (apply_op p rl) = max_buckets rl" by (cases p) simp_all
  moreover have "set (hm_keys (buckets (apply_op p rl))) \<subseteq> K"
    using apply_op_keys[of p rl] Cons.prems(3) \<open>call_keys [p] \<subseteq> K\<close> by blast
  ultimately show ?case
    using Cons.IH[of "apply_op p rl"] Cons.prems(1,2) hm_wf_apply_op[of rl p] by simp
qed simp

lemma finite_call_keys: "finite (call_keys ps)"
  by (induction ps rule: call_keys.induct) simp_all

inductive rl_reach :: "RateLimiter \<Rightarrow> RateLimiter \<Rightarrow> bool" where
  start: "rl_reach rl rl"
| call: "rl_reach rl rl1 \<Longrightarrow> first_key_ok rl1 fk \<Longrightarrow> rl_reach rl (snd (allow now fk key rl1))"
| pruned: "rl_reach rl rl1 \<Longrightarrow> rl_reach rl (prune now rl1)"

lemma rl_inv_reach: "rl_reach rl rl' \<Longrightarrow> rl_inv rl \<Longrightarrow> rl_inv rl'"
  by (induction rule: rl_reach.induct) (auto intro: rl_inv_allow rl_inv_prune)

lemma rl_reach_keeps: "rl_reach rl rl' \<Longrightarrow> rl_max rl' = rl_max rl \<and> max_buckets rl' = max_buckets rl"
  by (induction rule: rl_reach.induct) auto

section \<open>Properties\<close>

text \<open>C39: In any history with non-decreasing clock readings, with calls of other keys and background
  prunes in between, a key is admitted at most \<open>max_per_window\<close> times in every interval as long as the
  window, provided that its own bucket is never evicted; at most 100,000 different keys in the history are
  enough for that. Without the proviso the bound fails (\<open>rate_limit_eviction_resets\<close>).\<close>

theorem rate_limit_sliding_window:
  assumes "sorted (map op_time ps)" "\<not> evicted k ps (RateLimiter_new n w) \<or> card (call_keys ps) \<le> 100000"
  shows "length (filter (\<lambda>t. t0 \<le> t \<and> t \<le> t0 + w) (admitted ps k (RateLimiter_new n w))) \<le> n"
proof -
  let ?rl = "RateLimiter_new n w"
  have "bucket ?rl k = []" by (simp add: bucket_def RateLimiter_new_def)
  moreover have "\<not> evicted k ps ?rl"
    using assms(2) few_keys_not_evicted[OF finite_call_keys[of ps], of ?rl ps k] by (auto simp: RateLimiter_new_def hm_keys_def)
  ultimately show ?thesis
    using admitted_window[OF assms(1), of ?rl k t0] by (simp add: RateLimiter_new_def)
qed

theorem rate_limit_sliding_window_witness:
  "length (filter (\<lambda>t. 1 \<le> t \<and> t \<le> 1 + 60)
     (admitted [Call 1 None ''a'', Call 2 (Some ''a'') ''a'', Prune 3, Call 4 (Some ''a'') ''b'', Call 5 (Some ''a'') ''a''] ''a''
        (RateLimiter_new 2 60))) \<le> 2"
  by (rule rate_limit_sliding_window) (simp_all add: card_insert_if)

text \<open>However calls are made and whichever bucket is evicted, the limiter tracks at most 100,000 keys
  and holds at most \<open>max_per_window\<close> times for each.\<close>

theorem rate_limiter_bounded_memory:
  assumes "rl_reach (RateLimiter_new n w) rl"
  shows "hm_len (buckets rl) \<le> 100000 \<and> (\<forall>k es. hm_get (buckets rl) k = Some es \<longrightarrow> length es \<le> n)"
proof -
  have "rl_max rl = n" "max_buckets rl = 100000"
    using rl_reach_keeps[OF assms] by (simp_all add: RateLimiter_new_def)
  with rl_inv_reach[OF assms rl_inv_new] show ?thesis by (metis rl_inv_def)
qed

theorem rate_limiter_bounded_memory_witness:
  "hm_len (buckets (snd (allow 1 None ''a'' (RateLimiter_new 2 60)))) \<le> 100000"
proof -
  have "rl_reach (RateLimiter_new 2 60) (snd (allow 1 None ''a'' (RateLimiter_new 2 60)))"
    by (rule rl_reach.call[OF rl_reach.start]) (simp add: first_key_ok_def RateLimiter_new_def)
  from rate_limiter_bounded_memory[OF this] show ?thesis by blast
qed

text \<open>Eviction takes whichever key the map iterates first, not the oldest: with the map full, a call
  with a new key can forget the record of a key that has just used up its allowance, and that key is
  admitted again at the same instant.\<close>

theorem rate_limit_eviction_resets:
  "let rl = \<lparr>rl_max = 1, window = 60, max_buckets = 2, buckets = [(''hot'', [100]), (''cold'', [50])]\<rparr>
   in \<not> fst (allow 100 (Some ''cold'') ''hot'' rl)
    \<and> fst (allow 100 (Some ''cold'') ''hot'' (snd (allow 100 (Some ''hot'') ''new'' rl)))"
  by (simp add: allow_def hm_contains_def Let_def)

end
