(* ===== verification/Pir.thy ===== *)
theory Pir
  imports Prelude
begin

text \<open>
  Private contact lookup of \<open>crypto/src/pir.rs\<close>: the client's tokens and response scan, the
  registry of bins. SHA-256 and the random bytes of masks, nonces and keys are arguments.
\<close>

section \<open>Definitions\<close>

definition PIR_ENTRY_SIZE :: nat where "PIR_ENTRY_SIZE = 224"
definition PIR_MAX_ENTRIES_PER_BIN :: nat where "PIR_MAX_ENTRIES_PER_BIN = 18"
definition PIR_BIN_SIZE :: nat where "PIR_BIN_SIZE = PIR_ENTRY_SIZE * 18"
definition PIR_CUCKOO_FANOUT :: nat where "PIR_CUCKOO_FANOUT = 2"

record PirQueryToken =
  bin_index :: u32
  xor_mask :: bytes
  client_ephemeral_pk :: bytes

record PirResponse =
  bin_data :: bytes
  dht_ephemeral_pk :: bytes
  resp_nonce :: bytes

record PirContactEntry =
  fingerprint_hash :: bytes
  metadata :: bytes

record PirClient =
  ephemeral_secret :: bytes
  ephemeral_public :: bytes

record PirRegistry =
  bins :: "(u32, bytes) hmap"

text \<open>\<open>copy_from_slice\<close> panics when the lengths differ.\<close>

datatype pir_error = BinFull string | Panic

definition PirContactEntry_new :: "bytes \<Rightarrow> bytes \<Rightarrow> PirContactEntry" where
  "PirContactEntry_new hash meta =
     (let meta_len = min (length meta) (PIR_ENTRY_SIZE - 32)
      in \<lparr>fingerprint_hash = hash,
          metadata = hash @ take meta_len meta @ replicate (PIR_ENTRY_SIZE - 32 - meta_len) 0\<rparr>)"

definition entry_matches :: "PirContactEntry \<Rightarrow> bytes \<Rightarrow> bool" where
  "entry_matches e hash = (fingerprint_hash e = hash)"

definition entry_to_bytes :: "PirContactEntry \<Rightarrow> bytes" where
  "entry_to_bytes e = metadata e"

definition entry_from_bytes :: "bytes \<Rightarrow> PirContactEntry" where
  "entry_from_bytes bs = \<lparr>fingerprint_hash = take 32 bs, metadata = bs\<rparr>"

definition PirClient_new :: "(bytes \<Rightarrow> bytes) \<Rightarrow> bytes \<Rightarrow> PirClient" where
  "PirClient_new sha secret =
     \<lparr>ephemeral_secret = secret, ephemeral_public = sha (str_bytes ''pir-ephemeral-pk-v1'' @ secret)\<rparr>"

definition cuckoo_hash_bins :: "(bytes \<Rightarrow> bytes) \<Rightarrow> bytes \<Rightarrow> nat \<Rightarrow> u32 list" where
  "cuckoo_hash_bins sha hash fanout =
     map (\<lambda>i. u32_from_be_bytes (slice 0 4 (sha (str_bytes ''pir-cuckoo-v1'' @ hash @ u32_to_be_bytes (word_of_nat i)))))
       [0..<fanout]"

definition query_contact :: "(bytes \<Rightarrow> bytes) \<Rightarrow> (nat \<Rightarrow> bytes) \<Rightarrow> PirClient \<Rightarrow> bytes \<Rightarrow> PirQueryToken list" where
  "query_contact sha rnd c hash =
     map (\<lambda>(i, b). \<lparr>bin_index = b, xor_mask = rnd i, client_ephemeral_pk = ephemeral_public c\<rparr>)
       (enumerate 0 (cuckoo_hash_bins sha hash PIR_CUCKOO_FANOUT))"

definition xor_apply :: "bytes \<Rightarrow> bytes \<Rightarrow> bytes" where
  "xor_apply data key_mask =
     (let len = min (length data) (length key_mask)
      in map (\<lambda>(a, b). a XOR b) (zip (take len data) (take len key_mask)))"

fun scan_entries :: "bytes \<Rightarrow> bytes list \<Rightarrow> PirContactEntry option" where
  "scan_entries target [] = None"
| "scan_entries target (c # cs) =
     (if length c \<noteq> PIR_ENTRY_SIZE then scan_entries target cs
      else if take 32 c = target then Some (entry_from_bytes c)
      else scan_entries target cs)"

definition process_response :: "PirResponse \<Rightarrow> bytes \<Rightarrow> bytes \<Rightarrow> PirContactEntry option" where
  "process_response response key_mask target =
     scan_entries target (chunks_of PIR_ENTRY_SIZE (xor_apply (bin_data response) key_mask))"

definition prepare_registration :: "(bytes \<Rightarrow> bytes) \<Rightarrow> bytes \<Rightarrow> u32 \<times> PirContactEntry" where
  "prepare_registration sha hash =
     (cuckoo_hash_bins sha hash PIR_CUCKOO_FANOUT ! 0, PirContactEntry_new hash [])"

definition PirRegistry_new :: PirRegistry where
  "PirRegistry_new = \<lparr>bins = []\<rparr>"

fun fill_slot :: "bytes \<Rightarrow> bytes list \<Rightarrow> (unit, bytes list) result option" where
  "fill_slot e [] = None"
| "fill_slot e (s # ss) =
     (if list_all (\<lambda>b. b = 0) s then
        (if length e \<noteq> length s then Some (Inl ()) else Some (Inr (e # ss)))
      else case fill_slot e ss of
        None \<Rightarrow> None
      | Some (Inl u) \<Rightarrow> Some (Inl u)
      | Some (Inr ss') \<Rightarrow> Some (Inr (s # ss')))"

definition add_entry :: "u32 \<Rightarrow> PirContactEntry \<Rightarrow> PirRegistry \<Rightarrow> (pir_error, unit) result \<times> PirRegistry" where
  "add_entry i e reg =
     (let bin = (case hm_get (bins reg) i of None \<Rightarrow> replicate PIR_BIN_SIZE 0 | Some b \<Rightarrow> b);
          reg1 = reg\<lparr>bins := hm_insert i bin (bins reg)\<rparr>
      in case fill_slot (entry_to_bytes e) (chunks_of PIR_ENTRY_SIZE bin) of
           None \<Rightarrow>
             (Inl (BinFull (''bin '' @ show_nat (unat i) @ '' is full (max ''
                            @ show_nat PIR_MAX_ENTRIES_PER_BIN @ '' entries)'')), reg1)
         | Some (Inl _) \<Rightarrow> (Inl Panic, reg1)
         | Some (Inr slots) \<Rightarrow> (Inr (), reg\<lparr>bins := hm_insert i (concat slots) (bins reg)\<rparr>))"

definition get_bin :: "u32 \<Rightarrow> PirRegistry \<Rightarrow> bytes option" where
  "get_bin i reg = hm_get (bins reg) i"

definition handle_query :: "bytes \<Rightarrow> bytes \<Rightarrow> PirQueryToken \<Rightarrow> PirRegistry \<Rightarrow> PirResponse option" where
  "handle_query nonce pk q reg =
     (case get_bin (bin_index q) reg of
        None \<Rightarrow> None
      | Some b \<Rightarrow> Some \<lparr>bin_data = b, dht_ephemeral_pk = pk, resp_nonce = nonce\<rparr>)"

definition bin_count :: "PirRegistry \<Rightarrow> nat" where
  "bin_count reg = hm_len (bins reg)"

section \<open>Lemmas\<close>

lemma size_pos [simp]: "0 < PIR_ENTRY_SIZE" "32 \<le> PIR_ENTRY_SIZE"
  by (simp_all add: PIR_ENTRY_SIZE_def)

lemma length_entry_new: "length hash = 32 \<Longrightarrow> length (metadata (PirContactEntry_new hash meta)) = PIR_ENTRY_SIZE"
  by (simp add: PirContactEntry_new_def Let_def PIR_ENTRY_SIZE_def)

lemma xor_apply_eq: "length key_mask = length data \<Longrightarrow> xor_apply data key_mask = map2 (\<lambda>a b. a XOR b) data key_mask"
  by (simp add: xor_apply_def Let_def)

lemma xor_apply_zero: "n = length data \<Longrightarrow> xor_apply data (replicate n 0) = data"
  by (simp add: xor_apply_eq map2_map_map[symmetric] zip_replicate2 comp_def)

lemma xor_apply_self: "length key_mask = length data \<Longrightarrow> xor_apply (xor_apply data key_mask) key_mask = data"
  by (rule nth_equalityI) (simp_all add: xor_apply_eq xor.assoc)

text \<open>A filled slot list has the shape of the old one and holds the new entry.\<close>

lemma fill_slot_shape:
  "fill_slot e ss = Some (Inr ss') \<Longrightarrow> map length ss' = map length ss \<and> e \<in> set ss'"
  by (induction ss arbitrary: ss') (auto split: if_splits option.splits sum.splits)

lemma fill_slot_keeps:
  "fill_slot e ss = Some (Inr ss') \<Longrightarrow> s \<in> set ss \<Longrightarrow> \<not> list_all (\<lambda>b. b = 0) s \<Longrightarrow> s \<in> set ss'"
  by (induction ss arbitrary: ss') (auto split: if_splits option.splits sum.splits)

lemma chunks_of_concat_same:
  assumes "0 < n" "\<forall>s \<in> set ss. length s = n"
  shows "chunks_of n (concat ss) = ss"
  using assms(2)
proof (induction ss)
  case (Cons s ss)
  then have "s @ concat ss \<noteq> []" using assms(1) by auto
  with Cons assms(1) show ?case by (simp add: chunks_of_step)
qed simp

lemma bin_chunks_length:
  assumes "length b = PIR_BIN_SIZE" "c \<in> set (chunks_of PIR_ENTRY_SIZE b)"
  shows "length c = PIR_ENTRY_SIZE"
proof -
  have "length (chunks_of PIR_ENTRY_SIZE b) = 18"
    using assms(1) by (simp add: length_chunks_of PIR_BIN_SIZE_def PIR_ENTRY_SIZE_def)
  then obtain i where i: "i < 18" "c = chunks_of PIR_ENTRY_SIZE b ! i"
    using assms(2) by (metis in_set_conv_nth)
  then show ?thesis
    using nth_chunks_of[of PIR_ENTRY_SIZE i b] assms(1) \<open>length (chunks_of PIR_ENTRY_SIZE b) = 18\<close>
    by (simp add: PIR_BIN_SIZE_def PIR_ENTRY_SIZE_def)
qed

definition reg_inv :: "PirRegistry \<Rightarrow> bool" where
  "reg_inv reg \<longleftrightarrow> (\<forall>i b. get_bin i reg = Some b \<longrightarrow> length b = PIR_BIN_SIZE)"

lemma add_entry_bin:
  assumes "reg_inv reg" "add_entry i e reg = (Inr (), reg')"
  obtains ss where "get_bin i reg' = Some (concat ss)" "\<forall>s \<in> set ss. length s = PIR_ENTRY_SIZE"
    "entry_to_bytes e \<in> set ss" "length (concat ss) = PIR_BIN_SIZE"
    "\<And>b s. get_bin i reg = Some b \<Longrightarrow> s \<in> set (chunks_of PIR_ENTRY_SIZE b) \<Longrightarrow> \<not> list_all (\<lambda>b. b = 0) s \<Longrightarrow> s \<in> set ss"
    "\<And>j. j \<noteq> i \<Longrightarrow> get_bin j reg' = get_bin j reg"
proof -
  define bin where "bin = (case hm_get (bins reg) i of None \<Rightarrow> replicate PIR_BIN_SIZE 0 | Some b \<Rightarrow> b)"
  have len: "length bin = PIR_BIN_SIZE"
    using assms(1) by (auto simp: bin_def reg_inv_def get_bin_def split: option.splits)
  obtain ss where ss: "fill_slot (entry_to_bytes e) (chunks_of PIR_ENTRY_SIZE bin) = Some (Inr ss)"
    and reg': "reg' = reg\<lparr>bins := hm_insert i (concat ss) (bins reg)\<rparr>"
    using assms(2) unfolding add_entry_def bin_def[symmetric] Let_def
    by (auto split: option.splits sum.splits)
  note shape = fill_slot_shape[OF ss]
  have "map length ss = map length (chunks_of PIR_ENTRY_SIZE bin)" using shape by simp
  then have all: "\<forall>s \<in> set ss. length s = PIR_ENTRY_SIZE"
    using bin_chunks_length[OF len] by (metis (no_types, lifting) image_iff list.set_map)
  have "length (concat ss) = length (concat (chunks_of PIR_ENTRY_SIZE bin))"
    using shape by (simp only: length_concat)
  then have lc: "length (concat ss) = PIR_BIN_SIZE" using len by simp
  show thesis
  proof (rule that[OF _ all _ lc])
    show "get_bin i reg' = Some (concat ss)" by (simp add: get_bin_def reg')
    show "entry_to_bytes e \<in> set ss" using shape by simp
    show "\<And>b s. get_bin i reg = Some b \<Longrightarrow> s \<in> set (chunks_of PIR_ENTRY_SIZE b) \<Longrightarrow> \<not> list_all (\<lambda>b. b = 0) s \<Longrightarrow> s \<in> set ss"
      using fill_slot_keeps[OF ss] by (simp add: bin_def get_bin_def)
    show "\<And>j. j \<noteq> i \<Longrightarrow> get_bin j reg' = get_bin j reg" by (simp add: get_bin_def reg')
  qed
qed

lemma reg_inv_add:
  assumes "reg_inv reg"
  shows "reg_inv (snd (add_entry i e reg))"
proof (cases "fst (add_entry i e reg) = Inr ()")
  case True
  then have "add_entry i e reg = (Inr (), snd (add_entry i e reg))" by (simp add: prod_eq_iff)
  from add_entry_bin[OF assms this] show ?thesis
    using assms unfolding reg_inv_def by (metis option.inject)
next
  case False
  with assms show ?thesis
    by (auto simp: add_entry_def reg_inv_def get_bin_def Let_def split: option.splits sum.splits if_splits)
qed

lemma scan_entries_found:
  "c \<in> set cs \<Longrightarrow> length c = PIR_ENTRY_SIZE \<Longrightarrow> take 32 c = target
   \<Longrightarrow> \<exists>e. scan_entries target cs = Some e \<and> fingerprint_hash e = target"
  by (induction cs) (auto simp: entry_from_bytes_def)

lemma scan_entries_None: "\<forall>c \<in> set cs. take 32 c \<noteq> target \<Longrightarrow> scan_entries target cs = None"
  by (induction cs) auto

lemma take_xor_apply: "take n (xor_apply a b) = xor_apply (take n a) (take n b)"
  by (simp add: xor_apply_def Let_def take_map take_zip min.commute min.left_commute)

lemma drop_xor_apply: "length a = length b \<Longrightarrow> drop n (xor_apply a b) = xor_apply (drop n a) (drop n b)"
  by (simp add: xor_apply_eq drop_map drop_zip)

lemma xor_apply_eq_left: "length m = length a \<Longrightarrow> xor_apply a m = a \<Longrightarrow> m = replicate (length a) 0"
proof (rule nth_equalityI)
  fix p assume len: "length m = length a" and eq: "xor_apply a m = a" and p: "p < length m"
  from arg_cong[OF eq, of "\<lambda>xs. xs ! p"] len p show "m ! p = replicate (length a) 0 ! p"
    by (simp add: xor_apply_eq)
qed simp

lemma chunk_head_xor:
  assumes "length b = length m" "j < length (chunks_of PIR_ENTRY_SIZE (xor_apply b m))"
  shows "take 32 (chunks_of PIR_ENTRY_SIZE (xor_apply b m) ! j)
       = xor_apply (take 32 (drop (j * PIR_ENTRY_SIZE) b)) (take 32 (drop (j * PIR_ENTRY_SIZE) m))"
proof -
  have "take 32 (take PIR_ENTRY_SIZE xs) = take 32 xs" for xs :: bytes
    by (simp add: min_absorb1)
  then show ?thesis
    using nth_chunks_of[OF size_pos(1) assms(2)] assms(1) by (simp add: drop_xor_apply take_xor_apply)
qed

lemma xor_zero_left: "length b = n \<Longrightarrow> xor_apply (replicate n 0) b = b"
  by (rule nth_equalityI) (simp_all add: xor_apply_eq)

inductive reg_reach :: "PirRegistry \<Rightarrow> bool" where
  empty: "reg_reach PirRegistry_new"
| add: "reg_reach reg \<Longrightarrow> reg_reach (snd (add_entry i e reg))"

lemma reg_reach_inv: "reg_reach reg \<Longrightarrow> reg_inv reg"
  by (induction rule: reg_reach.induct) (simp_all add: reg_inv_add, simp add: reg_inv_def PirRegistry_new_def get_bin_def)

section \<open>Properties\<close>

text \<open>Registration and lookup agree when the client removes no mask: after a successful insertion
  into any registry reached by insertions, the answer for that bin, read with the zero mask, contains an
  entry with the registered hash; the bin keeps its 4032 bytes and every other bin is unchanged.\<close>

theorem pir_register_lookup:
  assumes "reg_reach reg" "length hash = 32" "add_entry i (PirContactEntry_new hash meta) reg = (Inr (), reg')"
    and "handle_query nonce pk q reg' = Some resp" "bin_index q = i"
  shows "(\<exists>e. process_response resp (replicate PIR_BIN_SIZE 0) hash = Some e \<and> entry_matches e hash)
       \<and> length (bin_data resp) = PIR_BIN_SIZE \<and> (\<forall>j. j \<noteq> i \<longrightarrow> get_bin j reg' = get_bin j reg)"
proof -
  obtain ss where ss: "get_bin i reg' = Some (concat ss)" "\<forall>s \<in> set ss. length s = PIR_ENTRY_SIZE"
      "entry_to_bytes (PirContactEntry_new hash meta) \<in> set ss" "length (concat ss) = PIR_BIN_SIZE"
      "\<forall>j. j \<noteq> i \<longrightarrow> get_bin j reg' = get_bin j reg"
    using add_entry_bin[OF reg_reach_inv[OF assms(1)] assms(3)] by metis
  have data: "bin_data resp = concat ss" using assms(4,5) ss(1) by (auto simp: handle_query_def)
  have "take 32 (entry_to_bytes (PirContactEntry_new hash meta)) = hash"
    using assms(2) by (simp add: entry_to_bytes_def PirContactEntry_new_def Let_def)
  moreover have "length (entry_to_bytes (PirContactEntry_new hash meta)) = PIR_ENTRY_SIZE"
    using length_entry_new[OF assms(2)] by (simp add: entry_to_bytes_def)
  ultimately obtain e where "scan_entries hash ss = Some e" "fingerprint_hash e = hash"
    using scan_entries_found[OF ss(3)] by blast
  then show ?thesis
    using ss(4,5) data by (simp add: process_response_def xor_apply_zero chunks_of_concat_same[OF _ ss(2)] entry_matches_def)
qed

lemma add_first_entry:
  assumes "length hash = 32"
  shows "add_entry i (PirContactEntry_new hash meta) PirRegistry_new
       = (Inr (), \<lparr>bins = hm_insert i (metadata (PirContactEntry_new hash meta) @ replicate (17 * PIR_ENTRY_SIZE) 0) []\<rparr>)"
proof -
  have z: "replicate PIR_BIN_SIZE 0 = replicate PIR_ENTRY_SIZE (0 :: u8) @ replicate (17 * PIR_ENTRY_SIZE) 0"
    by (simp add: PIR_BIN_SIZE_def flip: replicate_add)
  have "chunks_of PIR_ENTRY_SIZE (replicate PIR_BIN_SIZE (0 :: u8))
      = replicate PIR_ENTRY_SIZE 0 # chunks_of PIR_ENTRY_SIZE (replicate (17 * PIR_ENTRY_SIZE) 0)"
    unfolding z by (subst chunks_of_step) (auto simp: PIR_ENTRY_SIZE_def)
  then show ?thesis
    using length_entry_new[OF assms, of meta]
    by (simp add: add_entry_def PirRegistry_new_def entry_to_bytes_def Let_def list_all_iff hm_insert_def)
qed

theorem pir_register_lookup_witness:
  "\<exists>e. process_response \<lparr>bin_data = metadata (PirContactEntry_new (replicate 32 9) []) @ replicate (17 * PIR_ENTRY_SIZE) 0,
                          dht_ephemeral_pk = [], resp_nonce = []\<rparr> (replicate PIR_BIN_SIZE 0) (replicate 32 9) = Some e
     \<and> entry_matches e (replicate 32 9)"
proof -
  let ?q = "\<lparr>bin_index = 4, xor_mask = [], client_ephemeral_pk = []\<rparr> :: PirQueryToken"
  have l: "length (replicate 32 (9 :: u8)) = 32" by (rule length_replicate)
  show ?thesis
    using pir_register_lookup[OF reg_reach.empty l add_first_entry[OF l], where q = ?q and i = 4 and meta = "[]" and nonce = "[]" and pk = "[]"]
    by (simp add: handle_query_def get_bin_def)
qed

text \<open>The protocol as wired loses the contact. The server answers with the plain bin and ignores the
  mask of the query, while the client XORs the answer with that mask. A client that looks up the only
  entry of a bin finds nothing, unless some 224-byte slot of its random mask begins with 32 zero bytes or
  with the very hash it is looking for.\<close>

theorem pir_own_mask_misses:
  assumes "length hash = 32" "add_entry i (PirContactEntry_new hash meta) PirRegistry_new = (Inr (), reg)"
    and "handle_query nonce pk q reg = Some resp" "bin_index q = i" "length (xor_mask q) = PIR_BIN_SIZE"
    and "\<forall>j < 18. slice (j * PIR_ENTRY_SIZE) (j * PIR_ENTRY_SIZE + 32) (xor_mask q) \<notin> {replicate 32 0, hash}"
  shows "process_response resp (xor_mask q) hash = None"
proof -
  let ?bin = "metadata (PirContactEntry_new hash meta) @ replicate (17 * PIR_ENTRY_SIZE) 0"
  let ?m = "xor_mask q"
  have data: "bin_data resp = ?bin"
    using assms(2-4) add_first_entry[OF assms(1), of i meta] by (auto simp: handle_query_def get_bin_def)
  have lb: "length ?bin = PIR_BIN_SIZE" using length_entry_new[OF assms(1), of meta] by (simp add: PIR_BIN_SIZE_def)
  have lx: "length (xor_apply ?bin ?m) = PIR_BIN_SIZE" using lb assms(5) by (simp add: xor_apply_eq)
  have "take 32 c \<noteq> hash" if c: "c \<in> set (chunks_of PIR_ENTRY_SIZE (xor_apply ?bin ?m))" for c
  proof -
    have n: "length (chunks_of PIR_ENTRY_SIZE (xor_apply ?bin ?m)) = 18"
      using lx by (simp add: length_chunks_of PIR_BIN_SIZE_def PIR_ENTRY_SIZE_def)
    obtain j where j: "j < 18" "c = chunks_of PIR_ENTRY_SIZE (xor_apply ?bin ?m) ! j"
      using c n by (metis in_set_conv_nth)
    let ?o = "j * PIR_ENTRY_SIZE"
    have tm: "take 32 (drop ?o ?m) \<noteq> replicate 32 0" "take 32 (drop ?o ?m) \<noteq> hash"
      using assms(6) j(1) by (auto simp: slice_def)
    have "?o + 32 \<le> PIR_BIN_SIZE" using j(1) by (simp add: PIR_BIN_SIZE_def PIR_ENTRY_SIZE_def)
    then have lm: "length (take 32 (drop ?o ?m)) = 32" using assms(5) by simp
    have "take 32 c = xor_apply (take 32 (drop ?o ?bin)) (take 32 (drop ?o ?m))"
      unfolding j(2) by (rule chunk_head_xor) (simp_all only: lb assms(5) n j(1))
    moreover have "take 32 (drop ?o ?bin) = (if j = 0 then hash else replicate 32 0)"
    proof (cases j)
      case 0
      then show ?thesis using assms(1) by (simp add: PirContactEntry_new_def Let_def)
    next
      case (Suc k)
      then have "drop ?o ?bin = replicate ((17 - k) * PIR_ENTRY_SIZE) 0"
        using length_entry_new[OF assms(1), of meta] j(1) by (simp add: diff_mult_distrib)
      moreover have "32 \<le> (17 - k) * PIR_ENTRY_SIZE" using Suc j(1) by (simp add: PIR_ENTRY_SIZE_def)
      ultimately show ?thesis using Suc by (simp add: min_absorb1)
    qed
    ultimately show ?thesis
      using tm lm assms(1) xor_apply_eq_left[of "take 32 (drop ?o ?m)" hash] xor_zero_left[of "take 32 (drop ?o ?m)" 32]
      by (cases "j = 0") auto
  qed
  then show ?thesis unfolding process_response_def data by (intro scan_entries_None) blast
qed

theorem pir_own_mask_misses_witness:
  "process_response \<lparr>bin_data = metadata (PirContactEntry_new (replicate 32 9) []) @ replicate (17 * PIR_ENTRY_SIZE) 0,
                     dht_ephemeral_pk = [], resp_nonce = []\<rparr> (replicate PIR_BIN_SIZE 1) (replicate 32 9) = None"
proof -
  let ?q = "\<lparr>bin_index = 4, xor_mask = replicate PIR_BIN_SIZE 1, client_ephemeral_pk = []\<rparr> :: PirQueryToken"
  have l: "length (replicate 32 (9 :: u8)) = 32" by (rule length_replicate)
  have "slice (j * PIR_ENTRY_SIZE) (j * PIR_ENTRY_SIZE + 32) (replicate PIR_BIN_SIZE 1) = replicate 32 (1 :: u8)"
    if "j < 18" for j
    using that by (simp add: slice_def PIR_BIN_SIZE_def PIR_ENTRY_SIZE_def min_absorb1)
  then have m: "\<forall>j < 18. slice (j * PIR_ENTRY_SIZE) (j * PIR_ENTRY_SIZE + 32) (xor_mask ?q)
      \<notin> {replicate 32 0, replicate 32 9}"
    by (auto simp: replicate_eq_replicate)
  show ?thesis
    using pir_own_mask_misses[OF l add_first_entry[OF l] _ _ _ m, where i = 4 and meta = "[]" and nonce = "[]" and pk = "[]"]
    by (simp add: handle_query_def get_bin_def)
qed

end
