(* ===== verification/DhtNode.thy ===== *)
theory DhtNode
  imports Pow BlobService DhtStore CryptoHelpers RateLimit Pir
begin

text \<open>
  The request handlers of a DHT node, \<open>dht-core/src/dht_node.rs\<close>: put, get, blob put and get, private
  lookup, the per-connection loop and the pruning of the nonce sets. A handler takes the envelope and
  the shared state and returns its reply and the new state; a failed send is ignored by the code.

  \<open>dht_env\<close> carries what a handler reads from outside: the clock, the identifier of the reply, the first
  keys of the limiters' maps, the database faults, Argon2, the primitives, the random salt, and the JSON
  parsers of the blob reply and of a query token.
\<close>

section \<open>Definitions\<close>

record ('vk, 'sg) dht_env =
  e_now :: real
  e_uuid :: string
  e_first_put :: "string option"
  e_first_get :: "string option"
  e_faults :: faults
  e_argon :: argon
  e_crypto :: "('vk, 'sg) crypto"
  e_random :: u32
  e_bytes :: bytes
  e_reparse :: "WireEnvelope \<Rightarrow> (string, WireEnvelope) result"
  e_parse_token :: "string \<Rightarrow> PirQueryToken option"

record 'vk node =
  nd_store :: DhtStore
  nd_seen :: "(string, int set) hmap"
  nd_put_limiter :: RateLimiter
  nd_get_limiter :: RateLimiter
  nd_cache :: "'vk vk_cache"
  nd_pir :: PirRegistry
  nd_log :: "(string \<times> string) list"

definition dht_error :: "('vk, 'sg) dht_env \<Rightarrow> string \<Rightarrow> string \<Rightarrow> WireEnvelope" where
  "dht_error E key m = build_dht_error (e_uuid E) (e_now E) key m"

definition dht_found :: "('vk, 'sg) dht_env \<Rightarrow> string \<Rightarrow> string \<Rightarrow> string \<Rightarrow> int \<Rightarrow> WireEnvelope" where
  "dht_found E key v salt seq = build_dht_found (e_uuid E) (e_now E) key v salt seq"

definition bot_log :: "string \<Rightarrow> string \<Rightarrow> 'vk node \<Rightarrow> 'vk node" where
  "bot_log kind detail nd = nd\<lparr>nd_log := nd_log nd @ [(kind, detail)]\<rparr>"

definition stealth_response :: "('vk, 'sg) dht_env \<Rightarrow> WireEnvelope" where
  "stealth_response E =
     \<lparr>msg_type = ''dht-found'',
      payload = JObject [(''key'', JString []), (''value'', JString []), (''salt'', JString []), (''seq'', JInt 0)],
      msg_id = e_uuid E, ts = e_now E, sig = []\<rparr>"

definition verify_dht_put_signature ::
    "('vk, 'sg) dht_env \<Rightarrow> string \<Rightarrow> string \<Rightarrow> string \<Rightarrow> WireEnvelope \<Rightarrow> 'vk vk_cache \<Rightarrow> bool \<times> 'vk vk_cache" where
  "verify_dht_put_signature E sign_data sg publisher_fp env cache =
     (case payload_str env ''publisher_verifying_key'' of
        Some vk_b64 \<Rightarrow>
          (case b64_decode (e_crypto E) vk_b64 of None \<Rightarrow> (False, cache) | Some vk_bytes \<Rightarrow>
           case vk_from_slice (e_crypto E) vk_bytes of None \<Rightarrow> (False, cache) | Some vk \<Rightarrow>
             let derived_fp = fingerprint_from_verifying_key (e_crypto E) vk;
                 asserted_fp = unwrap_or publisher_fp (payload_str env ''pq_publisher_fp'')
             in if \<not> constant_time_compare (e_crypto E) derived_fp asserted_fp then (False, cache)
                else (verify_signature_with_verifying_key (e_crypto E) sign_data sg vk, cache))
      | None \<Rightarrow> verify_signature (e_crypto E) (e_now E) sign_data sg publisher_fp cache)"

definition store_full :: "('vk, 'sg) dht_env \<Rightarrow> string \<Rightarrow> DhtStore \<Rightarrow> bool" where
  "store_full E key st =
     (let exists = (case has_key (e_faults E) key st of Inl _ \<Rightarrow> False | Inr b \<Rightarrow> b);
          count = (case count_keys (e_faults E) (e_now E) st of Inl _ \<Rightarrow> 0 | Inr n \<Rightarrow> n)
      in \<not> exists \<and> count \<ge> MAX_TOTAL_KEYS)"

definition put_difficulty :: "string \<Rightarrow> int \<Rightarrow> nat" where
  "put_difficulty key seq =
     (if starts_with ''addr:'' key then ADDR_POW_DIFFICULTY else if seq = 0 then 8 else DHT_POW_DIFFICULTY)"

definition put_pow_ok :: "('vk, 'sg) dht_env \<Rightarrow> string \<Rightarrow> string \<Rightarrow> string \<Rightarrow> int \<Rightarrow> int \<Rightarrow> string \<Rightarrow> bool" where
  "put_pow_ok E key v salt seq nonce fp =
     (let pow_data = key @ ''|'' @ v @ ''|'' @ salt @ ''|'' @ show_int seq
      in case pow_check (e_argon E) pow_data (word_of_int nonce) (put_difficulty key seq) (str_bytes fp) of
           Inl _ \<Rightarrow> False | Inr b \<Rightarrow> b)"

definition put_sign_data :: "string \<Rightarrow> string \<Rightarrow> string \<Rightarrow> int \<Rightarrow> int \<Rightarrow> string" where
  "put_sign_data key v salt seq nonce =
     key @ ''|'' @ v @ ''|'' @ salt @ ''|'' @ show_int seq @ ''|'' @ show_int nonce"

definition key_mismatch :: "('vk, 'sg) dht_env \<Rightarrow> string \<Rightarrow> string \<Rightarrow> bool" where
  "key_mismatch E key fp =
     (let key_for_validation = (case strip_prefix ''addr:'' key of Some k \<Rightarrow> k | None \<Rightarrow> key)
      in \<not> starts_with ''cert:'' key \<and> compute_null_id (e_crypto E) fp \<noteq> key_for_validation)"

text \<open>The guards of a put between the rate limit and the signature check, in order; the result is the
  message of the first that fails.\<close>

definition put_guards ::
    "('vk, 'sg) dht_env \<Rightarrow> string \<Rightarrow> string \<Rightarrow> string \<Rightarrow> int \<Rightarrow> int \<Rightarrow> int \<Rightarrow> string \<Rightarrow> string \<Rightarrow> 'vk node \<Rightarrow> string option" where
  "put_guards E key v salt seq ttl nonce sg fp nd =
     (if \<not> validate_null_id key then Some ''invalid key format''
      else if length key > MAX_KEY_SIZE then Some ''key too long''
      else if ttl \<le> 0 \<or> ttl > MAX_TTL then Some ''ttl out of range''
      else if store_full E key (nd_store nd) then Some ''DHT store full (max keys reached)''
      else if length v > MAX_VALUE_SIZE then Some ''value too large''
      else if (case hm_get (nd_seen nd) key of None \<Rightarrow> False | Some s \<Rightarrow> nonce \<in> s) then Some ''nonce replay''
      else if \<not> put_pow_ok E key v salt seq nonce fp then Some ''insufficient proof-of-work''
      else if sg = [] then Some ''missing signature''
      else if \<not> validate_fingerprint fp then Some ''invalid publisher fingerprint''
      else if key_mismatch E key fp then Some (''key mismatch: expected '' @ compute_null_id (e_crypto E) fp)
      else None)"

definition handle_put :: "('vk, 'sg) dht_env \<Rightarrow> WireEnvelope \<Rightarrow> 'vk node \<Rightarrow> WireEnvelope \<times> 'vk node" where
  "handle_put E env nd =
     (let key = unwrap_or [] (payload_str env ''key'');
          v = unwrap_or [] (payload_str env ''value'');
          salt = unwrap_or [] (payload_str env ''salt'');
          seq = unwrap_or 0 (payload_i64 env ''seq'');
          ttl = min (unwrap_or STORE_TTL (payload_i64 env ''ttl'')) STORE_TTL;
          nonce = unwrap_or 0 (payload_i64 env ''nonce'');
          sg = sig env;
          fp = unwrap_or [] (payload_str env ''publisher_fp'');
          (allowed, rl) = allow (e_now E) (e_first_put E) fp (nd_put_limiter nd);
          nd1 = nd\<lparr>nd_put_limiter := rl\<rparr>
      in if \<not> allowed then
           (dht_error E key ''PUT rate limited (per-publisher)'', bot_log ''PUT_RATE_LIMITED'' (''publisher='' @ fp) nd1)
         else case put_guards E key v salt seq ttl nonce sg fp nd1 of
           Some m \<Rightarrow> (dht_error E key m, nd1)
         | None \<Rightarrow>
             (case verify_dht_put_signature E (put_sign_data key v salt seq nonce) sg fp env (nd_cache nd1) of
                (verified, cache) \<Rightarrow>
                  let nd2 = nd1\<lparr>nd_cache := cache\<rparr>
                  in if \<not> verified then (dht_error E key ''signature verification failed'', nd2)
                     else case store_put (e_faults E) (e_now E) key v salt seq fp ttl sg nonce (nd_store nd2) of
                       (Inr True, st) \<Rightarrow>
                         (let old = (case hm_get (nd_seen nd2) key of None \<Rightarrow> {} | Some s \<Rightarrow> s)
                          in (dht_found E key v salt seq,
                              nd2\<lparr>nd_store := st, nd_seen := hm_insert key (insert nonce old) (nd_seen nd2)\<rparr>))
                     | (Inr False, st) \<Rightarrow> (dht_error E key ''stale sequence'', nd2\<lparr>nd_store := st\<rparr>)
                     | (Inl e, st) \<Rightarrow> (dht_error E key ''storage error'', nd2\<lparr>nd_store := st\<rparr>)))"

definition handle_get :: "('vk, 'sg) dht_env \<Rightarrow> bool \<Rightarrow> WireEnvelope \<Rightarrow> 'vk node \<Rightarrow> WireEnvelope" where
  "handle_get E stealth_mode env nd =
     (let key = unwrap_or [] (payload_str env ''key'')
      in if \<not> validate_null_id key then
           (if stealth_mode then stealth_response E else dht_error E key ''invalid key format'')
         else case store_get (e_faults E) (e_now E) key (nd_store nd) of
           Inr (Some r) \<Rightarrow> dht_found E key (kv_value r) (kv_salt r) (kv_seq r)
         | Inr None \<Rightarrow> dht_error E key ''not found''
         | Inl e \<Rightarrow> dht_error E key ''storage error'')"

definition blob_salt :: "u32 \<Rightarrow> string" where
  "blob_salt r = ''blob:'' @ show_nat (unat r)"

definition handle_blob_put :: "('vk, 'sg) dht_env \<Rightarrow> WireEnvelope \<Rightarrow> 'vk node \<Rightarrow> WireEnvelope \<times> 'vk node" where
  "handle_blob_put E env nd =
     (let key = unwrap_or [] (payload_str env ''key'')
      in if key = [] then (dht_error E [] ''missing key'', nd)
         else case payload_str env ''value'' of
           None \<Rightarrow> (dht_error E key ''missing value'', nd)
         | Some v \<Rightarrow>
             if length v > MAX_VALUE_SIZE then (dht_error E key ''value too large'', nd)
             else
               let sg = unwrap_or [] (payload_str env ''sig'');
                   fp = unwrap_or [] (payload_str env ''publisher_fp'');
                   ttl = unwrap_or ADDR_TTL (payload_i64 env ''ttl'');
                   salt = blob_salt (e_random E);
                   (ok, cache) = (if starts_with ''cert:'' key
                     then verify_dht_put_signature E (key @ ''|'' @ v @ ''|'' @ fp) sg fp env (nd_cache nd)
                     else (True, nd_cache nd));
                   nd1 = nd\<lparr>nd_cache := cache\<rparr>
               in if \<not> ok then (dht_error E key ''invalid cert bundle signature'', nd1)
                  else case put_blob (e_faults E) (e_now E) key v salt fp ttl sg (nd_store nd1) of
                    (Inr True, st) \<Rightarrow> (dht_found E key v salt \<lfloor>e_now E * 1000\<rfloor>, nd1\<lparr>nd_store := st\<rparr>)
                  | (Inr False, st) \<Rightarrow> (dht_error E key ''value too large'', nd1\<lparr>nd_store := st\<rparr>)
                  | (Inl e, st) \<Rightarrow> (dht_error E key ''storage error'', nd1\<lparr>nd_store := st\<rparr>))"

definition blob_reply :: "('vk, 'sg) dht_env \<Rightarrow> string \<Rightarrow> KvRecord \<Rightarrow> WireEnvelope" where
  "blob_reply E key r =
     \<lparr>msg_type = ''dht-found'',
      payload = JObject
        [(''key'', JString key), (''value'', JString (kv_value r)), (''salt'', JString (kv_salt r)),
         (''seq'', JInt (kv_seq r)), (''publisher_fp'', JString (kv_publisher_fp r)), (''sig'', JString (kv_sig r)),
         (''expires_at'', JFloat (expires_at r))],
      msg_id = e_uuid E, ts = e_now E, sig = []\<rparr>"

definition handle_blob_get :: "('vk, 'sg) dht_env \<Rightarrow> WireEnvelope \<Rightarrow> 'vk node \<Rightarrow> WireEnvelope" where
  "handle_blob_get E env nd =
     (let key = unwrap_or [] (payload_str env ''key'')
      in if key = [] then dht_error E [] ''missing key''
         else case store_get (e_faults E) (e_now E) key (nd_store nd) of
           Inr (Some r) \<Rightarrow>
             (case e_reparse E (blob_reply E key r) of
                Inr e \<Rightarrow> e
              | Inl _ \<Rightarrow> dht_found E key (kv_value r) (kv_salt r) (kv_seq r))
         | Inr None \<Rightarrow> dht_error E key ''not found''
         | Inl e \<Rightarrow> dht_error E key ''storage error'')"

definition handle_pir_query :: "('vk, 'sg) dht_env \<Rightarrow> WireEnvelope \<Rightarrow> 'vk node \<Rightarrow> WireEnvelope" where
  "handle_pir_query E env nd =
     (case payload_str env ''query'' of
        None \<Rightarrow> dht_error E [] ''missing query''
      | Some t \<Rightarrow>
          (case e_parse_token E t of
             None \<Rightarrow> dht_error E [] ''invalid query format''
           | Some token \<Rightarrow>
               (case handle_query (take 8 (e_bytes E)) (drop 8 (e_bytes E)) token (nd_pir nd) of
                  None \<Rightarrow> dht_error E [] ''bin not found''
                | Some r \<Rightarrow>
                    \<lparr>msg_type = ''pir-response'',
                     payload = JObject
                       [(''bin_data'', JString (b64_encode (e_crypto E) (bin_data r))),
                        (''dht_ephemeral_pk'', JString (b64_encode (e_crypto E) (dht_ephemeral_pk r))),
                        (''nonce'', JString (b64_encode (e_crypto E) (resp_nonce r)))],
                     msg_id = e_uuid E, ts = e_now E, sig = []\<rparr>)))"

text \<open>The background task keeps the 64 numerically largest nonces of a key.\<close>

definition prune_set :: "int set \<Rightarrow> int set" where
  "prune_set s =
     (if card s > 64 then (let all = sorted_list_of_set s in set (drop (length all - 64) all)) else s)"

definition prune_seen :: "'vk node \<Rightarrow> 'vk node" where
  "prune_seen nd =
     nd\<lparr>nd_seen := filter (\<lambda>(_, s). s \<noteq> {}) (map (\<lambda>(k, s). (k, prune_set s)) (nd_seen nd))\<rparr>"

subsection \<open>The connection loop\<close>

definition MAX_FAILURES :: u32 where "MAX_FAILURES = 10"

definition note_failure :: "string \<Rightarrow> u32 \<Rightarrow> 'vk node \<Rightarrow> u32 \<times> 'vk node" where
  "note_failure what failures nd =
     (let f = failures + 1
      in (f, if f = MAX_FAILURES then bot_log ''SCANNER'' (what @ '' x10'') nd else nd))"

definition dispatch :: "('vk, 'sg) dht_env \<Rightarrow> bool \<Rightarrow> string \<Rightarrow> WireEnvelope \<Rightarrow> 'vk node \<Rightarrow> WireEnvelope \<times> 'vk node" where
  "dispatch E stealth_mode peer_ip env nd =
     (if msg_type env = ''dht-put'' then handle_put E env nd
      else if msg_type env = ''dht-get'' then
        (case allow (e_now E) (e_first_get E) peer_ip (nd_get_limiter nd) of (ok, rl) \<Rightarrow>
           let nd1 = nd\<lparr>nd_get_limiter := rl\<rparr>
           in if \<not> ok then
                (if stealth_mode then stealth_response E else dht_error E [] ''rate limited'',
                 bot_log ''GET_RATE_LIMITED'' ''dht-get rate limit exceeded'' nd1)
              else (handle_get E stealth_mode env nd1, nd1))
      else if msg_type env = ''pir-query'' then (handle_pir_query E env nd, nd)
      else if msg_type env = ''blob-put'' then handle_blob_put E env nd
      else if msg_type env = ''blob-get'' then (handle_blob_get E env nd, nd)
      else
        (if stealth_mode then stealth_response E
         else dht_error E (unwrap_or [] (payload_str env ''key'')) (''unexpected type: '' @ msg_type env),
         bot_log ''BAD_TYPE'' (msg_type env) nd))"

text \<open>One received frame: \<open>None\<close> when the loop ends, otherwise the reply, if any, and the new state. A
  frame comes with what its handler reads from outside.\<close>

definition handle_frame ::
    "codec \<Rightarrow> bool \<Rightarrow> string \<Rightarrow> ('vk, 'sg) dht_env \<times> ws_event \<Rightarrow> u32 \<times> 'vk node
     \<Rightarrow> (WireEnvelope option \<times> u32 \<times> 'vk node) option" where
  "handle_frame C stealth_mode peer_ip ev s =
     (case (ev, s) of ((E, e), (failures, nd)) \<Rightarrow>
       case e of
         Frame (Text raw) \<Rightarrow>
           (case from_json C raw of
              Inl m \<Rightarrow>
                (let (f, nd1) = note_failure ''bad_envelope'' failures nd
                 in Some (Some (if stealth_mode then stealth_response E else dht_error E [] (''bad envelope: '' @ m)), f, nd1))
            | Inr env \<Rightarrow>
                if \<bar>e_now E - ts env\<bar> > real_of_int POW_MAX_AGE then
                  (let (f, nd1) = note_failure ''stale_timestamp'' failures nd
                   in Some (Some (if stealth_mode then stealth_response E
                                  else dht_error E (unwrap_or [] (payload_str env ''key'')) ''stale timestamp''), f, nd1))
                else
                  (case dispatch E stealth_mode peer_ip env nd of (r, nd1) \<Rightarrow> Some (Some r, 0, nd1)))
       | Frame OtherFrame \<Rightarrow> Some (None, failures, nd)
       | Frame Close \<Rightarrow> None
       | StreamError m \<Rightarrow> None
       | StreamEnd \<Rightarrow> None
       | NoFrame \<Rightarrow> Some (None, failures, nd))"

fun handle_connection_loop ::
    "codec \<Rightarrow> bool \<Rightarrow> string \<Rightarrow> (('vk, 'sg) dht_env \<times> ws_event) list \<Rightarrow> u32 \<times> 'vk node
     \<Rightarrow> WireEnvelope list \<times> u32 \<times> 'vk node" where
  "handle_connection_loop C stealth_mode peer_ip [] s = ([], s)"
| "handle_connection_loop C stealth_mode peer_ip (ev # evs) s =
     (case handle_frame C stealth_mode peer_ip ev s of
        None \<Rightarrow> ([], s)
      | Some (r, s') \<Rightarrow>
          (case handle_connection_loop C stealth_mode peer_ip evs s' of
             (rs, s'') \<Rightarrow> (case r of None \<Rightarrow> rs | Some x \<Rightarrow> x # rs, s'')))"

definition handle_connection ::
    "codec \<Rightarrow> bool \<Rightarrow> string \<Rightarrow> (('vk, 'sg) dht_env \<times> ws_event) list \<Rightarrow> 'vk node \<Rightarrow> WireEnvelope list \<times> 'vk node" where
  "handle_connection C stealth_mode peer_ip evs nd =
     (case handle_connection_loop C stealth_mode peer_ip evs (0, nd) of
        (rs, failures, nd1) \<Rightarrow>
          (rs, if failures \<ge> 5
               then bot_log ''SUSPECT'' (show_nat (unat failures) @ '' consecutive failures'') nd1 else nd1))"

section \<open>Lemmas\<close>

abbreviation p_key :: "WireEnvelope \<Rightarrow> string" where "p_key env \<equiv> unwrap_or [] (payload_str env ''key'')"
abbreviation p_value :: "WireEnvelope \<Rightarrow> string" where "p_value env \<equiv> unwrap_or [] (payload_str env ''value'')"
abbreviation p_salt :: "WireEnvelope \<Rightarrow> string" where "p_salt env \<equiv> unwrap_or [] (payload_str env ''salt'')"
abbreviation p_fp :: "WireEnvelope \<Rightarrow> string" where "p_fp env \<equiv> unwrap_or [] (payload_str env ''publisher_fp'')"
abbreviation p_seq :: "WireEnvelope \<Rightarrow> int" where "p_seq env \<equiv> unwrap_or 0 (payload_i64 env ''seq'')"
abbreviation p_nonce :: "WireEnvelope \<Rightarrow> int" where "p_nonce env \<equiv> unwrap_or 0 (payload_i64 env ''nonce'')"
abbreviation p_ttl :: "WireEnvelope \<Rightarrow> int" where
  "p_ttl env \<equiv> min (unwrap_or STORE_TTL (payload_i64 env ''ttl'')) STORE_TTL"

lemma bot_log_simps [simp]: "nd_store (bot_log k d nd) = nd_store nd" "nd_seen (bot_log k d nd) = nd_seen nd"
  by (simp_all add: bot_log_def)

lemma dht_error_type [simp]: "msg_type (dht_error E key m) = ''dht-error''"
  by (simp add: dht_error_def build_dht_error_def)

lemma dht_found_type [simp]: "msg_type (dht_found E key v salt seq) = ''dht-found''"
  by (simp add: dht_found_def build_dht_found_def)

lemma put_guards_store_only:
  "put_guards E key v salt seq ttl nonce sg fp (nd\<lparr>nd_put_limiter := rl\<rparr>) = put_guards E key v salt seq ttl nonce sg fp nd"
  by (simp add: put_guards_def)

text \<open>A put either replies with an error and leaves the records and the nonce sets alone, or all its
  checks passed and the record and the nonce are stored.\<close>

lemma handle_put_cases:
  obtains
    (refused) "msg_type (fst (handle_put E env nd)) = ''dht-error''"
      "nd_store (snd (handle_put E env nd)) = nd_store nd" "nd_seen (snd (handle_put E env nd)) = nd_seen nd"
  | (stored) st cache where
      "fst (handle_put E env nd) = dht_found E (p_key env) (p_value env) (p_salt env) (p_seq env)"
      "put_guards E (p_key env) (p_value env) (p_salt env) (p_seq env) (p_ttl env) (p_nonce env) (sig env) (p_fp env) nd = None"
      "verify_dht_put_signature E (put_sign_data (p_key env) (p_value env) (p_salt env) (p_seq env) (p_nonce env))
         (sig env) (p_fp env) env (nd_cache nd) = (True, cache)"
      "store_put (e_faults E) (e_now E) (p_key env) (p_value env) (p_salt env) (p_seq env) (p_fp env) (p_ttl env)
         (sig env) (p_nonce env) (nd_store nd) = (Inr True, st)"
      "nd_store (snd (handle_put E env nd)) = st"
      "nd_seen (snd (handle_put E env nd)) = hm_insert (p_key env)
         (insert (p_nonce env) (case hm_get (nd_seen nd) (p_key env) of None \<Rightarrow> {} | Some s \<Rightarrow> s)) (nd_seen nd)"
      "fst (allow (e_now E) (e_first_put E) (p_fp env) (nd_put_limiter nd))"
proof -
  let ?put = "store_put (e_faults E) (e_now E) (p_key env) (p_value env) (p_salt env) (p_seq env) (p_fp env) (p_ttl env)
         (sig env) (p_nonce env) (nd_store nd)"
  let ?ver = "verify_dht_put_signature E (put_sign_data (p_key env) (p_value env) (p_salt env) (p_seq env) (p_nonce env))
         (sig env) (p_fp env) env (nd_cache nd)"
  obtain ok rl where al: "allow (e_now E) (e_first_put E) (p_fp env) (nd_put_limiter nd) = (ok, rl)" by force
  obtain ver cache where ver: "?ver = (ver, cache)" by force
  obtain res st where put: "?put = (res, st)" by force
  consider "\<not> ok" | m where "ok" "put_guards E (p_key env) (p_value env) (p_salt env) (p_seq env) (p_ttl env) (p_nonce env) (sig env) (p_fp env) nd = Some m"
    | "ok" "put_guards E (p_key env) (p_value env) (p_salt env) (p_seq env) (p_ttl env) (p_nonce env) (sig env) (p_fp env) nd = None" "\<not> ver"
    | "ok" "put_guards E (p_key env) (p_value env) (p_salt env) (p_seq env) (p_ttl env) (p_nonce env) (sig env) (p_fp env) nd = None" "ver" "res \<noteq> Inr True"
    | "ok" "put_guards E (p_key env) (p_value env) (p_salt env) (p_seq env) (p_ttl env) (p_nonce env) (sig env) (p_fp env) nd = None" "ver" "res = Inr True"
    by blast
  then show thesis
  proof cases
    case 4
    then have "st = nd_store nd" using put store_put_not_True by (metis fst_conv snd_conv)
    with 4 al ver put show thesis
      by (intro refused) (simp_all add: handle_put_def Let_def put_guards_store_only split: sum.splits bool.splits)
  next
    case 5
    with al ver put show thesis
      by (intro stored[of cache st]) (simp_all add: handle_put_def Let_def put_guards_store_only)
  qed (use al ver in \<open>auto intro!: refused simp: handle_put_def Let_def put_guards_store_only\<close>)
qed

lemma put_guards_None:
  assumes "put_guards E key v salt seq ttl nonce sg fp nd = None"
  shows "validate_null_id key" "length key \<le> MAX_KEY_SIZE" "0 < ttl" "length v \<le> MAX_VALUE_SIZE"
    "hm_get (nd_seen nd) key = Some s \<Longrightarrow> nonce \<notin> s" "put_pow_ok E key v salt seq nonce fp"
    "sg \<noteq> []" "validate_fingerprint fp" "\<not> key_mismatch E key fp" "\<not> store_full E key (nd_store nd)"
  using assms by (auto simp: put_guards_def split: if_splits option.splits)

lemma not_store_full:
  "\<not> store_full E key st \<Longrightarrow> hm_contains (kv_store st) key \<or> e_faults E Q_count \<noteq> None
     \<or> length (filter (\<lambda>(_, r). e_now E < expires_at r) (kv_store st)) < 1000000"
  by (auto simp: store_full_def has_key_def count_keys_def Let_def MAX_TOTAL_KEYS_def split: option.splits)

lemma cert_key_invalid: "starts_with ''cert:'' key \<Longrightarrow> \<not> validate_null_id key"
proof -
  assume "starts_with ''cert:'' key"
  then obtain t where t: "key = ''cert:'' @ t" by (auto simp: starts_with_def prefix_def)
  have "hd (split_on (CHR ''-'') (CHR ''c'' # u)) \<noteq> ''NN''" for u
    by (simp split: list.splits)
  from this[of "''ert:'' @ t"] show ?thesis
    unfolding t validate_null_id_def Let_def
    by (simp add: strip_prefix_def hd_conv_nth del: split_on.simps)
qed

lemma valid_not_cert: "validate_null_id key \<Longrightarrow> \<not> starts_with ''cert:'' key"
  using cert_key_invalid by blast

lemma store_get_after_put:
  assumes "store_put F now key v salt seq fp ttl sg nonce st = (Inr True, st')" "G Q_get = None" "t < now + real_of_int ttl"
  shows "store_get G t key st' = Inr (Some \<lparr>kv_value = v, kv_salt = salt, kv_seq = seq, kv_publisher_fp = fp,
           stored_at = now, expires_at = now + real_of_int ttl, kv_sig = sg\<rparr>)"
  using store_put_True(2)[OF assms(1)] assms(2,3) by (simp add: store_get_def)

lemma prune_set_card: "finite s \<Longrightarrow> card (prune_set s) \<le> 64"
proof -
  assume fin: "finite s"
  have "card (set (drop (length (sorted_list_of_set s) - 64) (sorted_list_of_set s))) \<le> 64"
    by (rule order_trans[OF card_length]) simp
  then show ?thesis by (simp add: prune_set_def Let_def)
qed

subsection \<open>An example node\<close>

text \<open>A node without faults, a hash that always has enough leading zeros, and one put.\<close>

definition demo_key :: string where "demo_key = ''NN-6161-6161-6161-6161-6161-6161-6161-6161''"
definition demo_fp :: string where "demo_fp = ''aaaaaaaaaaaaaaaaaaaaaaaaaaaaaaaa''"

definition demo_env :: "(nat, nat) dht_env" where
  "demo_env =
     \<lparr>e_now = 1000, e_uuid = [], e_first_put = None, e_first_get = None, e_faults = (\<lambda>_. None),
      e_argon = Inr (\<lambda>_ _. Inr (replicate 32 0)), e_crypto = toy_crypto, e_random = 5, e_bytes = [],
      e_reparse = Inr, e_parse_token = (\<lambda>_. None)\<rparr>"

definition demo_put :: WireEnvelope where
  "demo_put =
     \<lparr>msg_type = ''dht-put'',
      payload = JObject
        [(''key'', JString demo_key), (''value'', JString ''v''), (''salt'', JString ''s''), (''seq'', JInt 1),
         (''nonce'', JInt 7), (''publisher_fp'', JString demo_fp), (''publisher_verifying_key'', JString ''k''),
         (''pq_publisher_fp'', JString (fingerprint_from_verifying_key toy_crypto 1))],
      msg_id = [], ts = 1000, sig = ''x''\<rparr>"

definition demo_node :: "nat node" where
  "demo_node =
     \<lparr>nd_store = store_empty, nd_seen = [], nd_put_limiter = RateLimiter_new 100 60, nd_get_limiter = RateLimiter_new 30 60,
      nd_cache = None, nd_pir = PirRegistry_new, nd_log = []\<rparr>"

lemma demo_fields:
  "payload_str demo_put ''key'' = Some demo_key" "payload_str demo_put ''value'' = Some ''v''"
  "payload_str demo_put ''salt'' = Some ''s''" "payload_i64 demo_put ''seq'' = Some 1" "payload_i64 demo_put ''ttl'' = None"
  "payload_i64 demo_put ''nonce'' = Some 7" "payload_str demo_put ''publisher_fp'' = Some demo_fp"
  "payload_str demo_put ''publisher_verifying_key'' = Some ''k''"
  "payload_str demo_put ''pq_publisher_fp'' = Some (fingerprint_from_verifying_key toy_crypto 1)"
  "sig demo_put = ''x''"
  by (simp_all add: demo_put_def payload_str_def payload_i64_def payload_field_def i64_range_def)

lemma demo_valid:
  "validate_null_id demo_key" "validate_fingerprint demo_fp" "compute_null_id toy_crypto demo_fp = demo_key"
  "length demo_key \<le> MAX_KEY_SIZE" "strip_prefix ''addr:'' demo_key = None" "\<not> starts_with ''addr:'' demo_key"
  by (code_simp, code_simp, code_simp, code_simp, code_simp, code_simp)

lemma demo_allow: "fst (allow 1000 None demo_fp (RateLimiter_new 100 60))"
  by (simp add: allow_def RateLimiter_new_def hm_contains_def Let_def)

lemma demo_pow: "put_pow_ok demo_env demo_key ''v'' ''s'' 1 7 demo_fp"
proof -
  have "leading_zero_bits (replicate 32 0) = 256" by (simp add: leading_zero_bits_def numeral_eq_Suc)
  then show ?thesis
    by (simp add: put_pow_ok_def demo_env_def pow_check_def put_difficulty_def demo_valid(6)
        MIN_POW_DIFFICULTY_def DHT_POW_DIFFICULTY_def Let_def)
qed

lemma demo_guards: "put_guards demo_env demo_key ''v'' ''s'' 1 86400 7 ''x'' demo_fp demo_node = None"
  using demo_pow
  by (simp add: put_guards_def demo_valid(1,2) demo_valid(4)[folded linorder_not_less] key_mismatch_def demo_valid(3,5) demo_env_def demo_node_def
      MAX_TTL_def MAX_VALUE_SIZE_def store_full_def has_key_def count_keys_def store_empty_def hm_contains_def
      MAX_TOTAL_KEYS_def Let_def)

lemma demo_verify: "fst (verify_dht_put_signature demo_env d ''x'' demo_fp demo_put None)"
  by (simp add: verify_dht_put_signature_def demo_fields demo_env_def constant_time_compare_def toy_crypto_def
      verify_signature_with_verifying_key_def pq_verify_def is_ok_def Let_def)

lemma demo_store: "store_put (\<lambda>_. None) 1000 demo_key ''v'' ''s'' 1 demo_fp 86400 ''x'' 7 store_empty
   = (Inr True, snd (store_put (\<lambda>_. None) 1000 demo_key ''v'' ''s'' 1 demo_fp 86400 ''x'' 7 store_empty))"
  by (simp add: store_put_def put_check_def is_nonce_seen_def put_write_def store_empty_def
      MAX_VALUE_SIZE_def hm_contains_def Let_def)

lemma demo_node_parts:
  "nd_store demo_node = store_empty" "nd_put_limiter demo_node = RateLimiter_new 100 60" "nd_cache demo_node = None"
  by (simp_all add: demo_node_def)

lemma demo_env_parts:
  "e_now demo_env = 1000" "e_faults demo_env = (\<lambda>_. None)" "e_first_put demo_env = None" "e_crypto demo_env = toy_crypto"
  "e_random demo_env = 5"
  by (simp_all add: demo_env_def)

lemma demo_put_found: "msg_type (fst (handle_put demo_env demo_put demo_node)) = ''dht-found''"
proof -
  obtain rl where rl: "allow 1000 None demo_fp (RateLimiter_new 100 60) = (True, rl)"
    using demo_allow by (metis prod.collapse)
  obtain c where c: "verify_dht_put_signature demo_env (put_sign_data demo_key ''v'' ''s'' 1 7) ''x'' demo_fp demo_put None = (True, c)"
    using demo_verify by (metis prod.collapse)
  obtain st where st: "store_put (\<lambda>_. None) 1000 demo_key ''v'' ''s'' 1 demo_fp 86400 ''x'' 7 store_empty = (Inr True, st)"
    using demo_store by blast
  show ?thesis
    by (simp add: handle_put_def Let_def demo_fields demo_env_parts demo_node_parts rl put_guards_store_only STORE_TTL_def
        demo_guards c st)
qed

section \<open>Properties\<close>

text \<open>C1: A put changes the records only when every check passed: the rate limit of the publisher admits
  it, the key is a valid null identifier and belongs to the publisher's fingerprint, key and value fit,
  the key is already there or fewer than a million live records are (or the count could not be read),
  the envelope carries a signature, the lifetime is positive and at most one day,
  the proof of work is right for these contents, the nonce is new, the sequence number is larger than the
  stored one, and the signature check over key, value, salt, sequence and nonce succeeded.\<close>

theorem handle_put_guarded:
  assumes "nd_store (snd (handle_put E env nd)) \<noteq> nd_store nd"
  shows "let key = unwrap_or [] (payload_str env ''key''); v = unwrap_or [] (payload_str env ''value'');
             salt = unwrap_or [] (payload_str env ''salt''); seq = unwrap_or 0 (payload_i64 env ''seq'');
             nonce = unwrap_or 0 (payload_i64 env ''nonce''); fp = unwrap_or [] (payload_str env ''publisher_fp'')
         in fst (allow (e_now E) (e_first_put E) fp (nd_put_limiter nd))
          \<and> validate_null_id key \<and> length key \<le> 256 \<and> length v \<le> 16384 \<and> validate_fingerprint fp \<and> sig env \<noteq> []
          \<and> (hm_contains (kv_store (nd_store nd)) key \<or> e_faults E Q_count \<noteq> None
             \<or> length (filter (\<lambda>(_, r). e_now E < expires_at r) (kv_store (nd_store nd))) < 1000000)
          \<and> compute_null_id (e_crypto E) fp = (case strip_prefix ''addr:'' key of Some k \<Rightarrow> k | None \<Rightarrow> key)
          \<and> put_pow_ok E key v salt seq nonce fp
          \<and> (\<forall>s. hm_get (nd_seen nd) key = Some s \<longrightarrow> nonce \<notin> s)
          \<and> \<not> hm_contains (nonce_log (nd_store nd)) (key, nonce)
          \<and> (\<forall>r. hm_get (kv_store (nd_store nd)) key = Some r \<longrightarrow> kv_seq r < seq)
          \<and> fst (verify_dht_put_signature E (put_sign_data key v salt seq nonce) (sig env) fp env (nd_cache nd))
          \<and> (\<exists>r. hm_get (kv_store (nd_store (snd (handle_put E env nd)))) key = Some r
               \<and> e_now E < expires_at r \<and> expires_at r \<le> e_now E + 86400)"
proof (cases rule: handle_put_cases[of E env nd])
  case refused
  with assms show ?thesis by simp
next
  case (stored st cache)
  note g = put_guards_None[OF stored(2)]
  note ok = store_put_True[OF stored(4)]
  have "compute_null_id (e_crypto E) (p_fp env) = (case strip_prefix ''addr:'' (p_key env) of Some k \<Rightarrow> k | None \<Rightarrow> p_key env)"
    using g(9) valid_not_cert[OF g(1)] by (simp add: key_mismatch_def Let_def)
  moreover have "\<exists>r. hm_get (kv_store st) (p_key env) = Some r \<and> e_now E < expires_at r \<and> expires_at r \<le> e_now E + 86400"
    using g(3) by (simp add: ok(2) STORE_TTL_def)
  moreover note not_store_full[OF g(10)]
  ultimately show ?thesis
    using g(1-9) put_check_True[OF ok(1)] stored(3,5,7) by (simp add: Let_def MAX_KEY_SIZE_def MAX_VALUE_SIZE_def)
qed

theorem handle_put_guarded_witness:
  "put_pow_ok demo_env demo_key ''v'' ''s'' 1 7 demo_fp \<and> compute_null_id toy_crypto demo_fp = demo_key"
proof -
  have "nd_store (snd (handle_put demo_env demo_put demo_node)) \<noteq> nd_store demo_node"
  proof (cases rule: handle_put_cases[of demo_env demo_put demo_node])
    case refused
    with demo_put_found show ?thesis by simp
  next
    case (stored st cache)
    from store_put_True(2)[OF stored(4)] stored(5) have
      "hm_get (kv_store (nd_store (snd (handle_put demo_env demo_put demo_node)))) demo_key \<noteq> None"
      by (simp add: demo_fields)
    then show ?thesis by (auto simp: demo_node_parts store_empty_def)
  qed
  from handle_put_guarded[OF this] show ?thesis
    by (simp add: demo_fields demo_env_parts Let_def demo_valid(5))
qed

text \<open>C2: Publishing and reading agree: after a put that is answered with \<open>dht-found\<close>, a get of the key
  before the lifetime ends is answered with the published value, salt and sequence number.\<close>

theorem handle_put_then_get:
  assumes "msg_type (fst (handle_put E env nd)) = ''dht-found''"
    and "e_faults E' Q_get = None" "payload_str env' ''key'' = payload_str env ''key''"
    and "e_now E' < e_now E + real_of_int (min (unwrap_or STORE_TTL (payload_i64 env ''ttl'')) STORE_TTL)"
  shows "handle_get E' stealth env' (snd (handle_put E env nd))
       = dht_found E' (unwrap_or [] (payload_str env ''key'')) (unwrap_or [] (payload_str env ''value''))
           (unwrap_or [] (payload_str env ''salt'')) (unwrap_or 0 (payload_i64 env ''seq''))"
proof (cases rule: handle_put_cases[of E env nd])
  case refused
  with assms(1) show ?thesis by simp
next
  case (stored st cache)
  have "store_get (e_faults E') (e_now E') (p_key env) st = Inr (Some \<lparr>kv_value = p_value env, kv_salt = p_salt env,
      kv_seq = p_seq env, kv_publisher_fp = p_fp env, stored_at = e_now E,
      expires_at = e_now E + real_of_int (p_ttl env), kv_sig = sig env\<rparr>)"
    using assms(2,4) by (rule store_get_after_put[OF stored(4), of "e_faults E'" "e_now E'"])
  with put_guards_None(1)[OF stored(2)] stored(5) assms(3) show ?thesis
    by (simp add: handle_get_def Let_def)
qed

theorem handle_put_then_get_witness:
  "handle_get (demo_env\<lparr>e_now := 2000\<rparr>) False demo_put (snd (handle_put demo_env demo_put demo_node))
   = dht_found (demo_env\<lparr>e_now := 2000\<rparr>) demo_key ''v'' ''s'' 1"
proof -
  have "handle_get (demo_env\<lparr>e_now := 2000\<rparr>) False demo_put (snd (handle_put demo_env demo_put demo_node))
      = dht_found (demo_env\<lparr>e_now := 2000\<rparr>) (p_key demo_put) (p_value demo_put) (p_salt demo_put) (p_seq demo_put)"
    by (rule handle_put_then_get[OF demo_put_found]) (simp_all add: demo_env_parts demo_fields STORE_TTL_def)
  then show ?thesis by (simp add: demo_fields)
qed

text \<open>A put is not replayable: after it was stored, any put of the same key and nonce, even after the
  in-memory nonce sets were pruned or the node restarted with empty ones, is refused and changes no record.\<close>

theorem handle_put_no_replay:
  assumes "msg_type (fst (handle_put E env nd)) = ''dht-found''"
    and "nd_store nd' = nd_store (snd (handle_put E env nd))"
    and "payload_str env' ''key'' = payload_str env ''key''" "payload_i64 env' ''nonce'' = payload_i64 env ''nonce''"
  shows "msg_type (fst (handle_put E' env' nd')) = ''dht-error'' \<and> nd_store (snd (handle_put E' env' nd')) = nd_store nd'"
proof (cases rule: handle_put_cases[of E' env' nd'])
  case refused
  then show ?thesis by simp
next
  case again: (stored st2 cache2)
  show ?thesis
  proof (cases rule: handle_put_cases[of E env nd])
    case refused
    with assms(1) show ?thesis by simp
  next
    case (stored st cache)
    have "hm_contains (nonce_log (nd_store nd')) (p_key env', p_nonce env')"
      using assms(2-4) stored(5) store_put_True(2)[OF stored(4)] by simp
    with put_check_True(2)[OF store_put_True(1)[OF again(4)]] show ?thesis by simp
  qed
qed

theorem handle_put_no_replay_witness:
  "msg_type (fst (handle_put demo_env demo_put (demo_node\<lparr>nd_store := nd_store (snd (handle_put demo_env demo_put demo_node))\<rparr>)))
   = ''dht-error''"
  using handle_put_no_replay[OF demo_put_found, of "demo_node\<lparr>nd_store := nd_store (snd (handle_put demo_env demo_put demo_node))\<rparr>" demo_put demo_env]
  by simp

text \<open>The exemption of certificate keys in the put handler is dead code: every put whose key begins
  with \<open>cert:\<close> is refused because such a key is never a valid null identifier.\<close>

theorem handle_put_cert_key_refused:
  assumes "starts_with ''cert:'' (unwrap_or [] (payload_str env ''key''))"
  shows "msg_type (fst (handle_put E env nd)) = ''dht-error'' \<and> nd_store (snd (handle_put E env nd)) = nd_store nd"
proof (cases rule: handle_put_cases[of E env nd])
  case refused
  then show ?thesis by simp
next
  case (stored st cache)
  from put_guards_None(1)[OF stored(2)] cert_key_invalid[OF assms] show ?thesis by simp
qed

theorem handle_put_cert_key_refused_witness:
  "msg_type (fst (handle_put demo_env
     \<lparr>msg_type = ''dht-put'', payload = JObject [(''key'', JString ''cert:ab'')], msg_id = [], ts = 0, sig = []\<rparr>
     demo_node)) = ''dht-error''"
  using handle_put_cert_key_refused[of "\<lparr>msg_type = ''dht-put'', payload = JObject [(''key'', JString ''cert:ab'')], msg_id = [], ts = 0, sig = []\<rparr>" demo_env demo_node]
  by (simp add: payload_str_def payload_field_def starts_with_def)

text \<open>Anyone can replace anyone's record: a blob put needs no signature, proof of work or sequence for
  a key that does not begin with \<open>cert:\<close>, so it overwrites the address record of any null identifier, and
  a get of that identifier then returns the attacker's value.\<close>

theorem blob_put_hijacks_record:
  assumes "validate_null_id key" "payload_str env ''key'' = Some key" "payload_str env ''value'' = Some v"
    and "length v \<le> MAX_VALUE_SIZE" "\<forall>q. e_faults E q = None" "\<forall>q. e_faults E' q = None"
    and "e_now E' < e_now E + real_of_int (unwrap_or ADDR_TTL (payload_i64 env ''ttl''))"
    and "payload_str env' ''key'' = Some key"
  shows "handle_get E' stealth env' (snd (handle_blob_put E env nd))
       = dht_found E' key v (blob_salt (e_random E)) \<lfloor>e_now E\<rfloor>"
proof -
  have ne: "key \<noteq> []" using assms(1) by (auto simp: validate_null_id_def strip_prefix_def)
  show ?thesis
    using ne assms valid_not_cert[OF assms(1)]
    by (simp add: handle_get_def handle_blob_put_def put_blob_def store_get_def Let_def)
qed

theorem blob_put_hijacks_record_witness:
  "handle_get (demo_env\<lparr>e_now := 1001\<rparr>) False demo_put (snd (handle_blob_put demo_env demo_put demo_node))
   = dht_found (demo_env\<lparr>e_now := 1001\<rparr>) demo_key ''v'' (blob_salt 5) \<lfloor>1000 :: real\<rfloor>"
  using blob_put_hijacks_record[OF demo_valid(1), of demo_put "''v''" demo_env "demo_env\<lparr>e_now := 1001\<rparr>" demo_put False demo_node]
  by (simp add: demo_fields demo_env_parts MAX_VALUE_SIZE_def ADDR_TTL_def)

text \<open>The publisher binding of a put can be chosen by the sender. For any victim fingerprint, an
  envelope that carries the sender's own verifying key, that key's fingerprint as \<open>pq_publisher_fp\<close> and
  any well-formed signature passes the signature check, although the scheme may reject the signature.\<close>

theorem put_signature_forgeable:
  assumes "payload_str env ''publisher_verifying_key'' = Some vk_b64" "b64_decode (e_crypto E) vk_b64 = Some vk_bytes"
    and "vk_from_slice (e_crypto E) vk_bytes = Some vk"
    and "payload_str env ''pq_publisher_fp'' = Some (fingerprint_from_verifying_key (e_crypto E) vk)"
    and "b64_decode (e_crypto E) sg = Some bs" "encoded_sig (e_crypto E) bs = Some enc" "sig_decode (e_crypto E) enc = Some s"
  shows "fst (verify_dht_put_signature E data sg victim_fp env cache)"
  using assms
  by (simp add: verify_dht_put_signature_def constant_time_compare_def verify_signature_with_verifying_key_def
      pq_verify_def is_ok_def Let_def)

theorem put_signature_forgeable_witness:
  "\<not> dsa_verify toy_crypto 1 (str_bytes ''data'') 1 \<and> fst (verify_dht_put_signature demo_env ''data'' ''x'' ''victim'' demo_put None)"
proof -
  have "fst (verify_dht_put_signature demo_env ''data'' ''x'' ''victim'' demo_put None)"
    by (rule put_signature_forgeable[of demo_put "''k''" demo_env "str_bytes ''k''" 1 "''x''" "str_bytes ''x''" "str_bytes ''x''" 1])
      (simp_all add: demo_fields demo_env_parts toy_crypto_def)
  then show ?thesis by (simp add: toy_crypto_def)
qed

text \<open>After the background task ran, no nonce set has more than 64 members, but it keeps the largest
  numbers and not the latest: a nonce smaller than 64 others is forgotten however recent it is.\<close>

theorem prune_seen_keeps_largest:
  assumes "hm_get (nd_seen nd) k = Some s" "finite s" "hm_wf (nd_seen nd)"
  shows "(\<forall>s'. hm_get (nd_seen (prune_seen nd)) k = Some s' \<longrightarrow> s' \<subseteq> s \<and> card s' \<le> 64 \<and> (\<forall>x \<in> s'. \<forall>y \<in> s - s'. y < x))"
proof -
  have sub: "prune_set s \<subseteq> s"
    using assms(2) by (auto simp: prune_set_def Let_def dest: in_set_dropD)
  have ord: "y < x" if x: "x \<in> prune_set s" and y: "y \<in> s - prune_set s" for x y
  proof (cases "card s > 64")
    case False
    with y show ?thesis by (simp add: prune_set_def)
  next
    case True
    let ?l = "sorted_list_of_set s" and ?n = "length (sorted_list_of_set s) - 64"
    have x': "x \<in> set (drop ?n ?l)" using x True by (simp add: prune_set_def Let_def)
    have "y \<in> set (take ?n ?l @ drop ?n ?l)" using y assms(2) by (simp only: append_take_drop_id) simp
    moreover have "y \<notin> set (drop ?n ?l)" using y True by (simp add: prune_set_def Let_def)
    ultimately have y': "y \<in> set (take ?n ?l)" by (simp only: set_append Un_iff) blast
    have "sorted_wrt (<) (take ?n ?l @ drop ?n ?l)" by (simp only: append_take_drop_id strict_sorted_list_of_set)
    with x' y' show ?thesis by (simp only: sorted_wrt_append)
  qed
  have "s' = prune_set s" if "hm_get (nd_seen (prune_seen nd)) k = Some s'" for s'
  proof -
    have "hm_wf (map (\<lambda>(k, s). (k, prune_set s)) (nd_seen nd))" using assms(3) by simp
    then have "hm_get (map (\<lambda>(k, s). (k, prune_set s)) (nd_seen nd)) k = Some s'"
      using that unfolding prune_seen_def hm_get_def hm_wf_def
      by (auto dest!: map_of_SomeD intro!: map_of_is_SomeI)
    with assms(1) show ?thesis by simp
  qed
  with sub ord prune_set_card[OF assms(2)] show ?thesis by blast
qed

theorem prune_seen_keeps_largest_witness:
  "\<forall>s'. hm_get (nd_seen (prune_seen (demo_node\<lparr>nd_seen := [(''k'', {1 .. 100})]\<rparr>))) ''k'' = Some s' \<longrightarrow> card s' \<le> 64"
  using prune_seen_keeps_largest[of "demo_node\<lparr>nd_seen := [(''k'', {1 .. 100})]\<rparr>" "''k''" "{1 .. 100}"]
  by (simp add: hm_wf_def)

section \<open>The node as a blob service\<close>

text \<open>A node can serve when its database has no faults, its clock reads a rational number, and its JSON
  reader understands its own replies.\<close>

definition dht_ready :: "('vk, 'sg) dht_env \<Rightarrow> bool" where
  "dht_ready E \<longleftrightarrow>
     (\<forall>q. e_faults E q = None) \<and> e_now E \<in> \<rat>
     \<and> (\<forall>r. rat_env r \<longrightarrow> (\<exists>r'. e_reparse E r = Inr r' \<and> env_agrees r r' \<and> rat_env r'))"

lemma dispatch_blob_get: "is_blob_get env key \<Longrightarrow> dispatch E stealth ip env nd = (handle_blob_get E env nd, nd)"
  by (simp add: is_blob_get_def dispatch_def)

lemma dispatch_blob_put: "is_blob_put env key v ttl \<Longrightarrow> dispatch E stealth ip env nd = handle_blob_put E env nd"
  by (simp add: is_blob_put_def dispatch_def)

definition blob_record :: "('vk, 'sg) dht_env \<Rightarrow> WireEnvelope \<Rightarrow> string \<Rightarrow> int \<Rightarrow> KvRecord" where
  "blob_record E env v ttl =
     \<lparr>kv_value = v, kv_salt = blob_salt (e_random E), kv_seq = \<lfloor>e_now E\<rfloor>,
      kv_publisher_fp = unwrap_or [] (payload_str env ''publisher_fp''), stored_at = e_now E,
      expires_at = e_now E + real_of_int ttl, kv_sig = unwrap_or [] (payload_str env ''sig'')\<rparr>"

text \<open>A certificate is taken only with a signature that passes the check; other blobs always are.\<close>

definition cert_check :: "('vk, 'sg) dht_env \<Rightarrow> WireEnvelope \<Rightarrow> 'vk node \<Rightarrow> bool \<times> 'vk vk_cache" where
  "cert_check E env nd =
     (let key = unwrap_or [] (payload_str env ''key''); v = unwrap_or [] (payload_str env ''value'');
          fp = unwrap_or [] (payload_str env ''publisher_fp''); sg = unwrap_or [] (payload_str env ''sig'')
      in if starts_with ''cert:'' key
         then verify_dht_put_signature E (key @ ''|'' @ v @ ''|'' @ fp) sg fp env (nd_cache nd)
         else (True, nd_cache nd))"

definition dht_admits :: "('vk, 'sg) dht_env \<Rightarrow> WireEnvelope \<Rightarrow> 'vk node \<Rightarrow> bool" where
  "dht_admits E env nd = fst (cert_check E env nd)"

lemma handle_blob_put_eq:
  assumes "is_blob_put env key v ttl"
  shows "handle_blob_put E env nd =
    (let nd1 = nd\<lparr>nd_cache := snd (cert_check E env nd)\<rparr>
     in if \<not> dht_admits E env nd then (dht_error E key ''invalid cert bundle signature'', nd1)
        else case e_faults E Q_insert_kv of
          None \<Rightarrow> (dht_found E key v (blob_salt (e_random E)) \<lfloor>e_now E * 1000\<rfloor>,
                   nd1\<lparr>nd_store := replace_kv key (blob_record E env v ttl) (nd_store nd)\<rparr>)
        | Some e \<Rightarrow> (dht_error E key ''storage error'', nd1))"
  using assms
  by (auto simp: is_blob_put_def handle_blob_put_def put_blob_def blob_record_def cert_check_def dht_admits_def Let_def
      split: option.splits prod.splits)

lemma hm_get_replace_kv: "hm_get (kv_store (replace_kv key r st)) k = (if k = key then Some r else hm_get (kv_store st) k)"
  by (simp add: replace_kv_def)

lemma handle_blob_get_cong:
  assumes "is_blob_get env key" "hm_get (kv_store (nd_store nd)) key = hm_get (kv_store (nd_store nd')) key"
  shows "handle_blob_get E env nd = handle_blob_get E env nd'"
proof -
  have "store_get F t key (nd_store nd) = store_get F t key (nd_store nd')" for F t
    using assms(2) by (simp add: store_get_def split: option.split)
  then show ?thesis using assms(1) by (simp add: is_blob_get_def handle_blob_get_def)
qed

lemma dispatch_put_of: "is_put_of env key \<Longrightarrow> dispatch E stealth ip env nd = handle_blob_put E env nd"
  by (simp add: is_put_of_def dispatch_def)

text \<open>Whatever becomes of a put, only its own key can change, and the reply has no number but the clock.\<close>

lemma handle_blob_put_other:
  assumes "is_put_of env key" "key' \<noteq> key"
  shows "hm_get (kv_store (nd_store (snd (handle_blob_put E env nd)))) key' = hm_get (kv_store (nd_store nd)) key'"
  using assms
  by (auto simp: is_put_of_def handle_blob_put_def put_blob_def hm_get_replace_kv Let_def unwrap_or_def
      split: option.splits prod.splits sum.splits bool.splits if_splits)

lemma found_reply: "found_value (dht_found E key v salt seq) v \<longleftrightarrow> e_now E \<in> \<rat>"
  by (simp add: found_value_def dht_found_def build_dht_found_def payload_str_def payload_field_def rat_env_def)

lemma blob_reply_found:
  assumes "dht_ready E'" "is_blob_get env' key" "hm_get (kv_store (nd_store nd)) key = Some r"
    and "e_now E' < expires_at r" "expires_at r \<in> \<rat>"
  shows "found_value (handle_blob_get E' env' nd) (kv_value r)"
proof -
  have "rat_env (blob_reply E' key r)"
    using assms(1,5) by (simp add: blob_reply_def rat_env_def dht_ready_def)
  then obtain r' where r': "e_reparse E' (blob_reply E' key r) = Inr r'" "env_agrees (blob_reply E' key r) r'" "rat_env r'"
    using assms(1) unfolding dht_ready_def by blast
  then have "handle_blob_get E' env' nd = r'"
    using assms by (simp add: is_blob_get_def handle_blob_get_def store_get_def dht_ready_def)
  moreover have "msg_type (blob_reply E' key r) = ''dht-found''" "payload_str (blob_reply E' key r) ''value'' = Some (kv_value r)"
    by (simp_all add: blob_reply_def payload_str_def payload_field_def)
  ultimately show ?thesis using env_agreesD[OF r'(2)] r'(3) by (simp add: found_value_def)
qed

interpretation dht: blob_service "\<lambda>E. dispatch E stealth ip" dht_ready e_now dht_admits for stealth ip
proof
  fix E :: "('vk, 'sg) dht_env" and env key v ttl n
  assume E: "dht_ready E" and put: "is_blob_put env key v ttl" and ok: "dht_admits E env n"
  have q: "e_faults E Q_insert_kv = None" "e_now E \<in> \<rat>" using E by (simp_all add: dht_ready_def)
  show "found_value (fst (dispatch E stealth ip env n)) v"
    by (simp add: dispatch_blob_put[OF put] handle_blob_put_eq[OF put] q ok Let_def found_reply)
  fix E' :: "('vk, 'sg) dht_env" and env'
  assume E': "dht_ready E'" and get: "is_blob_get env' key" and t: "e_now E' < e_now E + real_of_int ttl"
  have "found_value (handle_blob_get E' env' (snd (handle_blob_put E env n))) (kv_value (blob_record E env v ttl))"
    by (rule blob_reply_found[OF E' get, of _ "blob_record E env v ttl"])
      (use t q ok in \<open>simp_all add: handle_blob_put_eq[OF put] Let_def hm_get_replace_kv blob_record_def\<close>)
  then show "found_value (fst (dispatch E' stealth ip env' (snd (dispatch E stealth ip env n)))) v"
    by (simp add: dispatch_blob_put[OF put] dispatch_blob_get[OF get] blob_record_def)
next
  fix E :: "('vk, 'sg) dht_env" and env key n
  assume "is_blob_get env key"
  then show "snd (dispatch E stealth ip env n) = n" by (simp add: dispatch_blob_get)
next
  fix E E' :: "('vk, 'sg) dht_env" and env key env' key' n
  assume put: "is_put_of env key" and get: "is_blob_get env' key'" and ne: "key' \<noteq> key"
  have "handle_blob_get E' env' (snd (handle_blob_put E env n)) = handle_blob_get E' env' n"
    by (rule handle_blob_get_cong[OF get handle_blob_put_other[OF put ne]])
  then show "fst (dispatch E' stealth ip env' (snd (dispatch E stealth ip env n))) = fst (dispatch E' stealth ip env' n)"
    by (simp add: dispatch_put_of[OF put] dispatch_blob_get[OF get])
qed

end
