(* ===== verification/ClientDirectory.thy ===== *)
theory ClientDirectory
  imports ClientNet ClientRelay DhtNode
begin

text \<open>
  The client's use of the DHT, in \<open>client/src/main.rs\<close>: fetching certificates directly and through a relay
  (with the relay's side of the proxy, \<open>relay/src/main.rs\<close>), resolving the encapsulation key of a peer,
  adding a contact, publishing the certificate, registering the identity, and finding public services.

  Every function takes the state \<open>'w\<close> of the network and returns the next one.
\<close>

section \<open>Definitions\<close>

record ('ek, 'dk, 'vk, 'sg, 'w) dir_env =
  de_net :: "'w net"
  de_codec :: codec
  de_prims :: "('ek, 'dk) prims"
  de_crypto :: "('vk, 'sg) crypto"
  de_hex :: key_env
  de_parse :: "bytes \<Rightarrow> (string, json) result"
  de_text :: "json \<Rightarrow> (string, string) result"
  ek_parse :: "bytes \<Rightarrow> 'ek option"
  ek_bytes :: "'ek \<Rightarrow> bytes"
  de_sign :: "string \<Rightarrow> (string, string) result"

subsection \<open>Keys and requests\<close>

definition cert_blob_key :: "('vk, 'sg) crypto \<Rightarrow> string \<Rightarrow> string" where
  "cert_blob_key cr fingerprint = ''cert:'' @ hex_encode (sha256 cr (str_bytes fingerprint))"

definition encode_enc_key :: "('ek, 'dk, 'vk, 'sg, 'w) dir_env \<Rightarrow> 'ek \<Rightarrow> string" where
  "encode_enc_key E key = b64_enc (de_prims E) (ek_bytes E key)"

definition decode_enc_key :: "('ek, 'dk, 'vk, 'sg, 'w) dir_env \<Rightarrow> string \<Rightarrow> (CryptoError, 'ek) result" where
  "decode_enc_key E b64 =
     (case b64_dec (de_prims E) b64 of
        Inl e \<Rightarrow> Inl (KeyPersistence (''base64 decode: '' @ e))
      | Inr bs \<Rightarrow>
          (case ek_parse E bs of
             None \<Rightarrow> Inl (KeyPersistence ''invalid enc key bytes'')
           | Some k \<Rightarrow> Inr k))"

definition get_request :: "string \<Rightarrow> string \<Rightarrow> string \<Rightarrow> string \<Rightarrow> real \<Rightarrow> WireEnvelope" where
  "get_request kind key sg uuid now =
     \<lparr>msg_type = kind, payload = JObject [(''key'', JString key)], msg_id = uuid, ts = now, sig = sg\<rparr>"

definition ask_blob :: "('ek, 'dk, 'vk, 'sg, 'w) dir_env \<Rightarrow> string \<Rightarrow> string \<Rightarrow> 'w \<Rightarrow> ask \<times> 'w" where
  "ask_blob E seed_url key w =
     ask_server (de_net E) (to_ws_url seed_url)
       (\<lambda>uuid now. to_json (de_codec E) (get_request ''blob-get'' key [] uuid now)) w"

subsection \<open>Fetching a certificate\<close>

definition cert_bundle :: "('ek, 'dk, 'vk, 'sg, 'w) dir_env \<Rightarrow> string \<Rightarrow> (string, string \<times> string \<times> string) result" where
  "cert_bundle E v =
     (case b64_dec (de_prims E) v of Inl e \<Rightarrow> Inl (''cert blob not base64: '' @ e) | Inr bundle_bytes \<Rightarrow>
     (case de_parse E bundle_bytes of Inl e \<Rightarrow> Inl (''cert bundle not JSON: '' @ e) | Inr bundle \<Rightarrow>
     (case b64_dec (de_prims E) (unwrap_or [] (field_str bundle ''cert'')) of
        Inl e \<Rightarrow> Inl (''cert not base64: '' @ e)
      | Inr armored_bytes \<Rightarrow>
     (case utf8 (de_prims E) armored_bytes of Inl e \<Rightarrow> Inl (''cert blob not utf8: '' @ e) | Inr armored \<Rightarrow>
        Inr (armored, unwrap_or [] (field_str bundle ''vk''), unwrap_or [] (field_str bundle ''kyber_enc''))))))"

text \<open>What both ways of fetching make of the outcome of the exchange; the arguments are the texts in
  which they differ.\<close>

definition cert_of_ask ::
    "('ek, 'dk, 'vk, 'sg, 'w) dir_env \<Rightarrow> string \<Rightarrow> string \<Rightarrow> string \<Rightarrow> ask \<Rightarrow> (string, string \<times> string \<times> string) result" where
  "cert_of_ask E connect_failed prefix_text silent a =
     (case a of
        NoConnect e \<Rightarrow> Inl (connect_failed @ e)
      | NoText e \<Rightarrow> Inl e
      | NoSend e \<Rightarrow> Inl (prefix_text @ ''cert fetch send failed: '' @ e)
      | Answered (Frame (Text t)) \<Rightarrow>
          (case from_json (de_codec E) t of
             Inl e \<Rightarrow> Inl (prefix_text @ ''cert fetch parse failed: '' @ e)
           | Inr resp \<Rightarrow>
               if msg_type resp \<noteq> ''dht-found'' then Inl (prefix_text @ ''cert not found: '' @ msg_type resp)
               else (case payload_str resp ''value'' of
                       None \<Rightarrow> Inl ''missing cert blob value''
                     | Some v \<Rightarrow> cert_bundle E v))
      | _ \<Rightarrow> Inl silent)"

definition dht_fetch_cert ::
    "('ek, 'dk, 'vk, 'sg, 'w) dir_env \<Rightarrow> string \<Rightarrow> string \<Rightarrow> 'w \<Rightarrow> (string, string \<times> string \<times> string) result \<times> 'w" where
  "dht_fetch_cert E seed_url fingerprint w =
     (case ask_blob E seed_url (cert_blob_key (de_crypto E) fingerprint) w of
        (a, w1) \<Rightarrow> (cert_of_ask E ''DHT connect failed: '' [] ''no response from bootstrap'' a, w1))"

definition proxy_request :: "string \<Rightarrow> string \<Rightarrow> real \<Rightarrow> json" where
  "proxy_request key uuid now =
     JObject [(''msg_type'', JString ''dht-proxy-get''), (''msg_id'', JString uuid), (''ts'', JFloat now),
              (''sig'', JString []), (''payload'', JObject [(''key'', JString key)])]"

definition dht_proxy_fetch_cert ::
    "('ek, 'dk, 'vk, 'sg, 'w) dir_env \<Rightarrow> string \<Rightarrow> string \<Rightarrow> 'w \<Rightarrow> (string, string \<times> string \<times> string) result \<times> 'w" where
  "dht_proxy_fetch_cert E relay_url fingerprint w =
     (case ask_server (de_net E) (to_ws_url relay_url)
             (\<lambda>uuid now. de_text E (proxy_request (cert_blob_key (de_crypto E) fingerprint) uuid now)) w of
        (a, w1) \<Rightarrow> (cert_of_ask E ''relay proxy connect failed: '' ''proxy '' ''no response from relay proxy'' a, w1))"

text \<open>The relay's side: it asks one of its bootstrap servers, chosen by the random \<open>idx\<close>, and passes the
  text of the answer on.\<close>

definition proxy_get_request :: "string \<Rightarrow> string \<Rightarrow> real \<Rightarrow> json" where
  "proxy_get_request key uuid now =
     JObject [(''type'', JString ''blob-get''), (''msg_id'', JString uuid), (''ts'', JFloat now),
              (''sig'', JString []), (''payload'', JObject [(''key'', JString key)])]"

definition proxy_dht_get ::
    "'w net \<Rightarrow> (json \<Rightarrow> (string, string) result) \<Rightarrow> nat \<Rightarrow> string list \<Rightarrow> string \<Rightarrow> 'w \<Rightarrow> (string, string) result \<times> 'w" where
  "proxy_dht_get N text_of idx bootstraps key w =
     (if bootstraps = [] then (Inl ''no bootstrap configured'', w)
      else case ask_server N (to_ws_url (bootstraps ! (idx mod length bootstraps)))
                  (\<lambda>uuid now. text_of (proxy_get_request key uuid now)) w of
             (a, w1) \<Rightarrow>
               ((case a of
                   NoConnect e \<Rightarrow> Inl e
                 | NoText e \<Rightarrow> Inl e
                 | NoSend e \<Rightarrow> Inl (''proxy blob-get send failed: '' @ e)
                 | Answered (Frame (Text t)) \<Rightarrow> Inr t
                 | Answered (Frame _) \<Rightarrow> Inl ''unexpected non-text proxy response''
                 | Answered (StreamError e) \<Rightarrow> Inl (''proxy read failed: '' @ e)
                 | _ \<Rightarrow> Inl ''bootstrap closed connection without reply''), w1))"

definition dht_fetch_cert_blind ::
    "('ek, 'dk, 'vk, 'sg, 'w) dir_env \<Rightarrow> string list \<Rightarrow> string \<Rightarrow> string \<Rightarrow> 'w
     \<Rightarrow> (string, string \<times> string \<times> string) result \<times> 'w" where
  "dht_fetch_cert_blind E relays seed_url fingerprint w =
     (case select_fastest_relay (de_net E) relays w of
        (None, w1) \<Rightarrow> dht_fetch_cert E seed_url fingerprint w1
      | (Some relay, w1) \<Rightarrow>
          (case dht_proxy_fetch_cert E relay fingerprint w1 of
             (Inr cert, w2) \<Rightarrow> (Inr cert, w2)
           | (Inl _, w2) \<Rightarrow> dht_fetch_cert E seed_url fingerprint w2))"

subsection \<open>Resolving a peer\<close>

text \<open>The loop over the bootstrap servers that turns an OpenPGP fingerprint into the fingerprint of the
  verifying key of its certificate; it ends at the first server that returns a certificate.\<close>

fun resolve_pq ::
    "('ek, 'dk, 'vk, 'sg, 'w) dir_env \<Rightarrow> string list \<Rightarrow> string \<Rightarrow> string list \<Rightarrow> 'w
     \<Rightarrow> (string, string option) result \<times> 'w" where
  "resolve_pq E relays fp [] w = (Inr None, w)"
| "resolve_pq E relays fp (seed # seeds) w =
     (case dht_fetch_cert_blind E relays seed fp w of
        (Inl _, w1) \<Rightarrow> resolve_pq E relays fp seeds w1
      | (Inr (_, vk, _), w1) \<Rightarrow>
          ((case b64_dec (de_prims E) vk of
              Inl e \<Rightarrow> Inl (''decode vk: '' @ e)
            | Inr vk_bytes \<Rightarrow>
                (case vk_from_slice (de_crypto E) vk_bytes of
                   None \<Rightarrow> Inl ''parse vk: invalid length''
                 | Some k \<Rightarrow> Inr (Some (fingerprint_from_verifying_key (de_crypto E) k)))), w1))"

fun fetch_kyber ::
    "('ek, 'dk, 'vk, 'sg, 'w) dir_env \<Rightarrow> string list \<Rightarrow> string \<Rightarrow> string list \<Rightarrow> string option \<Rightarrow> 'w
     \<Rightarrow> (string, 'ek) result \<times> 'w" where
  "fetch_kyber E relays fp [] last_err w =
     (Inl (unwrap_or ''no bootstrap reachable to fetch peer cert'' last_err), w)"
| "fetch_kyber E relays fp (seed # seeds) last_err w =
     (case dht_fetch_cert_blind E relays seed fp w of
        (Inl e, w1) \<Rightarrow> fetch_kyber E relays fp seeds (Some e) w1
      | (Inr (_, _, kyber_enc), w1) \<Rightarrow>
          (map_sum (\<lambda>e. ''decode peer kyber enc key: '' @ crypto_error_text e) id (decode_enc_key E kyber_enc), w1))"

definition is_hex_of :: "nat \<Rightarrow> string \<Rightarrow> bool" where
  "is_hex_of n s = (length s = n \<and> list_all is_ascii_hexdigit s)"

definition lookup_kyber_for_nid ::
    "('ek, 'dk, 'vk, 'sg, 'w) dir_env \<Rightarrow> string \<Rightarrow> 'w \<Rightarrow> (string, 'ek) result \<times> 'w" where
  "lookup_kyber_for_nid E ident w =
     (if \<not> is_hex_of 64 ident \<and> \<not> is_hex_of 40 ident then
        (Inl (''lookup_kyber_for_nid: '' @ [CHR 0x27] @ ident @ [CHR 0x27]
              @ '' is not a peer fingerprint; relay sealed-sender KEM lookup is not supported''), w)
      else
        (case (if is_hex_of 40 ident then
                 (case discover_all_servers (de_net E) w of ((_, bootstraps, relays), w1) \<Rightarrow>
                    (case resolve_pq E relays ident bootstraps w1 of
                       (Inl e, w2) \<Rightarrow> (Inl e, w2)
                     | (Inr None, w2) \<Rightarrow> (Inl ''could not resolve PQ fingerprint for GPG FP'', w2)
                     | (Inr (Some pq), w2) \<Rightarrow> (Inr pq, w2)))
               else (Inr ident, w)) of
           (Inl e, w3) \<Rightarrow> (Inl e, w3)
         | (Inr pq_fp, w3) \<Rightarrow>
             (case discover_all_servers (de_net E) w3 of ((seed_url, bootstraps, relays), w4) \<Rightarrow>
                fetch_kyber E relays pq_fp (bootstraps @ [seed_url]) None w4)))"

text \<open>The command \<open>add-contact\<close>; \<open>save_err\<close> is the error of writing the contact list, if there is one. The
  exit of the process when the fingerprint cannot be resolved is an error.\<close>

definition add_contact ::
    "('ek, 'dk, 'vk, 'sg, 'w) dir_env \<Rightarrow> string option \<Rightarrow> string \<Rightarrow> string \<Rightarrow> (string, string) hmap \<Rightarrow> 'w
     \<Rightarrow> (string, string) result \<times> (string, string) hmap \<times> 'w" where
  "add_contact E save_err nid fingerprint contacts w =
     (if length fingerprint < 32 \<or> \<not> list_all is_ascii_hexdigit fingerprint then
        (Inl ''invalid fingerprint format - must be 32-64 hex chars'', contacts, w)
      else
        (case (if is_hex_of 40 fingerprint then
                 (case discover_all_servers (de_net E) w of ((_, bootstraps, relays), w1) \<Rightarrow>
                    (case resolve_pq E relays fingerprint bootstraps w1 of
                       (Inl e, w2) \<Rightarrow> (Inl e, w2)
                     | (Inr None, w2) \<Rightarrow> (Inl ''exit: could not resolve PQ fingerprint'', w2)
                     | (Inr (Some pq), w2) \<Rightarrow> (Inr pq, w2)))
               else if is_hex_of 64 fingerprint then (Inr (to_uppercase fingerprint), w)
               else (Inl ''fingerprint must be 40-char GPG or 64-char PQ hex'', w)) of
           (Inl e, w3) \<Rightarrow> (Inl e, contacts, w3)
         | (Inr pq, w3) \<Rightarrow>
             (case save_err of
                Some e \<Rightarrow> (Inl e, contacts, w3)
              | None \<Rightarrow> (Inr pq, hm_insert nid pq contacts, w3))))"

subsection \<open>Publishing the certificate\<close>

text \<open>What publishing reads from the disk: the armored public certificate, the verifying key of a stored
  signing key, the encapsulation key, and the fingerprint of the certificate.\<close>

record ('ek, 'vk) own_keys =
  ok_armored :: "(string, string) result"
  ok_vk :: "string \<Rightarrow> (string, 'vk) result"
  ok_kyber :: "(string, 'ek) result"
  ok_gpg_fp :: "(string, string) result"

definition vk_b64 :: "('ek, 'dk, 'vk, 'sg, 'w) dir_env \<Rightarrow> 'vk \<Rightarrow> string" where
  "vk_b64 E vk = b64_enc (de_prims E) (vk_to_bytes (de_crypto E) vk)"

definition bundle_json :: "string \<Rightarrow> string \<Rightarrow> string \<Rightarrow> string \<Rightarrow> json" where
  "bundle_json cert vk kyber_enc fp =
     JObject [(''cert'', JString cert), (''vk'', JString vk), (''kyber_enc'', JString kyber_enc), (''fp'', JString fp)]"

definition cert_put_request ::
    "string \<Rightarrow> string \<Rightarrow> string \<Rightarrow> string \<Rightarrow> string \<Rightarrow> string \<Rightarrow> string \<Rightarrow> real \<Rightarrow> WireEnvelope" where
  "cert_put_request key v sg fp vk kyber_enc uuid now =
     \<lparr>msg_type = ''blob-put'',
      payload = JObject
        [(''key'', JString key), (''value'', JString v), (''sig'', JString sg), (''publisher_fp'', JString fp),
         (''publisher_verifying_key'', JString vk), (''pq_publisher_fp'', JString fp), (''ttl'', JInt ADDR_TTL),
         (''nonce'', JInt (int (length uuid))), (''vk'', JString vk), (''kyber_enc'', JString kyber_enc)],
      msg_id = uuid, ts = now, sig = sg\<rparr>"

text \<open>The tally of one reply: the number of successes and the last error.\<close>

definition tally :: "codec \<Rightarrow> string \<Rightarrow> ask \<Rightarrow> nat \<times> string option \<Rightarrow> nat \<times> string option" where
  "tally C rejected a st =
     (case reply_of C a of
        None \<Rightarrow> st
      | Some resp \<Rightarrow> if msg_type resp = ''dht-found'' then (Suc (fst st), snd st)
                     else (fst st, Some (rejected @ msg_type resp)))"

fun publish_loop ::
    "('ek, 'dk, 'vk, 'sg, 'w) dir_env \<Rightarrow> (string, string) result \<Rightarrow> string \<Rightarrow> (string \<Rightarrow> string \<Rightarrow> real \<Rightarrow> WireEnvelope)
     \<Rightarrow> string list \<Rightarrow> nat \<times> string option \<Rightarrow> 'w \<Rightarrow> (string, nat \<times> string option) result \<times> 'w" where
  "publish_loop E gpg_fp fp put_req [] st w = (Inr st, w)"
| "publish_loop E gpg_fp fp put_req (seed # seeds) st w =
     (let C = de_codec E; N = de_net E; url = to_ws_url seed; key_of = cert_blob_key (de_crypto E);
          text_of = (\<lambda>k uuid now. to_json C (put_req k uuid now))
      in (case net_connect N url w of
            (Inl e, w1) \<Rightarrow> publish_loop E gpg_fp fp put_req seeds (fst st, Some (''DHT connect failed: '' @ e)) w1
          | (Inr _, w1) \<Rightarrow>
              (case ask_open N url (text_of (key_of fp)) w1 of (a, w2) \<Rightarrow>
                 (case a of
                    NoText e \<Rightarrow> (Inl e, w2)
                  | NoSend e \<Rightarrow> publish_loop E gpg_fp fp put_req seeds (fst st, Some (''cert publish send failed: '' @ e)) w2
                  | _ \<Rightarrow>
                      (let st1 = tally C ''cert publish rejected: '' a st
                       in case gpg_fp of
                            Inl e \<Rightarrow> (Inl e, w2)
                          | Inr gpg \<Rightarrow>
                              (case ask_open N url (text_of (key_of gpg)) w2 of (a2, w3) \<Rightarrow>
                                 (case a2 of
                                    NoText e \<Rightarrow> (Inl e, w3)
                                  | NoSend e \<Rightarrow>
                                      publish_loop E gpg_fp fp put_req seeds (fst st1, Some (''cert publish send failed (gpg): '' @ e)) w3
                                  | _ \<Rightarrow> publish_loop E gpg_fp fp put_req seeds (tally C ''cert publish rejected (gpg): '' a2 st1) w3)))))))"

definition cert_value :: "('ek, 'dk, 'vk, 'sg, 'w) dir_env \<Rightarrow> string \<Rightarrow> 'vk \<Rightarrow> 'ek \<Rightarrow> (string, string) result" where
  "cert_value E armored vk ek =
     map_sum id (\<lambda>t. b64_enc (de_prims E) (str_bytes t))
       (de_text E (bundle_json (b64_enc (de_prims E) (str_bytes armored)) (vk_b64 E vk) (encode_enc_key E ek)
          (fingerprint_from_verifying_key (de_crypto E) vk)))"

definition dht_publish_cert ::
    "('ek, 'dk, 'vk, 'sg, 'w) dir_env \<Rightarrow> ('ek, 'vk) own_keys \<Rightarrow> Identity \<Rightarrow> 'w \<Rightarrow> (string, unit) result \<times> 'w" where
  "dht_publish_cert E K identity w =
     (case ok_armored K of Inl e \<Rightarrow> (Inl e, w) | Inr armored \<Rightarrow>
     (case ml_dsa87_signing_key identity of
        None \<Rightarrow> (Inl (''ML-DSA-87 signing key not found - re-run '' @ [CHR 0x27] @ ''add init'' @ [CHR 0x27]), w)
      | Some sk \<Rightarrow>
     (case ok_vk K sk of Inl e \<Rightarrow> (Inl e, w) | Inr vk \<Rightarrow>
     (case ok_kyber K of Inl e \<Rightarrow> (Inl e, w) | Inr ek \<Rightarrow>
     (let fp = fingerprint_from_verifying_key (de_crypto E) vk
      in case cert_value E armored vk ek of Inl e \<Rightarrow> (Inl e, w) | Inr v \<Rightarrow>
     (case de_sign E (cert_blob_key (de_crypto E) fp @ ''|'' @ v @ ''|'' @ fp) of Inl e \<Rightarrow> (Inl e, w) | Inr sg \<Rightarrow>
     (case discover_all_servers (de_net E) w of ((_, bootstraps, _), w1) \<Rightarrow>
     (case publish_loop E (ok_gpg_fp K) fp
             (\<lambda>key. cert_put_request key v sg fp (vk_b64 E vk) (encode_enc_key E ek)) bootstraps (0, None) w1 of
        (Inl e, w2) \<Rightarrow> (Inl e, w2)
      | (Inr (n, last_error), w2) \<Rightarrow>
          (if 0 < n then Inr () else Inl (unwrap_or ''No bootstrap servers available'' last_error), w2)))))))))"

subsection \<open>Lookups of records and public services\<close>

definition dht_get ::
    "('ek, 'dk, 'vk, 'sg, 'w) dir_env \<Rightarrow> string \<Rightarrow> string \<Rightarrow> 'w \<Rightarrow> (string, string option) result \<times> 'w" where
  "dht_get E seed_url nid w =
     (case ask_server (de_net E) seed_url
             (\<lambda>uuid now. to_json (de_codec E) (get_request ''dht-get'' nid [] uuid now)) w of
        (NoConnect e, w1) \<Rightarrow> (Inl (''DHT connect failed: '' @ e), w1)
      | (NoText e, w1) \<Rightarrow> (Inl e, w1)
      | (NoSend e, w1) \<Rightarrow> (Inl (''DHT send failed: '' @ e), w1)
      | (Answered (Frame (Text t)), w1) \<Rightarrow>
          ((case from_json (de_codec E) t of
              Inl e \<Rightarrow> Inl e
            | Inr resp \<Rightarrow>
                let v = unwrap_or [] (payload_str resp ''value'')
                in Inr (if msg_type resp = ''dht-found'' \<and> v \<noteq> [] then Some v else None)), w1)
      | (_, w1) \<Rightarrow> (Inr None, w1))"

definition fetch_peer_verifying_key ::
    "('ek, 'dk, 'vk, 'sg, 'w) dir_env \<Rightarrow> string \<Rightarrow> string \<Rightarrow> 'vk vk_cache \<Rightarrow> 'w \<Rightarrow> bool \<times> 'vk vk_cache \<times> 'w" where
  "fetch_peer_verifying_key E seed_url peer cache w =
     (let N = de_net E; url = to_ws_url seed_url; key = compute_null_id (de_crypto E) peer
      in case net_connect N url w of
           (Inl _, w1) \<Rightarrow> (False, cache, w1)
         | (Inr _, w1) \<Rightarrow>
             (case de_sign E (''dht-get:{'' @ [CHR 0x22] @ ''key'' @ [CHR 0x22] @ '':'' @ [CHR 0x22] @ key @ [CHR 0x22] @ ''}'' @ [CHR 0x0A]) of
                Inl _ \<Rightarrow> (False, cache, w1)
              | Inr sg \<Rightarrow>
                  (case ask_open N url (\<lambda>uuid now. to_json (de_codec E) (get_request ''dht-get'' key sg uuid now)) w1 of
                     (a, w2) \<Rightarrow>
                       (case Option.bind (reply_of (de_codec E) a) (\<lambda>resp. Option.bind (payload_str resp ''publisher_verifying_key'')
                               (\<lambda>b. Option.bind (b64_decode (de_crypto E) b) (vk_from_slice (de_crypto E)))) of
                          None \<Rightarrow> (False, cache, w2)
                        | Some vk \<Rightarrow>
                            (case net_stamp N w2 of ((_, now), w3) \<Rightarrow>
                               (True, cache_verifying_key now peer vk cache, w3))))))"

definition REFLECTOR_NULL_ID :: string where "REFLECTOR_NULL_ID = ''NN-1ae2-e797-1e6b-fff8-9e79-f936-0627-d10f''"
definition REFLECTOR_FINGERPRINT :: string where "REFLECTOR_FINGERPRINT = ''3957378550B111F2678DC1B4A58C27B22091D5CF''"

definition is_public_service :: "string \<Rightarrow> bool" where
  "is_public_service nid = (nid = REFLECTOR_NULL_ID)"

definition is_public_service_fingerprint :: "string \<Rightarrow> bool" where
  "is_public_service_fingerprint fp = (fp \<in> set [REFLECTOR_FINGERPRINT])"

definition fetch_cert_address :: "('ek, 'dk, 'vk, 'sg, 'w) dir_env \<Rightarrow> string \<Rightarrow> string \<Rightarrow> 'w \<Rightarrow> string option \<times> 'w" where
  "fetch_cert_address E seed_url fingerprint w =
     (case ask_blob E seed_url (cert_blob_key (de_crypto E) fingerprint) w of (a, w1) \<Rightarrow>
        (Option.bind (reply_of (de_codec E) a) (\<lambda>resp.
           if msg_type resp \<noteq> ''dht-found'' then None
           else Option.bind (payload_str resp ''value'') (\<lambda>v.
             case b64_dec (de_prims E) v of Inl _ \<Rightarrow> None | Inr bs \<Rightarrow>
             (case de_parse E bs of Inl _ \<Rightarrow> None | Inr bundle \<Rightarrow>
                Option.bind (field_str bundle ''address'') (\<lambda>addr. if addr = [] then None else Some addr)))), w1))"

text \<open>The loop over the bootstrap servers; the verifying key of a certificate found on the way is pinned.\<close>

fun service_addr_loop ::
    "('ek, 'dk, 'vk, 'sg, 'w) dir_env \<Rightarrow> string list \<Rightarrow> string \<Rightarrow> string list \<Rightarrow> 'vk vk_cache \<Rightarrow> 'w
     \<Rightarrow> string option \<times> 'vk vk_cache \<times> 'w" where
  "service_addr_loop E relays fp [] cache w = (None, cache, w)"
| "service_addr_loop E relays fp (seed # seeds) cache w =
     (case dht_fetch_cert_blind E relays seed fp w of
        (Inl _, w1) \<Rightarrow> service_addr_loop E relays fp seeds cache w1
      | (Inr (_, vk, _), w1) \<Rightarrow>
          (case net_stamp (de_net E) w1 of ((_, now), w2) \<Rightarrow>
             (let cache1 = (case Option.bind (b64_decode (de_crypto E) vk) (vk_from_slice (de_crypto E)) of
                              None \<Rightarrow> cache
                            | Some k \<Rightarrow> snd (pin_verifying_key (de_crypto E) now fp k cache))
              in case fetch_cert_address E seed fp w2 of
                   (Some addr, w3) \<Rightarrow> (Some addr, cache1, w3)
                 | (None, w3) \<Rightarrow> service_addr_loop E relays fp seeds cache1 w3)))"

definition fetch_public_service_addr ::
    "('ek, 'dk, 'vk, 'sg, 'w) dir_env \<Rightarrow> string \<Rightarrow> 'vk vk_cache \<Rightarrow> 'w \<Rightarrow> string option \<times> 'vk vk_cache \<times> 'w" where
  "fetch_public_service_addr E nid cache w =
     (if nid \<noteq> REFLECTOR_NULL_ID then (None, cache, w)
      else case discover_all_servers (de_net E) w of ((_, bootstraps, relays), w1) \<Rightarrow>
             service_addr_loop E relays REFLECTOR_FINGERPRINT bootstraps cache w1)"

subsection \<open>Registering the identity\<close>

text \<open>Frames the check for an existing record looks past, at most ten; the result tells whether the key
  was found.\<close>

fun found_in_frames :: "codec \<Rightarrow> nat \<Rightarrow> ws_event list \<Rightarrow> bool" where
  "found_in_frames C 0 evs = False"
| "found_in_frames C (Suc n) [] = False"
| "found_in_frames C (Suc n) (ev # evs) =
     (case ev of
        Frame (Text t) \<Rightarrow> (case from_json C t of Inr resp \<Rightarrow> msg_type resp = ''dht-found'' | Inl _ \<Rightarrow> False)
      | Frame OtherFrame \<Rightarrow> found_in_frames C n evs
      | _ \<Rightarrow> False)"

definition register_request ::
    "string \<Rightarrow> string \<Rightarrow> string \<Rightarrow> string \<Rightarrow> int \<Rightarrow> u64 \<Rightarrow> string \<Rightarrow> string \<Rightarrow> string \<Rightarrow> string \<Rightarrow> real \<Rightarrow> WireEnvelope" where
  "register_request nid v fp salt sq nonce vk pq_fp sg uuid now =
     \<lparr>msg_type = ''dht-put'',
      payload = JObject
        [(''key'', JString nid), (''value'', JString v), (''salt'', JString salt), (''seq'', JInt sq),
         (''nonce'', JInt (uint nonce)), (''publisher_fp'', JString fp), (''publisher_verifying_key'', JString vk),
         (''pq_publisher_fp'', JString pq_fp)],
      msg_id = uuid, ts = now, sig = sg\<rparr>"

definition register_sign_data :: "string \<Rightarrow> string \<Rightarrow> string \<Rightarrow> int \<Rightarrow> u64 \<Rightarrow> string" where
  "register_sign_data nid fp salt sq nonce =
     nid @ ''|'' @ fp @ ''|'' @ salt @ ''|'' @ show_int sq @ ''|'' @ show_nat (unat nonce)"

definition register_pow_data :: "string \<Rightarrow> string \<Rightarrow> string \<Rightarrow> int \<Rightarrow> string" where
  "register_pow_data nid fp salt sq = nid @ ''|'' @ fp @ ''|'' @ salt @ ''|'' @ show_int sq"

fun pow_error_text :: "PowError \<Rightarrow> string" where
  "pow_error_text (Argon2Params e) = ''Argon2id parameter error: '' @ e"
| "pow_error_text (Argon2Hash e) = ''Argon2id hashing error: '' @ e"
| "pow_error_text DifficultyTooHigh = ''PoW difficulty too high - no valid nonce found within max attempts''"
| "pow_error_text Timeout = ''PoW solver timed out (wall-clock budget exceeded)''"
| "pow_error_text (DifficultyTooLow a b) =
     ''PoW difficulty '' @ show_nat a @ '' is below minimum allowed ('' @ show_nat b @ '')''"

text \<open>What registering reads from outside besides the network: further frames after the first answer to
  the check, the salt, the clock, the solver with its clock, and the identity reloaded from disk.\<close>

record 'vk register_io =
  ri_frames :: "ws_event list"
  ri_salt :: string
  ri_now :: int
  ri_argon :: argon
  ri_elapsed :: "nat \<Rightarrow> real"
  ri_reloaded :: "(string, Identity \<times> 'vk option) result"
  ri_show :: "json \<Rightarrow> string"

definition register_difficulty :: "int \<Rightarrow> nat" where
  "register_difficulty sq = (if sq = 0 then 8 else DHT_POW_DIFFICULTY)"

definition register_reply :: "codec \<Rightarrow> (json \<Rightarrow> string) \<Rightarrow> ask \<Rightarrow> (string, unit) result" where
  "register_reply C show_payload a =
     (case a of
        NoConnect e \<Rightarrow> Inl e
      | NoText e \<Rightarrow> Inl e
      | NoSend e \<Rightarrow> Inl (''DHT send failed: '' @ e)
      | Answered (Frame (Text t)) \<Rightarrow>
          (case from_json C t of
             Inl e \<Rightarrow> Inl (''DHT register: bad response: '' @ e)
           | Inr resp \<Rightarrow>
               if msg_type resp = ''dht-found'' then Inr ()
               else Inl (''DHT register failed: '' @ msg_type resp @ '' ('' @ show_payload (payload resp) @ '')''))
      | _ \<Rightarrow> Inl ''DHT register failed: server closed connection'')"

definition send_registration ::
    "('ek, 'dk, 'vk, 'sg, 'w) dir_env \<Rightarrow> 'vk register_io \<Rightarrow> string \<Rightarrow> Identity \<Rightarrow> int \<Rightarrow> u64 \<Rightarrow> 'w
     \<Rightarrow> (string, unit) result \<times> 'w" where
  "send_registration E io url identity sq nonce w =
     (case de_sign E (register_sign_data (id_null_id identity) (id_fingerprint identity) (ri_salt io) sq nonce) of
        Inl e \<Rightarrow> (Inl e, w)
      | Inr sg \<Rightarrow>
          (case ri_reloaded io of
             Inl e \<Rightarrow> (Inl e, w)
           | Inr (identity', vk) \<Rightarrow>
               (case ask_open (de_net E) url (\<lambda>uuid now. to_json (de_codec E)
                       (register_request (id_null_id identity') (id_fingerprint identity) (id_fingerprint identity')
                          (ri_salt io) sq nonce
                          (case vk of None \<Rightarrow> [] | Some k \<Rightarrow> vk_b64 E k)
                          (case vk of None \<Rightarrow> [] | Some k \<Rightarrow> fingerprint_from_verifying_key (de_crypto E) k)
                          sg uuid now)) w of
                  (a, w1) \<Rightarrow> (register_reply (de_codec E) (ri_show io) a, w1))))"

definition dht_register ::
    "('ek, 'dk, 'vk, 'sg, 'w) dir_env \<Rightarrow> 'vk register_io \<Rightarrow> string \<Rightarrow> Identity \<Rightarrow> 'w \<Rightarrow> (string, unit) result \<times> 'w" where
  "dht_register E io seed_url identity w =
     (let C = de_codec E; N = de_net E; url = to_ws_url seed_url; nid = id_null_id identity; fp = id_fingerprint identity
      in case net_connect N url w of
           (Inl e, w1) \<Rightarrow> (Inl (''DHT connect failed: '' @ e), w1)
         | (Inr _, w1) \<Rightarrow>
             (case ask_open N url (\<lambda>uuid now. Inr (case to_json C (get_request ''dht-get'' nid [] uuid now) of
                     Inr t \<Rightarrow> t | Inl _ \<Rightarrow> [])) w1 of
                (NoSend e, w2) \<Rightarrow> (Inl (''DHT check send failed: '' @ e), w2)
              | (a, w2) \<Rightarrow>
                  let frames = (case a of Answered ev \<Rightarrow> ev # ri_frames io | _ \<Rightarrow> []);
                      sq = (if found_in_frames C 10 frames then ri_now io else 0)
                  in (case pow_solve (ri_argon io) (ri_elapsed io) (register_pow_data nid fp (ri_salt io) sq)
                            (register_difficulty sq) 10000000 (str_bytes fp) of
                        Inl e \<Rightarrow> (Inl (''DHT register: PoW error: '' @ pow_error_text e), w2)
                      | Inr None \<Rightarrow> (Inl ''DHT register: could not solve PoW in time (exhausted attempts)'', w2)
                      | Inr (Some nonce) \<Rightarrow> send_registration E io url identity sq nonce w2)))"

section \<open>A network of DHT nodes\<close>

text \<open>The network in which the URLs that are \<open>up\<close> lead to DHT nodes, each running the connection loop of
  \<open>DhtNode\<close>; \<open>envs\<close> is what the handler of each exchange reads from outside, and client and nodes share
  the clock.\<close>

record 'vk world =
  wd_nodes :: "string \<Rightarrow> 'vk node"
  wd_tick :: nat

definition node_answer :: "codec \<Rightarrow> WireEnvelope option \<Rightarrow> ws_answer" where
  "node_answer C r =
     (case r of
        None \<Rightarrow> Answer StreamEnd
      | Some reply \<Rightarrow> (case to_json C reply of Inl _ \<Rightarrow> Answer StreamEnd | Inr t \<Rightarrow> Answer (Frame (Text t))))"

definition dht_net ::
    "codec \<Rightarrow> (nat \<Rightarrow> ('vk, 'sg) dht_env) \<Rightarrow> bool \<Rightarrow> string \<Rightarrow> (string \<Rightarrow> srv list option) \<Rightarrow> (string \<Rightarrow> bool) \<Rightarrow> 'vk world net" where
  "dht_net C envs stealth ip records up =
     \<lparr>net_srv = \<lambda>name w. (records name, w),
      net_connect = \<lambda>url w. (if up url then Inr () else Inl ''unreachable'', w),
      net_ask = \<lambda>url t w.
        (case handle_frame C stealth ip (envs (wd_tick w), Frame (Text t)) (0, wd_nodes w url) of
           None \<Rightarrow> (Answer StreamEnd, w\<lparr>wd_tick := Suc (wd_tick w)\<rparr>)
         | Some (r, _, nd) \<Rightarrow>
             (node_answer C r, \<lparr>wd_nodes = (wd_nodes w)(url := nd), wd_tick = Suc (wd_tick w)\<rparr>)),
      net_stamp = \<lambda>w. ((e_uuid (envs (wd_tick w)), e_now (envs (wd_tick w))), w)\<rparr>"

lemma dht_net_simps [simp]:
  "net_srv (dht_net C envs stealth ip records up) name w = (records name, w)"
  "net_connect (dht_net C envs stealth ip records up) url w = (if up url then Inr () else Inl ''unreachable'', w)"
  "net_stamp (dht_net C envs stealth ip records up) w = ((e_uuid (envs (wd_tick w)), e_now (envs (wd_tick w))), w)"
  by (simp_all add: dht_net_def)

text \<open>One exchange: the node dispatches an envelope that agrees with the request, and the client reads an
  envelope that agrees with the reply.\<close>

lemma ask_dht:
  assumes C: "wire_ok C" and req: "rat_env (req (e_uuid (envs (wd_tick w))) (e_now (envs (wd_tick w))))"
    and now: "ts (req (e_uuid (envs (wd_tick w))) (e_now (envs (wd_tick w)))) = e_now (envs (wd_tick w))"
    and reply: "\<And>env. env_agrees (req (e_uuid (envs (wd_tick w))) (e_now (envs (wd_tick w)))) env
      \<Longrightarrow> rat_env (fst (dispatch (envs (wd_tick w)) stealth ip env (wd_nodes w url)))"
  obtains t r env where "env_agrees (req (e_uuid (envs (wd_tick w))) (e_now (envs (wd_tick w)))) env"
    "ask_open (dht_net C envs stealth ip records up) url (\<lambda>uuid now. to_json C (req uuid now)) w
       = (Answered (Frame (Text t)),
          \<lparr>wd_nodes = (wd_nodes w)(url := snd (dispatch (envs (wd_tick w)) stealth ip env (wd_nodes w url))),
           wd_tick = Suc (wd_tick w)\<rparr>)"
    "from_json C t = Inr r" "env_agrees (fst (dispatch (envs (wd_tick w)) stealth ip env (wd_nodes w url))) r"
proof -
  let ?E = "envs (wd_tick w)"
  let ?req = "req (e_uuid ?E) (e_now ?E)"
  obtain t env where t: "to_json C ?req = Inr t" "from_json C t = Inr env" "env_agrees ?req env"
    by (rule wire_okE[OF C req])
  obtain rep nd where d: "dispatch ?E stealth ip env (wd_nodes w url) = (rep, nd)" by (rule prod.exhaust)
  have "rat_env rep" using reply[OF t(3)] d by simp
  then obtain t' r where t': "to_json C rep = Inr t'" "from_json C t' = Inr r" "env_agrees rep r"
    by (rule wire_okE[OF C])
  have "ts env = e_now ?E" using env_agreesD(2)[OF t(3)] now by simp
  then have "handle_frame C stealth ip (?E, Frame (Text t)) (0, wd_nodes w url) = Some (Some rep, 0, nd)"
    using t(2) d by (simp add: handle_frame_def POW_MAX_AGE_def)
  then have "net_ask (dht_net C envs stealth ip records up) url t w
      = (Answer (Frame (Text t')), \<lparr>wd_nodes = (wd_nodes w)(url := nd), wd_tick = Suc (wd_tick w)\<rparr>)"
    using t'(1) by (simp add: dht_net_def node_answer_def)
  then have "ask_open (dht_net C envs stealth ip records up) url (\<lambda>uuid now. to_json C (req uuid now)) w
      = (Answered (Frame (Text t')), \<lparr>wd_nodes = (wd_nodes w)(url := nd), wd_tick = Suc (wd_tick w)\<rparr>)"
    using t(1) by (simp add: ask_open_def)
  with t(3) t' d show thesis by (intro that[of env t' r]) simp_all
qed

lemma ts_get_request: "ts (get_request kind key sg uuid now) = now"
  by (simp add: get_request_def)

lemma rat_get_request: "now \<in> \<rat> \<Longrightarrow> rat_env (get_request kind key sg uuid now)"
  by (simp add: rat_env_def get_request_def)

lemma is_blob_get_request:
  "env_agrees (get_request ''blob-get'' key sg uuid now) env \<Longrightarrow> key \<noteq> [] \<Longrightarrow> is_blob_get env key"
  by (simp add: is_blob_get_def env_agrees_def get_request_def payload_str_def payload_field_def)

abbreviation node_holds ::
    "(nat \<Rightarrow> ('vk, 'sg) dht_env) \<Rightarrow> bool \<Rightarrow> string \<Rightarrow> string \<Rightarrow> string \<Rightarrow> real \<Rightarrow> 'vk node \<Rightarrow> bool" where
  "node_holds envs stealth ip key v until nd \<equiv> dht.holds TYPE('sg) stealth ip key v until nd"

text \<open>A node that holds a blob gives it to the client, and no node changes.\<close>

lemma ask_blob_holds:
  assumes "wire_ok C" "\<And>i. dht_ready (envs i)" "key \<noteq> []"
    and "node_holds envs stealth ip key v until (wd_nodes w url)" "e_now (envs (wd_tick w)) < until"
  obtains t r where
    "ask_open (dht_net C envs stealth ip records up) url (\<lambda>uuid now. to_json C (get_request ''blob-get'' key sg uuid now)) w
       = (Answered (Frame (Text t)), w\<lparr>wd_tick := Suc (wd_tick w)\<rparr>)"
    "from_json C t = Inr r" "msg_type r = ''dht-found''" "payload_str r ''value'' = Some v"
proof -
  let ?E = "envs (wd_tick w)"
  let ?req = "get_request ''blob-get'' key sg"
  have E: "dht_ready ?E" "e_now ?E \<in> \<rat>" using assms(2) by (auto simp: dht_ready_def)
  have found: "found_value (fst (dispatch ?E stealth ip env (wd_nodes w url))) v"
    if "env_agrees (?req (e_uuid ?E) (e_now ?E)) env" for env
    using dht.holds_get[OF assms(4) E(1) assms(5) is_blob_get_request[OF that assms(3)]] .
  obtain t r env where ask: "env_agrees (?req (e_uuid ?E) (e_now ?E)) env"
    "ask_open (dht_net C envs stealth ip records up) url (\<lambda>uuid now. to_json C (?req uuid now)) w
       = (Answered (Frame (Text t)),
          \<lparr>wd_nodes = (wd_nodes w)(url := snd (dispatch ?E stealth ip env (wd_nodes w url))), wd_tick = Suc (wd_tick w)\<rparr>)"
    "from_json C t = Inr r" "env_agrees (fst (dispatch ?E stealth ip env (wd_nodes w url))) r"
  proof (rule ask_dht[OF assms(1), of ?req envs w stealth ip url records up])
    show "rat_env (?req (e_uuid ?E) (e_now ?E))" using E by (simp add: rat_get_request)
    show "ts (?req (e_uuid ?E) (e_now ?E)) = e_now ?E" by (simp add: get_request_def)
    show "\<And>env. env_agrees (?req (e_uuid ?E) (e_now ?E)) env \<Longrightarrow> rat_env (fst (dispatch ?E stealth ip env (wd_nodes w url)))"
      using found by (simp add: found_value_def)
  qed
  have "snd (dispatch ?E stealth ip env (wd_nodes w url)) = wd_nodes w url"
    using dht.get_pure[OF is_blob_get_request[OF ask(1) assms(3)]] .
  moreover have "\<lparr>wd_nodes = wd_nodes w, wd_tick = Suc (wd_tick w)\<rparr> = w\<lparr>wd_tick := Suc (wd_tick w)\<rparr>" by simp
  ultimately show thesis
    using ask found[OF ask(1)] env_agreesD[OF ask(4)] by (intro that[of t r]) (simp_all add: found_value_def)
qed

text \<open>A blob the node admits is acknowledged and held afterwards, and every other blob is still held.\<close>

lemma ask_put_holds:
  fixes envs :: "nat \<Rightarrow> ('vk, 'sg) dht_env"
  defines "E w \<equiv> envs (wd_tick w)"
  assumes "wire_ok C" "\<And>i. dht_ready (envs i)"
    and "rat_env (req (e_uuid (E w)) (e_now (E w)))" "ts (req (e_uuid (E w)) (e_now (E w))) = e_now (E w)"
    and put: "\<And>env. env_agrees (req (e_uuid (E w)) (e_now (E w))) env \<Longrightarrow>
      is_blob_put env key v ttl \<and> dht_admits (E w) env (wd_nodes w url)"
  obtains t r nd where
    "ask_open (dht_net C envs stealth ip records up) url (\<lambda>uuid now. to_json C (req uuid now)) w
       = (Answered (Frame (Text t)), \<lparr>wd_nodes = (wd_nodes w)(url := nd), wd_tick = Suc (wd_tick w)\<rparr>)"
    "from_json C t = Inr r" "msg_type r = ''dht-found''"
    "node_holds envs stealth ip key v (e_now (E w) + real_of_int ttl) nd"
    "\<And>k v' until. k \<noteq> key \<Longrightarrow> node_holds envs stealth ip k v' until (wd_nodes w url) \<Longrightarrow> node_holds envs stealth ip k v' until nd"
proof -
  let ?req = "req (e_uuid (E w)) (e_now (E w))"
  have ready: "dht_ready (E w)" using assms(3) by (simp add: E_def)
  have found: "found_value (fst (dispatch (E w) stealth ip env (wd_nodes w url))) v" if "env_agrees ?req env" for env
    using dht.put_found[OF ready] put[OF that] by blast
  then have "rat_env (fst (dispatch (E w) stealth ip env (wd_nodes w url)))" if "env_agrees ?req env" for env
    using that by (simp add: found_value_def)
  then obtain t r env where ask: "env_agrees ?req env"
    "ask_open (dht_net C envs stealth ip records up) url (\<lambda>uuid now. to_json C (req uuid now)) w
       = (Answered (Frame (Text t)),
          \<lparr>wd_nodes = (wd_nodes w)(url := snd (dispatch (E w) stealth ip env (wd_nodes w url))), wd_tick = Suc (wd_tick w)\<rparr>)"
    "from_json C t = Inr r" "env_agrees (fst (dispatch (E w) stealth ip env (wd_nodes w url))) r"
    using ask_dht[OF assms(2), of req envs w stealth ip url records up] assms(4,5) unfolding E_def by blast
  note p = put[OF ask(1)]
  show thesis
  proof (rule that[OF ask(2,3)])
    show "msg_type r = ''dht-found''" using found[OF ask(1)] env_agreesD[OF ask(4)] by (simp add: found_value_def)
    show "node_holds envs stealth ip key v (e_now (E w) + real_of_int ttl) (snd (dispatch (E w) stealth ip env (wd_nodes w url)))"
      using dht.holds_put[OF ready] p by blast
    show "node_holds envs stealth ip k v' until (snd (dispatch (E w) stealth ip env (wd_nodes w url)))"
      if "k \<noteq> key" "node_holds envs stealth ip k v' until (wd_nodes w url)" for k v' until
      using dht.holds_put_other[OF that(2) is_blob_put_key] p that(1) by blast
  qed
qed

section \<open>Certificates\<close>

text \<open>What the client relies on of its encoders: Base64 of both libraries and UTF-8 are inverted, keys are
  read back from their bytes, and the fields of a certificate bundle survive its JSON text.\<close>

definition dir_ok :: "('ek, 'dk, 'vk, 'sg, 'w) dir_env \<Rightarrow> bool" where
  "dir_ok E \<longleftrightarrow>
     (\<forall>b. b64_dec (de_prims E) (b64_enc (de_prims E) b) = Inr b) \<and> (\<forall>t. utf8 (de_prims E) (str_bytes t) = Inr t)
     \<and> (\<forall>b. b64_decode (de_crypto E) (b64_enc (de_prims E) b) = Some b)
     \<and> (\<forall>k. ek_parse E (ek_bytes E k) = Some k) \<and> (\<forall>k. vk_from_slice (de_crypto E) (vk_to_bytes (de_crypto E) k) = Some k)
     \<and> (\<forall>c v k f t. de_text E (bundle_json c v k f) = Inr t \<longrightarrow>
          (\<exists>j. de_parse E (str_bytes t) = Inr j \<and> field_str j ''cert'' = Some c \<and> field_str j ''vk'' = Some v
             \<and> field_str j ''kyber_enc'' = Some k))"

lemma dir_okD:
  assumes "dir_ok E"
  shows "b64_dec (de_prims E) (b64_enc (de_prims E) b) = Inr b" "utf8 (de_prims E) (str_bytes t) = Inr t"
    "b64_decode (de_crypto E) (b64_enc (de_prims E) b) = Some b" "ek_parse E (ek_bytes E k) = Some k"
    "vk_from_slice (de_crypto E) (vk_to_bytes (de_crypto E) vk) = Some vk"
    "de_text E (bundle_json c v kb f) = Inr t \<Longrightarrow>
      \<exists>j. de_parse E (str_bytes t) = Inr j \<and> field_str j ''cert'' = Some c \<and> field_str j ''vk'' = Some v
        \<and> field_str j ''kyber_enc'' = Some kb"
  using assms unfolding dir_ok_def by blast+

lemma decode_encode_enc_key [simp]: "dir_ok E \<Longrightarrow> decode_enc_key E (encode_enc_key E k) = Inr k"
  by (simp add: decode_enc_key_def encode_enc_key_def dir_okD)

lemma cert_bundle_value:
  assumes "dir_ok E" "cert_value E armored vk ek = Inr v"
  shows "cert_bundle E v = Inr (armored, vk_b64 E vk, encode_enc_key E ek)"
proof -
  obtain t where t: "de_text E (bundle_json (b64_enc (de_prims E) (str_bytes armored)) (vk_b64 E vk) (encode_enc_key E ek)
      (fingerprint_from_verifying_key (de_crypto E) vk)) = Inr t" "v = b64_enc (de_prims E) (str_bytes t)"
    using assms(2) by (auto simp: cert_value_def map_sum_Inr)
  from dir_okD(6)[OF assms(1) t(1)] show ?thesis
    by (auto simp: cert_bundle_def t(2) dir_okD[OF assms(1)] unwrap_or_def)
qed

lemma cert_blob_key_ne [simp]: "cert_blob_key cr fp \<noteq> []"
  by (simp add: cert_blob_key_def)

lemma fetch_cert_holds:
  assumes "de_net E = dht_net (de_codec E) envs stealth ip records up" "wire_ok (de_codec E)" "\<And>i. dht_ready (envs i)"
    and "up (to_ws_url seed)" "e_now (envs (wd_tick w)) < until"
    and "node_holds envs stealth ip (cert_blob_key (de_crypto E) fp) v until (wd_nodes w (to_ws_url seed))"
  shows "dht_fetch_cert E seed fp w = (cert_bundle E v, w\<lparr>wd_tick := Suc (wd_tick w)\<rparr>)"
proof -
  obtain t r where "ask_open (de_net E) (to_ws_url seed)
      (\<lambda>uuid now. to_json (de_codec E) (get_request ''blob-get'' (cert_blob_key (de_crypto E) fp) [] uuid now)) w
    = (Answered (Frame (Text t)), w\<lparr>wd_tick := Suc (wd_tick w)\<rparr>)"
    "from_json (de_codec E) t = Inr r" "msg_type r = ''dht-found''" "payload_str r ''value'' = Some v"
    unfolding assms(1)
    by (rule ask_blob_holds[of "de_codec E" envs "cert_blob_key (de_crypto E) fp" stealth ip v until w "to_ws_url seed"])
      (use assms in simp_all)
  then show ?thesis
    using assms(4) by (simp add: dht_fetch_cert_def ask_blob_def ask_server_def cert_of_ask_def assms(1))
qed

text \<open>The certificate's put is admitted with any well-formed signature.\<close>

definition signature_form :: "('vk, 'sg) crypto \<Rightarrow> string \<Rightarrow> bool" where
  "signature_form cr sg \<longleftrightarrow> (\<exists>bs enc s. b64_decode cr sg = Some bs \<and> encoded_sig cr bs = Some enc \<and> sig_decode cr enc = Some s)"

lemma cert_put_fields:
  assumes "env_agrees (cert_put_request key v sg fp vk kb uuid now) env"
  shows "payload_str env ''key'' = Some key" "payload_str env ''value'' = Some v" "payload_str env ''sig'' = Some sg"
    "payload_str env ''publisher_fp'' = Some fp" "payload_str env ''publisher_verifying_key'' = Some vk"
    "payload_str env ''pq_publisher_fp'' = Some fp" "payload_i64 env ''ttl'' = Some ADDR_TTL" "msg_type env = ''blob-put''"
  using assms by (simp_all add: env_agrees_def cert_put_request_def payload_str_def payload_i64_def payload_field_def
      ADDR_TTL_def i64_range_def)

lemma cert_put_admitted:
  assumes "dir_ok E" "e_crypto Ed = de_crypto E" "signature_form (de_crypto E) sg" "length v \<le> MAX_VALUE_SIZE"
    and "env_agrees (cert_put_request (cert_blob_key (de_crypto E) fp') v sg
          (fingerprint_from_verifying_key (de_crypto E) vk) (vk_b64 E vk) kb uuid now) env"
  shows "is_blob_put env (cert_blob_key (de_crypto E) fp') v ADDR_TTL \<and> dht_admits Ed env nd"
proof -
  note f = cert_put_fields[OF assms(5)]
  have "b64_decode (de_crypto E) (vk_b64 E vk) = Some (vk_to_bytes (de_crypto E) vk)"
    by (simp add: vk_b64_def dir_okD(3)[OF assms(1)])
  with assms(3) have "dht_admits Ed env nd"
    by (auto simp: dht_admits_def cert_check_def f verify_dht_put_signature_def assms(2) dir_okD(5)[OF assms(1)]
        constant_time_compare_def verify_signature_with_verifying_key_def pq_verify_def is_ok_def Let_def
        signature_form_def)
  then show ?thesis using f assms(4) by (simp add: is_blob_put_def)
qed

lemma rat_cert_put: "now \<in> \<rat> \<Longrightarrow> rat_env (cert_put_request key v sg fp vk kb uuid now)"
  by (simp add: rat_env_def cert_put_request_def)

text \<open>One put of the certificate; \<open>T\<close> is a time before it expires.\<close>

lemma cert_put_holds:
  fixes envs :: "nat \<Rightarrow> ('vk, 'sg) dht_env"
  assumes "de_net E = dht_net (de_codec E) envs stealth ip records up" "wire_ok (de_codec E)" "\<And>i. dht_ready (envs i)"
    and "dir_ok E" "\<And>i. e_crypto (envs i) = de_crypto E" "signature_form (de_crypto E) sg" "length v \<le> MAX_VALUE_SIZE"
    and "T \<le> e_now (envs (wd_tick w)) + real_of_int ADDR_TTL" "fp = fingerprint_from_verifying_key (de_crypto E) vk"
  obtains t nd where
    "ask_open (de_net E) url (\<lambda>uuid now. to_json (de_codec E)
        (cert_put_request (cert_blob_key (de_crypto E) fp') v sg fp (vk_b64 E vk) kb uuid now)) w
      = (Answered (Frame (Text t)), \<lparr>wd_nodes = (wd_nodes w)(url := nd), wd_tick = Suc (wd_tick w)\<rparr>)"
    "\<And>m st. tally (de_codec E) m (Answered (Frame (Text t))) st = (Suc (fst st), snd st)"
    "node_holds envs stealth ip (cert_blob_key (de_crypto E) fp') v T nd"
    "\<And>fp2. node_holds envs stealth ip (cert_blob_key (de_crypto E) fp2) v T (wd_nodes w url)
       \<Longrightarrow> node_holds envs stealth ip (cert_blob_key (de_crypto E) fp2) v T nd"
proof -
  let ?req = "cert_put_request (cert_blob_key (de_crypto E) fp') v sg fp (vk_b64 E vk) kb"
  let ?Ed = "envs (wd_tick w)"
  have "e_now ?Ed \<in> \<rat>" using assms(3) by (simp add: dht_ready_def)
  then have rat: "rat_env (?req (e_uuid ?Ed) (e_now ?Ed))" by (rule rat_cert_put)
  have stamp: "ts (?req (e_uuid ?Ed) (e_now ?Ed)) = e_now ?Ed" by (simp add: cert_put_request_def)
  obtain t r nd where put: "ask_open (de_net E) url (\<lambda>uuid now. to_json (de_codec E) (?req uuid now)) w
      = (Answered (Frame (Text t)), \<lparr>wd_nodes = (wd_nodes w)(url := nd), wd_tick = Suc (wd_tick w)\<rparr>)"
    "from_json (de_codec E) t = Inr r" "msg_type r = ''dht-found''"
    "node_holds envs stealth ip (cert_blob_key (de_crypto E) fp') v (e_now ?Ed + real_of_int ADDR_TTL) nd"
    "\<And>k v' until. k \<noteq> cert_blob_key (de_crypto E) fp' \<Longrightarrow> node_holds envs stealth ip k v' until (wd_nodes w url)
       \<Longrightarrow> node_holds envs stealth ip k v' until nd"
    unfolding assms(1)
    using ask_put_holds[where C = "de_codec E" and envs = envs and req = ?req and w = w and url = url
        and key = "cert_blob_key (de_crypto E) fp'" and v = v and ttl = ADDR_TTL, OF assms(2,3) rat stamp]
      cert_put_admitted[OF assms(4,5,6,7), where fp' = fp' and vk = vk and kb = kb] assms(9) by metis
  have T: "node_holds envs stealth ip (cert_blob_key (de_crypto E) fp') v T nd"
    using dht.holds_mono[OF put(4) assms(8)] .
  show thesis
  proof (rule that[OF put(1)])
    show "tally (de_codec E) m (Answered (Frame (Text t))) st = (Suc (fst st), snd st)" for m st
      by (simp add: tally_def reply_of_def put)
    show "node_holds envs stealth ip (cert_blob_key (de_crypto E) fp2) v T nd"
      if "node_holds envs stealth ip (cert_blob_key (de_crypto E) fp2) v T (wd_nodes w url)" for fp2
      using T put(5)[OF _ that] by (cases "cert_blob_key (de_crypto E) fp2 = cert_blob_key (de_crypto E) fp'") simp_all
  qed (simp_all add: T)
qed

text \<open>The situation of the theorems below: the client's network consists of DHT nodes that are ready and
  use the client's primitives, and everything happens within the lifetime of a blob after time \<open>t0\<close>.\<close>

definition dht_world ::
    "('ek, 'dk, 'vk, 'sg, 'vk world) dir_env \<Rightarrow> (nat \<Rightarrow> ('vk, 'sg) dht_env) \<Rightarrow> bool \<Rightarrow> string
     \<Rightarrow> (string \<Rightarrow> srv list option) \<Rightarrow> (string \<Rightarrow> bool) \<Rightarrow> real \<Rightarrow> bool" where
  "dht_world E envs stealth ip records up t0 \<longleftrightarrow>
     de_net E = dht_net (de_codec E) envs stealth ip records up \<and> wire_ok (de_codec E) \<and> dir_ok E
     \<and> (\<forall>i. dht_ready (envs i) \<and> e_crypto (envs i) = de_crypto E
          \<and> t0 \<le> e_now (envs i) \<and> e_now (envs i) < t0 + real_of_int ADDR_TTL)"

lemma dht_worldD:
  assumes "dht_world E envs stealth ip records up t0"
  shows "de_net E = dht_net (de_codec E) envs stealth ip records up" "wire_ok (de_codec E)" "dir_ok E"
    "dht_ready (envs i)" "e_crypto (envs i) = de_crypto E" "t0 \<le> e_now (envs i)" "e_now (envs i) < t0 + real_of_int ADDR_TTL"
  using assms by (simp_all add: dht_world_def)

lemma publish_loop_holds:
  fixes envs :: "nat \<Rightarrow> ('vk, 'sg) dht_env" and gpg :: string
  assumes W: "dht_world E envs stealth ip records up t0"
    and sg: "signature_form (de_crypto E) sg" "length v \<le> MAX_VALUE_SIZE" "fp = fingerprint_from_verifying_key (de_crypto E) vk"
  defines "kept w url \<equiv> (\<forall>f \<in> {fp, gpg}. node_holds envs stealth ip (cert_blob_key (de_crypto E) f) v (t0 + real_of_int ADDR_TTL) (wd_nodes w url))"
  shows "\<forall>seed \<in> set seeds. up (to_ws_url seed) \<Longrightarrow>
    \<exists>w'. publish_loop E (Inr gpg) fp (\<lambda>key. cert_put_request key v sg fp (vk_b64 E vk) kb) seeds st w
          = (Inr (fst st + 2 * length seeds, snd st), w')
        \<and> (\<forall>url. kept w url \<longrightarrow> kept w' url) \<and> (\<forall>seed \<in> set seeds. kept w' (to_ws_url seed))"
proof (induction seeds arbitrary: st w)
  case Nil
  then show ?case by simp
next
  case (Cons seed seeds)
  let ?url = "to_ws_url seed" and ?T = "t0 + real_of_int ADDR_TTL"
  let ?ask = "\<lambda>fp'. ask_open (de_net E) ?url (\<lambda>uuid now. to_json (de_codec E)
        (cert_put_request (cert_blob_key (de_crypto E) fp') v sg fp (vk_b64 E vk) kb uuid now))"
  note D = dht_worldD[OF W]
  have T: "?T \<le> e_now (envs i) + real_of_int ADDR_TTL" for i using D(6)[of i] by simp
  note put = cert_put_holds[OF D(1,2,4,3,5) sg(1,2) T sg(3)]
  obtain t nd where a: "?ask fp w = (Answered (Frame (Text t)), \<lparr>wd_nodes = (wd_nodes w)(?url := nd), wd_tick = Suc (wd_tick w)\<rparr>)"
    "\<And>m st. tally (de_codec E) m (Answered (Frame (Text t))) st = (Suc (fst st), snd st)"
    "node_holds envs stealth ip (cert_blob_key (de_crypto E) fp) v ?T nd"
    "\<And>fp2. node_holds envs stealth ip (cert_blob_key (de_crypto E) fp2) v ?T (wd_nodes w ?url)
       \<Longrightarrow> node_holds envs stealth ip (cert_blob_key (de_crypto E) fp2) v ?T nd"
    by (rule put[where w = w and url = ?url and fp' = fp and kb = kb]) blast
  define w1 where "w1 = \<lparr>wd_nodes = (wd_nodes w)(?url := nd), wd_tick = Suc (wd_tick w)\<rparr>"
  obtain t2 nd2 where a2: "?ask gpg w1 = (Answered (Frame (Text t2)), \<lparr>wd_nodes = (wd_nodes w1)(?url := nd2), wd_tick = Suc (wd_tick w1)\<rparr>)"
    "\<And>m st. tally (de_codec E) m (Answered (Frame (Text t2))) st = (Suc (fst st), snd st)"
    "\<And>fp2. node_holds envs stealth ip (cert_blob_key (de_crypto E) fp2) v ?T (wd_nodes w1 ?url)
       \<Longrightarrow> node_holds envs stealth ip (cert_blob_key (de_crypto E) fp2) v ?T nd2"
    "node_holds envs stealth ip (cert_blob_key (de_crypto E) gpg) v ?T nd2"
    by (rule put[where w = w1 and url = ?url and fp' = gpg and kb = kb]) blast
  define w2 where "w2 = \<lparr>wd_nodes = (wd_nodes w1)(?url := nd2), wd_tick = Suc (wd_tick w1)\<rparr>"
  have kept: "kept w url \<Longrightarrow> kept w2 url" "kept w2 ?url" for url
    using a(3) a(4)[of gpg] a2(3)[of fp] a2(4) by (auto simp: kept_def w1_def w2_def)
  obtain w' where w': "publish_loop E (Inr gpg) fp (\<lambda>key. cert_put_request key v sg fp (vk_b64 E vk) kb) seeds (Suc (Suc (fst st)), snd st) w2
      = (Inr (fst st + 2 * length (seed # seeds), snd st), w')"
    "\<forall>url. kept w2 url \<longrightarrow> kept w' url" "\<forall>seed \<in> set seeds. kept w' (to_ws_url seed)"
    using Cons.IH[of "(Suc (Suc (fst st)), snd st)" w2] Cons.prems by auto
  have "publish_loop E (Inr gpg) fp (\<lambda>key. cert_put_request key v sg fp (vk_b64 E vk) kb) (seed # seeds) st w
      = (Inr (fst st + 2 * length (seed # seeds), snd st), w')"
    using Cons.prems a(1) a2(1) w'(1)
    unfolding w1_def[symmetric] w2_def[symmetric] by (simp add: Let_def D(1) a(2) a2(2))
  with w'(2,3) kept show ?case by auto
qed

text \<open>Both copies that \<open>dht_publish_cert\<close> puts can be fetched.\<close>

lemma both_copies_fetched:
  assumes "dht_world E envs stealth ip records up t0" "discover_all_servers (de_net E) w = ((s0, seeds, relays), w)"
    and "\<forall>seed \<in> set seeds. up (to_ws_url seed)" "seed \<in> set seeds"
    and "ok_armored K = Inr armored" "ml_dsa87_signing_key identity = Some sk" "ok_vk K sk = Inr vk" "ok_kyber K = Inr ek"
    and "ok_gpg_fp K = Inr gpg" "fp = fingerprint_from_verifying_key (de_crypto E) vk"
    and "cert_value E armored vk ek = Inr v" "length v \<le> MAX_VALUE_SIZE"
    and "de_sign E (cert_blob_key (de_crypto E) fp @ ''|'' @ v @ ''|'' @ fp) = Inr sg" "signature_form (de_crypto E) sg"
    and "asked \<in> {fp, gpg}"
  shows "\<exists>w'. dht_publish_cert E K identity w = (Inr (), w')
    \<and> fst (dht_fetch_cert E seed asked w') = Inr (armored, vk_b64 E vk, encode_enc_key E ek)
    \<and> decode_enc_key E (encode_enc_key E ek) = Inr ek"
proof -
  note D = dht_worldD[OF assms(1)]
  obtain w' where w': "publish_loop E (Inr gpg) fp (\<lambda>key. cert_put_request key v sg fp (vk_b64 E vk) (encode_enc_key E ek)) seeds (0, None) w
      = (Inr (2 * length seeds, None), w')"
    "node_holds envs stealth ip (cert_blob_key (de_crypto E) asked) v (t0 + real_of_int ADDR_TTL) (wd_nodes w' (to_ws_url seed))"
    using publish_loop_holds[OF assms(1,14,12,10,3), of gpg "encode_enc_key E ek" "(0, None)" w] assms(4,15) by auto
  have "seeds \<noteq> []" using assms(4) by auto
  then have "dht_publish_cert E K identity w = (Inr (), w')"
    using assms w'(1) by (simp add: dht_publish_cert_def Let_def)
  moreover have "up (to_ws_url seed)" using assms(3,4) by blast
  ultimately show ?thesis
    using fetch_cert_holds[OF D(1,2,4) _ D(7) w'(2)] cert_bundle_value[OF D(3) assms(11)] D(3) by simp
qed

text \<open>The text the node demands a signature of for a put of a certificate.\<close>

definition blob_signed_data :: "WireEnvelope \<Rightarrow> string" where
  "blob_signed_data env = unwrap_or [] (payload_str env ''key'') @ ''|'' @ unwrap_or [] (payload_str env ''value'')
     @ ''|'' @ unwrap_or [] (payload_str env ''publisher_fp'')"

lemma blob_signed_data_request:
  "blob_signed_data (cert_put_request key v sg fp vk kb uuid now) = key @ ''|'' @ v @ ''|'' @ fp"
  by (simp add: blob_signed_data_def cert_put_request_def payload_str_def payload_field_def)


text \<open>The second copy, under the OpenPGP fingerprint, reuses the signature of the first. It is fetched as well,
  although the text the node checks for it is not the text that was signed: the node admits it only because its
  check does not look at the result of the verification.\<close>

theorem gpg_copy_signature_mismatch:
  assumes "dht_world E envs stealth ip records up t0" "discover_all_servers (de_net E) w = ((s0, seeds, relays), w)"
    and "\<forall>seed \<in> set seeds. up (to_ws_url seed)" "seed \<in> set seeds"
    and "ok_armored K = Inr armored" "ml_dsa87_signing_key identity = Some sk" "ok_vk K sk = Inr vk" "ok_kyber K = Inr ek"
    and "ok_gpg_fp K = Inr gpg" "fp = fingerprint_from_verifying_key (de_crypto E) vk"
    and "cert_value E armored vk ek = Inr v" "length v \<le> MAX_VALUE_SIZE"
    and "de_sign E (cert_blob_key (de_crypto E) fp @ ''|'' @ v @ ''|'' @ fp) = Inr sg" "signature_form (de_crypto E) sg"
    and "sha256 (de_crypto E) (str_bytes gpg) \<noteq> sha256 (de_crypto E) (str_bytes fp)"
  shows "\<exists>w'. dht_publish_cert E K identity w = (Inr (), w')
    \<and> fst (dht_fetch_cert E seed gpg w') = Inr (armored, vk_b64 E vk, encode_enc_key E ek)
    \<and> blob_signed_data (cert_put_request (cert_blob_key (de_crypto E) gpg) v sg fp (vk_b64 E vk) (encode_enc_key E ek) uuid now)
        \<noteq> cert_blob_key (de_crypto E) fp @ ''|'' @ v @ ''|'' @ fp"
proof -
  have "cert_blob_key (de_crypto E) gpg \<noteq> cert_blob_key (de_crypto E) fp"
    using assms(15) hex_encode_inj by (auto simp: cert_blob_key_def)
  then show ?thesis using both_copies_fetched[OF assms(1-14), of gpg] unfolding blob_signed_data_request by fastforce
qed

subsection \<open>A small instance\<close>

definition toy_dht_env :: "nat \<Rightarrow> (nat, nat) dht_env" where
  "toy_dht_env i = demo_env\<lparr>e_now := real (1000 + min i 100)\<rparr>"

definition toy_up :: "string \<Rightarrow> bool" where
  "toy_up url = (url \<in> set [BOOTSTRAP_US, BOOTSTRAP_EU, BOOTSTRAP_ASIA])"

definition toy_dir :: "(unit, unit, nat, nat, nat world) dir_env" where
  "toy_dir =
     \<lparr>de_net = dht_net nat_codec toy_dht_env False ''ip'' (\<lambda>_. None) toy_up, de_codec = nat_codec, de_prims = toy_prims,
      de_crypto = toy_crypto, de_hex = toy_key_env, de_parse = \<lambda>bs. toy_parse (bytes_str bs), de_text = \<lambda>j. Inr (toy_text j),
      ek_parse = \<lambda>bs. Some (), ek_bytes = \<lambda>k. [], de_sign = Inr\<rparr>"

definition toy_world :: "nat world" where
  "toy_world = \<lparr>wd_nodes = \<lambda>url. demo_node, wd_tick = 0\<rparr>"

lemma toy_dir_ok: "dir_ok toy_dir"
proof -
  have "\<exists>j. toy_parse (toy_text (bundle_json c v k f)) = Inr j \<and> field_str j ''cert'' = Some c \<and> field_str j ''vk'' = Some v
      \<and> field_str j ''kyber_enc'' = Some k" for c v k f
  proof -
    let ?kvs = "[(''cert'', c), (''vk'', v), (''kyber_enc'', k), (''fp'', f)]"
    have "toy_text (bundle_json c v k f) = CHR ''o'' # toy_fields ?kvs" by (simp add: bundle_json_def json_string_def)
    then have "toy_parse (toy_text (bundle_json c v k f)) = Inr (string_object ?kvs)"
      using toy_fields_inv[OF toy_fields_length, of ?kvs] by simp
    then show ?thesis by (simp add: field_str_def json_get_def string_object_def)
  qed
  then show ?thesis by (simp add: dir_ok_def toy_dir_def toy_prims_def toy_crypto_def)
qed

lemma toy_dht_ready: "dht_ready (toy_dht_env i)" "e_crypto (toy_dht_env i) = toy_crypto"
  "e_now (toy_dht_env i) = real (1000 + min i 100)"
  unfolding dht_ready_def toy_dht_env_def demo_env_def by (auto intro: exI[of _ "_ :: WireEnvelope"])

lemma toy_dht_world: "dht_world toy_dir toy_dht_env False ''ip'' (\<lambda>_. None) toy_up 1000"
  unfolding dht_world_def using toy_dir_ok nat_codec_wire_ok toy_dht_ready
  by (simp add: ADDR_TTL_def) (simp add: toy_dir_def min_less_iff_disj)

lemma ws_url_fix: "to_ws_url BOOTSTRAP_US = BOOTSTRAP_US" "to_ws_url BOOTSTRAP_EU = BOOTSTRAP_EU" "to_ws_url BOOTSTRAP_ASIA = BOOTSTRAP_ASIA"
  by code_simp+

lemma toy_servers:
  "discover_all_servers (de_net toy_dir) w = ((FALLBACK_BOOTSTRAP, [BOOTSTRAP_US, BOOTSTRAP_EU, BOOTSTRAP_ASIA],
     [FALLBACK_RELAY_US, FALLBACK_RELAY_EU, FALLBACK_RELAY_ASIA]), w)"
proof -
  have "primary_bootstrap None = FALLBACK_BOOTSTRAP" "bootstraps_of None = [BOOTSTRAP_US, BOOTSTRAP_EU, BOOTSTRAP_ASIA]"
    "relays_of None = [FALLBACK_RELAY_US, FALLBACK_RELAY_EU, FALLBACK_RELAY_ASIA]"
    by code_simp+
  then show ?thesis by (simp add: discover_all_servers_def toy_dir_def)
qed

definition toy_own :: "(unit, nat) own_keys" where
  "toy_own = \<lparr>ok_armored = Inr ''cert'', ok_vk = \<lambda>sk. Inr 1, ok_kyber = Inr (), ok_gpg_fp = Inr ''GG''\<rparr>"


section \<open>Contacts\<close>

lemma resolve_pq_result:
  "resolve_pq E relays fp seeds w = (Inr (Some pq), w') \<Longrightarrow> \<exists>k. pq = fingerprint_from_verifying_key (de_crypto E) k"
  by (induction seeds arbitrary: w) (auto split: prod.splits sum.splits option.splits)

lemma fingerprint_length:
  assumes "\<And>bs. length (b64_encode cr bs) = 4 * ((length bs + 2) div 3)" "\<And>bs. length (sha256 cr bs) = 32"
  shows "length (fingerprint_from_verifying_key cr vk) = 12"
  by (simp add: fingerprint_from_verifying_key_def assms)

text \<open>A contact added by its OpenPGP fingerprint can never be sent a message that needs its key. When
  \<open>add_contact\<close> resolves the 40 digits and succeeds, it stores the fingerprint of the verifying key, which
  is the Base64 text of eight bytes and has twelve characters; \<open>lookup_kyber_for_nid\<close> refuses every text
  that is not 40 or 64 hexadecimal digits, without asking the network.\<close>

theorem gpg_contact_has_no_key:
  assumes "add_contact E None nid fp contacts w = (Inr stored, contacts', w')" "is_hex_of 40 fp"
    and "\<And>bs. length (b64_encode (de_crypto E) bs) = 4 * ((length bs + 2) div 3)"
    and "\<And>bs. length (sha256 (de_crypto E) bs) = 32"
  shows "hm_get contacts' nid = Some stored \<and> length stored = 12
    \<and> (\<forall>w2. \<exists>e. lookup_kyber_for_nid E stored w2 = (Inl e, w2))"
proof -
  obtain s0 seeds relays w1 where d: "discover_all_servers (de_net E) w = ((s0, seeds, relays), w1)"
    by (metis prod.exhaust)
  have "resolve_pq E relays fp seeds w1 = (Inr (Some stored), w')" "contacts' = hm_insert nid stored contacts"
    using assms(1,2) d by (auto simp: add_contact_def is_hex_of_def split: if_splits prod.splits sum.splits option.splits)
  moreover from this(1) have "length stored = 12"
    using resolve_pq_result fingerprint_length[OF assms(3,4)] by metis
  ultimately show ?thesis by (simp add: lookup_kyber_for_nid_def is_hex_of_def)
qed

section \<open>Registration\<close>

lemma show_int_nat: "show_int (uint n) = show_nat (unat n)"
  by (simp add: show_int_def not_less)


definition found_codec :: codec where
  "found_codec =
     \<lparr>to_json = \<lambda>env. Inr [], from_json = \<lambda>t. Inr (build_dht_found [] 0 ''k'' ''v'' [] 0)\<rparr>"

definition wide_crypto :: "(nat, nat) crypto" where
  "wide_crypto =
     toy_crypto\<lparr>b64_encode := \<lambda>bs. replicate (4 * ((length bs + 2) div 3)) (CHR ''A''), sha256 := \<lambda>b. replicate 32 0\<rparr>"

definition found_dir :: "(unit, unit, nat, nat, unit) dir_env" where
  "found_dir =
     \<lparr>de_net = open_net\<lparr>net_ask := \<lambda>u t w. (Answer (Frame (Text [])), w)\<rparr>, de_codec = found_codec, de_prims = toy_prims,
      de_crypto = wide_crypto, de_hex = toy_key_env, de_parse = \<lambda>bs. Inr (JObject []), de_text = \<lambda>j. Inr [],
      ek_parse = \<lambda>bs. Some (), ek_bytes = \<lambda>k. [], de_sign = Inr\<rparr>"

lemma found_cert: "dht_fetch_cert_blind found_dir (r # rs) seed fp () = (Inr ([], [], []), ())"
proof -
  have "dht_proxy_fetch_cert found_dir r fp () = (Inr ([], [], []), ())"
    by (simp add: dht_proxy_fetch_cert_def found_dir_def open_net_def ask_server_def ask_open_def cert_of_ask_def found_codec_def
        build_dht_found_def payload_str_def payload_field_def cert_bundle_def toy_prims_def field_str_def json_get_def
        unwrap_or_def bytes_str_def str_bytes_def)
  moreover have "select_fastest_relay (de_net found_dir) (r # rs) () = (Some r, ())"
    by (simp add: select_fastest_relay_def found_dir_def open_net_def split: prod.splits)
  ultimately show ?thesis by (simp add: dht_fetch_cert_blind_def)
qed

lemma found_contact:
  "add_contact found_dir None ''bob'' (replicate 40 (CHR ''A'')) [] ()
     = (Inr (replicate 12 (CHR ''A'')), [(''bob'', replicate 12 (CHR ''A''))], ())"
proof -
  have hex: "is_hex_of 40 (replicate 40 (CHR ''A''))" "list_all is_ascii_hexdigit (replicate 40 (CHR ''A''))"
    by (simp_all add: is_hex_of_def list_all_iff is_ascii_hexdigit_def)
  obtain s0 b bs r rs where srv: "discover_all_servers (de_net found_dir) () = ((s0, b # bs, r # rs), ())"
    by (simp add: discover_all_servers_def found_dir_def open_net_def bootstraps_of_def relays_of_def query_all_srv_def)
  have "resolve_pq found_dir (r # rs) (replicate 40 (CHR ''A'')) (b # bs) () = (Inr (Some (replicate 12 (CHR ''A''))), ())"
    by (simp add: found_cert)
      (simp add: found_dir_def toy_prims_def wide_crypto_def toy_crypto_def str_bytes_def fingerprint_from_verifying_key_def)
  then show ?thesis using hex srv by (simp add: add_contact_def hm_insert_def)
qed

theorem gpg_contact_has_no_key_witness:
  "hm_get [(''bob'', replicate 12 (CHR ''A''))] ''bob'' = Some (replicate 12 (CHR ''A''))
   \<and> length (replicate 12 (CHR ''A'')) = 12
   \<and> (\<forall>w2. \<exists>e. lookup_kyber_for_nid found_dir (replicate 12 (CHR ''A'')) w2 = (Inl e, w2))"
  by (rule gpg_contact_has_no_key[OF found_contact])
    (simp_all add: is_hex_of_def list_all_iff is_ascii_hexdigit_def found_dir_def wide_crypto_def)


lemma plain_replies:
  "payload_str (dht_error E k m) ''publisher_verifying_key'' = None"
  "payload_str (dht_found E k v salt n) ''publisher_verifying_key'' = None"
  "payload_str (stealth_response E) ''publisher_verifying_key'' = None"
  "rat_env (dht_error E k m) \<longleftrightarrow> e_now E \<in> \<rat>" "rat_env (dht_found E k v salt n) \<longleftrightarrow> e_now E \<in> \<rat>"
  "rat_env (stealth_response E) \<longleftrightarrow> e_now E \<in> \<rat>"
  by (simp_all add: dht_error_def build_dht_error_def dht_found_def build_dht_found_def stealth_response_def
      payload_str_def payload_field_def rat_env_def)

lemma dispatch_dht_get:
  assumes "msg_type env = ''dht-get''" "e_now E \<in> \<rat>"
  shows "rat_env (fst (dispatch E stealth ip env nd))"
    and "payload_str (fst (dispatch E stealth ip env nd)) ''publisher_verifying_key'' = None"
  using assms by (auto simp: dispatch_def handle_get_def plain_replies Let_def split: prod.splits sum.splits option.splits)

text \<open>Looking up the verifying key of a peer never succeeds: the reply of a DHT node to \<open>dht-get\<close> does
  not carry the field the client reads, so \<open>fetch_peer_verifying_key\<close> returns false and caches nothing,
  whatever the nodes hold.\<close>

theorem peer_verifying_key_never_found:
  assumes "dht_world E envs stealth ip records up t0"
  shows "fst (fetch_peer_verifying_key E seed peer cache w) = False
    \<and> fst (snd (fetch_peer_verifying_key E seed peer cache w)) = cache"
proof -
  note D = dht_worldD[OF assms]
  let ?key = "compute_null_id (de_crypto E) peer" and ?Ed = "envs (wd_tick w)"
  have rat: "e_now ?Ed \<in> \<rat>" using D(4) by (simp add: dht_ready_def)
  have ask: "\<exists>t r w'. ask_open (de_net E) url (\<lambda>uuid now. to_json (de_codec E) (get_request ''dht-get'' ?key sg uuid now)) w
      = (Answered (Frame (Text t)), w') \<and> from_json (de_codec E) t = Inr r \<and> payload_str r ''publisher_verifying_key'' = None" for url sg
  proof -
    let ?req = "get_request ''dht-get'' ?key sg"
    have get: "msg_type env = ''dht-get''" if "env_agrees (?req (e_uuid ?Ed) (e_now ?Ed)) env" for env
      using env_agreesD(1)[OF that] by (simp add: get_request_def)
    obtain t r env where o: "env_agrees (?req (e_uuid ?Ed) (e_now ?Ed)) env"
      "ask_open (de_net E) url (\<lambda>uuid now. to_json (de_codec E) (?req uuid now)) w
        = (Answered (Frame (Text t)),
           \<lparr>wd_nodes = (wd_nodes w)(url := snd (dispatch ?Ed stealth ip env (wd_nodes w url))), wd_tick = Suc (wd_tick w)\<rparr>)"
      "from_json (de_codec E) t = Inr r" "env_agrees (fst (dispatch ?Ed stealth ip env (wd_nodes w url))) r"
      unfolding D(1)
      by (rule ask_dht[OF D(2), of ?req envs w stealth ip url records up])
        (use rat get dispatch_dht_get(1)[OF _ rat] rat_get_request ts_get_request in blast)+
    have "payload_str r ''publisher_verifying_key'' = None"
      using env_agreesD(4)[OF o(4)] dispatch_dht_get(2)[OF get[OF o(1)] rat] by simp
    with o(2,3) show ?thesis by blast
  qed
  show ?thesis
  proof (cases "up (to_ws_url seed)")
    case True
    show ?thesis
    proof (cases "de_sign E (''dht-get:{'' @ [CHR 0x22] @ ''key'' @ [CHR 0x22] @ '':'' @ [CHR 0x22] @ ?key @ [CHR 0x22] @ ''}'' @ [CHR 0x0A])")
      case (Inl e)
      then show ?thesis using True by (simp add: fetch_peer_verifying_key_def D(1) Let_def)
    next
      case (Inr sg)
      obtain t r w' where "ask_open (de_net E) (to_ws_url seed) (\<lambda>uuid now. to_json (de_codec E) (get_request ''dht-get'' ?key sg uuid now)) w
          = (Answered (Frame (Text t)), w')" "from_json (de_codec E) t = Inr r" "payload_str r ''publisher_verifying_key'' = None"
        using ask by blast
      then show ?thesis using True Inr by (simp add: fetch_peer_verifying_key_def D(1) reply_of_def Let_def)
    qed
  qed (simp add: fetch_peer_verifying_key_def D(1) Let_def)
qed

theorem peer_verifying_key_never_found_witness:
  "fst (fetch_peer_verifying_key toy_dir BOOTSTRAP_EU ''AA'' None toy_world) = False"
  using peer_verifying_key_never_found[OF toy_dht_world] by blast

end
