(* ===== verification/Presence.thy ===== *)
theory Presence
  imports ClientDirectory
begin

text \<open>
  Presence of the client, \<open>client/src/presence.rs\<close>: the listener address of a user, encrypted to the
  published key of each contact and stored as a blob under a key derived from the two fingerprints.

  Certificates and blobs travel over the network of \<open>ClientDirectory\<close>. The random bytes for contact number
  \<open>i\<close> are arguments.
\<close>

section \<open>Definitions\<close>

record presence_io =
  kem_random :: "nat \<Rightarrow> bytes"
  aes_nonce :: "nat \<Rightarrow> bytes"

fun encap_loop ::
    "('ek, 'dk, 'vk, 'sg, 'w) dir_env \<Rightarrow> bytes \<Rightarrow> string \<Rightarrow> string list \<Rightarrow> string \<Rightarrow> 'w \<Rightarrow> (string, string \<times> bytes) result \<times> 'w" where
  "encap_loop E rnd peer [] last_err w = (Inl (''pair_encapsulate: '' @ last_err), w)"
| "encap_loop E rnd peer (seed # seeds) last_err w =
     (case dht_fetch_cert E seed peer w of
        (Inl e, w1) \<Rightarrow> encap_loop E rnd peer seeds (''cert fetch: '' @ e) w1
      | (Inr (_, _, kyber_enc), w1) \<Rightarrow>
          if kyber_enc = [] then encap_loop E rnd peer seeds ''peer cert has no kem enc key'' w1
          else (case decode_enc_key E kyber_enc of
                  Inl e \<Rightarrow> encap_loop E rnd peer seeds (''peer kem decode: '' @ crypto_error_text e) w1
                | Inr peer_enc \<Rightarrow>
                    (case encapsulate (de_prims E) peer_enc rnd of
                       Inl e \<Rightarrow> (Inl (''encapsulate: '' @ e), w1)
                     | Inr (ct, ss) \<Rightarrow> (Inr (hex_encode ct, ss), w1))))"

definition pair_encapsulate ::
    "('ek, 'dk, 'vk, 'sg, 'w) dir_env \<Rightarrow> bytes \<Rightarrow> string \<Rightarrow> 'w \<Rightarrow> (string, string \<times> bytes) result \<times> 'w" where
  "pair_encapsulate E rnd peer w =
     (case discover_all_servers (de_net E) w of ((_, bootstraps, _), w1) \<Rightarrow> encap_loop E rnd peer bootstraps [] w1)"

definition pair_decapsulate :: "('ek, 'dk, 'vk, 'sg, 'w) dir_env \<Rightarrow> 'dk \<Rightarrow> string \<Rightarrow> (string, bytes) result" where
  "pair_decapsulate E dk ct_hex =
     (case hex_decode (de_hex E) ct_hex of Inl e \<Rightarrow> Inl (''kem ct hex decode: '' @ e) | Inr ct_bytes \<Rightarrow>
     (case parse_ct (de_prims E) ct_bytes of Inl e \<Rightarrow> Inl (''kem ct parse: '' @ e) | Inr ct \<Rightarrow>
        map_sum (\<lambda>e. ''decapsulate: '' @ e) id (decapsulate (de_prims E) dk ct)))"

definition presence_blob_key :: "('vk, 'sg) crypto \<Rightarrow> string \<Rightarrow> string \<Rightarrow> string" where
  "presence_blob_key cr owner_fp contact_fp =
     ''presence:'' @ hex_encode (sha256 cr (str_bytes owner_fp @ str_bytes ''||'' @ str_bytes contact_fp))"

definition seal :: "('ek, 'dk) prims \<Rightarrow> bytes \<Rightarrow> bytes \<Rightarrow> bytes \<Rightarrow> (string, string) result" where
  "seal P nonce key plaintext =
     (case aes_encrypt P key nonce plaintext of
        Inl e \<Rightarrow> Inl (''aes seal: '' @ e)
      | Inr ct \<Rightarrow> Inr (b64_enc P (nonce @ ct)))"

definition open_sealed :: "('ek, 'dk) prims \<Rightarrow> bytes \<Rightarrow> string \<Rightarrow> (string, bytes) result" where
  "open_sealed P key b64 =
     (case b64_dec P b64 of Inl e \<Rightarrow> Inl (''b64 decode: '' @ e) | Inr raw \<Rightarrow>
        if length raw < 12 then Inl ''presence ciphertext too short''
        else map_sum (\<lambda>e. ''aes open: '' @ e) id (aes_decrypt P key (take 12 raw) (drop 12 raw)))"

definition presence_put_request :: "string \<Rightarrow> string \<Rightarrow> string \<Rightarrow> string \<Rightarrow> string \<Rightarrow> real \<Rightarrow> WireEnvelope" where
  "presence_put_request key v sg fp uuid now =
     \<lparr>msg_type = ''blob-put'',
      payload = JObject [(''key'', JString key), (''value'', JString v), (''ttl'', JInt ADDR_TTL), (''publisher_fp'', JString fp)],
      msg_id = uuid, ts = now, sig = sg\<rparr>"

text \<open>The puts of one blob to all servers: the number that acknowledged it.\<close>

fun put_everywhere ::
    "('ek, 'dk, 'vk, 'sg, 'w) dir_env \<Rightarrow> (string \<Rightarrow> real \<Rightarrow> WireEnvelope) \<Rightarrow> string list \<Rightarrow> nat \<Rightarrow> 'w \<Rightarrow> (string, nat) result \<times> 'w" where
  "put_everywhere E req [] n w = (Inr n, w)"
| "put_everywhere E req (seed # seeds) n w =
     (case ask_server (de_net E) (to_ws_url seed) (\<lambda>uuid now. to_json (de_codec E) (req uuid now)) w of
        (NoText e, w1) \<Rightarrow> (Inl e, w1)
      | (a, w1) \<Rightarrow>
          put_everywhere E req seeds
            (case reply_of (de_codec E) a of
               Some resp \<Rightarrow> if msg_type resp = ''dht-found'' then Suc n else n
             | None \<Rightarrow> n) w1)"

text \<open>The part for one contact: the number of servers that stored the blob, zero when the contact is skipped.\<close>

definition publish_contact ::
    "('ek, 'dk, 'vk, 'sg, 'w) dir_env \<Rightarrow> presence_io \<Rightarrow> Identity \<Rightarrow> string \<Rightarrow> string list \<Rightarrow> nat \<Rightarrow> string \<Rightarrow> 'w
     \<Rightarrow> (string, nat) result \<times> 'w" where
  "publish_contact E io identity address bootstraps i contact w =
     (case pair_encapsulate E (kem_random io i) contact w of
        (Inl _, w1) \<Rightarrow> (Inr 0, w1)
      | (Inr (kem_ct_hex, ss), w1) \<Rightarrow>
          (case seal (de_prims E) (aes_nonce io i) ss (str_bytes address) of
             Inl _ \<Rightarrow> (Inr 0, w1)
           | Inr aes_blob \<Rightarrow>
               (let key = presence_blob_key (de_crypto E) (id_fingerprint identity) contact;
                    v = b64_enc (de_prims E) (str_bytes kem_ct_hex) @ ''.'' @ aes_blob
                in case de_sign E (key @ ''|'' @ v) of
                     Inl _ \<Rightarrow> (Inr 0, w1)
                   | Inr sg \<Rightarrow>
                       put_everywhere E (presence_put_request key v sg (id_fingerprint identity)) bootstraps 0 w1)))"

fun publish_contacts ::
    "('ek, 'dk, 'vk, 'sg, 'w) dir_env \<Rightarrow> presence_io \<Rightarrow> Identity \<Rightarrow> string \<Rightarrow> string list \<Rightarrow> nat \<Rightarrow> string list \<Rightarrow> nat \<Rightarrow> 'w
     \<Rightarrow> (string, nat) result \<times> 'w" where
  "publish_contacts E io identity address bootstraps i [] best w = (Inr best, w)"
| "publish_contacts E io identity address bootstraps i (c # cs) best w =
     (case publish_contact E io identity address bootstraps i c w of
        (Inl e, w1) \<Rightarrow> (Inl e, w1)
      | (Inr n, w1) \<Rightarrow> publish_contacts E io identity address bootstraps (Suc i) cs (max n best) w1)"

text \<open>\<open>contacts\<close> are the fingerprints of the contact list, in the order the map is iterated.\<close>

definition publish_presence ::
    "('ek, 'dk, 'vk, 'sg, 'w) dir_env \<Rightarrow> presence_io \<Rightarrow> Identity \<Rightarrow> string \<Rightarrow> string list \<Rightarrow> 'w \<Rightarrow> (string, nat) result \<times> 'w" where
  "publish_presence E io identity address contacts w =
     (case discover_all_servers (de_net E) w of ((_, bootstraps, _), w1) \<Rightarrow>
        if bootstraps = [] then (Inl ''no bootstrap servers discovered'', w1)
        else (case publish_contacts E io identity address bootstraps 0 contacts 0 w1 of
                (Inl e, w2) \<Rightarrow> (Inl e, w2)
              | (Inr best, w2) \<Rightarrow> (Inr (if contacts = [] then length bootstraps else best), w2)))"

definition split_once :: "char \<Rightarrow> string \<Rightarrow> (string \<times> string) option" where
  "split_once c s = (if c \<in> set s then Some (takeWhile (\<lambda>x. x \<noteq> c) s, tl (dropWhile (\<lambda>x. x \<noteq> c) s)) else None)"

definition open_presence :: "('ek, 'dk, 'vk, 'sg, 'w) dir_env \<Rightarrow> 'dk \<Rightarrow> string \<Rightarrow> string option" where
  "open_presence E dk sealed =
     Option.bind (split_once (CHR ''.'') sealed) (\<lambda>(ct_b64, aes_b64).
     Option.bind (ok_of (b64_dec (de_prims E) ct_b64)) (\<lambda>ct_bytes.
     Option.bind (ok_of (utf8 (de_prims E) ct_bytes)) (\<lambda>kem_ct_hex.
     Option.bind (ok_of (pair_decapsulate E dk kem_ct_hex)) (\<lambda>ss.
     Option.bind (ok_of (open_sealed (de_prims E) ss aes_b64)) (\<lambda>plain. ok_of (utf8 (de_prims E) plain))))))"

fun fetch_loop :: "('ek, 'dk, 'vk, 'sg, 'w) dir_env \<Rightarrow> 'dk \<Rightarrow> string \<Rightarrow> string list \<Rightarrow> 'w \<Rightarrow> string option \<times> 'w" where
  "fetch_loop E dk key [] w = (None, w)"
| "fetch_loop E dk key (seed # seeds) w =
     (case ask_blob E seed key w of
        (NoText _, w1) \<Rightarrow> (None, w1)
      | (a, w1) \<Rightarrow>
          (case reply_of (de_codec E) a of
             Some resp \<Rightarrow>
               if msg_type resp = ''dht-found'' then (Option.bind (payload_str resp ''value'') (open_presence E dk), w1)
               else fetch_loop E dk key seeds w1
           | None \<Rightarrow> fetch_loop E dk key seeds w1))"

text \<open>\<open>own_key\<close> is the decapsulation key loaded from disk, if that succeeds.\<close>

definition fetch_presence ::
    "('ek, 'dk, 'vk, 'sg, 'w) dir_env \<Rightarrow> 'dk option \<Rightarrow> Identity \<Rightarrow> string \<Rightarrow> 'w \<Rightarrow> string option \<times> 'w" where
  "fetch_presence E own_key identity contact w =
     (case own_key of
        None \<Rightarrow> (None, w)
      | Some dk \<Rightarrow>
          (case discover_all_servers (de_net E) w of ((_, bootstraps, _), w1) \<Rightarrow>
             fetch_loop E dk (presence_blob_key (de_crypto E) contact (id_fingerprint identity)) bootstraps w1))"

definition fetch_presence_live ::
    "('ek, 'dk, 'vk, 'sg, 'w) dir_env \<Rightarrow> 'dk option \<Rightarrow> Identity \<Rightarrow> string \<Rightarrow> 'w \<Rightarrow> string option \<times> 'w" where
  "fetch_presence_live E own_key identity contact w =
     (case fetch_presence E own_key identity contact w of
        (None, w1) \<Rightarrow> (None, w1)
      | (Some addr, w1) \<Rightarrow>
          (case net_connect (de_net E) (to_ws_url addr) w1 of
             (Inr _, w2) \<Rightarrow> (Some addr, w2)
           | (Inl _, w2) \<Rightarrow> (None, w2)))"

section \<open>Sealed values\<close>

lemma split_once_app: "c \<notin> set a \<Longrightarrow> split_once c (a @ c # b) = Some (a, b)"
  by (induction a) (auto simp: split_once_def split: if_splits)

text \<open>The Base64 alphabet has no full stop.\<close>

definition no_dot :: "('ek, 'dk) prims \<Rightarrow> bool" where
  "no_dot P \<longleftrightarrow> (\<forall>b. CHR ''.'' \<notin> set (b64_enc P b))"

lemma open_sealed_seal:
  assumes "prims_ok P ek dk" "length nonce = 12" "seal P nonce key pt = Inr s"
  shows "open_sealed P key s = Inr pt"
proof -
  obtain ct where ct: "aes_encrypt P key nonce pt = Inr ct" "s = b64_enc P (nonce @ ct)"
    using assms(3) by (auto simp: seal_def split: sum.splits)
  show ?thesis
    using prims_okD(1)[OF assms(1) ct(1)] prims_okD(7)[OF assms(1)] assms(2) by (simp add: open_sealed_def ct(2))
qed

lemma open_presence_sealed:
  assumes P: "prims_ok (de_prims E) ek dk" and "no_dot (de_prims E)" "\<And>b. hex_decode (de_hex E) (hex_encode b) = Inr b"
    and "encapsulate (de_prims E) ek rnd = Inr (ct, ss)" "length nonce = 12"
    and "seal (de_prims E) nonce ss (str_bytes address) = Inr aes_blob"
  shows "open_presence E dk (b64_enc (de_prims E) (str_bytes (hex_encode ct)) @ ''.'' @ aes_blob) = Some address"
proof -
  have "split_once (CHR ''.'') (b64_enc (de_prims E) (str_bytes (hex_encode ct)) @ ''.'' @ aes_blob)
      = Some (b64_enc (de_prims E) (str_bytes (hex_encode ct)), aes_blob)"
    using assms(2) split_once_app[of "CHR ''.''"] by (simp add: no_dot_def)
  moreover have "pair_decapsulate E dk (hex_encode ct) = Inr ss"
    using prims_okD(3,4)[OF P assms(4)] by (simp add: pair_decapsulate_def assms(3))
  ultimately show ?thesis
    using open_sealed_seal[OF P assms(5,6)] by (simp add: open_presence_def prims_okD(7,8)[OF P] ok_of_def)
qed

section \<open>What publishing changes\<close>

text \<open>Any exchange with a node: the node dispatches an envelope that agrees with the request.\<close>

lemma ask_open_state:
  assumes "dht_world E envs stealth ip records up t0"
    and "\<And>uuid now. now \<in> \<rat> \<Longrightarrow> rat_env (req uuid now)" "\<And>uuid now. ts (req uuid now) = now"
  obtains ev env where
    "env_agrees (req (e_uuid (envs (wd_tick w))) (e_now (envs (wd_tick w)))) env"
    "ask_open (de_net E) url (\<lambda>uuid now. to_json (de_codec E) (req uuid now)) w =
       (Answered ev, \<lparr>wd_nodes = (wd_nodes w)(url := snd (dispatch (envs (wd_tick w)) stealth ip env (wd_nodes w url))),
                      wd_tick = Suc (wd_tick w)\<rparr>)"
proof -
  let ?Ed = "envs (wd_tick w)" and ?C = "de_codec E"
  note D = dht_worldD[OF assms(1)]
  have "e_now ?Ed \<in> \<rat>" using D(4) by (simp add: dht_ready_def)
  then obtain t env where t: "to_json ?C (req (e_uuid ?Ed) (e_now ?Ed)) = Inr t" "from_json ?C t = Inr env"
    "env_agrees (req (e_uuid ?Ed) (e_now ?Ed)) env"
    using wire_okE[OF D(2) assms(2)] by metis
  obtain rep nd where d: "dispatch ?Ed stealth ip env (wd_nodes w url) = (rep, nd)" by (rule prod.exhaust)
  have "ts env = e_now ?Ed" using env_agreesD(2)[OF t(3)] assms(3) by simp
  then have f: "handle_frame ?C stealth ip (?Ed, Frame (Text t)) (0, wd_nodes w url) = Some (Some rep, 0, nd)"
    using t(2) d by (simp add: handle_frame_def POW_MAX_AGE_def)
  obtain ev where ev: "node_answer ?C (Some rep) = Answer ev"
    by (cases "to_json ?C rep") (simp_all add: node_answer_def)
  have "net_ask (de_net E) url t w = (Answer ev, \<lparr>wd_nodes = (wd_nodes w)(url := nd), wd_tick = Suc (wd_tick w)\<rparr>)"
    using f ev unfolding D(1) by (simp add: dht_net_def)
  moreover have "net_stamp (de_net E) w = ((e_uuid ?Ed, e_now ?Ed), w)" unfolding D(1) by simp
  ultimately have "ask_open (de_net E) url (\<lambda>uuid now. to_json ?C (req uuid now)) w
      = (Answered ev, \<lparr>wd_nodes = (wd_nodes w)(url := nd), wd_tick = Suc (wd_tick w)\<rparr>)"
    using t(1) by (simp add: ask_open_def)
  then show thesis using that[OF t(3), of ev] d by simp
qed

lemma fetch_cert_nodes:
  assumes "dht_world E envs stealth ip records up t0"
  shows "wd_nodes (snd (dht_fetch_cert E seed fp w)) = wd_nodes w"
proof (cases "up (to_ws_url seed)")
  case True
  let ?key = "cert_blob_key (de_crypto E) fp"
  obtain ev env where "env_agrees (get_request ''blob-get'' ?key [] (e_uuid (envs (wd_tick w))) (e_now (envs (wd_tick w)))) env"
    and ask: "ask_open (de_net E) (to_ws_url seed) (\<lambda>uuid now. to_json (de_codec E) (get_request ''blob-get'' ?key [] uuid now)) w =
       (Answered ev, \<lparr>wd_nodes = (wd_nodes w)(to_ws_url seed := snd (dispatch (envs (wd_tick w)) stealth ip env (wd_nodes w (to_ws_url seed)))),
                      wd_tick = Suc (wd_tick w)\<rparr>)"
    by (rule ask_open_state[OF assms rat_get_request ts_get_request])
  then have "snd (dispatch (envs (wd_tick w)) stealth ip env (wd_nodes w (to_ws_url seed))) = wd_nodes w (to_ws_url seed)"
    using dht.get_pure is_blob_get_request[OF _ cert_blob_key_ne] by blast
  then show ?thesis using True ask by (simp add: dht_fetch_cert_def ask_blob_def ask_server_def dht_worldD(1)[OF assms])
qed (simp add: dht_fetch_cert_def ask_blob_def ask_server_def dht_worldD(1)[OF assms])

lemma encap_loop_nodes:
  assumes "dht_world E envs stealth ip records up t0"
  shows "wd_nodes (snd (encap_loop E rnd peer seeds last_err w)) = wd_nodes w"
proof (induction seeds arbitrary: last_err w)
  case (Cons seed seeds)
  obtain r w1 where r: "dht_fetch_cert E seed peer w = (r, w1)" by (rule prod.exhaust)
  then have "wd_nodes w1 = wd_nodes w" using fetch_cert_nodes[OF assms] by (metis snd_conv)
  with r Cons.IH show ?case by (auto split: sum.splits prod.splits)
qed simp

lemma discover_world:
  assumes "dht_world E envs stealth ip records up t0"
  shows "discover_all_servers (de_net E) w =
    ((primary_bootstrap (records BOOTSTRAP_SRV), bootstraps_of (records BOOTSTRAP_SRV), relays_of (records RELAY_SRV)), w)"
  by (simp add: discover_all_servers_def dht_worldD(1)[OF assms])

lemma presence_put_fields:
  assumes "env_agrees (presence_put_request key v sg fp uuid now) env"
  shows "is_put_of env key" "key \<noteq> [] \<Longrightarrow> length v \<le> MAX_VALUE_SIZE \<Longrightarrow> is_blob_put env key v ADDR_TTL"
  using assms by (simp_all add: is_put_of_def is_blob_put_def env_agrees_def presence_put_request_def payload_str_def
      payload_i64_def payload_field_def ADDR_TTL_def i64_range_def)

lemma presence_put_wire:
  "now \<in> \<rat> \<Longrightarrow> rat_env (presence_put_request key v sg fp uuid now)" "ts (presence_put_request key v sg fp uuid now) = now"
  by (simp_all add: rat_env_def presence_put_request_def)

text \<open>Publishing a blob to all servers never fails and leaves every other blob of every node.\<close>

lemma put_everywhere_other:
  assumes W: "dht_world E envs stealth ip records up t0"
  shows "\<exists>m w'. put_everywhere E (presence_put_request key v sg fp) seeds n w = (Inr m, w')
    \<and> (\<forall>k v' T url. k \<noteq> key \<longrightarrow> node_holds envs stealth ip k v' T (wd_nodes w url)
         \<longrightarrow> node_holds envs stealth ip k v' T (wd_nodes w' url))"
proof (induction seeds arbitrary: n w)
  case (Cons seed seeds)
  show ?case
  proof (cases "up (to_ws_url seed)")
    case False
    then have "ask_server (de_net E) (to_ws_url seed) req w = (NoConnect ''unreachable'', w)" for req
      by (simp add: ask_server_def dht_worldD(1)[OF W])
    then show ?thesis using Cons by (simp add: reply_of_def)
  next
    case True
    obtain ev env where env: "env_agrees (presence_put_request key v sg fp (e_uuid (envs (wd_tick w))) (e_now (envs (wd_tick w)))) env"
      and ask: "ask_open (de_net E) (to_ws_url seed) (\<lambda>uuid now. to_json (de_codec E) (presence_put_request key v sg fp uuid now)) w =
       (Answered ev, \<lparr>wd_nodes = (wd_nodes w)(to_ws_url seed := snd (dispatch (envs (wd_tick w)) stealth ip env (wd_nodes w (to_ws_url seed)))),
                      wd_tick = Suc (wd_tick w)\<rparr>)"
      by (rule ask_open_state[OF W presence_put_wire])
    define w1 where "w1 = \<lparr>wd_nodes = (wd_nodes w)(to_ws_url seed := snd (dispatch (envs (wd_tick w)) stealth ip env (wd_nodes w (to_ws_url seed)))),
                      wd_tick = Suc (wd_tick w)\<rparr>"
    have "node_holds envs stealth ip k v' T (snd (dispatch (envs (wd_tick w)) stealth ip env (wd_nodes w (to_ws_url seed))))"
      if "k \<noteq> key" "node_holds envs stealth ip k v' T (wd_nodes w (to_ws_url seed))" for k v' T
      by (rule dht.holds_put_other[OF that(2) presence_put_fields(1)[OF env] that(1)[symmetric]])
    then have step: "node_holds envs stealth ip k v' T (wd_nodes w1 url)"
      if "k \<noteq> key" "node_holds envs stealth ip k v' T (wd_nodes w url)" for k v' T url
      using that by (cases "url = to_ws_url seed") (simp_all add: w1_def)
    have "ask_server (de_net E) (to_ws_url seed) (\<lambda>uuid now. to_json (de_codec E) (presence_put_request key v sg fp uuid now)) w = (Answered ev, w1)"
      using True ask by (simp add: ask_server_def dht_worldD(1)[OF W] w1_def)
    then show ?thesis using Cons.IH[of _ w1] step by simp meson
  qed
qed simp

lemma presence_key_shape [simp]: "presence_blob_key cr a b \<noteq> []" "\<not> starts_with ''cert:'' (presence_blob_key cr a b)"
  "presence_blob_key cr a b \<noteq> cert_blob_key cr c"
  by (simp_all add: presence_blob_key_def cert_blob_key_def starts_with_def)

lemma presence_admitted:
  assumes "env_agrees (presence_put_request (presence_blob_key cr a b) v sg fp uuid now) env"
  shows "dht_admits Ed env nd"
proof -
  have "payload_str env ''key'' = Some (presence_blob_key cr a b)"
    using presence_put_fields(1)[OF assms] by (simp add: is_put_of_def)
  then show ?thesis by (simp add: dht_admits_def cert_check_def unwrap_or_def Let_def)
qed

lemma put_everywhere_holds:
  fixes envs :: "nat \<Rightarrow> ('vk, 'sg) dht_env" and a b :: string
  assumes W: "dht_world E envs stealth ip records up t0" and v: "length v \<le> MAX_VALUE_SIZE"
  defines "key \<equiv> presence_blob_key (de_crypto E) a b"
  defines "stored w url \<equiv> node_holds envs stealth ip key v (t0 + real_of_int ADDR_TTL) (wd_nodes w url)"
  shows "\<forall>seed \<in> set seeds. up (to_ws_url seed) \<Longrightarrow>
    \<exists>w'. put_everywhere E (presence_put_request key v sg fp) seeds n w = (Inr (n + length seeds), w')
       \<and> (\<forall>url. stored w url \<longrightarrow> stored w' url) \<and> (\<forall>seed \<in> set seeds. stored w' (to_ws_url seed))"
proof (induction seeds arbitrary: n w)
  case (Cons seed seeds)
  let ?req = "presence_put_request key v sg fp" and ?Ed = "envs (wd_tick w)" and ?url = "to_ws_url seed"
  note D = dht_worldD[OF W]
  have rat: "e_now ?Ed \<in> \<rat>" using D(4) by (simp add: dht_ready_def)
  have T: "t0 + real_of_int ADDR_TTL \<le> e_now ?Ed + real_of_int ADDR_TTL" using D(6) by simp
  have put: "is_blob_put env key v ADDR_TTL \<and> dht_admits ?Ed env (wd_nodes w ?url)"
    if "env_agrees (?req (e_uuid ?Ed) (e_now ?Ed)) env" for env
  proof
    show "is_blob_put env key v ADDR_TTL" using presence_put_fields(2)[OF that _ v] by (simp add: key_def)
    show "dht_admits ?Ed env (wd_nodes w ?url)" by (rule presence_admitted[OF that[unfolded key_def]])
  qed
  obtain t r nd where ask: "ask_open (de_net E) ?url (\<lambda>uuid now. to_json (de_codec E) (?req uuid now)) w
      = (Answered (Frame (Text t)), \<lparr>wd_nodes = (wd_nodes w)(?url := nd), wd_tick = Suc (wd_tick w)\<rparr>)"
    "from_json (de_codec E) t = Inr r" "msg_type r = ''dht-found''"
    "node_holds envs stealth ip key v (e_now ?Ed + real_of_int ADDR_TTL) nd"
    unfolding D(1)
    by (rule ask_put_holds[where C = "de_codec E" and envs = envs and req = ?req and w = w and url = ?url
        and key = key and v = v and ttl = ADDR_TTL, OF D(2,4) presence_put_wire(1)[OF rat] presence_put_wire(2) put])
  define w1 where "w1 = \<lparr>wd_nodes = (wd_nodes w)(?url := nd), wd_tick = Suc (wd_tick w)\<rparr>"
  have s1: "stored w1 ?url" "stored w url \<Longrightarrow> stored w1 url" for url
    using dht.holds_mono[OF ask(4) T] by (auto simp: stored_def w1_def)
  obtain w' where w': "put_everywhere E ?req seeds (Suc n) w1 = (Inr (n + length (seed # seeds)), w')"
    "\<forall>url. stored w1 url \<longrightarrow> stored w' url" "\<forall>seed \<in> set seeds. stored w' (to_ws_url seed)"
    using Cons.IH[of "Suc n" w1] Cons.prems by auto
  have "put_everywhere E ?req (seed # seeds) n w = (Inr (n + length (seed # seeds)), w')"
    using Cons.prems ask(1,2,3) w'(1) by (simp add: ask_server_def D(1) reply_of_def w1_def)
  with w'(2,3) s1 show ?case by auto
qed simp

text \<open>The situation of the round trip: \<open>seeds\<close> are the bootstrap servers, all of them reachable, and each
  holds the certificate of the reader with the encapsulation key \<open>ek\<close>.\<close>

definition cert_held ::
    "('ek, 'dk, 'vk, 'sg, 'vk world) dir_env \<Rightarrow> (nat \<Rightarrow> ('vk, 'sg) dht_env) \<Rightarrow> bool \<Rightarrow> string \<Rightarrow> real \<Rightarrow> string list
     \<Rightarrow> string \<Rightarrow> 'ek \<Rightarrow> 'vk world \<Rightarrow> bool" where
  "cert_held E envs stealth ip t0 seeds c ek w \<longleftrightarrow>
     (\<forall>seed \<in> set seeds. \<exists>v armored vk. cert_bundle E v = Inr (armored, vk, encode_enc_key E ek)
        \<and> node_holds envs stealth ip (cert_blob_key (de_crypto E) c) v (t0 + real_of_int ADDR_TTL) (wd_nodes w (to_ws_url seed)))"

definition presence_held ::
    "('ek, 'dk, 'vk, 'sg, 'vk world) dir_env \<Rightarrow> (nat \<Rightarrow> ('vk, 'sg) dht_env) \<Rightarrow> bool \<Rightarrow> string \<Rightarrow> real \<Rightarrow> string list
     \<Rightarrow> string \<Rightarrow> string \<Rightarrow> 'dk \<Rightarrow> string \<Rightarrow> 'vk world \<Rightarrow> bool" where
  "presence_held E envs stealth ip t0 seeds owner c dk address w \<longleftrightarrow>
     (\<forall>seed \<in> set seeds. \<exists>v. open_presence E dk v = Some address
        \<and> node_holds envs stealth ip (presence_blob_key (de_crypto E) owner c) v (t0 + real_of_int ADDR_TTL) (wd_nodes w (to_ws_url seed)))"

lemma publish_contact_other:
  assumes W: "dht_world E envs stealth ip records up t0"
  obtains m w' where "publish_contact E io identity address seeds i c w = (Inr m, w')"
    "\<And>k v T url. k \<noteq> presence_blob_key (de_crypto E) (id_fingerprint identity) c \<Longrightarrow>
       node_holds envs stealth ip k v T (wd_nodes w url) \<Longrightarrow> node_holds envs stealth ip k v T (wd_nodes w' url)"
proof -
  obtain r w1 where r: "pair_encapsulate E (kem_random io i) c w = (r, w1)" by (rule prod.exhaust)
  then have w1: "wd_nodes w1 = wd_nodes w"
    using encap_loop_nodes[OF W] unfolding pair_encapsulate_def discover_world[OF W] by (metis prod.case snd_conv)
  have "(\<exists>m. publish_contact E io identity address seeds i c w = (Inr m, w1))
    \<or> (\<exists>v sg. publish_contact E io identity address seeds i c w = put_everywhere E
         (presence_put_request (presence_blob_key (de_crypto E) (id_fingerprint identity) c) v sg (id_fingerprint identity)) seeds 0 w1)"
    using r by (cases r; simp add: publish_contact_def Let_def split: prod.split sum.split; blast)
  then show thesis
  proof (elim disjE exE)
    fix m assume "publish_contact E io identity address seeds i c w = (Inr m, w1)"
    then show thesis using that w1 by simp
  next
    fix v sg
    assume "publish_contact E io identity address seeds i c w = put_everywhere E
         (presence_put_request (presence_blob_key (de_crypto E) (id_fingerprint identity) c) v sg (id_fingerprint identity)) seeds 0 w1"
    then show thesis
      using put_everywhere_other[OF W, of "presence_blob_key (de_crypto E) (id_fingerprint identity) c" v sg "id_fingerprint identity" seeds 0 w1]
        that w1 by auto
  qed
qed

text \<open>What the parts need for the blob of one reader: her key pair, the encoders, twelve-byte nonces,
  encryption and signing that succeed, and blobs that fit.\<close>

definition sealing_ok :: "('ek, 'dk, 'vk, 'sg, 'w) dir_env \<Rightarrow> presence_io \<Rightarrow> 'ek \<Rightarrow> 'dk \<Rightarrow> string \<Rightarrow> bool" where
  "sealing_ok E io ek dk address \<longleftrightarrow>
     prims_ok (de_prims E) ek dk \<and> no_dot (de_prims E) \<and> (\<forall>b. hex_decode (de_hex E) (hex_encode b) = Inr b)
     \<and> encode_enc_key E ek \<noteq> [] \<and> (\<forall>d. \<exists>sg. de_sign E d = Inr sg)
     \<and> (\<forall>i. length (aes_nonce io i) = 12 \<and> (\<exists>ct ss aes_blob. encapsulate (de_prims E) ek (kem_random io i) = Inr (ct, ss)
          \<and> seal (de_prims E) (aes_nonce io i) ss (str_bytes address) = Inr aes_blob
          \<and> length (b64_enc (de_prims E) (str_bytes (hex_encode ct)) @ ''.'' @ aes_blob) \<le> MAX_VALUE_SIZE))"

lemma publish_contact_own:
  assumes W: "dht_world E envs stealth ip records up t0" and S: "sealing_ok E io ek dk address"
    and seeds: "seeds = bootstraps_of (records BOOTSTRAP_SRV)" "seeds \<noteq> []" "\<forall>seed \<in> set seeds. up (to_ws_url seed)"
    and cert: "cert_held E envs stealth ip t0 seeds c ek w"
  shows "\<exists>w'. publish_contact E io identity address seeds i c w = (Inr (length seeds), w')
    \<and> presence_held E envs stealth ip t0 seeds (id_fingerprint identity) c dk address w'"
proof -
  note D = dht_worldD[OF W]
  obtain ct ss aes_blob where e: "encapsulate (de_prims E) ek (kem_random io i) = Inr (ct, ss)"
    "seal (de_prims E) (aes_nonce io i) ss (str_bytes address) = Inr aes_blob" "length (aes_nonce io i) = 12"
    and len: "length (b64_enc (de_prims E) (str_bytes (hex_encode ct)) @ ''.'' @ aes_blob) \<le> MAX_VALUE_SIZE"
    using S unfolding sealing_ok_def by meson
  define v where "v = b64_enc (de_prims E) (str_bytes (hex_encode ct)) @ ''.'' @ aes_blob"
  have opens: "open_presence E dk v = Some address"
    unfolding v_def using S e by (intro open_presence_sealed[where ek = ek and rnd = "kem_random io i"]) (auto simp: sealing_ok_def)
  obtain s0 ss' where s0: "seeds = s0 # ss'" using seeds(2) by (cases seeds) auto
  then obtain vc armored vk where vc: "cert_bundle E vc = Inr (armored, vk, encode_enc_key E ek)"
    "node_holds envs stealth ip (cert_blob_key (de_crypto E) c) vc (t0 + real_of_int ADDR_TTL) (wd_nodes w (to_ws_url s0))"
    using cert by (auto simp: cert_held_def)
  let ?w1 = "w\<lparr>wd_tick := Suc (wd_tick w)\<rparr>"
  have up0: "up (to_ws_url s0)" using seeds(3) s0 by simp
  have "dht_fetch_cert E s0 c w = (Inr (armored, vk, encode_enc_key E ek), ?w1)"
    unfolding fetch_cert_holds[OF D(1,2,4) up0 D(7) vc(2)] vc(1) by (rule refl)
  then have enc: "pair_encapsulate E (kem_random io i) c w = (Inr (hex_encode ct, ss), ?w1)"
    using S e(1) D(3) unfolding pair_encapsulate_def discover_world[OF W] prod.case seeds(1)[symmetric] s0
    by (simp add: sealing_ok_def)
  obtain sg where sg: "de_sign E (presence_blob_key (de_crypto E) (id_fingerprint identity) c @ ''|'' @ v) = Inr sg"
    using S unfolding sealing_ok_def by blast
  obtain w' where w': "put_everywhere E (presence_put_request (presence_blob_key (de_crypto E) (id_fingerprint identity) c) v sg
        (id_fingerprint identity)) seeds 0 ?w1 = (Inr (length seeds), w')"
    "\<forall>seed \<in> set seeds. node_holds envs stealth ip (presence_blob_key (de_crypto E) (id_fingerprint identity) c) v
        (t0 + real_of_int ADDR_TTL) (wd_nodes w' (to_ws_url seed))"
    using put_everywhere_holds[OF W len[folded v_def] seeds(3), of "id_fingerprint identity" c sg "id_fingerprint identity" 0 ?w1] by auto
  have "publish_contact E io identity address seeds i c w = (Inr (length seeds), w')"
    using enc e(2) sg w'(1) by (simp add: publish_contact_def Let_def v_def)
  moreover have "presence_held E envs stealth ip t0 seeds (id_fingerprint identity) c dk address w'"
    using w'(2) opens unfolding presence_held_def by blast
  ultimately show ?thesis by blast
qed

lemma publish_contacts_held:
  assumes W: "dht_world E envs stealth ip records up t0" and S: "sealing_ok E io ek dk address"
    and seeds: "seeds = bootstraps_of (records BOOTSTRAP_SRV)" "seeds \<noteq> []" "\<forall>seed \<in> set seeds. up (to_ws_url seed)"
    and inj: "\<And>c'. c' \<in> set cs \<Longrightarrow> c' \<noteq> c \<Longrightarrow>
      presence_blob_key (de_crypto E) (id_fingerprint identity) c' \<noteq> presence_blob_key (de_crypto E) (id_fingerprint identity) c"
    and cert: "cert_held E envs stealth ip t0 seeds c ek w"
  shows "\<exists>m w'. publish_contacts E io identity address seeds i cs best w = (Inr m, w')
    \<and> (c \<in> set cs \<or> presence_held E envs stealth ip t0 seeds (id_fingerprint identity) c dk address w
        \<longrightarrow> presence_held E envs stealth ip t0 seeds (id_fingerprint identity) c dk address w')"
  using inj cert
proof (induction cs arbitrary: i best w)
  case (Cons c0 cs)
  let ?held = "presence_held E envs stealth ip t0 seeds (id_fingerprint identity) c dk address"
  obtain m w1 where w1: "publish_contact E io identity address seeds i c0 w = (Inr m, w1)"
    and keep: "\<And>k v T url. k \<noteq> presence_blob_key (de_crypto E) (id_fingerprint identity) c0 \<Longrightarrow>
       node_holds envs stealth ip k v T (wd_nodes w url) \<Longrightarrow> node_holds envs stealth ip k v T (wd_nodes w1 url)"
    by (rule publish_contact_other[OF W, where io = io and identity = identity and address = address
        and seeds = seeds and i = i and c = c0 and w = w]) blast
  have cert1: "cert_held E envs stealth ip t0 seeds c ek w1"
    using Cons.prems(2) keep[OF presence_key_shape(3)[symmetric]] unfolding cert_held_def by meson
  have held1: "?held w1" if "c0 = c \<or> ?held w"
  proof (cases "c0 = c")
    case True
    then show ?thesis using publish_contact_own[OF W S seeds Cons.prems(2), of identity i] w1 by auto
  next
    case False
    then have "presence_blob_key (de_crypto E) (id_fingerprint identity) c \<noteq> presence_blob_key (de_crypto E) (id_fingerprint identity) c0"
      using Cons.prems(1)[of c0] by auto
    from keep[OF this] show ?thesis using that False unfolding presence_held_def by meson
  qed
  obtain m' w' where "publish_contacts E io identity address seeds (Suc i) cs (max m best) w1 = (Inr m', w')"
    "c \<in> set cs \<or> ?held w1 \<longrightarrow> ?held w'"
    using Cons.IH[of w1 "Suc i" "max m best"] Cons.prems(1) cert1 by auto
  then show ?case using w1 held1 by auto
qed simp

lemma fetch_presence_held:
  assumes W: "dht_world E envs stealth ip records up t0"
    and seeds: "seeds = bootstraps_of (records BOOTSTRAP_SRV)" "seeds \<noteq> []" "\<forall>seed \<in> set seeds. up (to_ws_url seed)"
    and "presence_held E envs stealth ip t0 seeds owner (id_fingerprint reader) dk address w"
  shows "fst (fetch_presence E (Some dk) reader owner w) = Some address"
proof -
  note D = dht_worldD[OF W]
  let ?key = "presence_blob_key (de_crypto E) owner (id_fingerprint reader)"
  obtain s0 ss where s0: "seeds = s0 # ss" using seeds(2) by (cases seeds) auto
  then obtain v where v: "open_presence E dk v = Some address"
    "node_holds envs stealth ip ?key v (t0 + real_of_int ADDR_TTL) (wd_nodes w (to_ws_url s0))"
    using assms(5) unfolding presence_held_def by auto
  obtain t r where "ask_open (de_net E) (to_ws_url s0) (\<lambda>uuid now. to_json (de_codec E) (get_request ''blob-get'' ?key [] uuid now)) w
      = (Answered (Frame (Text t)), w\<lparr>wd_tick := Suc (wd_tick w)\<rparr>)"
    "from_json (de_codec E) t = Inr r" "msg_type r = ''dht-found''" "payload_str r ''value'' = Some v"
    unfolding D(1)
    by (rule ask_blob_holds[of "de_codec E" envs ?key stealth ip v "t0 + real_of_int ADDR_TTL" w "to_ws_url s0"])
      (use D v in simp_all)
  then show ?thesis
    using seeds(3) s0 v(1) unfolding fetch_presence_def option.case discover_world[OF W] prod.case seeds(1)[symmetric] s0
    by (simp add: ask_blob_def ask_server_def D(1) reply_of_def)
qed

section \<open>Round trip\<close>

text \<open>A user whose certificate can be published: her keys load, the bundle fits and it can be signed.\<close>

definition publishable ::
    "('ek, 'dk, 'vk, 'sg, 'w) dir_env \<Rightarrow> ('ek, 'vk) own_keys \<Rightarrow> Identity \<Rightarrow> 'ek \<Rightarrow> bool" where
  "publishable E K identity ek \<longleftrightarrow>
     (\<exists>armored sk vk gpg v sg. ok_armored K = Inr armored \<and> ml_dsa87_signing_key identity = Some sk \<and> ok_vk K sk = Inr vk
        \<and> ok_kyber K = Inr ek \<and> ok_gpg_fp K = Inr gpg \<and> id_fingerprint identity = gpg
        \<and> cert_value E armored vk ek = Inr v \<and> length v \<le> MAX_VALUE_SIZE
        \<and> de_sign E (cert_blob_key (de_crypto E) (fingerprint_from_verifying_key (de_crypto E) vk) @ ''|'' @ v @ ''|''
             @ fingerprint_from_verifying_key (de_crypto E) vk) = Inr sg
        \<and> signature_form (de_crypto E) sg)"

lemma publish_cert_held:
  assumes W: "dht_world E envs stealth ip records up t0" and P: "publishable E K identity ek"
    and seeds: "seeds = bootstraps_of (records BOOTSTRAP_SRV)" "seeds \<noteq> []" "\<forall>seed \<in> set seeds. up (to_ws_url seed)"
  shows "\<exists>w'. dht_publish_cert E K identity w = (Inr (), w') \<and> cert_held E envs stealth ip t0 seeds (id_fingerprint identity) ek w'"
proof -
  note D = dht_worldD[OF W]
  obtain armored sk vk gpg v sg where k: "ok_armored K = Inr armored" "ml_dsa87_signing_key identity = Some sk" "ok_vk K sk = Inr vk"
    "ok_kyber K = Inr ek" "ok_gpg_fp K = Inr gpg" and fp: "id_fingerprint identity = gpg"
    and v: "cert_value E armored vk ek = Inr v" "length v \<le> MAX_VALUE_SIZE"
    and sg: "de_sign E (cert_blob_key (de_crypto E) (fingerprint_from_verifying_key (de_crypto E) vk) @ ''|'' @ v @ ''|''
        @ fingerprint_from_verifying_key (de_crypto E) vk) = Inr sg" "signature_form (de_crypto E) sg"
    using P unfolding publishable_def by blast
  let ?fp = "fingerprint_from_verifying_key (de_crypto E) vk"
  obtain w' where w': "publish_loop E (Inr gpg) ?fp (\<lambda>key. cert_put_request key v sg ?fp (vk_b64 E vk) (encode_enc_key E ek)) seeds (0, None) w
      = (Inr (2 * length seeds, None), w')"
    "\<forall>seed \<in> set seeds. node_holds envs stealth ip (cert_blob_key (de_crypto E) gpg) v (t0 + real_of_int ADDR_TTL) (wd_nodes w' (to_ws_url seed))"
    using publish_loop_holds[OF W sg(2) v(2) refl seeds(3), where vk = vk and gpg = gpg and kb = "encode_enc_key E ek" and st = "(0, None)" and w = w]
    by auto
  have "dht_publish_cert E K identity w = (Inr (), w')"
    using k v(1) sg(1) w'(1) seeds(2)
    unfolding dht_publish_cert_def discover_world[OF W] seeds(1)[symmetric] by (simp add: Let_def)
  moreover have "cert_held E envs stealth ip t0 seeds (id_fingerprint identity) ek w'"
    using w'(2) cert_bundle_value[OF D(3) v(1)] unfolding cert_held_def fp by blast
  ultimately show ?thesis by blast
qed

text \<open>What publishing and fetching of presence would do together, were the contact list to hold OpenPGP
  fingerprints: a reader publishes her certificate, a user who has her OpenPGP fingerprint among his contacts
  publishes his presence, and the reader then fetches it by the OpenPGP fingerprint of the user. When all
  bootstrap servers are reachable and working, both publications succeed and the reader gets exactly the
  published address. The command \<open>add-contact\<close>, the only writer of the list, never enters such a fingerprint
  (\<open>added_contact_misses_presence\<close> below), so that the program does not reach this case.\<close>

theorem presence_roundtrip:
  assumes "dht_world E envs stealth ip records up t0" "publishable E K reader ek" "sealing_ok E io ek dk address"
    and "\<forall>seed \<in> set (bootstraps_of (records BOOTSTRAP_SRV)). up (to_ws_url seed)" "bootstraps_of (records BOOTSTRAP_SRV) \<noteq> []"
    and "id_fingerprint reader \<in> set contacts" "inj_on (presence_blob_key (de_crypto E) (id_fingerprint user)) (set contacts)"
  shows "\<exists>w1 n w2. dht_publish_cert E K reader w = (Inr (), w1)
    \<and> publish_presence E io user address contacts w1 = (Inr n, w2)
    \<and> fst (fetch_presence E (Some dk) reader (id_fingerprint user) w2) = Some address"
proof -
  let ?seeds = "bootstraps_of (records BOOTSTRAP_SRV)"
  obtain w1 where w1: "dht_publish_cert E K reader w = (Inr (), w1)" "cert_held E envs stealth ip t0 ?seeds (id_fingerprint reader) ek w1"
    using publish_cert_held[OF assms(1,2) refl assms(5,4), of w] by blast
  have inj: "presence_blob_key (de_crypto E) (id_fingerprint user) c' \<noteq> presence_blob_key (de_crypto E) (id_fingerprint user) (id_fingerprint reader)"
    if "c' \<in> set contacts" "c' \<noteq> id_fingerprint reader" for c'
    using assms(6,7) that by (auto dest: inj_onD)
  obtain m w2 where w2: "publish_contacts E io user address ?seeds 0 contacts 0 w1 = (Inr m, w2)"
    "presence_held E envs stealth ip t0 ?seeds (id_fingerprint user) (id_fingerprint reader) dk address w2"
    using publish_contacts_held[OF assms(1,3) refl assms(5,4) inj w1(2), of contacts 0 0] assms(6) by auto
  have "publish_presence E io user address contacts w1 = (Inr (if contacts = [] then length ?seeds else m), w2)"
    using w2(1) assms(5) unfolding publish_presence_def discover_world[OF assms(1)] by simp
  with w1(1) fetch_presence_held[OF assms(1) refl assms(5,4) w2(2)] show ?thesis by blast
qed

text \<open>C11: Presence is not authenticated. Anybody can seal an address of his choice to the published key of a
  reader and put it, with an arbitrary signature and fingerprint, under the presence key of any user: the
  nodes acknowledge it, and the reader then takes that address for the user's, even if the user had published
  his own before.\<close>

theorem presence_forgeable:
  assumes "dht_world E envs stealth ip records up t0"
    and "\<forall>seed \<in> set (bootstraps_of (records BOOTSTRAP_SRV)). up (to_ws_url seed)" "bootstraps_of (records BOOTSTRAP_SRV) \<noteq> []"
    and "prims_ok (de_prims E) ek dk" "no_dot (de_prims E)" "\<And>b. hex_decode (de_hex E) (hex_encode b) = Inr b"
    and "encapsulate (de_prims E) ek rnd = Inr (ct, ss)" "length nonce = 12"
    and "seal (de_prims E) nonce ss (str_bytes forged) = Inr aes_blob"
    and "v = b64_enc (de_prims E) (str_bytes (hex_encode ct)) @ ''.'' @ aes_blob" "length v \<le> MAX_VALUE_SIZE"
  shows "\<exists>w'. put_everywhere E (presence_put_request (presence_blob_key (de_crypto E) user_fp (id_fingerprint reader)) v any_sig any_fp)
      (bootstraps_of (records BOOTSTRAP_SRV)) 0 w = (Inr (length (bootstraps_of (records BOOTSTRAP_SRV))), w')
    \<and> fst (fetch_presence E (Some dk) reader user_fp w') = Some forged"
proof -
  let ?seeds = "bootstraps_of (records BOOTSTRAP_SRV)"
  have opens: "open_presence E dk v = Some forged"
    unfolding assms(10) by (rule open_presence_sealed[OF assms(4-9)])
  obtain w' where w': "put_everywhere E (presence_put_request (presence_blob_key (de_crypto E) user_fp (id_fingerprint reader)) v any_sig any_fp)
      ?seeds 0 w = (Inr (length ?seeds), w')"
    "\<forall>seed \<in> set ?seeds. node_holds envs stealth ip (presence_blob_key (de_crypto E) user_fp (id_fingerprint reader)) v
       (t0 + real_of_int ADDR_TTL) (wd_nodes w' (to_ws_url seed))"
    using put_everywhere_holds[OF assms(1,11,2), of user_fp "id_fingerprint reader" any_sig any_fp 0 w] by auto
  then have "presence_held E envs stealth ip t0 ?seeds user_fp (id_fingerprint reader) dk forged w'"
    using opens unfolding presence_held_def by blast
  from w'(1) fetch_presence_held[OF assms(1) refl assms(3,2) this] show ?thesis by blast
qed

section \<open>Contacts and presence\<close>

definition presence_text :: "string \<Rightarrow> string \<Rightarrow> bytes" where
  "presence_text owner_fp contact_fp = str_bytes (owner_fp @ ''||'' @ contact_fp)"

lemma presence_blob_key_text: "presence_blob_key cr a b = ''presence:'' @ hex_encode (sha256 cr (presence_text a b))"
  unfolding presence_blob_key_def presence_text_def str_bytes_append by (rule refl)

lemma append_bars_eq:
  assumes "a @ ''||'' @ b = c @ ''||'' @ d" "CHR ''|'' \<notin> set a" "CHR ''|'' \<notin> set c"
  shows "a = c \<and> b = d"
proof -
  have "takeWhile (\<lambda>x. x \<noteq> CHR ''|'') (a @ ''||'' @ b) = a" "takeWhile (\<lambda>x. x \<noteq> CHR ''|'') (c @ ''||'' @ d) = c"
    using assms(2,3) by (subst takeWhile_append2; auto)+
  with assms(1) show ?thesis by auto
qed

lemma add_contact_length:
  assumes "add_contact E None nid fp contacts w = (Inr c, contacts', w')"
    and "\<And>bs. length (b64_encode (de_crypto E) bs) = 4 * ((length bs + 2) div 3)" "\<And>bs. length (sha256 (de_crypto E) bs) = 32"
  shows "length c = 12 \<or> length c = 64"
proof (cases "is_hex_of 40 fp")
  case True
  obtain s0 seeds relays w1 where d: "discover_all_servers (de_net E) w = ((s0, seeds, relays), w1)" by (metis prod.exhaust)
  have "resolve_pq E relays fp seeds w1 = (Inr (Some c), w')"
    using assms(1) d True by (auto simp: add_contact_def split: if_splits prod.splits sum.splits option.splits)
  then show ?thesis using resolve_pq_result fingerprint_length[OF assms(2,3)] by metis
next
  case False
  then show ?thesis
    using assms(1) by (auto simp: add_contact_def is_hex_of_def to_uppercase_def split: if_splits)
qed

text \<open>The presence published for a contact that was added with \<open>add-contact\<close> lies under a key the contact never
  asks for. The user derives the key of the blob from his own OpenPGP fingerprint and the entry of his contact
  list, which is never 40 characters long; the reader derives it from the entry of hers and her own OpenPGP
  fingerprint of 40. The two keys differ, unless these two texts collide under SHA-256.\<close>

theorem added_contact_misses_presence:
  assumes "add_contact E None nid fp contacts w = (Inr entry, contacts', w')"
    and "\<And>bs. length (b64_encode (de_crypto E) bs) = 4 * ((length bs + 2) div 3)" "\<And>bs. length (sha256 (de_crypto E) bs) = 32"
    and "length (id_fingerprint reader) = 40" "CHR ''|'' \<notin> set (id_fingerprint user)" "CHR ''|'' \<notin> set user_entry"
    and "presence_text (id_fingerprint user) entry \<noteq> presence_text user_entry (id_fingerprint reader)
       \<Longrightarrow> sha256 (de_crypto E) (presence_text (id_fingerprint user) entry)
         \<noteq> sha256 (de_crypto E) (presence_text user_entry (id_fingerprint reader))"
  shows "presence_blob_key (de_crypto E) (id_fingerprint user) entry
       \<noteq> presence_blob_key (de_crypto E) user_entry (id_fingerprint reader)"
proof -
  have "id_fingerprint user @ ''||'' @ entry \<noteq> user_entry @ ''||'' @ id_fingerprint reader"
    using append_bars_eq[OF _ assms(5,6), of entry "id_fingerprint reader"] add_contact_length[OF assms(1-3)] assms(4) by fastforce
  then have "presence_text (id_fingerprint user) entry \<noteq> presence_text user_entry (id_fingerprint reader)"
    unfolding presence_text_def by (metis str_bytes_inj)
  from assms(7)[OF this] show ?thesis
    unfolding presence_blob_key_text by (auto dest: hex_encode_inj)
qed

subsection \<open>A small instance\<close>

definition hex_prims :: "(unit, unit) prims" where
  "hex_prims = toy_prims\<lparr>b64_enc := hex_encode, b64_dec := unhex\<rparr>"

definition hex_crypto :: "(nat, nat) crypto" where
  "hex_crypto = toy_crypto\<lparr>b64_decode := \<lambda>s. ok_of (unhex s)\<rparr>"

definition hex_dht_env :: "nat \<Rightarrow> (nat, nat) dht_env" where
  "hex_dht_env i = (toy_dht_env i)\<lparr>e_crypto := hex_crypto\<rparr>"

definition hex_dir :: "(unit, unit, nat, nat, nat world) dir_env" where
  "hex_dir = toy_dir\<lparr>de_net := dht_net nat_codec hex_dht_env False ''ip'' (\<lambda>_. None) toy_up, de_prims := hex_prims,
     de_crypto := hex_crypto, ek_bytes := \<lambda>k. [1], de_sign := \<lambda>d. Inr (hex_encode (str_bytes d))\<rparr>"

definition hex_io :: presence_io where
  "hex_io = \<lparr>kem_random = \<lambda>i. [], aes_nonce = \<lambda>i. replicate 12 0\<rparr>"

definition hex_reader :: Identity where
  "hex_reader = \<lparr>id_fingerprint = ''GG'', id_null_id = ''carol'', ml_dsa87_signing_key = Some ''k''\<rparr>"

lemma hex_encode_no_dot: "CHR ''.'' \<notin> set (hex_encode b)"
proof -
  have digit: "hex_digit d \<noteq> CHR ''.''" if "d < 16" for d
  proof
    assume e: "hex_digit d = CHR ''.''"
    then have "d = 0" using nibble_hex_digit[OF that] by (simp add: nibble_def)
    with e have "(of_char (char_of (48 :: nat)) :: nat) = of_char (CHR ''.'')" by (simp add: hex_digit_def)
    then show False by simp
  qed
  have "CHR ''.'' \<notin> set (hex_byte x)" for x :: u8
  proof -
    have "unat x < 256" using unsigned_less[of x] by simp
    then have "unat x div 16 < 16" by simp
    then show ?thesis using digit[of "unat x div 16"] digit[of "unat x mod 16"] by (simp add: hex_byte_def)
  qed
  then show ?thesis by (simp add: hex_encode_def)
qed

lemma hex_prims_ok: "prims_ok hex_prims () ()" "no_dot hex_prims"
  using toy_prims_ok unhex_hex_encode hex_encode_no_dot by (simp_all add: prims_ok_def hex_prims_def no_dot_def)

lemma hex_dht_world: "dht_world hex_dir hex_dht_env False ''ip'' (\<lambda>_. None) toy_up 1000"
proof -
  have "dir_ok hex_dir"
    using toy_dir_ok unhex_hex_encode
    by (simp add: dir_ok_def hex_dir_def hex_prims_def hex_crypto_def toy_dir_def ok_of_def toy_prims_def toy_crypto_def)
  moreover have "dht_ready (hex_dht_env i)" for i using toy_dht_ready(1)[of i] by (simp add: dht_ready_def hex_dht_env_def)
  ultimately show ?thesis
    unfolding dht_world_def using nat_codec_wire_ok toy_dht_ready
    by (simp add: ADDR_TTL_def hex_dht_env_def) (simp add: hex_dir_def toy_dir_def min_less_iff_disj)
qed

lemma hex_seeds: "bootstraps_of None = [BOOTSTRAP_US, BOOTSTRAP_EU, BOOTSTRAP_ASIA]"
  by code_simp

lemma hex_sealed:
  "seal hex_prims (replicate 12 0) [3] (str_bytes a) = Inr (hex_encode (replicate 12 0 @ str_bytes a @ replicate 16 3))"
  by (simp add: seal_def hex_prims_def toy_prims_def)


theorem presence_roundtrip_witness:
  "\<exists>w1 n w2. dht_publish_cert hex_dir toy_own hex_reader toy_world = (Inr (), w1)
    \<and> publish_presence hex_dir hex_io toy_alice ''ws://a'' [id_fingerprint hex_reader] w1 = (Inr n, w2)
    \<and> fst (fetch_presence hex_dir (Some ()) hex_reader (id_fingerprint toy_alice) w2) = Some ''ws://a''"
proof (rule presence_roundtrip[OF hex_dht_world])
  show "publishable hex_dir toy_own hex_reader ()"
    unfolding publishable_def
    by (simp add: toy_own_def hex_reader_def hex_dir_def signature_form_def hex_crypto_def unhex_hex_encode ok_of_def toy_crypto_def
        cert_value_def toy_dir_def vk_b64_def encode_enc_key_def bundle_json_def fingerprint_from_verifying_key_def
        toy_fields_def toy_str_def json_string_def MAX_VALUE_SIZE_def hex_prims_def length_hex_encode)
  show "sealing_ok hex_dir hex_io () () ''ws://a''"
  proof -
    have "encapsulate hex_prims () [] = Inr ([7], [3])" "b64_enc hex_prims = hex_encode" "hex_encode [1] \<noteq> []"
      by (simp_all add: hex_prims_def toy_prims_def hex_encode_def hex_byte_def)
    then show ?thesis
      using hex_prims_ok
      by (simp add: sealing_ok_def hex_dir_def hex_io_def hex_sealed unhex_hex_encode toy_dir_def toy_key_env_def encode_enc_key_def
          length_hex_encode MAX_VALUE_SIZE_def)
  qed
qed (simp_all add: hex_seeds ws_url_fix toy_up_def)

theorem presence_forgeable_witness:
  "\<exists>w'. put_everywhere hex_dir (presence_put_request (presence_blob_key (de_crypto hex_dir) ''AA'' (id_fingerprint hex_reader))
       (b64_enc (de_prims hex_dir) (str_bytes (hex_encode [7])) @ ''.'' @ hex_encode (replicate 12 0 @ str_bytes ''ws://m'' @ replicate 16 3))
       ''no signature'' ''nobody'') (bootstraps_of None) 0 toy_world = (Inr (length (bootstraps_of None)), w')
    \<and> fst (fetch_presence hex_dir (Some ()) hex_reader ''AA'' w') = Some ''ws://m''"
  by (rule presence_forgeable[OF hex_dht_world, where ek = "()" and rnd = "[]" and ct = "[7]" and ss = "[3]" and nonce = "replicate 12 0"])
    (use hex_prims_ok in \<open>simp_all add: hex_seeds ws_url_fix toy_up_def hex_dir_def toy_dir_def toy_key_env_def unhex_hex_encode
      hex_sealed MAX_VALUE_SIZE_def length_hex_encode\<close>, simp_all add: hex_prims_def toy_prims_def length_hex_encode)

end
