(* ===== verification/NatTraversal.thy ===== *)
theory NatTraversal
  imports Transport
begin

text \<open>
  NAT traversal (\<open>src/p2p/src/nat.rs\<close>): the STUN binding request, the scan of a STUN response for
  its \<open>XOR-MAPPED-ADDRESS\<close>, the walk over the servers, the classification of the NAT and UDP hole
  punching. The network is an argument: what a fresh UDP socket with a given local port gets back
  from a server for a request. The transaction id and the local port of each query are arguments.
\<close>

section \<open>Definitions\<close>

record StunResult =
  public_ip :: string
  public_port :: u16

datatype NatType = FullCone | RestrictedCone | PortRestrictedCone | Symmetric | Open | Unknown

record NatManager =
  stun_servers :: "string list"
  nat_type :: NatType

definition STUN_SERVERS :: "string list" where
  "STUN_SERVERS =
     [''stun.l.google.com:19302'', ''stun1.l.google.com:19302'', ''stun2.l.google.com:19302'',
      ''stun.stunprotocol.org:3478'']"

definition nat_new :: NatManager where
  "nat_new = \<lparr>stun_servers = STUN_SERVERS, nat_type = Unknown\<rparr>"

definition with_servers :: "string list \<Rightarrow> NatManager" where
  "with_servers servers = \<lparr>stun_servers = servers, nat_type = Unknown\<rparr>"

subsection \<open>One STUN query\<close>

datatype udp_outcome =
    BindFails string
  | ConnectFails string
  | SendFails string
  | RecvTimeout
  | RecvFails string
  | Datagram bytes

record stun_query =
  local_port :: u16
  tx_id :: bytes

type_synonym udp_net = "u16 \<Rightarrow> string \<Rightarrow> bytes \<Rightarrow> udp_outcome"

definition stun_request :: "bytes \<Rightarrow> bytes" where
  "stun_request tid = [0x00, 0x01, 0x00, 0x00, 0x21, 0x12, 0xA4, 0x42] @ tid"

definition be_u16 :: "u8 \<Rightarrow> u8 \<Rightarrow> u16" where
  "be_u16 a b = word_of_nat (be_value [a, b])"

definition pad4 :: "nat \<Rightarrow> nat" where
  "pad4 n = unat ((word_of_nat n + 3 :: u64) AND NOT 3)"

text \<open>The address blocks the code refuses.\<close>

definition is_reserved_ip :: "bytes \<Rightarrow> bool" where
  "is_reserved_ip ip =
     (let first = unat (ip ! 0); second = unat (ip ! 1)
      in first = 10 \<or> (first = 172 \<and> 16 \<le> second \<and> second \<le> 31) \<or> (first = 192 \<and> second = 168)
         \<or> first = 127 \<or> (first = 169 \<and> second = 254))"

definition dotted :: "bytes \<Rightarrow> string" where
  "dotted ip =
     show_nat (unat (ip ! 0)) @ ''.'' @ show_nat (unat (ip ! 1)) @ ''.''
       @ show_nat (unat (ip ! 2)) @ ''.'' @ show_nat (unat (ip ! 3))"

function stun_scan :: "bytes \<Rightarrow> nat \<Rightarrow> (P2pError, StunResult) result" where
  "stun_scan response offset =
     (if offset + 4 \<le> length response then
        (let attr_type = be_u16 (response ! offset) (response ! (offset + 1));
             attr_len = unat (be_u16 (response ! (offset + 2)) (response ! (offset + 3)))
         in if attr_type = 0x0020 \<and> offset + 4 + 8 \<le> length response \<and> 8 \<le> attr_len
               \<and> response ! (offset + 5) = 0x01 then
              (let port = be_u16 (response ! (offset + 6)) (response ! (offset + 7)) XOR 0x2112;
                   xip = u32_from_be_bytes (slice (offset + 8) (offset + 12) response);
                   ip_bytes = u32_to_be_bytes (xip XOR 0x2112A442)
               in if is_reserved_ip ip_bytes then stun_scan response (offset + 4 + pad4 attr_len)
                  else Inr \<lparr>public_ip = dotted ip_bytes, public_port = port\<rparr>)
            else stun_scan response (offset + 4 + pad4 attr_len))
      else Inl (Nat ''No XOR-MAPPED-ADDRESS in STUN response''))"
  by pat_completeness auto
termination
  by (relation "measure (\<lambda>(r, offset). length r - offset)") auto

declare stun_scan.simps [simp del]

definition parse_stun_response :: "bytes \<Rightarrow> (P2pError, StunResult) result" where
  "parse_stun_response response =
     (if length response < 20 then Inl (Nat ''STUN response too short'')
      else if response ! 0 \<noteq> 0x01 \<or> response ! 1 \<noteq> 0x01 then Inl (Nat ''Not a STUN success response'')
      else stun_scan response 20)"

definition query_stun :: "udp_net \<Rightarrow> stun_query \<Rightarrow> string \<Rightarrow> (P2pError, StunResult) result" where
  "query_stun net q server =
     (case net (local_port q) server (stun_request (tx_id q)) of
        BindFails e \<Rightarrow> Inl (Nat (''UDP bind: '' @ e))
      | ConnectFails e \<Rightarrow> Inl (Nat (''STUN connect: '' @ e))
      | SendFails e \<Rightarrow> Inl (Nat (''STUN send: '' @ e))
      | RecvTimeout \<Rightarrow> Inl P2pTimeout
      | RecvFails e \<Rightarrow> Inl (Nat (''STUN recv: '' @ e))
      | Datagram bs \<Rightarrow> parse_stun_response (take 512 bs))"

subsection \<open>The manager\<close>

text \<open>\<open>qs i\<close> is the socket and the transaction id of the query to the server at position \<open>i\<close>.\<close>

fun discover_from :: "udp_net \<Rightarrow> (nat \<Rightarrow> stun_query) \<Rightarrow> nat \<Rightarrow> string list \<Rightarrow> (P2pError, StunResult) result" where
  "discover_from net qs i [] = Inl (Nat ''All STUN servers unreachable'')"
| "discover_from net qs i (server # servers) =
     (case query_stun net (qs i) server of
        Inr result \<Rightarrow> Inr result
      | Inl _ \<Rightarrow> discover_from net qs (Suc i) servers)"

definition discover_public_address ::
    "udp_net \<Rightarrow> (nat \<Rightarrow> stun_query) \<Rightarrow> NatManager \<Rightarrow> (P2pError, StunResult) result" where
  "discover_public_address net qs mgr = discover_from net qs 0 (stun_servers mgr)"

fun stun_results :: "udp_net \<Rightarrow> (nat \<Rightarrow> stun_query) \<Rightarrow> nat \<Rightarrow> string list \<Rightarrow> StunResult list" where
  "stun_results net qs i [] = []"
| "stun_results net qs i (server # servers) =
     (case query_stun net (qs i) server of
        Inr result \<Rightarrow> result # stun_results net qs (Suc i) servers
      | Inl _ \<Rightarrow> stun_results net qs (Suc i) servers)"

definition detect_nat_type :: "udp_net \<Rightarrow> (nat \<Rightarrow> stun_query) \<Rightarrow> NatManager \<Rightarrow> NatType \<times> NatManager" where
  "detect_nat_type net qs mgr =
     (let results = stun_results net qs 0 (stun_servers mgr);
          t = (if results = [] then Unknown
               else if length results = 1 then Open
               else if (\<forall>r \<in> set results. public_ip r = public_ip (hd results)
                                         \<and> public_port r = public_port (hd results))
               then FullCone else Symmetric)
      in (t, mgr\<lparr>nat_type := t\<rparr>))"

subsection \<open>Hole punching\<close>

text \<open>A send takes the next of the outcomes that are still to come; past their end every send succeeds.\<close>

definition udp_send :: "'a \<Rightarrow> string option list \<Rightarrow> 'a list \<Rightarrow> (string, unit) result \<times> string option list \<times> 'a list" where
  "udp_send addr faults out =
     (case faults of
        Some e # fs \<Rightarrow> (Inl e, fs, out)
      | None # fs \<Rightarrow> (Inr (), fs, out @ [addr])
      | [] \<Rightarrow> (Inr (), [], out @ [addr]))"

fun punch_rounds ::
    "nat \<Rightarrow> 'a \<Rightarrow> 'a option \<Rightarrow> string option list \<Rightarrow> 'a list \<Rightarrow> (P2pError, unit) result \<times> 'a list" where
  "punch_rounds 0 peer_public peer_local faults out = (Inr (), out)"
| "punch_rounds (Suc n) peer_public peer_local faults out =
     (case udp_send peer_public faults out of
        (Inl e, _, out') \<Rightarrow> (Inl (Nat (''hole punch send: '' @ e)), out')
      | (Inr _, faults', out') \<Rightarrow>
          (case peer_local of
             None \<Rightarrow> punch_rounds n peer_public peer_local faults' out'
           | Some loc \<Rightarrow>
               (case udp_send loc faults' out' of
                  (Inl e, _, out'') \<Rightarrow> (Inl (Nat (''hole punch local: '' @ e)), out'')
                | (Inr _, faults'', out'') \<Rightarrow> punch_rounds n peer_public peer_local faults'' out'')))"

definition hole_punch_payload :: bytes where
  "hole_punch_payload = str_bytes ''add-p2p-hole-punch''"

definition hole_punch ::
    "string option \<Rightarrow> string option list \<Rightarrow> 'a \<Rightarrow> 'a option \<Rightarrow> (P2pError, unit) result \<times> ('a \<times> bytes) list" where
  "hole_punch bind_error faults peer_public peer_local =
     (case bind_error of
        Some e \<Rightarrow> (Inl (Nat (''UDP bind: '' @ e)), [])
      | None \<Rightarrow> map_prod id (map (\<lambda>a. (a, hole_punch_payload)))
                  (punch_rounds 5 peer_public peer_local faults []))"

section \<open>Reference definitions\<close>

text \<open>
  A STUN response as the list of its attributes (type and value), its encoding (RFC 5389: type,
  length, value, padding to a multiple of four bytes) and the address a reader of the list takes.
\<close>

type_synonym stun_attr = "u16 \<times> bytes"

definition attr_bytes :: "stun_attr \<Rightarrow> bytes" where
  "attr_bytes a =
     (case a of (t, v) \<Rightarrow>
        be_bytes 2 (unat t) @ be_bytes 2 (length v) @ v @ replicate ((4 - length v mod 4) mod 4) 0)"

definition stun_response :: "bytes \<Rightarrow> stun_attr list \<Rightarrow> bytes" where
  "stun_response head attrs = [0x01, 0x01] @ head @ concat (map attr_bytes attrs)"

definition mapped_of :: "stun_attr \<Rightarrow> (bytes \<times> u16) option" where
  "mapped_of a =
     (case a of (t, v) \<Rightarrow>
        if t = 0x0020 \<and> 8 \<le> length v \<and> v ! 1 = 0x01 then
          (let ip = u32_to_be_bytes (u32_from_be_bytes (slice 4 8 v) XOR 0x2112A442)
           in if is_reserved_ip ip then None else Some (ip, be_u16 (v ! 2) (v ! 3) XOR 0x2112))
        else None)"

fun first_mapped :: "stun_attr list \<Rightarrow> (P2pError, StunResult) result" where
  "first_mapped [] = Inl (Nat ''No XOR-MAPPED-ADDRESS in STUN response'')"
| "first_mapped (a # as) =
     (case mapped_of a of
        Some (ip, port) \<Rightarrow> Inr \<lparr>public_ip = dotted ip, public_port = port\<rparr>
      | None \<Rightarrow> first_mapped as)"

text \<open>The attribute a server sends for the address it saw.\<close>

definition xor_mapped :: "bytes \<Rightarrow> u16 \<Rightarrow> stun_attr" where
  "xor_mapped ip port =
     (0x0020, [0, 1] @ be_bytes 2 (unat (port XOR 0x2112))
                @ u32_to_be_bytes (u32_from_be_bytes ip XOR 0x2112A442))"

section \<open>Scanning a response\<close>

lemma and_not_3: "(x :: u64) AND NOT 3 = push_bit 2 (drop_bit 2 x)"
proof -
  have "(3 :: u64) = mask 2" by (simp add: mask_eq_exp_minus_1)
  moreover have [simp]: "2 \<le> n \<Longrightarrow> Suc (Suc (n - 2)) = n" for n by arith
  ultimately show ?thesis by (simp add: bit_eq_iff bit_simps) (auto simp: not_less)
qed

lemma pad4_eq: "n < 2 ^ 16 \<Longrightarrow> pad4 n = (n + 3) div 4 * 4"
proof -
  assume n: "n < 2 ^ 16"
  have x: "unat (word_of_nat n + 3 :: u64) = n + 3"
    using n by (simp add: unat_word_ariths unat_of_nat)
  have d: "unat (drop_bit 2 (word_of_nat n + 3 :: u64)) = (n + 3) div 4"
    unfolding unat_drop_bit_eq x by (simp add: drop_bit_eq_div)
  have "(n + 3) div 4 * 4 < 2 ^ 64" using n by simp
  moreover have "pad4 n = unat (drop_bit 2 (word_of_nat n + 3 :: u64) * 4)"
    unfolding pad4_def and_not_3 by (simp add: push_bit_eq_mult)
  ultimately show ?thesis unfolding unat_word_ariths d by simp
qed

lemma pad4_split:
  assumes "n < 2 ^ 16"
  shows "pad4 n = n + (4 - n mod 4) mod 4"
proof -
  define q where "q = n div 4"
  define r where "r = n mod 4"
  have n: "n = 4 * q + r" by (simp add: q_def r_def)
  have "r = 0 \<or> r = 1 \<or> r = 2 \<or> r = 3" unfolding r_def by linarith
  then have "(n + 3) div 4 * 4 = n + (4 - n mod 4) mod 4" unfolding n by auto
  with pad4_eq[OF assms] show ?thesis by simp
qed

lemma u16_be_bytes: "n < 2 ^ 16 \<Longrightarrow> be_u16 (be_bytes 2 n ! 0) (be_bytes 2 n ! 1) = word_of_nat n"
proof -
  assume n: "n < 2 ^ 16"
  have two: "be_bytes 2 n = [be_bytes 2 n ! 0, be_bytes 2 n ! 1]"
    by (simp add: numeral_2_eq_2)
  have "be_u16 (be_bytes 2 n ! 0) (be_bytes 2 n ! 1) = word_of_nat (be_value (be_bytes 2 n))"
    unfolding be_u16_def using two by simp
  with n show ?thesis by (simp add: be_value_be_bytes)
qed

text \<open>The fields of an attribute, read at its offset in the response.\<close>

lemma attr_fields:
  assumes "r = pre @ attr_bytes (t, v) @ rest" "off = length pre" "length v < 2 ^ 16"
  shows "off + 4 \<le> length r"
    and "be_u16 (r ! off) (r ! (off + 1)) = t"
    and "unat (be_u16 (r ! (off + 2)) (r ! (off + 3))) = length v"
    and "off + 4 + pad4 (length v) = length (pre @ attr_bytes (t, v))"
proof -
  define T where "T = be_bytes 2 (unat t)"
  define L where "L = be_bytes 2 (length v)"
  have len: "length T = 2" "length L = 2" by (simp_all add: T_def L_def)
  obtain tail where r: "r = pre @ T @ L @ v @ tail"
    using assms(1) by (simp add: attr_bytes_def T_def L_def)
  show "off + 4 \<le> length r" using assms(2) len r by simp
  have "r ! off = T ! 0" "r ! (off + 1) = T ! 1" "r ! (off + 2) = L ! 0" "r ! (off + 3) = L ! 1"
    using assms(2) len by (simp_all add: r nth_append)
  moreover have "unat t < 2 ^ 16" using unat_bound[of t] by simp
  ultimately show "be_u16 (r ! off) (r ! (off + 1)) = t"
    and "unat (be_u16 (r ! (off + 2)) (r ! (off + 3))) = length v"
    using u16_be_bytes[of "unat t"] u16_be_bytes[OF assms(3)] assms(3)
    by (simp_all add: T_def L_def unat_of_nat)
  show "off + 4 + pad4 (length v) = length (pre @ attr_bytes (t, v))"
    using assms(2) by (simp add: attr_bytes_def pad4_split[OF assms(3)])
qed

lemma attr_value:
  assumes "r = pre @ attr_bytes (t, v) @ rest" "off = length pre" "8 \<le> length v"
  shows "off + 4 + 8 \<le> length r"
    and "r ! (off + 5) = v ! 1" and "r ! (off + 6) = v ! 2" and "r ! (off + 7) = v ! 3"
    and "slice (off + 8) (off + 12) r = slice 4 8 v"
proof -
  define H where "H = be_bytes 2 (unat t) @ be_bytes 2 (length v)"
  have H: "length H = 4" by (simp add: H_def)
  obtain tail where r: "r = pre @ H @ v @ tail"
    using assms(1) by (simp add: attr_bytes_def H_def)
  show "off + 4 + 8 \<le> length r" "r ! (off + 5) = v ! 1" "r ! (off + 6) = v ! 2" "r ! (off + 7) = v ! 3"
    using assms(2,3) H by (simp_all add: r nth_append)
  show "slice (off + 8) (off + 12) r = slice 4 8 v"
    using assms(2,3) H by (simp add: r slice_def)
qed

lemma stun_scan_attr:
  assumes "r = pre @ attr_bytes (t, v) @ rest" "off = length pre" "length v < 2 ^ 16"
  shows "stun_scan r off =
    (case mapped_of (t, v) of
       Some (ip, port) \<Rightarrow> Inr \<lparr>public_ip = dotted ip, public_port = port\<rparr>
     | None \<Rightarrow> stun_scan r (length (pre @ attr_bytes (t, v))))"
proof (cases "8 \<le> length v")
  case True
  with attr_value[OF assms(1,2) True] show ?thesis
    unfolding stun_scan.simps[of r off] mapped_of_def Let_def attr_fields(2,3,4)[OF assms]
    using attr_fields(1)[OF assms] by simp
next
  case False
  then show ?thesis
    unfolding stun_scan.simps[of r off] mapped_of_def Let_def attr_fields(2,3,4)[OF assms]
    using attr_fields(1)[OF assms] by simp
qed

lemma stun_scan_attrs:
  "\<forall>(t, v) \<in> set attrs. length v < 2 ^ 16 \<Longrightarrow>
   stun_scan (pre @ concat (map attr_bytes attrs)) (length pre) = first_mapped attrs"
proof (induction attrs arbitrary: pre)
  case Nil
  then show ?case by (simp add: stun_scan.simps)
next
  case (Cons a attrs)
  obtain t v where a: "a = (t, v)" by (cases a)
  have "stun_scan (pre @ concat (map attr_bytes (a # attrs))) (length (pre @ attr_bytes (t, v)))
      = first_mapped attrs"
    using Cons.IH[of "pre @ attr_bytes (t, v)"] Cons.prems a by simp
  moreover have "length v < 2 ^ 16" using Cons.prems a by simp
  note stun_scan_attr[OF _ refl this, of "pre @ concat (map attr_bytes (a # attrs))" pre t
      "concat (map attr_bytes attrs)"]
  ultimately show ?case by (auto simp: a split: option.splits)
qed

lemma parse_stun_attrs:
  assumes "length head = 18" "\<forall>(t, v) \<in> set attrs. length v < 2 ^ 16"
  shows "parse_stun_response (stun_response head attrs) = first_mapped attrs"
  using stun_scan_attrs[OF assms(2), of "[0x01, 0x01] @ head"] assms(1)
  by (simp add: parse_stun_response_def stun_response_def)

lemma mapped_of_xor_mapped:
  assumes "length ip = 4"
  shows "mapped_of (xor_mapped ip port) = (if is_reserved_ip ip then None else Some (ip, port))"
proof -
  define P where "P = be_bytes 2 (unat (port XOR 0x2112))"
  define X where "X = u32_to_be_bytes (u32_from_be_bytes ip XOR 0x2112A442)"
  have len: "length P = 2" "length X = 4" by (simp_all add: P_def X_def)
  have "unat (port XOR 0x2112) < 2 ^ 16" using unat_bound[of "port XOR 0x2112"] by simp
  from u16_be_bytes[OF this] have port: "be_u16 (P ! 0) (P ! 1) = port XOR 0x2112"
    by (simp add: P_def)
  have ip: "u32_to_be_bytes (u32_from_be_bytes ip) = ip"
    using assms by (rule u32_to_from_be_bytes)
  have "slice 4 8 ([0, 1] @ P @ X) = X" "([0, 1] @ P @ X) ! 2 = P ! 0" "([0, 1] @ P @ X) ! 3 = P ! 1"
    using len by (simp_all add: slice_def nth_append nth_Cons')
  moreover have "(u32_from_be_bytes ip XOR 0x2112A442) XOR 0x2112A442 = u32_from_be_bytes ip"
    "(port XOR 0x2112) XOR 0x2112 = port"
    by (simp_all add: xor.assoc)
  ultimately show ?thesis
    using len port ip
    unfolding mapped_of_def xor_mapped_def P_def[symmetric] X_def[symmetric]
    by (simp add: X_def)
qed

lemma first_mapped_skip:
  "\<forall>a \<in> set as. mapped_of a = None \<Longrightarrow> first_mapped (as @ bs) = first_mapped bs"
  by (induction as) auto

lemma stun_scan_step:
  obtains e where "stun_scan r off = Inl e"
  | ip port where "length ip = 4" "\<not> is_reserved_ip ip"
      "stun_scan r off = Inr \<lparr>public_ip = dotted ip, public_port = port\<rparr>"
  | k where "off < length r" "stun_scan r off = stun_scan r (off + 4 + k)"
proof -
  have "(\<exists>e. stun_scan r off = Inl e)
    \<or> (\<exists>ip port. length ip = 4 \<and> \<not> is_reserved_ip ip
         \<and> stun_scan r off = Inr \<lparr>public_ip = dotted ip, public_port = port\<rparr>)
    \<or> (\<exists>k. off < length r \<and> stun_scan r off = stun_scan r (off + 4 + k))"
    by (cases "off + 4 \<le> length r")
      (unfold stun_scan.simps[of r off] Let_def, auto, use length_u32_to_be_bytes in blast)
  with that show thesis by blast
qed

lemma stun_scan_public:
  "stun_scan r off = Inr res \<Longrightarrow> \<exists>ip. length ip = 4 \<and> public_ip res = dotted ip \<and> \<not> is_reserved_ip ip"
proof (induction "length r - off" arbitrary: off rule: less_induct)
  case less
  show ?case
  proof (rule stun_scan_step[of r off])
    fix k assume "off < length r" "stun_scan r off = stun_scan r (off + 4 + k)"
    then show ?thesis using less.hyps[of "off + 4 + k"] less.prems by simp
  qed (use less.prems in auto)
qed

lemma discover_from_SomeD:
  "discover_from net qs i servers = Inr r \<Longrightarrow>
   \<exists>j < length servers. query_stun net (qs (i + j)) (servers ! j) = Inr r"
proof (induction servers arbitrary: i)
  case (Cons s servers)
  show ?case
  proof (cases "query_stun net (qs i) s")
    case (Inr r')
    with Cons.prems have "query_stun net (qs (i + 0)) ((s # servers) ! 0) = Inr r" by simp
    then show ?thesis by blast
  next
    case (Inl e)
    with Cons.prems have "discover_from net qs (Suc i) servers = Inr r" by simp
    then obtain j where "j < length servers" "query_stun net (qs (Suc i + j)) (servers ! j) = Inr r"
      using Cons.IH by blast
    then show ?thesis by (intro exI[of _ "Suc j"]) simp
  qed
qed simp

section \<open>Correctness of address discovery\<close>

text \<open>C26: The scan of the bytes of a STUN response computes the same as reading the list of its
  attributes: for every header after the two type bytes and every list of attributes with values
  shorter than 65536 bytes, the parser returns the first IPv4 \<open>XOR-MAPPED-ADDRESS\<close> that is at
  least eight bytes long and not in a refused block, skipping padding, or the error when there is
  none. The header is not restricted: cookie and transaction id of the response are never compared
  with those of the request.\<close>

theorem stun_scan_reads_attributes:
  assumes "length head = 18" "\<forall>(t, v) \<in> set attrs. length v < 2 ^ 16"
  shows "parse_stun_response (stun_response head attrs) = first_mapped attrs"
  by (rule parse_stun_attrs[OF assms])

definition toy_attrs :: "stun_attr list" where
  "toy_attrs = [(0x8022, [1, 2, 3]), xor_mapped [10, 0, 0, 1] 80, xor_mapped [203, 0, 113, 7] 51820]"

lemma toy_attrs_short: "\<forall>(t, v) \<in> set toy_attrs. length v < 2 ^ 16"
  by (simp add: toy_attrs_def xor_mapped_def)

lemma first_mapped_toy:
  "first_mapped toy_attrs = Inr \<lparr>public_ip = ''203.0.113.7'', public_port = 51820\<rparr>"
proof -
  have "mapped_of (0x8022, [1, 2, 3]) = None" by (simp add: mapped_of_def)
  then show ?thesis
    by (simp add: toy_attrs_def mapped_of_xor_mapped is_reserved_ip_def dotted_def show_nat.simps digit_char_def
        char_of_def bit_0)
qed

theorem stun_scan_reads_attributes_witness:
  "length (replicate 18 0 :: bytes) = 18
   \<and> parse_stun_response (stun_response (replicate 18 0) toy_attrs)
      = Inr \<lparr>public_ip = ''203.0.113.7'', public_port = 51820\<rparr>"
  using stun_scan_reads_attributes[of "replicate 18 0" toy_attrs] toy_attrs_short first_mapped_toy
  by simp

text \<open>The address a server saw is the address the client reads back: when the response
  carries the server's \<open>XOR-MAPPED-ADDRESS\<close> for a public IPv4 address and port, after attributes
  that hold no usable address, and fits the 512-byte buffer, the query returns that address in
  dotted notation and that port.\<close>

theorem stun_query_roundtrip:
  assumes "net (local_port q) server (stun_request (tx_id q))
      = Datagram (stun_response head (before @ xor_mapped ip port # rest))"
    and "length head = 18" "length (stun_response head (before @ xor_mapped ip port # rest)) \<le> 512"
    and "\<forall>(t, v) \<in> set (before @ rest). length v < 2 ^ 16" "\<forall>a \<in> set before. mapped_of a = None"
    and "length ip = 4" "\<not> is_reserved_ip ip"
  shows "query_stun net q server = Inr \<lparr>public_ip = dotted ip, public_port = port\<rparr>"
proof -
  have "\<forall>(t, v) \<in> set (before @ xor_mapped ip port # rest). length v < 2 ^ 16"
    using assms(4) by (auto simp: xor_mapped_def)
  from parse_stun_attrs[OF assms(2) this] show ?thesis
    using assms(1,3) first_mapped_skip[OF assms(5)] mapped_of_xor_mapped[OF assms(6)] assms(7)
    by (simp add: query_stun_def)
qed

definition toy_server :: udp_net where
  "toy_server p s req = Datagram (stun_response (replicate 18 0) [xor_mapped [203, 0, 113, 7] p])"

theorem stun_query_roundtrip_witness:
  "query_stun toy_server \<lparr>local_port = 51820, tx_id = replicate 12 9\<rparr> ''stun:3478''
     = Inr \<lparr>public_ip = dotted [203, 0, 113, 7], public_port = 51820\<rparr>"
  using stun_query_roundtrip[of toy_server "\<lparr>local_port = 51820, tx_id = replicate 12 9\<rparr>" "''stun:3478''"
      "replicate 18 0" "[]" "[203, 0, 113, 7]" 51820 "[]"]
  by (simp add: toy_server_def stun_response_def attr_bytes_def xor_mapped_def is_reserved_ip_def)

text \<open>C27: Whatever the servers answer, an address the discovery returns is the dotted form of an
  IPv4 address outside the blocks the code refuses: private, loopback and link-local.\<close>

theorem discovered_address_not_reserved:
  assumes "discover_public_address net qs mgr = Inr r"
  shows "\<exists>a b c d. public_ip r = dotted [a, b, c, d] \<and> a \<noteq> 10 \<and> a \<noteq> 127 \<and> \<not> (a = 172 \<and> 16 \<le> b \<and> b \<le> 31)
    \<and> (a, b) \<noteq> (192, 168) \<and> (a, b) \<noteq> (169, 254)"
proof -
  obtain j where "query_stun net (qs j) (stun_servers mgr ! j) = Inr r"
    using discover_from_SomeD[of net qs 0] assms by (force simp: discover_public_address_def)
  then have "\<exists>bs. stun_scan bs 20 = Inr r"
    by (auto simp: query_stun_def parse_stun_response_def split: udp_outcome.splits if_splits)
  then obtain ip where ip: "length ip = 4" "public_ip r = dotted ip" "\<not> is_reserved_ip ip" using stun_scan_public by blast
  from ip(1) obtain a b c d where "ip = [a, b, c, d]" by (auto simp: numeral_eq_Suc length_Suc_conv)
  then have "public_ip r = dotted [a, b, c, d] \<and> a \<noteq> 10 \<and> a \<noteq> 127 \<and> \<not> (a = 172 \<and> 16 \<le> b \<and> b \<le> 31)
      \<and> (a, b) \<noteq> (192, 168) \<and> (a, b) \<noteq> (169, 254)"
    using ip(2,3) by (auto simp: is_reserved_ip_def word_le_nat_alt)
  then show ?thesis by blast
qed

theorem discovered_address_not_reserved_witness:
  "\<exists>a b c d. public_ip \<lparr>public_ip = dotted [203, 0, 113, 7], public_port = 51820\<rparr> = dotted [a, b, c, d]
     \<and> a \<noteq> 10 \<and> a \<noteq> 127 \<and> \<not> (a = 172 \<and> 16 \<le> b \<and> b \<le> 31) \<and> (a, b) \<noteq> (192, 168) \<and> (a, b) \<noteq> (169, 254)"
proof (rule discovered_address_not_reserved)
  show "discover_public_address toy_server (\<lambda>i. \<lparr>local_port = 51820, tx_id = []\<rparr>) nat_new
      = Inr \<lparr>public_ip = dotted [203, 0, 113, 7], public_port = 51820\<rparr>"
    using stun_query_roundtrip[of toy_server "\<lparr>local_port = 51820, tx_id = []\<rparr>" _
        "replicate 18 0" "[]" "[203, 0, 113, 7]" 51820 "[]"]
    by (simp add: discover_public_address_def nat_new_def STUN_SERVERS_def toy_server_def
        stun_response_def attr_bytes_def xor_mapped_def is_reserved_ip_def)
qed

text \<open>A host with no NAT in front of it is classified as being behind a symmetric NAT. Every
  query binds a fresh socket, so on such a host the servers report the different local ports of
  the queries; the classification takes differing ports for different mappings.\<close>

theorem no_nat_is_classified_symmetric:
  assumes "stun_servers mgr = s1 # s2 # servers"
    and "\<And>p s req. s \<in> set (stun_servers mgr) \<Longrightarrow> net p s req = Datagram (stun_response (head s) [xor_mapped ip p])"
    and "\<And>s. length (head s) = 18" "length ip = 4" "\<not> is_reserved_ip ip"
    and "local_port (qs 0) \<noteq> local_port (qs 1)"
  shows "fst (detect_nat_type net qs mgr) = Symmetric"
proof -
  have q: "query_stun net (qs i) s = Inr \<lparr>public_ip = dotted ip, public_port = local_port (qs i)\<rparr>"
    if "s \<in> set (stun_servers mgr)" for i s
    using parse_stun_attrs[OF assms(3), of "[xor_mapped ip (local_port (qs i))]" s] assms(2)[OF that]
      mapped_of_xor_mapped[OF assms(4)] assms(3)[of s] assms(5)
    by (simp add: query_stun_def xor_mapped_def stun_response_def attr_bytes_def)
  obtain more where "stun_results net qs 0 (stun_servers mgr) =
      \<lparr>public_ip = dotted ip, public_port = local_port (qs 0)\<rparr>
      # \<lparr>public_ip = dotted ip, public_port = local_port (qs 1)\<rparr> # more"
    using q assms(1) by simp
  with assms(6) show ?thesis by (simp add: detect_nat_type_def)
qed

theorem no_nat_is_classified_symmetric_witness:
  "fst (detect_nat_type toy_server (\<lambda>i. \<lparr>local_port = 40000 + word_of_nat i, tx_id = []\<rparr>) nat_new) = Symmetric"
  by (rule no_nat_is_classified_symmetric[of nat_new _ _ _ toy_server "\<lambda>s. replicate 18 0" "[203, 0, 113, 7]"])
    (simp_all add: nat_new_def STUN_SERVERS_def toy_server_def is_reserved_ip_def)

text \<open>Hole punching without a failing send sends five rounds, each to the public address and then to
  the local one when there is one.\<close>

lemma punch_rounds_ok:
  "punch_rounds n pub loc [] out =
     (Inr (), out @ concat (replicate n (pub # (case loc of None \<Rightarrow> [] | Some l \<Rightarrow> [l]))))"
  by (cases loc; induction n arbitrary: out) (simp_all add: udp_send_def)

lemma punch_rounds_fault:
  "k \<le> n \<Longrightarrow> punch_rounds n pub None (replicate k None @ [Some e]) out =
     (if k = n then Inr () else Inl (Nat (''hole punch send: '' @ e)), out @ replicate k pub)"
  by (induction k arbitrary: n out; case_tac n) (auto simp: udp_send_def replicate_app_Cons_same)

lemma hole_punch_ok:
  "hole_punch None [] pub (Some loc) =
     (Inr (), concat (replicate 5 [(pub, hole_punch_payload), (loc, hole_punch_payload)]))"
  by (simp add: hole_punch_def punch_rounds_ok map_concat numeral_eq_Suc)

end
