(* ===== verification/Upnp.thy ===== *)
theory Upnp
  imports NatTraversal
begin

text \<open>
  Port mapping on the home router (\<open>src/p2p/src/upnp.rs\<close>): the text helpers (URLs, headers, XML
  tags, SOAP envelopes), the HTTP exchange, SSDP discovery of the gateway and the port mapping
  calls. The gateway is an argument: a function that takes the address connected to, the request
  and its own state to an outcome and its next state. The replies are ASCII text.
\<close>

section \<open>Definitions\<close>

definition crlf :: string where "crlf = [CHR 0x0D, CHR 0x0A]"

definition quoted :: "string \<Rightarrow> string" where "quoted s = CHR 0x22 # s @ [CHR 0x22]"

subsection \<open>Text helpers\<close>

definition extract_tag :: "string \<Rightarrow> string \<Rightarrow> string option" where
  "extract_tag text tag =
     (let open_tag = ''<'' @ tag @ ''>''; close_tag = ''</'' @ tag @ ''>''
      in Option.bind (find_str open_tag text) (\<lambda>i.
           let start = i + length open_tag
           in Option.bind (find_str close_tag (drop start text)) (\<lambda>j.
                Some (str_trim (slice start (j + start) text)))))"

fun first_control_url :: "string list \<Rightarrow> string \<Rightarrow> string option" where
  "first_control_url [] desc = None"
| "first_control_url (svc # svcs) desc =
     (case find_str svc desc of
        None \<Rightarrow> first_control_url svcs desc
      | Some idx \<Rightarrow>
          (case extract_tag (drop idx desc) ''controlURL'' of
             Some cu \<Rightarrow> Some cu
           | None \<Rightarrow> first_control_url svcs desc))"

definition extract_wan_control_url :: "string \<Rightarrow> string option" where
  "extract_wan_control_url desc = first_control_url [''WANIPConnection'', ''WANPPPConnection''] desc"

fun header_in_lines :: "string \<Rightarrow> string list \<Rightarrow> string option" where
  "header_in_lines key [] = None"
| "header_in_lines key (line # rest) =
     (let t = trim_start line
      in if starts_with (to_lowercase key @ '':'') (to_lowercase t) then
           (let v = str_trim (drop (length key + 1) t)
            in if v \<noteq> [] then Some v else header_in_lines key rest)
         else header_in_lines key rest)"

definition header_value :: "string \<Rightarrow> string \<Rightarrow> string option" where
  "header_value text key = header_in_lines key (str_lines text)"

definition without_scheme :: "string \<Rightarrow> string" where
  "without_scheme url = trim_start_matches ''https://'' (trim_start_matches ''http://'' url)"

definition url_authority :: "string \<Rightarrow> string" where
  "url_authority url = hd (split_on (CHR ''/'') (without_scheme url))"

definition url_host :: "string \<Rightarrow> string" where
  "url_host url = hd (split_on (CHR '':'') (url_authority url))"

definition url_port :: "string \<Rightarrow> u16" where
  "url_port url =
     (let authority = url_authority url
      in if CHR '':'' \<in> set authority then
           (case parse_u16 (last (split_on (CHR '':'') authority)) of Some p \<Rightarrow> p | None \<Rightarrow> 80)
         else 80)"

definition url_path :: "string \<Rightarrow> string" where
  "url_path url =
     (let path = drop (length (url_authority url)) (without_scheme url)
      in if path = [] then ''/'' else path)"

definition resolve_url :: "string \<Rightarrow> string \<Rightarrow> string" where
  "resolve_url base relative =
     (if starts_with ''http://'' relative \<or> starts_with ''https://'' relative then relative
      else ''http://'' @ url_authority base
             @ (if starts_with ''/'' relative then relative else ''/'' @ relative))"

definition soap_action :: "string \<Rightarrow> string" where
  "soap_action body =
     (let start = (case find_str ''<u:'' body of Some i \<Rightarrow> i + 3 | None \<Rightarrow> 0);
          stop = (case find_str '' '' (drop start body) of Some i \<Rightarrow> start + i | None \<Rightarrow> length body)
      in slice start stop body)"

definition soap_envelope :: "string \<Rightarrow> string \<Rightarrow> string" where
  "soap_envelope action args =
     ''<?xml version='' @ quoted ''1.0'' @ ''?>'' @ crlf
     @ ''<s:Envelope xmlns:s='' @ quoted ''http://schemas.xmlsoap.org/soap/envelope/''
     @ '' s:encodingStyle='' @ quoted ''http://schemas.xmlsoap.org/soap/encoding/'' @ ''>'' @ crlf
     @ ''<s:Body>'' @ crlf
     @ ''<u:'' @ action @ '' xmlns:u='' @ quoted ''urn:schemas-upnp-org:service:WANIPConnection:1'' @ ''>'' @ crlf
     @ args @ crlf
     @ ''</u:'' @ action @ ''>'' @ crlf @ ''</s:Body>'' @ crlf @ ''</s:Envelope>''"

subsection \<open>Addresses\<close>

definition parse_octet :: "string \<Rightarrow> u8 option" where
  "parse_octet s =
     (if s = [] \<or> 3 < length s \<or> \<not> list_all is_digit_char s \<or> (1 < length s \<and> hd s = CHR ''0'')
         \<or> 256 \<le> digits_value s then None
      else Some (word_of_nat (digits_value s)))"

definition parse_ipv4 :: "string \<Rightarrow> bytes option" where
  "parse_ipv4 s =
     (let os = map parse_octet (split_on (CHR ''.'') s)
      in if length os = 4 \<and> None \<notin> set os then Some (map the os) else None)"

subsection \<open>HTTP\<close>

datatype http_outcome = ConnectTimeout | ConnectError string | WriteError string | Reply string

type_synonym 'r gateway = "bytes \<times> u16 \<Rightarrow> string \<Rightarrow> 'r \<Rightarrow> http_outcome \<times> 'r"

definition show_addr :: "bytes \<times> u16 \<Rightarrow> string" where
  "show_addr a = dotted (fst a) @ '':'' @ show_nat (unat (snd a))"

text \<open>A host without a colon makes a socket address exactly when it is an IPv4 literal.\<close>

definition http_request :: "'r gateway \<Rightarrow> string \<Rightarrow> string \<Rightarrow> 'r \<Rightarrow> (P2pError, string) result \<times> 'r" where
  "http_request G url req r =
     (case parse_ipv4 (url_host url) of
        None \<Rightarrow> (Inl (Nat (''bad IGD url '' @ url @ '': invalid socket address syntax'')), r)
      | Some ip \<Rightarrow>
          let addr = (ip, url_port url)
          in (case G addr req r of
                (ConnectTimeout, r') \<Rightarrow> (Inl (Nat (''IGD connect timeout '' @ show_addr addr)), r')
              | (ConnectError e, r') \<Rightarrow> (Inl (Nat (''IGD connect '' @ show_addr addr @ '': '' @ e)), r')
              | (WriteError e, r') \<Rightarrow> (Inl (Nat (''IGD write: '' @ e)), r')
              | (Reply text, r') \<Rightarrow> (Inr text, r')))"

definition http_get :: "'r gateway \<Rightarrow> string \<Rightarrow> 'r \<Rightarrow> (P2pError, string) result \<times> 'r" where
  "http_get G url r =
     http_request G url
       (''GET '' @ url_path url @ '' HTTP/1.1'' @ crlf @ ''HOST: '' @ url_host url @ crlf
          @ ''CONNECTION: close'' @ crlf @ crlf) r"

definition http_post :: "'r gateway \<Rightarrow> string \<Rightarrow> string \<Rightarrow> 'r \<Rightarrow> (P2pError, string) result \<times> 'r" where
  "http_post G url req r = http_request G url req r"

subsection \<open>The gateway device\<close>

record Igd =
  control_url :: string
  internal_ip :: bytes

datatype ssdp_event = Packet string | SocketError string | Idle

text \<open>The packets, errors and idle windows before the deadline, in order.\<close>

fun ssdp_location :: "ssdp_event list \<Rightarrow> string option" where
  "ssdp_location [] = None"
| "ssdp_location (Packet text # es) =
     (case header_value text ''LOCATION'' of Some loc \<Rightarrow> Some loc | None \<Rightarrow> ssdp_location es)"
| "ssdp_location (SocketError e # es) = None"
| "ssdp_location (Idle # es) = ssdp_location es"

definition igd_discover ::
    "'r gateway \<Rightarrow> string option \<Rightarrow> string option \<Rightarrow> ssdp_event list \<Rightarrow> bytes \<Rightarrow> 'r
     \<Rightarrow> (P2pError, Igd) result \<times> 'r" where
  "igd_discover G bind_error send_error events ip r =
     (case bind_error of Some e \<Rightarrow> (Inl (Nat (''ssdp bind: '' @ e)), r) | None \<Rightarrow>
     (case send_error of Some e \<Rightarrow> (Inl (Nat (''ssdp send: '' @ e)), r) | None \<Rightarrow>
     (case ssdp_location events of None \<Rightarrow> (Inl (Nat ''no IGD found via SSDP''), r) | Some location \<Rightarrow>
     (case http_get G location r of
        (Inl e, r') \<Rightarrow> (Inl e, r')
      | (Inr desc, r') \<Rightarrow>
          (case extract_wan_control_url desc of
             None \<Rightarrow> (Inl (Nat ''no WAN*Connection service in IGD description''), r')
           | Some url \<Rightarrow> (Inr \<lparr>control_url = resolve_url location url, internal_ip = ip\<rparr>, r'))))))"

definition soap_request :: "string \<Rightarrow> string \<Rightarrow> string" where
  "soap_request url body =
     ''POST '' @ url_path url @ '' HTTP/1.1'' @ crlf
     @ ''HOST: '' @ url_host url @ crlf
     @ ''CONTENT-TYPE: text/xml; charset='' @ quoted ''utf-8'' @ crlf
     @ ''SOAPACTION: '' @ quoted (''urn:schemas-upnp-org:service:WANIPConnection:1#'' @ soap_action body) @ crlf
     @ ''CONTENT-LENGTH: '' @ show_nat (length body) @ crlf
     @ ''CONNECTION: close'' @ crlf @ crlf @ body"

definition soap_call :: "'r gateway \<Rightarrow> Igd \<Rightarrow> string \<Rightarrow> 'r \<Rightarrow> (P2pError, string) result \<times> 'r" where
  "soap_call G igd body r = http_post G (control_url igd) (soap_request (control_url igd) body) r"

definition xml_tag :: "string \<Rightarrow> string \<Rightarrow> string" where
  "xml_tag tag v = ''<'' @ tag @ ''>'' @ v @ ''</'' @ tag @ ''>''"

definition add_mapping_args :: "string \<Rightarrow> u16 \<Rightarrow> bytes \<Rightarrow> u16 \<Rightarrow> u32 \<Rightarrow> string" where
  "add_mapping_args proto ext_port int_ip int_port lease =
     xml_tag ''NewRemoteHost'' ''''
     @ xml_tag ''NewExternalPort'' (show_nat (unat ext_port))
     @ xml_tag ''NewProtocol'' proto
     @ xml_tag ''NewInternalPort'' (show_nat (unat int_port))
     @ xml_tag ''NewInternalClient'' (dotted int_ip)
     @ xml_tag ''NewEnabled'' ''1''
     @ xml_tag ''NewPortMappingDescription'' ''Add P2P''
     @ xml_tag ''NewLeaseDuration'' (show_nat (unat lease))"

definition check_add_reply :: "u16 \<Rightarrow> string \<Rightarrow> (P2pError, unit) result" where
  "check_add_reply ext_port resp =
     (let returned = (case Option.bind (extract_tag resp ''NewExternalPort'') parse_u16 of
                        Some p \<Rightarrow> p | None \<Rightarrow> ext_port)
      in if returned \<noteq> ext_port then
           Inl (Nat (''AddPortMapping external port mismatch: requested='' @ show_nat (unat ext_port)
                     @ '' got='' @ show_nat (unat returned)))
         else if contains_str ''AddPortMappingResponse'' resp \<and> \<not> contains_str ''<errorCode>'' resp then Inr ()
         else Inl (Nat (''AddPortMapping rejected: '' @ resp)))"

definition soap_add_port_mapping ::
    "'r gateway \<Rightarrow> Igd \<Rightarrow> string \<Rightarrow> u16 \<Rightarrow> bytes \<Rightarrow> u16 \<Rightarrow> u32 \<Rightarrow> 'r \<Rightarrow> (P2pError, unit) result \<times> 'r" where
  "soap_add_port_mapping G igd proto ext_port int_ip int_port lease r =
     (case soap_call G igd (soap_envelope ''AddPortMapping''
             (add_mapping_args proto ext_port int_ip int_port lease)) r of
        (Inl e, r') \<Rightarrow> (Inl e, r')
      | (Inr resp, r') \<Rightarrow> (check_add_reply ext_port resp, r'))"

definition soap_delete_port_mapping ::
    "'r gateway \<Rightarrow> Igd \<Rightarrow> string \<Rightarrow> u16 \<Rightarrow> 'r \<Rightarrow> (P2pError, unit) result \<times> 'r" where
  "soap_delete_port_mapping G igd proto ext_port r =
     (case soap_call G igd (soap_envelope ''DeletePortMapping''
             (xml_tag ''NewRemoteHost'' '''' @ xml_tag ''NewExternalPort'' (show_nat (unat ext_port))
              @ xml_tag ''NewProtocol'' proto)) r of
        (Inl e, r') \<Rightarrow> (Inl e, r')
      | (Inr resp, r') \<Rightarrow>
          (if contains_str ''DeletePortMappingResponse'' resp \<and> \<not> contains_str ''<errorCode>'' resp then Inr ()
           else Inl (Nat (''DeletePortMapping rejected: '' @ resp)), r'))"

text \<open>\<open>rs\<close> are the five random numbers of a call.\<close>

definition mapping_candidates :: "u16 list \<Rightarrow> u16 \<Rightarrow> u16 list" where
  "mapping_candidates rs internal_port = internal_port # map (\<lambda>n. n mod 40000 + 20000) rs"

fun try_mappings ::
    "'r gateway \<Rightarrow> Igd \<Rightarrow> u16 \<Rightarrow> u32 \<Rightarrow> u16 list \<Rightarrow> P2pError option \<Rightarrow> 'r \<Rightarrow> (P2pError, u16) result \<times> 'r" where
  "try_mappings G igd int_port lease [] last_err r =
     (Inl (case last_err of Some e \<Rightarrow> e | None \<Rightarrow> Nat ''AddPortMapping failed''), r)"
| "try_mappings G igd int_port lease (ext # exts) last_err r =
     (case soap_add_port_mapping G igd ''TCP'' ext (internal_ip igd) int_port lease r of
        (Inr _, r') \<Rightarrow> (Inr ext, r')
      | (Inl e, r') \<Rightarrow> try_mappings G igd int_port lease exts (Some e) r')"

definition add_tcp_mapping ::
    "'r gateway \<Rightarrow> u16 list \<Rightarrow> Igd \<Rightarrow> u16 \<Rightarrow> u32 \<Rightarrow> 'r \<Rightarrow> (P2pError, u16) result \<times> 'r" where
  "add_tcp_mapping G rs igd int_port lease r =
     try_mappings G igd int_port lease (mapping_candidates rs int_port) None r"

definition external_ip :: "'r gateway \<Rightarrow> Igd \<Rightarrow> 'r \<Rightarrow> (P2pError, bytes) result \<times> 'r" where
  "external_ip G igd r =
     (case soap_call G igd (soap_envelope ''GetExternalIPAddress'' '''') r of
        (Inl e, r') \<Rightarrow> (Inl e, r')
      | (Inr resp, r') \<Rightarrow>
          (case Option.bind (extract_tag resp ''NewExternalIPAddress'') parse_ipv4 of
             Some ip \<Rightarrow> (Inr ip, r')
           | None \<Rightarrow> (Inl (Nat ''no NewExternalIPAddress in IGD response''), r')))"

definition remove_tcp_mapping :: "'r gateway \<Rightarrow> Igd \<Rightarrow> u16 \<Rightarrow> 'r \<Rightarrow> 'r" where
  "remove_tcp_mapping G igd external_port r = snd (soap_delete_port_mapping G igd ''TCP'' external_port r)"

section \<open>SOAP envelopes and XML tags\<close>

definition envelope_head :: string where
  "envelope_head =
     ''<?xml version='' @ quoted ''1.0'' @ ''?>'' @ crlf
     @ ''<s:Envelope xmlns:s='' @ quoted ''http://schemas.xmlsoap.org/soap/envelope/''
     @ '' s:encodingStyle='' @ quoted ''http://schemas.xmlsoap.org/soap/encoding/'' @ ''>'' @ crlf
     @ ''<s:Body>'' @ crlf"

lemma find_action_tag: "find_str ''<u:'' (envelope_head @ ''<u:'' @ rest) = Some (length envelope_head)"
  by (simp add: envelope_head_def quoted_def crlf_def)

lemma slice_from_length: "slice (length a) (length a + length b) (a @ b @ c) = b"
  by (simp add: slice_def)

lemma action_of_envelope:
  assumes "CHR '' '' \<notin> set action"
  shows "soap_action (soap_envelope action args) = action"
proof -
  obtain rest where env: "soap_envelope action args = envelope_head @ ''<u:'' @ action @ '' '' @ rest"
    by (simp add: soap_envelope_def envelope_head_def)
  let ?h = "envelope_head @ ''<u:''"
  have "find_str ''<u:'' (soap_envelope action args) = Some (length envelope_head)"
    unfolding env by (rule find_action_tag)
  moreover have "drop (length envelope_head + 3) (soap_envelope action args) = action @ '' '' @ rest"
    by (simp add: env)
  moreover have "find_str '' '' (action @ '' '' @ rest) = Some (length action)"
    by (rule find_str_at_char[OF assms refl])
  moreover have "soap_envelope action args = ?h @ action @ '' '' @ rest" by (simp add: env)
  then have "slice (length envelope_head + 3) (length envelope_head + 3 + length action)
      (soap_envelope action args) = action"
    by (simp add: slice_def)
  ultimately show ?thesis unfolding soap_action_def Let_def by simp
qed

lemma extract_tag_found:
  assumes "\<And>i. i < length pre \<Longrightarrow> \<not> prefix (''<'' @ tag @ ''>'') (drop i (pre @ xml_tag tag v @ post))"
    and "CHR ''<'' \<notin> set v"
  shows "extract_tag (pre @ xml_tag tag v @ post) tag = Some (str_trim v)"
proof -
  let ?o = "''<'' @ tag @ ''>''" and ?c = "''</'' @ tag @ ''>''"
  have whole: "pre @ xml_tag tag v @ post = pre @ ?o @ v @ ?c @ post" by (simp add: xml_tag_def)
  have "find_str ?o (pre @ ?o @ v @ ?c @ post) = Some (length pre)"
    using assms(1) unfolding whole by (rule find_str_at)
  moreover have "drop (length pre + length ?o) (pre @ ?o @ v @ ?c @ post) = v @ ?c @ post"
    by simp
  moreover have "find_str ?c (v @ ?c @ post) = Some (length v)"
    by (rule find_str_at_char[OF assms(2)]) simp
  moreover have "slice (length pre + length ?o) (length v + (length pre + length ?o)) (pre @ ?o @ v @ ?c @ post) = v"
    using slice_from_length[of "pre @ ?o" v "?c @ post"] by (simp add: ac_simps)
  ultimately show ?thesis unfolding extract_tag_def whole Let_def by simp
qed

lemma digits_no: "\<not> is_digit_char c \<Longrightarrow> c \<notin> set (show_nat n)"
  using show_nat_digits by blast

lemma length_show_nat_lt_1000: "n < 1000 \<Longrightarrow> length (show_nat n) \<le> 3"
proof -
  assume "n < 1000"
  then have "n div 10 div 10 < 10" by simp
  then show ?thesis by (simp add: show_nat.simps[of n] show_nat.simps[of "n div 10"] show_nat.simps[of "n div 10 div 10"])
qed

lemma hd_show_nat: "10 \<le> n \<Longrightarrow> hd (show_nat n) \<noteq> CHR ''0''"
proof (induction n rule: show_nat.induct)
  case (1 n)
  show ?case
  proof (cases "n div 10 < 10")
    case True
    have "digit_char (n div 10) \<noteq> digit_char 0"
      using digit_char_inj[OF True, of 0] "1.prems" by auto
    moreover have "digit_char 0 = CHR ''0''" by (simp add: digit_char_def char_of_def bit_0)
    ultimately show ?thesis using True "1.prems"
      by (simp add: show_nat.simps[of n] show_nat.simps[of "n div 10"])
  next
    case False
    with "1.IH" "1.prems" show ?thesis by (simp add: show_nat.simps[of n])
  qed
qed

lemma parse_octet_show: "parse_octet (show_nat (unat (b :: u8))) = Some b"
proof -
  have b: "unat b < 256" using unat_bound[of b] by simp
  moreover have "length (show_nat (unat b)) = 1" if "unat b < 10" using that by (simp add: show_nat.simps)
  moreover have "hd (show_nat (unat b)) \<noteq> CHR ''0''" if "\<not> unat b < 10" using hd_show_nat that by simp
  ultimately show ?thesis
    using length_show_nat_lt_1000[of "unat b"] show_nat_digits[of "unat b"]
    by (cases "unat b < 10") (simp_all add: parse_octet_def list_all_iff)
qed

lemma parse_ipv4_dotted: "length ip = 4 \<Longrightarrow> parse_ipv4 (dotted ip) = Some ip"
proof -
  assume "length ip = 4"
  then obtain a b c d where ip: "ip = [a, b, c, d]"
    by (auto simp: numeral_eq_Suc length_Suc_conv)
  let ?s = "\<lambda>x :: u8. show_nat (unat x)"
  have "CHR ''.'' \<notin> set (show_nat n)" for n by (rule digits_no) (simp add: is_digit_char_def)
  then have "split_on (CHR ''.'') (dotted ip) = [?s a, ?s b, ?s c, ?s d]"
    by (simp add: dotted_def ip split_on_append split_on_no_delim)
  then show ?thesis by (simp add: parse_ipv4_def parse_octet_show ip)
qed

section \<open>URLs\<close>

lemma url_authority_no_slash: "CHR ''/'' \<notin> set (url_authority url)"
  by (auto simp: url_authority_def hd_split_on dest: set_takeWhileD)

lemma scheme_not_prefix:
  assumes "CHR ''/'' \<notin> set a" "CHR ''/'' \<notin> set p" "\<not> prefix ''//'' rel" "prefix ''/'' rel"
  shows "\<not> prefix (p @ ''://'') (a @ rel)"
proof
  assume pre: "prefix (p @ ''://'') (a @ rel)"
  obtain rel' where rel: "rel = CHR ''/'' # rel'" using assms(4) by (auto simp: prefix_def)
  from pre obtain z where eq: "(p @ '':'') @ CHR ''/'' # CHR ''/'' # z = a @ CHR ''/'' # rel'"
    by (auto simp: prefix_def rel)
  have "CHR ''/'' \<notin> set (p @ '':'')" using assms(2) by simp
  from delim_field_inj[OF this assms(1) eq] have "CHR ''/'' # z = rel'" by simp
  then show False using assms(3) rel by auto
qed

lemma without_scheme_join:
  assumes "CHR ''/'' \<notin> set a" "\<not> prefix ''//'' rel" "prefix ''/'' rel"
  shows "without_scheme (''http://'' @ a @ rel) = a @ rel"
proof -
  have "\<not> prefix ''http://'' (a @ rel)" "\<not> prefix ''https://'' (a @ rel)"
    using scheme_not_prefix[OF assms(1) _ assms(2,3), of "''http''"]
      scheme_not_prefix[OF assms(1) _ assms(2,3), of "''https''"] by simp_all
  then show ?thesis
    using trim_start_matches_strip[of "''http://''" "a @ rel"] by (simp add: without_scheme_def)
qed

lemma resolve_url_parts:
  assumes "\<not> starts_with ''http://'' rel" "\<not> starts_with ''https://'' rel" "\<not> starts_with ''//'' rel"
  shows "url_authority (resolve_url base rel) = url_authority base"
    and "url_path (resolve_url base rel) = (if starts_with ''/'' rel then rel else CHR ''/'' # rel)"
proof -
  define rel' where "rel' = (if starts_with ''/'' rel then rel else CHR ''/'' # rel)"
  have rel': "prefix ''/'' rel'" "\<not> prefix ''//'' rel'"
    using assms(3) by (auto simp: rel'_def starts_with_def)
  have res: "resolve_url base rel = ''http://'' @ url_authority base @ rel'"
    using assms by (simp add: resolve_url_def rel'_def)
  have ws: "without_scheme (resolve_url base rel) = url_authority base @ rel'"
    unfolding res by (rule without_scheme_join[OF url_authority_no_slash rel'(2,1)])
  obtain r where "rel' = CHR ''/'' # r" using rel'(1) by (auto simp: prefix_def)
  then show auth: "url_authority (resolve_url base rel) = url_authority base"
    using split_on_append[OF url_authority_no_slash, of base r] by (simp add: url_authority_def[of "resolve_url base rel"] ws)
  show "url_path (resolve_url base rel) = (if starts_with ''/'' rel then rel else CHR ''/'' # rel)"
    using rel'(1) by (auto simp: url_path_def auth ws prefix_def simp flip: rel'_def)
qed

section \<open>Correctness of port mapping\<close>

text \<open>The SOAP action a request announces in its header is the action of its envelope: reading
  the action back from an envelope gives the action it was built for, whatever its arguments.\<close>

theorem soap_action_roundtrip:
  assumes "CHR '' '' \<notin> set action"
  shows "soap_action (soap_envelope action args) = action"
  by (rule action_of_envelope[OF assms])

theorem soap_action_roundtrip_witness:
  "soap_action (soap_envelope ''AddPortMapping'' (xml_tag ''NewEnabled'' ''1'')) = ''AddPortMapping''"
  by (rule soap_action_roundtrip) simp

text \<open>A control URL that the device description gives as a path is resolved on the device that
  was found: it keeps host and port of the description's location and the path given.\<close>

theorem resolve_url_stays_on_host:
  assumes "\<not> starts_with ''http://'' rel" "\<not> starts_with ''https://'' rel" "\<not> starts_with ''//'' rel"
  shows "url_host (resolve_url base rel) = url_host base \<and> url_port (resolve_url base rel) = url_port base
    \<and> url_path (resolve_url base rel) = (if starts_with ''/'' rel then rel else CHR ''/'' # rel)"
  using resolve_url_parts[OF assms] by (simp add: url_host_def url_port_def)

theorem resolve_url_stays_on_host_witness:
  "url_host (resolve_url ''http://192.168.1.1:5000/desc.xml'' ''ctl/IPConn'')
     = url_host ''http://192.168.1.1:5000/desc.xml''
   \<and> url_path (resolve_url ''http://192.168.1.1:5000/desc.xml'' ''ctl/IPConn'') = ''/ctl/IPConn''"
  using resolve_url_stays_on_host[of "''ctl/IPConn''" "''http://192.168.1.1:5000/desc.xml''"]
  by (simp add: starts_with_def)

lemma try_mappings_ok:
  "try_mappings G igd ip lease exts last_err r = (Inr p, r') \<Longrightarrow>
   p \<in> set exts \<and> (\<exists>r0. soap_add_port_mapping G igd ''TCP'' p (internal_ip igd) ip lease r0 = (Inr (), r'))"
  by (induction exts arbitrary: last_err r) (auto split: prod.splits sum.splits)

lemma candidate_range: "20000 \<le> (n mod 40000 + 20000 :: u16) \<and> (n mod 40000 + 20000 :: u16) < 60000"
proof -
  have "unat (n mod 40000 + 20000) = unat n mod 40000 + 20000"
    by (simp add: unat_word_ariths unat_mod_distrib)
  moreover have "unat n mod 40000 < 40000" by simp
  ultimately show ?thesis by (simp add: word_le_nat_alt word_less_nat_alt)
qed

text \<open>A port that \<open>add_tcp_mapping\<close> returns was granted by the gateway: it is the internal port or
  one of the random candidates between 20000 and 59999, and the last exchange with the gateway was
  the request for this port, answered by an \<open>AddPortMappingResponse\<close> without error code whose
  external port, when it carries a readable one, is this port.\<close>

theorem add_tcp_mapping_granted:
  assumes "add_tcp_mapping G rs igd int_port lease r = (Inr p, r')"
  shows "(p = int_port \<or> 20000 \<le> p \<and> p < 60000)
    \<and> (\<exists>r0 addr resp.
         G addr (soap_request (control_url igd) (soap_envelope ''AddPortMapping''
            (add_mapping_args ''TCP'' p (internal_ip igd) int_port lease))) r0 = (Reply resp, r')
         \<and> contains_str ''AddPortMappingResponse'' resp \<and> \<not> contains_str ''<errorCode>'' resp
         \<and> Option.bind (extract_tag resp ''NewExternalPort'') parse_u16 \<in> {None, Some p})"
proof -
  from try_mappings_ok[OF assms[unfolded add_tcp_mapping_def]]
  obtain r0 where p: "p \<in> set (mapping_candidates rs int_port)"
    and r0: "soap_add_port_mapping G igd ''TCP'' p (internal_ip igd) int_port lease r0 = (Inr (), r')"
    by blast
  have "p = int_port \<or> 20000 \<le> p \<and> p < 60000"
    using p candidate_range by (auto simp: mapping_candidates_def)
  moreover have "\<exists>addr resp.
       G addr (soap_request (control_url igd) (soap_envelope ''AddPortMapping''
            (add_mapping_args ''TCP'' p (internal_ip igd) int_port lease))) r0 = (Reply resp, r')
       \<and> check_add_reply p resp = Inr ()"
    using r0 by (auto simp: soap_add_port_mapping_def soap_call_def http_post_def http_request_def Let_def
        split: option.splits prod.splits sum.splits http_outcome.splits)
  moreover have "check_add_reply p resp = Inr () \<Longrightarrow>
      contains_str ''AddPortMappingResponse'' resp \<and> \<not> contains_str ''<errorCode>'' resp
      \<and> Option.bind (extract_tag resp ''NewExternalPort'') parse_u16 \<in> {None, Some p}" for resp
    by (auto simp: check_add_reply_def Let_def split: if_splits option.splits)
  ultimately show ?thesis by blast
qed

text \<open>A gateway that refuses the first request and grants the second.\<close>

definition toy_gateway :: "nat gateway" where
  "toy_gateway addr req n =
     (Reply (if n = 0 then ''<errorCode>718</errorCode>'' else ''<u:AddPortMappingResponse/>''), Suc n)"

definition toy_igd :: Igd where
  "toy_igd = \<lparr>control_url = ''http://192.168.1.1:5000/ctl'', internal_ip = [192, 168, 1, 20]\<rparr>"

lemma toy_mapping: "add_tcp_mapping toy_gateway [7, 8, 9, 10, 11] toy_igd 9443 3600 0 = (Inr 20007, 2)"
proof -
  have host: "parse_ipv4 (url_host (control_url toy_igd)) = Some [192, 168, 1, 1]" by code_simp
  have no: "check_add_reply 9443 ''<errorCode>718</errorCode>'' \<noteq> Inr ()"
    and yes: "check_add_reply 20007 ''<u:AddPortMappingResponse/>'' = Inr ()" by code_simp+
  obtain e where e: "check_add_reply 9443 ''<errorCode>718</errorCode>'' = Inl e"
    using no by (cases "check_add_reply 9443 ''<errorCode>718</errorCode>''") auto
  have "soap_add_port_mapping toy_gateway toy_igd ''TCP'' 9443 ip 9443 3600 0 = (Inl e, Suc 0)"
    and "soap_add_port_mapping toy_gateway toy_igd ''TCP'' 20007 ip 9443 3600 (Suc 0) = (Inr (), 2)" for ip
    using e yes by (simp_all add: soap_add_port_mapping_def soap_call_def http_post_def http_request_def
        host Let_def toy_gateway_def)
  then show ?thesis by (simp add: add_tcp_mapping_def mapping_candidates_def)
qed

theorem add_tcp_mapping_granted_witness:
  "((20007 :: u16) = 9443 \<or> (20000 :: u16) \<le> 20007 \<and> (20007 :: u16) < 60000)
    \<and> (\<exists>r0 addr resp.
         toy_gateway addr (soap_request (control_url toy_igd) (soap_envelope ''AddPortMapping''
            (add_mapping_args ''TCP'' 20007 (internal_ip toy_igd) 9443 3600))) r0 = (Reply resp, 2)
         \<and> contains_str ''AddPortMappingResponse'' resp \<and> \<not> contains_str ''<errorCode>'' resp
         \<and> Option.bind (extract_tag resp ''NewExternalPort'') parse_u16 \<in> {None, Some 20007})"
  by (rule add_tcp_mapping_granted[OF toy_mapping])

text \<open>The address a gateway reports is the one the client takes: when its reply holds the address
  in dotted notation in the tag \<open>NewExternalIPAddress\<close> and this tag does not open before, the client
  gets exactly this address. No block is refused here, unlike for STUN.\<close>

theorem external_ip_roundtrip:
  assumes "parse_ipv4 (url_host (control_url igd)) = Some gw"
    and "G (gw, url_port (control_url igd)) (soap_request (control_url igd)
           (soap_envelope ''GetExternalIPAddress'' '''')) r
         = (Reply (pre @ xml_tag ''NewExternalIPAddress'' (dotted ip) @ post), r')"
    and "\<And>i. i < length pre \<Longrightarrow> \<not> prefix ''<NewExternalIPAddress>''
           (drop i (pre @ xml_tag ''NewExternalIPAddress'' (dotted ip) @ post))"
    and "length ip = 4"
  shows "external_ip G igd r = (Inr ip, r')"
proof -
  have no_lt: "CHR ''<'' \<notin> set (dotted ip)"
    using digits_no[of "CHR ''<''"] by (simp add: dotted_def is_digit_char_def)
  have "\<not> is_space c" if "c \<in> set (dotted ip)" for c
  proof -
    have "is_digit_char c \<or> c = CHR ''.''"
      using that show_nat_digits by (auto simp: dotted_def)
    then show ?thesis by (auto simp: is_digit_char_def is_space_def Let_def)
  qed
  then have "str_trim (dotted ip) = dotted ip" by (intro trim_id) (simp add: list_all_iff)
  with extract_tag_found[of pre "''NewExternalIPAddress''" "dotted ip" post] assms(3) no_lt
  have "extract_tag (pre @ xml_tag ''NewExternalIPAddress'' (dotted ip) @ post) ''NewExternalIPAddress''
      = Some (dotted ip)" by simp
  then show ?thesis
    using assms(1,2) parse_ipv4_dotted[OF assms(4)]
    by (simp add: external_ip_def soap_call_def http_post_def http_request_def Let_def)
qed

definition toy_router :: "unit gateway" where
  "toy_router addr req r = (Reply (''ok '' @ xml_tag ''NewExternalIPAddress'' (dotted [203, 0, 113, 7]) @ '' ''), ())"

theorem external_ip_roundtrip_witness: "external_ip toy_router toy_igd () = (Inr [203, 0, 113, 7], ())"
proof (rule external_ip_roundtrip[of toy_igd "[192, 168, 1, 1]" toy_router "()" "''ok ''" _ "'' ''"])
  show "parse_ipv4 (url_host (control_url toy_igd)) = Some [192, 168, 1, 1]" by code_simp
  fix i assume "i < length ''ok ''"
  then have "i = 0 \<or> i = 1 \<or> i = 2" by auto
  then show "\<not> prefix ''<NewExternalIPAddress>''
      (drop i (''ok '' @ xml_tag ''NewExternalIPAddress'' (dotted [203, 0, 113, 7]) @ '' ''))"
    by auto
qed (simp_all add: toy_router_def)

end
