(* ===== verification/P2pSession.thy ===== *)
theory P2pSession
  imports Presence Upnp
begin

text \<open>
  Direct connections of the client, in \<open>client/src/main.rs\<close>: \<open>handle_incoming_connection\<close> of the listener and
  \<open>send_message\<close> with its choice between a direct connection and a relay.

  The handshake, the braided key exchange, the ratchet, the store, the directory and presence are those of the
  other theories. A connection is the list of events it delivers and the frames written to it.
\<close>

section \<open>Definitions\<close>

subsection \<open>Surroundings\<close>

text \<open>How a call ends that does not succeed: with an error, by waiting for a frame that never comes, or by a panic.\<close>

datatype stop = Fail string | Waits | Panics

definition failing :: "(string, 'a) result \<Rightarrow> 's \<Rightarrow> (stop, 'a) result \<times> 's" where
  "failing r st = (map_sum Fail id r, st)"

definition require :: "bool \<Rightarrow> string \<Rightarrow> 's \<Rightarrow> (stop, unit) result \<times> 's" where
  "require ok msg st = (if ok then Inr () else Inl (Fail msg), st)"

fun p2p_error_text :: "P2pError \<Rightarrow> string" where
  "p2p_error_text (Connection e) = ''connection error: '' @ e"
| "p2p_error_text (InvalidAddress e) = ''invalid address: '' @ e"
| "p2p_error_text (Serialization e) = ''serialization error: '' @ e"
| "p2p_error_text (Handshake e) = ''handshake failed: '' @ e"
| "p2p_error_text (Peer e) = ''peer error: '' @ e"
| "p2p_error_text (Nat e) = ''NAT traversal error: '' @ e"
| "p2p_error_text P2pTimeout = ''timeout''"
| "p2p_error_text (Io e) = ''io error: '' @ e"

record ('ek, 'dk, 'vk, 'sg, 'w) peer_env =
  pe_client :: "('ek, 'dk, 'vk, 'sg) client_env"
  pe_dir :: "('ek, 'dk, 'vk, 'sg, 'w) dir_env"
  pe_sha512 :: "bytes \<Rightarrow> bytes"

record ('vk, 'w) peer_state =
  ps_store :: MessageStore
  ps_cache :: "'vk vk_cache"
  ps_ws :: WebSocketConn
  ps_world :: 'w
  ps_secrets :: "(string, string) hmap"

definition sha_hex :: "('vk, 'sg) crypto \<Rightarrow> bytes \<Rightarrow> string" where
  "sha_hex cr data = hex_encode (sha256 cr data)"

definition frame_type :: "json \<Rightarrow> string option" where
  "frame_type v = Option.bind (case json_get v ''msg_type'' of Some t \<Rightarrow> Some t | None \<Rightarrow> json_get v ''type'') as_str"

definition send_frame ::
    "('ek, 'dk, 'vk, 'sg, 'w) peer_env \<Rightarrow> string \<Rightarrow> WireEnvelope \<Rightarrow> ('vk, 'w) peer_state \<Rightarrow> (stop, unit) result \<times> ('vk, 'w) peer_state" where
  "send_frame E what env st =
     (case to_json (de_codec (pe_dir E)) env of
        Inl e \<Rightarrow> (Inl (Fail e), st)
      | Inr t \<Rightarrow>
          (case ws_send (Text t) (ps_ws st) of
             (Inl e, ws) \<Rightarrow> (Inl (Fail (what @ e)), st\<lparr>ps_ws := ws\<rparr>)
           | (Inr _, ws) \<Rightarrow> (Inr (), st\<lparr>ps_ws := ws\<rparr>)))"

subsection \<open>The key of the peer\<close>

definition embedded_key :: "('vk, 'sg) crypto \<Rightarrow> json \<Rightarrow> 'vk option" where
  "embedded_key cr p =
     Option.bind (field_str p ''sender_verifying_key'') (\<lambda>b. Option.bind (b64_decode cr b) (vk_from_slice cr))"

text \<open>Whether a key was in the cache before; otherwise the key embedded in the hello, if there is one, is pinned.\<close>

definition pin_embedded ::
    "('vk, 'sg) crypto \<Rightarrow> (nat \<Rightarrow> real) \<Rightarrow> string \<Rightarrow> json \<Rightarrow> string \<Rightarrow> 'vk vk_cache \<Rightarrow> (string, bool) result \<times> 'vk vk_cache" where
  "pin_embedded cr clk what p fp c =
     (case get_cached_verifying_key (clk 0) fp c of
        (Some _, c1) \<Rightarrow> (Inr True, c1)
      | (None, c1) \<Rightarrow>
          (case embedded_key cr p of
             None \<Rightarrow> (Inr False, c1)
           | Some vk \<Rightarrow>
               (case pin_verifying_key cr (clk 1) fp vk c1 of
                  (Inl e, c2) \<Rightarrow> (Inl (what @ '' identity binding conflict for '' @ fp @ '': '' @ e), c2)
                | (Inr _, c2) \<Rightarrow> (Inr False, c2))))"

definition learn_peer_key ::
    "('ek, 'dk, 'vk, 'sg, 'w) peer_env \<Rightarrow> (nat \<Rightarrow> real) \<Rightarrow> json \<Rightarrow> string \<Rightarrow> ('vk, 'w) peer_state
     \<Rightarrow> (stop, unit) result \<times> ('vk, 'w) peer_state" where
  "learn_peer_key E clk p fp st =
     (case pin_embedded (de_crypto (pe_dir E)) clk ''p2p-hello'' p fp (ps_cache st) of
        (Inl e, c) \<Rightarrow> (Inl (Fail e), st\<lparr>ps_cache := c\<rparr>)
      | (Inr True, c) \<Rightarrow> (Inr (), st\<lparr>ps_cache := c\<rparr>)
      | (Inr False, c) \<Rightarrow>
          (case get_cached_verifying_key (clk 2) fp c of
             (Some _, c1) \<Rightarrow> (Inr (), st\<lparr>ps_cache := c1\<rparr>)
           | (None, c1) \<Rightarrow>
               (case discover_all_servers (de_net (pe_dir E)) (ps_world st) of ((seed_url, _, _), w1) \<Rightarrow>
                  (case fetch_peer_verifying_key (pe_dir E) seed_url fp c1 w1 of
                     (_, c2, w2) \<Rightarrow> (Inr (), st\<lparr>ps_cache := c2, ps_world := w2\<rparr>)))))"

text \<open>The peer's encapsulation key from the braid, bound to the inline key of the signed hello. The listener exchanges the
  keys over the halves of its split connection, which is the same exchange (\<open>exchange_ek_braid_split_same\<close>).\<close>

definition braid_peer_key ::
    "('ek, 'dk, 'vk, 'sg, 'w) peer_env \<Rightarrow> (BraidChunk \<Rightarrow> string \<times> real) \<Rightarrow> string \<Rightarrow> string \<Rightarrow> ('vk, 'w) peer_state
     \<Rightarrow> (stop, 'ek option) result \<times> ('vk, 'w) peer_state" where
  "braid_peer_key E stamp our_enc inline st =
     (let P = de_prims (pe_dir E)
      in then_ok (failing (map_sum (\<lambda>e. ''ek decode: '' @ e) id (b64_dec P our_enc)) st) (\<lambda>our_ek st.
         case exchange_ek_braid (pe_sha512 E) (de_codec (pe_dir E)) stamp (ps_ws st) our_ek of
           (Inl e, ws) \<Rightarrow> (Inl (Fail (''braid EK exchange: '' @ p2p_error_text e)), st\<lparr>ps_ws := ws\<rparr>)
         | (Inr peer_ek, ws) \<Rightarrow>
             then_ok (failing (map_sum (\<lambda>e. ''inline kyber_enc_key decode: '' @ e) id (b64_dec P inline)) (st\<lparr>ps_ws := ws\<rparr>)) (\<lambda>inline_ek st.
             then_ok (failing (map_sum (\<lambda>e. ''[braid] peer EK failed authentication ('' @ p2p_error_text e @ ''), aborting'') id
                        (verify_peer_ek_from_bytes (pe_sha512 E) peer_ek inline_ek)) st) (\<lambda>k st.
               (Inr (ok_of (decode_enc_key (pe_dir E) (b64_enc P k))), st)))))"

subsection \<open>Incoming connections\<close>

text \<open>The first thing the stream delivers after the WebSocket was accepted.\<close>

datatype first_event = NotAccepted string | HelloText string | HelloBinary bytes | HelloError string | HelloEnd | HelloOther

definition hello_text :: "(bytes \<Rightarrow> string) \<Rightarrow> first_event \<Rightarrow> (string, string) result" where
  "hello_text lossy o1 =
     (case o1 of
        NotAccepted e \<Rightarrow> Inl e
      | HelloText t \<Rightarrow> Inr t
      | HelloBinary b \<Rightarrow> Inr (lossy b)
      | HelloError e \<Rightarrow> Inl (''ws read err: '' @ e)
      | HelloEnd \<Rightarrow> Inl ''connection closed before hello''
      | HelloOther \<Rightarrow> Inl ''unexpected message type for hello'')"

definition known_peer :: "(string, string) hmap \<Rightarrow> string \<Rightarrow> bool" where
  "known_peer contacts fp = (fp \<in> snd ` set contacts \<or> is_public_service_fingerprint fp)"

record ('ek, 'dk) incoming_io =
  ii_kyber :: "(string, 'dk \<times> 'ek) result"
  ii_vk :: "nat \<Rightarrow> (string, string) result"
  ii_clock :: "nat \<Rightarrow> real"
  ii_stamp :: "nat \<Rightarrow> string \<times> real"
  ii_chunk_stamp :: "BraidChunk \<Rightarrow> string \<times> real"
  ii_challenge :: string
  ii_random :: bytes
  ii_load :: store_io
  ii_save :: store_io
  ii_message :: store_io
  ii_status :: store_io

text \<open>What a hello claims: its payload and fingerprint.\<close>

definition hello_payload :: "json \<Rightarrow> json" where
  "hello_payload hello = unwrap_or JNull (json_get hello ''payload'')"

definition hello_fp :: "json \<Rightarrow> string" where
  "hello_fp hello = unwrap_or ''unknown'' (field_str (hello_payload hello) ''public_key'')"

definition check_claims ::
    "('ek, 'dk, 'vk, 'sg, 'w) peer_env \<Rightarrow> ('ek, 'dk) incoming_io \<Rightarrow> (string, string) hmap \<Rightarrow> json \<Rightarrow> ('vk, 'w) peer_state
     \<Rightarrow> (stop, json \<times> string) result \<times> ('vk, 'w) peer_state" where
  "check_claims E io contacts hello st =
     (let p = hello_payload hello; fp = hello_fp hello; peer_sig = unwrap_or [] (field_str hello ''sig'')
      in then_ok (require (frame_type hello = Some ''p2p-hello'') ''expected p2p-hello'' st) (\<lambda>_ st.
         then_ok (require (known_peer contacts fp)
                   (''inbound hello from '' @ fp @ '' rejected - not in contact list (mutual-consent gate)'') st) (\<lambda>_ st.
         then_ok (require (peer_sig \<noteq> []) ''p2p-hello has no signature - rejecting (MITM risk)'' st) (\<lambda>_ st.
         then_ok (learn_peer_key E (ii_clock io) p fp st) (\<lambda>_ st.
           case verify_signature (de_crypto (pe_dir E)) (ii_clock io 3)
                  (''p2p-hello:'' @ json_text (ce_keys (pe_client E)) p @ [CHR 0x0A]) peer_sig fp (ps_cache st) of
             (ok, c) \<Rightarrow>
               then_ok (require ok (''p2p-hello signature verification failed for '' @ fp) (st\<lparr>ps_cache := c\<rparr>)) (\<lambda>_ st.
                 (Inr (p, fp), st)))))))"

definition check_peer_hello ::
    "('ek, 'dk, 'vk, 'sg, 'w) peer_env \<Rightarrow> ('ek, 'dk) incoming_io \<Rightarrow> (string, string) hmap \<Rightarrow> first_event \<Rightarrow> ('vk, 'w) peer_state
     \<Rightarrow> (stop, json \<times> string) result \<times> ('vk, 'w) peer_state" where
  "check_peer_hello E io contacts o1 st =
     then_ok (failing (hello_text (ce_lossy (pe_client E)) o1) st) (\<lambda>t st.
     then_ok (failing (ce_parse (pe_client E) t) st) (\<lambda>hello st. check_claims E io contacts hello st))"

text \<open>The sealed identity of a hello: a ciphertext whose shared secret should be the text \<open>nid|fp\<close>.\<close>

definition check_sealed ::
    "('ek, 'dk, 'vk, 'sg, 'w) peer_env \<Rightarrow> 'dk \<Rightarrow> Identity \<Rightarrow> string \<Rightarrow> json \<Rightarrow> (string, unit) result" where
  "check_sealed E dk ident fp p =
     (let P = ce_prims (pe_client E); bar = 0x7C :: u8
      in case field_str p ''sealed_identity'' of None \<Rightarrow> Inr () | Some sealed \<Rightarrow>
         if sealed = [] then Inr ()
         else and_then (map_sum (\<lambda>e. ''sealed_identity decode: '' @ e) id (hex_decode (ce_hex (pe_client E)) sealed)) (\<lambda>ct_bytes.
              and_then (map_sum (\<lambda>e. ''sealed_identity parse: '' @ e) id (parse_ct P ct_bytes)) (\<lambda>ct.
              and_then (map_sum (\<lambda>e. ''sealed_identity decapsulate: '' @ e) id (decapsulate P dk ct)) (\<lambda>id_blob.
              if bar \<notin> set id_blob then Inl ''sealed_identity malformed: expected nid|fp''
              else and_then (map_sum (\<lambda>_. ''sealed_identity nid not utf-8'') id (utf8 P (takeWhile (\<lambda>b. b \<noteq> bar) id_blob))) (\<lambda>nid.
                   and_then (map_sum (\<lambda>_. ''sealed_identity fp not utf-8'') id (utf8 P (tl (dropWhile (\<lambda>b. b \<noteq> bar) id_blob)))) (\<lambda>sfp.
                   if nid \<noteq> id_null_id ident then
                     Inl (''sealed_identity mismatch: expected nid='' @ id_null_id ident @ '' got='' @ nid)
                   else if sfp \<noteq> fp then Inl (''sealed_identity fp mismatch: expected='' @ fp @ '' got='' @ sfp)
                   else Inr ()))))))"

definition send_hello_ack ::
    "('ek, 'dk, 'vk, 'sg, 'w) peer_env \<Rightarrow> ('ek, 'dk) incoming_io \<Rightarrow> Identity \<Rightarrow> string \<Rightarrow> ('vk, 'w) peer_state
     \<Rightarrow> (stop, unit) result \<times> ('vk, 'w) peer_state" where
  "send_hello_ack E io ident our_enc st =
     then_ok (failing (ii_vk io 0) st) (\<lambda>vk st.
     let ack = build_p2p_hello_ack (fst (ii_stamp io 0)) (snd (ii_stamp io 0)) (id_fingerprint ident) 1 16 (ii_challenge io) our_enc;
         p = set_field ''sender_verifying_key'' (JString vk) (payload ack)
     in then_ok (failing (de_sign (pe_dir E) (''p2p-hello-ack:'' @ json_text (ce_keys (pe_client E)) p @ [CHR 0x0A])) st) (\<lambda>sg st.
          send_frame E [] (ack\<lparr>payload := p, sig := sg\<rparr>) st))"

text \<open>The loop that waits for the message; other text frames, the delivery token among them, are skipped.\<close>

fun await_message :: "(string \<Rightarrow> (string, json) result) \<Rightarrow> ws_event list \<Rightarrow> (stop, json) result \<times> ws_event list" where
  "await_message parse [] = (Inl Waits, [])"
| "await_message parse (Frame (Text t) # es) =
     (case parse t of
        Inl _ \<Rightarrow> await_message parse es
      | Inr v \<Rightarrow> if frame_type v = Some ''p2p-message'' then (Inr v, es) else await_message parse es)"
| "await_message parse (StreamError e # es) = (Inl (Fail (''ws read err: '' @ e)), es)"
| "await_message parse (StreamEnd # es) = (Inl (Fail ''connection closed before p2p-message''), es)"
| "await_message parse (_ # es) = await_message parse es"

definition message_signing_data :: "(json \<Rightarrow> string) \<Rightarrow> json \<Rightarrow> string" where
  "message_signing_data text p =
     ''p2p-message:'' @ text (JObject
       [(''seq'', unwrap_or JNull (json_get p ''seq'')), (''ciphertext'', unwrap_or JNull (json_get p ''ciphertext'')),
        (''msg_hash'', unwrap_or JNull (json_get p ''msg_hash''))])"

definition check_message ::
    "('ek, 'dk, 'vk, 'sg, 'w) peer_env \<Rightarrow> ('ek, 'dk) incoming_io \<Rightarrow> string \<Rightarrow> json \<Rightarrow> ('vk, 'w) peer_state
     \<Rightarrow> (stop, json) result \<times> ('vk, 'w) peer_state" where
  "check_message E io fp msg st =
     (let msg_sig = unwrap_or [] (field_str msg ''sig''); p = unwrap_or JNull (json_get msg ''payload'');
          cr = de_crypto (pe_dir E); data = message_signing_data (json_text (ce_keys (pe_client E))) p
      in then_ok (require (msg_sig \<noteq> []) (''p2p-message from '' @ fp @ '' has no signature - rejecting (MITM risk)'') st) (\<lambda>_ st.
         case (case get_cached_verifying_key (ii_clock io 4) fp (ps_cache st) of
                 (Some vk, c) \<Rightarrow> (verify_signature_with_verifying_key cr data msg_sig vk, c)
               | (None, c) \<Rightarrow> verify_signature cr (ii_clock io 5) data msg_sig fp c) of
           (verified, c) \<Rightarrow>
             then_ok (require verified (''p2p-message signature verification failed for '' @ fp @ '' - possible MITM, rejecting'')
                        (st\<lparr>ps_cache := c\<rparr>)) (\<lambda>_ st. (Inr p, st))))"

definition init_secret ::
    "('ek, 'dk) prims \<Rightarrow> 'dk \<Rightarrow> 'ek option \<Rightarrow> bytes \<Rightarrow> json \<Rightarrow> (string, bytes) result" where
  "init_secret P dk peer_key rnd p =
     (case field_str p ''init_kyber_ct'' of
        Some b \<Rightarrow>
          and_then (map_sum (\<lambda>e. ''init_kyber_ct decode: '' @ e) id (b64_dec P b)) (\<lambda>ct_bytes.
          and_then (map_sum (\<lambda>e. ''init_kyber_ct parse: '' @ e) id (parse_ct P ct_bytes)) (\<lambda>ct.
            map_sum (\<lambda>e. ''init_kyber decapsulate: '' @ e) id (decapsulate P dk ct)))
      | None \<Rightarrow>
          (case peer_key of
             None \<Rightarrow> Inl ''no peer Kyber key''
           | Some ek \<Rightarrow> map_sum (\<lambda>e. ''kyber encapsulate: '' @ e) snd (encapsulate P ek rnd)))"

definition incoming_session ::
    "('ek, 'dk, 'vk, 'sg) client_env \<Rightarrow> 'dk \<Rightarrow> 'ek option \<Rightarrow> bytes \<Rightarrow> Identity \<Rightarrow> string \<Rightarrow> json \<Rightarrow> string option
     \<Rightarrow> (string, RatchetState) result" where
  "incoming_session C dk peer_key rnd ident fp p session_json =
     (case session_json of
        Some j \<Rightarrow> with_context ''ratchet load: '' (session_deserialize C j)
      | None \<Rightarrow>
          and_then (init_secret (ce_prims C) dk peer_key rnd p) (\<lambda>ss.
            with_context ''ratchet init: ''
              (session_new (ce_prims C) fp (null_id (ce_prims C) fp) (id_fingerprint ident) False ss)))"

text \<open>The plaintext of the message; the session is stored as it is before the decryption, and a failure to store
  it is ignored.\<close>

definition decrypt_incoming ::
    "('ek, 'dk, 'vk, 'sg, 'w) peer_env \<Rightarrow> ('ek, 'dk) incoming_io \<Rightarrow> Identity \<Rightarrow> 'dk \<Rightarrow> 'ek option \<Rightarrow> string \<Rightarrow> json
     \<Rightarrow> ('vk, 'w) peer_state \<Rightarrow> (stop, string) result \<times> ('vk, 'w) peer_state" where
  "decrypt_incoming E io ident dk peer_key fp p st =
     (let C = pe_client E; K = ce_keys C; pnid = null_id (ce_prims C) fp;
          ciphertext = unwrap_or [] (field_str p ''ciphertext''); sq = unwrap_or 0 (Option.bind (json_get p ''seq'') as_u64)
      in then_ok (failing (load_session K (ii_load io) pnid (ps_store st)) st) (\<lambda>session_json st.
         then_ok (failing (incoming_session C dk peer_key (ii_random io) ident fp p session_json) st) (\<lambda>session st.
         then_ok (failing (with_context ''ratchet serialize: '' (session_serialize C session)) st) (\<lambda>j st.
         then_ok (failing (with_context ''decrypt failed: '' (fst (decrypt_message (ce_prims C) (ce_pick C) ciphertext dk sq session)))
                    (st\<lparr>ps_store := snd (save_session K (ii_save io) pnid j (ps_store st))\<rparr>)) (\<lambda>padded st.
           failing (unpad_message_bucket (ce_hex C) (ce_lossy C) padded) st)))))"

record read_receipt =
  rr_message_id :: string
  rr_recipient_nid :: string
  rr_recipient_fp :: string
  rr_signature :: string
  rr_timestamp :: real
  rr_nonce :: string
  rr_recipient_verifying_key :: string
  rr_other_relays :: "string list"

definition read_receipt_request :: "read_receipt \<Rightarrow> string \<Rightarrow> real \<Rightarrow> json" where
  "read_receipt_request r uuid now =
     JObject [(''msg_type'', JString ''relay-read-receipt''),
       (''payload'', JObject
          [(''message_id'', JString (rr_message_id r)), (''recipient_nid'', JString (rr_recipient_nid r)),
           (''recipient_fp'', JString (rr_recipient_fp r)), (''signature'', JString (rr_signature r)),
           (''timestamp'', JFloat (rr_timestamp r)), (''nonce'', JString (rr_nonce r)),
           (''recipient_verifying_key'', JString (rr_recipient_verifying_key r)),
           (''other_relays'', JArray (map JString (rr_other_relays r)))]),
       (''msg_id'', JString uuid), (''ts'', JFloat now)]"

definition send_read_receipt_to_relay ::
    "('ek, 'dk, 'vk, 'sg, 'w) peer_env \<Rightarrow> read_receipt \<Rightarrow> string \<Rightarrow> 'w \<Rightarrow> (string, unit) result \<times> 'w" where
  "send_read_receipt_to_relay E r relay_url w =
     (let N = de_net (pe_dir E); url = to_ws_url relay_url
      in case net_connect N url w of
           (Inl e, w1) \<Rightarrow> (Inl (''Relay connect failed for read receipt: '' @ e), w1)
         | (Inr _, w1) \<Rightarrow>
             (case ask_open N url (\<lambda>uuid now. Inr (json_text (ce_keys (pe_client E)) (read_receipt_request r uuid now))) w1 of
                (NoSend e, w2) \<Rightarrow> (Inl (''Relay read receipt send failed: '' @ e), w2)
              | (Answered (Frame (Text resp)), w2) \<Rightarrow>
                  ((case ce_parse (pe_client E) resp of
                      Inl e \<Rightarrow> Inl e
                    | Inr v \<Rightarrow>
                        if json_get v ''ok'' = Some (JBool True) then Inr ()
                        else (case field_str v ''error'' of
                                Some err \<Rightarrow> Inl (''Relay read receipt error: '' @ err)
                              | None \<Rightarrow> Inr ())), w2)
              | (_, w2) \<Rightarrow> (Inr (), w2)))"

fun notify_relays ::
    "('ek, 'dk, 'vk, 'sg, 'w) peer_env \<Rightarrow> read_receipt \<Rightarrow> string list \<Rightarrow> 'w \<Rightarrow> 'w" where
  "notify_relays E r [] w = w"
| "notify_relays E r (url # urls) w = notify_relays E r urls (snd (send_read_receipt_to_relay E r url w))"

text \<open>Everything after the decryption: the stored message, the acknowledgement, the receipt of the peer and those
  of the relays.\<close>

definition acknowledge ::
    "('ek, 'dk, 'vk, 'sg, 'w) peer_env \<Rightarrow> ('ek, 'dk) incoming_io \<Rightarrow> Identity \<Rightarrow> string \<Rightarrow> string list \<Rightarrow> json \<Rightarrow> string
     \<Rightarrow> ('vk, 'w) peer_state \<Rightarrow> (stop, unit) result \<times> ('vk, 'w) peer_state" where
  "acknowledge E io ident fp relays p plaintext st =
     (let C = pe_client E; K = ce_keys C; cr = de_crypto (pe_dir E); sign = de_sign (pe_dir E); now = (\<lambda>i. snd (ii_stamp io i));
          ciphertext = unwrap_or [] (field_str p ''ciphertext''); mid = sha_hex cr (str_bytes ciphertext);
          text_hash = sha_hex cr (str_bytes plaintext);
          st1 = st\<lparr>ps_store := snd (ms_store_message K (ii_message io) fp (id_null_id ident) ciphertext 2 mid (ps_store st))\<rparr>
      in then_ok (failing (sign (''p2p-ack:'' @ json_text K (JObject [(''seq'', JInt 1), (''msg_hash'', JString text_hash)]) @ [CHR 0x0A])) st1) (\<lambda>ack_sig st.
         then_ok (send_frame E [] (build_p2p_ack_signed (fst (ii_stamp io 1)) (now 1) 1 text_hash ack_sig) st) (\<lambda>_ st.
         then_ok (failing (sign (''p2p-receipt:'' @ mid @ '':'' @ ce_fmt_f64 C (now 2) @ '':1'')) st) (\<lambda>receipt_sig st.
         then_ok (send_frame E [] (build_p2p_receipt (fst (ii_stamp io 3)) (now 3) text_hash (now 4) 1 receipt_sig) st) (\<lambda>_ st.
         then_ok (failing (ii_vk io 1) st) (\<lambda>vk st.
           let r = \<lparr>rr_message_id = mid, rr_recipient_nid = id_null_id ident, rr_recipient_fp = id_fingerprint ident,
                    rr_signature = receipt_sig, rr_timestamp = now 5, rr_nonce = fst (ii_stamp io 5),
                    rr_recipient_verifying_key = vk, rr_other_relays = relays\<rparr>
           in (Inr (), st\<lparr>ps_world := notify_relays E r relays (ps_world st),
                 ps_store := snd (update_message_status K (ii_status io) mid 3 (ps_store st))\<rparr>)))))))"

definition handle_incoming_connection ::
    "('ek, 'dk, 'vk, 'sg, 'w) peer_env \<Rightarrow> ('ek, 'dk) incoming_io \<Rightarrow> (string, string) hmap \<Rightarrow> Identity \<Rightarrow> first_event
     \<Rightarrow> ('vk, 'w) peer_state \<Rightarrow> (stop, unit) result \<times> ('vk, 'w) peer_state" where
  "handle_incoming_connection E io contacts ident o1 st =
     then_ok (check_peer_hello E io contacts o1 st) (\<lambda>(p, fp) st.
     let braid = (json_get p ''braid'' = Some (JBool True));
         inline_key = (if braid then None
                       else Option.bind (field_str p ''kyber_enc_key'') (\<lambda>b. ok_of (decode_enc_key (pe_dir E) b)))
     in then_ok (failing (ii_kyber io) st) (\<lambda>(dk, ek) st.
        then_ok (failing (check_sealed E dk ident fp p) st) (\<lambda>_ st.
        then_ok (send_hello_ack E io ident (encode_enc_key (pe_dir E) ek) st) (\<lambda>_ st.
        then_ok (if \<not> braid then (Inr inline_key, st)
                 else then_ok (braid_peer_key E (ii_chunk_stamp io) (encode_enc_key (pe_dir E) ek)
                                 (unwrap_or [] (field_str p ''kyber_enc_key'')) st) (\<lambda>k st.
                      then_ok (require (k \<noteq> None) ''[braid] reassembled peer EK invalid after authentication, aborting'' st) (\<lambda>_ st.
                        (Inr k, st)))) (\<lambda>peer_key st.
        case discover_all_servers (de_net (pe_dir E)) (ps_world st) of ((_, _, relays), w1) \<Rightarrow>
        case await_message (ce_parse (pe_client E)) (incoming (ps_ws st)) of (r, es) \<Rightarrow>
          then_ok (r, st\<lparr>ps_world := w1, ps_ws := (ps_ws st)\<lparr>incoming := es\<rparr>\<rparr>) (\<lambda>msg st.
          then_ok (check_message E io fp msg st) (\<lambda>p st.
          then_ok (decrypt_incoming E io ident dk peer_key fp p st) (\<lambda>plaintext st.
            acknowledge E io ident fp relays p plaintext st))))))))"

subsection \<open>Sending over a direct connection\<close>

record ('ek, 'dk) direct_io =
  di_kyber :: "(string, 'dk \<times> 'ek) result"
  di_vk :: "nat \<Rightarrow> (string, string) result"
  di_clock :: "nat \<Rightarrow> real"
  di_stamp :: "nat \<Rightarrow> string \<times> real"
  di_chunk_stamp :: "BraidChunk \<Rightarrow> string \<times> real"
  di_seal_random :: bytes
  di_init_random :: bytes
  di_msg_random :: bytes
  di_msg_nonce :: bytes
  di_pad :: "nat \<Rightarrow> bytes"
  di_load :: store_io
  di_save :: store_io
  di_message :: store_io
  di_secret_random :: bytes
  di_secret_error :: "string option"
  di_reloaded :: "(string, Identity) result"
  di_token_time :: u64

definition sealed_identity ::
    "('ek, 'dk, 'vk, 'sg, 'w) peer_env \<Rightarrow> bytes \<Rightarrow> string \<Rightarrow> 'w \<Rightarrow> string \<times> 'w" where
  "sealed_identity E rnd rfp w =
     (case lookup_kyber_for_nid (pe_dir E) rfp w of
        (Inl _, w1) \<Rightarrow> ([], w1)
      | (Inr responder, w1) \<Rightarrow>
          ((case encapsulate (ce_prims (pe_client E)) responder rnd of Inl _ \<Rightarrow> [] | Inr (c, _) \<Rightarrow> hex_encode c), w1))"

definition send_hello ::
    "('ek, 'dk, 'vk, 'sg, 'w) peer_env \<Rightarrow> ('ek, 'dk) direct_io \<Rightarrow> Identity \<Rightarrow> string \<Rightarrow> string \<Rightarrow> ('vk, 'w) peer_state
     \<Rightarrow> (stop, unit) result \<times> ('vk, 'w) peer_state" where
  "send_hello E io ident our_enc sealed st =
     then_ok (failing (di_vk io 0) st) (\<lambda>_ st.
     then_ok (failing (di_vk io 1) st) (\<lambda>vk st.
     let hello = build_p2p_hello_signed (fst (di_stamp io 0)) (snd (di_stamp io 0)) (id_fingerprint ident) 1 16 our_enc sealed [] vk
     in then_ok (failing (de_sign (pe_dir E) (''p2p-hello:'' @ json_text (ce_keys (pe_client E)) (payload hello) @ [CHR 0x0A])) st) (\<lambda>sg st.
          send_frame E ''P2P hello failed: '' (hello\<lparr>sig := sg\<rparr>) st)))"

text \<open>The acknowledgement of the hello: the authenticated encapsulation key of whoever answered.\<close>

definition check_ack ::
    "('ek, 'dk, 'vk, 'sg, 'w) peer_env \<Rightarrow> ('ek, 'dk) direct_io \<Rightarrow> string \<Rightarrow> string \<Rightarrow> ('vk, 'w) peer_state
     \<Rightarrow> (stop, 'ek) result \<times> ('vk, 'w) peer_state" where
  "check_ack E io our_enc resp st =
     (let cr = de_crypto (pe_dir E)
      in then_ok (failing (ce_parse (pe_client E) resp) st) (\<lambda>ack st.
         then_ok (require (frame_type ack = Some ''p2p-hello-ack'') (''Unexpected response: '' @ resp) st) (\<lambda>_ st.
         let ack_sig = unwrap_or [] (field_str ack ''sig''); p = unwrap_or JNull (json_get ack ''payload'');
             fp = unwrap_or ''unknown'' (field_str p ''public_key''); inline = unwrap_or [] (field_str p ''kyber_enc_key'')
         in then_ok (require (ack_sig \<noteq> []) ''p2p-hello-ack has no signature - rejecting (MITM risk)'' st) (\<lambda>_ st.
            case pin_embedded cr (di_clock io) ''p2p-hello-ack'' p fp (ps_cache st) of
              (Inl e, c) \<Rightarrow> (Inl (Fail e), st\<lparr>ps_cache := c\<rparr>)
            | (Inr _, c) \<Rightarrow>
                (case verify_signature cr (di_clock io 2)
                        (''p2p-hello-ack:'' @ json_text (ce_keys (pe_client E)) p @ [CHR 0x0A]) ack_sig fp c of
                   (ok, c1) \<Rightarrow>
                     then_ok (require ok (''p2p-hello-ack signature verification failed for '' @ fp @ '' - possible MITM'')
                                (st\<lparr>ps_cache := c1\<rparr>)) (\<lambda>_ st.
                     then_ok (if json_get p ''braid'' = Some (JBool True) then braid_peer_key E (di_chunk_stamp io) our_enc inline st
                              else (Inr (if inline = [] then None else ok_of (decode_enc_key (pe_dir E) inline)), st)) (\<lambda>k st.
                       case k of
                         None \<Rightarrow> (Inl (Fail ''No authenticated Kyber public key from peer, aborting (fail-closed)''), st)
                       | Some key \<Rightarrow> (Inr key, st))))))))"

definition direct_session ::
    "('ek, 'dk, 'vk, 'sg) client_env \<Rightarrow> 'ek \<Rightarrow> bytes \<Rightarrow> Identity \<Rightarrow> string \<Rightarrow> string option
     \<Rightarrow> (string, RatchetState \<times> string option) result" where
  "direct_session C peer_key rnd ident rfp session_json =
     (let P = ce_prims C
      in case session_json of
           Some j \<Rightarrow> map_sum id (\<lambda>s. (s, None)) (with_context ''ratchet load: '' (session_deserialize C j))
         | None \<Rightarrow>
             (case encapsulate P peer_key rnd of
                Inl e \<Rightarrow> Inl (''kyber encapsulate: '' @ e)
              | Inr (ct, ss) \<Rightarrow>
                  map_sum id (\<lambda>s. (s, Some (b64_enc P ct))) (with_context ''ratchet init: ''
                    (session_new P rfp (null_id P rfp) (id_fingerprint ident) True ss))))"

text \<open>The encrypted message and the key ciphertext that goes with a first one; the session is stored as it is
  before the encryption.\<close>

definition encrypt_direct ::
    "('ek, 'dk, 'vk, 'sg, 'w) peer_env \<Rightarrow> ('ek, 'dk) direct_io \<Rightarrow> Identity \<Rightarrow> string \<Rightarrow> 'ek \<Rightarrow> string \<Rightarrow> ('vk, 'w) peer_state
     \<Rightarrow> (stop, bytes \<times> string option) result \<times> ('vk, 'w) peer_state" where
  "encrypt_direct E io ident rfp peer_key message st =
     (let C = pe_client E; K = ce_keys C; P = ce_prims C; pnid = null_id P rfp
      in then_ok (failing (load_session K (di_load io) pnid (ps_store st)) st) (\<lambda>session_json st.
         then_ok (failing (direct_session C peer_key (di_init_random io) ident rfp session_json) st) (\<lambda>(session, init_ct) st.
         then_ok (failing (with_context ''ratchet serialize: '' (session_serialize C session)) st) (\<lambda>j st.
         case save_session K (di_save io) pnid j (ps_store st) of
           (Inl e, S) \<Rightarrow> (Inl (Fail (''ratchet save: '' @ e)), st\<lparr>ps_store := S\<rparr>)
         | (Inr _, S) \<Rightarrow>
             (case pad_message_bucket (di_pad io) message of
                None \<Rightarrow> (Inl Panics, st\<lparr>ps_store := S\<rparr>)
              | Some padded \<Rightarrow>
                  then_ok (failing (with_context [] (fst
                      (case init_ct of
                         Some _ \<Rightarrow> encrypt_first P (di_msg_nonce io) padded session
                       | None \<Rightarrow> encrypt_message P (di_msg_random io) (di_msg_nonce io) padded peer_key session))) (st\<lparr>ps_store := S\<rparr>))
                    (\<lambda>c st. (Inr (c, init_ct), st)))))))"

record DeliveryTokenMessage =
  dt_token :: string
  dt_sender_key_hash :: string
  dt_timestamp :: u64

definition generate_delivery_token ::
    "('ek, 'dk, 'vk, 'sg, 'w) peer_env \<Rightarrow> ('ek, 'dk) direct_io \<Rightarrow> string \<Rightarrow> u64 \<Rightarrow> (string, string) hmap
     \<Rightarrow> (string, DeliveryTokenMessage) result \<times> (string, string) hmap" where
  "generate_delivery_token E io rnid mid secrets =
     (let cr = de_crypto (pe_dir E)
      in case get_or_create_delivery_secret (ce_hex (pe_client E)) (di_secret_random io) (di_secret_error io) rnid secrets of
           (Inl e, secrets1) \<Rightarrow> (Inl e, secrets1)
         | (Inr master, secrets1) \<Rightarrow>
             (map_sum id (\<lambda>ident.
                let pk_hash = sha_hex cr (str_bytes (id_fingerprint ident))
                in \<lparr>dt_token = hex_encode (derive_token cr master rnid mid),
                    dt_sender_key_hash = take 16 pk_hash @ '':'' @ slice 16 32 pk_hash,
                    dt_timestamp = di_token_time io\<rparr>) (di_reloaded io), secrets1))"

definition token_json :: "DeliveryTokenMessage \<Rightarrow> json" where
  "token_json t =
     JObject [(''token'', JString (dt_token t)), (''sender_key_hash'', JString (dt_sender_key_hash t)),
              (''timestamp'', JInt (uint (dt_timestamp t)))]"

text \<open>What the client prints while it waits for the peer.\<close>

datatype notice = Delivered | ReadConfirmed real | ReceiptMismatch | ReceiptUnverified | Echo string | SocketWarning string

fun as_f64 :: "json \<Rightarrow> real option" where
  "as_f64 (JFloat r) = Some r"
| "as_f64 (JInt i) = Some (real_of_int i)"
| "as_f64 _ = None"

definition nested_field :: "(json \<Rightarrow> 'a option) \<Rightarrow> json \<Rightarrow> string \<Rightarrow> 'a option" where
  "nested_field f v k =
     (case Option.bind (Option.bind (json_get v ''payload'') (\<lambda>p. json_get p k)) f of
        Some x \<Rightarrow> Some x
      | None \<Rightarrow> Option.bind (json_get v k) f)"

text \<open>The text after the last \<open>": "\<close>.\<close>

fun after_colon :: "string \<Rightarrow> string option" where
  "after_colon [] = None"
| "after_colon (c # cs) =
     (case after_colon cs of
        Some r \<Rightarrow> Some r
      | None \<Rightarrow> if c = CHR '':'' \<and> starts_with '' '' cs then Some (tl cs) else None)"

definition verify_receipt_signature ::
    "('vk, 'sg) crypto \<Rightarrow> (real \<Rightarrow> string) \<Rightarrow> real \<Rightarrow> string \<Rightarrow> real \<Rightarrow> string \<Rightarrow> string \<Rightarrow> 'vk vk_cache \<Rightarrow> bool \<times> 'vk vk_cache" where
  "verify_receipt_signature cr fmt now msg_hash received_at sg rfp c =
     (if sg = [] then (False, c)
      else verify_signature cr now (''p2p-receipt:'' @ msg_hash @ '':'' @ fmt received_at @ '':1'') sg rfp c)"

text \<open>One text frame of the peer: what is printed, and whether it was the acknowledgement or a receipt.\<close>

definition peer_reply ::
    "('ek, 'dk, 'vk, 'sg, 'w) peer_env \<Rightarrow> real \<Rightarrow> string \<Rightarrow> string \<Rightarrow> string \<Rightarrow> json \<Rightarrow> 'vk vk_cache
     \<Rightarrow> (stop, notice list \<times> bool \<times> bool) result \<times> 'vk vk_cache" where
  "peer_reply E now rfp msg_hash message v c =
     (let kind = unwrap_or [] (frame_type v)
      in if kind = ''p2p-ack'' then (Inr ([Delivered], True, False), c)
         else if kind = ''p2p-receipt'' then
           (let h = unwrap_or [] (nested_field as_str v ''msg_hash''); received_at = unwrap_or 0 (nested_field as_f64 v ''received_at'')
            in case verify_receipt_signature (de_crypto (pe_dir E)) (ce_fmt_f64 (pe_client E)) now h received_at
                      (unwrap_or [] (field_str v ''sig'')) rfp c of
                 (ok, c1) \<Rightarrow>
                   ((if \<not> ok then Inr ([ReceiptUnverified], False, True)
                     else if h = msg_hash then Inr ([ReadConfirmed received_at], False, True)
                     else if length h < 16 then Inl Panics
                     else Inr ([ReceiptMismatch], False, True)), c1))
         else if kind = ''p2p-message'' then
           (let raw = unwrap_or [] (nested_field as_str v ''ciphertext''); stripped = unwrap_or raw (after_colon raw)
            in (Inr ([Echo (if stripped = [] \<or> stripped \<noteq> message then message else stripped)], False, False), c))
         else (Inr ([], False, False), c))"

fun await_delivery ::
    "('ek, 'dk, 'vk, 'sg, 'w) peer_env \<Rightarrow> (nat \<Rightarrow> real) \<Rightarrow> string \<Rightarrow> string \<Rightarrow> string \<Rightarrow> nat \<Rightarrow> ws_event list \<Rightarrow> bool \<Rightarrow> bool \<Rightarrow> 'vk vk_cache
     \<Rightarrow> (stop, notice list) result \<times> 'vk vk_cache" where
  "await_delivery E clk rfp h m n [] ack receipt c = (Inr [], c)"
| "await_delivery E clk rfp h m n (Frame (Text t) # es) ack receipt c =
     (case ce_parse (pe_client E) t of
        Inl e \<Rightarrow> (Inl (Fail e), c)
      | Inr v \<Rightarrow>
          (case peer_reply E (clk n) rfp h m v c of
             (Inl s, c1) \<Rightarrow> (Inl s, c1)
           | (Inr (ns, a, r), c1) \<Rightarrow>
               if (ack \<or> a) \<and> (receipt \<or> r) then (Inr ns, c1)
               else apfst (map_sum id (\<lambda>ns'. ns @ ns')) (await_delivery E clk rfp h m (Suc n) es (ack \<or> a) (receipt \<or> r) c1)))"
| "await_delivery E clk rfp h m n (Frame _ # es) ack receipt c = await_delivery E clk rfp h m n es ack receipt c"
| "await_delivery E clk rfp h m n (StreamError e # es) ack receipt c = (Inr [SocketWarning e], c)"
| "await_delivery E clk rfp h m n (_ # es) ack receipt c = (Inr [], c)"

definition p2p_frame ::
    "('ek, 'dk, 'vk, 'sg, 'w) peer_env \<Rightarrow> ('ek, 'dk) direct_io \<Rightarrow> string option \<Rightarrow> bytes \<Rightarrow> string option \<Rightarrow> (string, WireEnvelope) result" where
  "p2p_frame E io ttl c init_ct =
     (let b64 = b64_enc (ce_prims (pe_client E)) c; h = sha_hex (de_crypto (pe_dir E)) c
      in map_sum id (\<lambda>sg. build_p2p_message_signed (fst (di_stamp io 1)) (snd (di_stamp io 1)) 1 b64 h sg init_ct ttl)
           (de_sign (pe_dir E) (''p2p-message:'' @ json_text (ce_keys (pe_client E))
              (JObject [(''seq'', JInt 1), (''ciphertext'', JString b64), (''msg_hash'', JString h)]))))"

text \<open>Everything after the connection is open.\<close>

definition send_direct ::
    "('ek, 'dk, 'vk, 'sg, 'w) peer_env \<Rightarrow> ('ek, 'dk) direct_io \<Rightarrow> Identity \<Rightarrow> string \<Rightarrow> string \<Rightarrow> string \<Rightarrow> string option
     \<Rightarrow> ('vk, 'w) peer_state \<Rightarrow> (stop, notice list) result \<times> ('vk, 'w) peer_state" where
  "send_direct E io ident rnid rfp message ttl st =
     then_ok (failing (di_kyber io) st) (\<lambda>(dk, ek) st.
     let our_enc = encode_enc_key (pe_dir E) ek
     in case sealed_identity E (di_seal_random io) rfp (ps_world st) of (sealed, w1) \<Rightarrow>
     then_ok (send_hello E io ident our_enc sealed (st\<lparr>ps_world := w1\<rparr>)) (\<lambda>_ st.
     then_ok (case ws_next (ps_ws st) of
                (Frame (Text resp), ws) \<Rightarrow> check_ack E io our_enc resp (st\<lparr>ps_ws := ws\<rparr>)
              | (NoFrame, ws) \<Rightarrow> (Inl Waits, st\<lparr>ps_ws := ws\<rparr>)
              | (_, ws) \<Rightarrow> (Inl (Fail ''No hello-ack received''), st\<lparr>ps_ws := ws\<rparr>)) (\<lambda>peer_key st.
     then_ok (encrypt_direct E io ident rfp peer_key message st) (\<lambda>(c, init_ct) st.
     then_ok (failing (p2p_frame E io ttl c init_ct) st) (\<lambda>msg st.
     case generate_delivery_token E io rnid 1 (ps_secrets st) of (tok, secrets) \<Rightarrow>
     then_ok (failing tok (st\<lparr>ps_secrets := secrets\<rparr>)) (\<lambda>t st.
     then_ok (send_frame E ''P2P send failed: '' msg
                (st\<lparr>ps_ws := snd (ws_send (Text (json_text (ce_keys (pe_client E)) (token_json t))) (ps_ws st))\<rparr>)) (\<lambda>_ st.
     case await_delivery E (\<lambda>n. di_clock io (3 + n)) rfp (sha_hex (de_crypto (pe_dir E)) c) message 0
            (incoming (ps_ws st)) False False (ps_cache st) of
       (r, cache) \<Rightarrow>
         then_ok (r, st\<lparr>ps_cache := cache, ps_ws := (ps_ws st)\<lparr>incoming := []\<rparr>\<rparr>) (\<lambda>ns st.
           let b64 = b64_enc (ce_prims (pe_client E)) c
           in (Inr ns, st\<lparr>ps_store := snd (ms_store_message (ce_keys (pe_client E)) (di_message io) (id_null_id ident) rnid b64 0
                 (sha_hex (de_crypto (pe_dir E)) (str_bytes b64)) (ps_store st))\<rparr>)))))))))"

subsection \<open>Sending a message\<close>

definition port_of :: "string \<Rightarrow> u16 option" where
  "port_of ws_url = parse_u16 (last (split_on (CHR '':'') ws_url))"

definition connect_candidates :: "bytes option \<Rightarrow> string \<Rightarrow> string list" where
  "connect_candidates lan ws_url =
     rev (remdups (rev
       ((case port_of ws_url of
           None \<Rightarrow> []
         | Some p \<Rightarrow>
             [''ws://127.0.0.1:'' @ show_nat (unat p)]
             @ (case lan of None \<Rightarrow> [] | Some ip \<Rightarrow> [''ws://'' @ dotted ip @ '':'' @ show_nat (unat p)]))
        @ [ws_url])))"

definition CANDIDATE_TIMEOUT :: int where "CANDIDATE_TIMEOUT = 3000"
definition P2P_TOTAL_TIMEOUT :: int where "P2P_TOTAL_TIMEOUT = 5000"

text \<open>\<open>dial c\<close> is the time in milliseconds a connection attempt takes and its outcome; \<open>left\<close> is what remains of the
  total. The result is the candidate that answered.\<close>

fun try_candidates :: "(string \<Rightarrow> int \<times> (string, unit) result) \<Rightarrow> string list \<Rightarrow> int \<Rightarrow> string \<Rightarrow> (string, string) result" where
  "try_candidates dial [] left last_err = Inl last_err"
| "try_candidates dial (c # cs) left last_err =
     (case dial c of (d, r) \<Rightarrow>
        if left < min d CANDIDATE_TIMEOUT then Inl ''timed out''
        else if CANDIDATE_TIMEOUT \<le> d then try_candidates dial cs (left - CANDIDATE_TIMEOUT) (c @ '' timed out'')
        else (case r of
                Inr _ \<Rightarrow> Inr c
              | Inl e \<Rightarrow> try_candidates dial cs (left - d) e))"

datatype outcome = Direct "notice list" | ViaRelay "MailboxStoreRequest option"

definition via_relay ::
    "('ek, 'dk, 'vk, 'sg, 'w) peer_env \<Rightarrow> 'ek send_io \<Rightarrow> Identity \<Rightarrow> string \<Rightarrow> string \<Rightarrow> string \<Rightarrow> ('vk, 'w) peer_state
     \<Rightarrow> (stop, outcome) result \<times> ('vk, 'w) peer_state" where
  "via_relay E rio ident rnid rfp message st =
     (case send_via_relay (pe_client E) rio ident rnid rfp message True (ps_store st) of
        (r, req, S) \<Rightarrow>
          ((case r of
              None \<Rightarrow> Inl (if req = None then Panics else Waits)
            | Some (Inl e) \<Rightarrow> Inl (Fail e)
            | Some (Inr _) \<Rightarrow> Inr (ViaRelay req)), st\<lparr>ps_store := S\<rparr>))"

text \<open>\<open>own_key\<close> is the decapsulation key that presence is opened with, \<open>lan\<close> the address of the host in its network,
  and \<open>conn c\<close> the connection to candidate \<open>c\<close>.\<close>

definition send_message ::
    "('ek, 'dk, 'vk, 'sg, 'w) peer_env \<Rightarrow> ('ek, 'dk) direct_io \<Rightarrow> 'ek send_io \<Rightarrow> 'dk option \<Rightarrow> bytes option
     \<Rightarrow> (string \<Rightarrow> int \<times> (string, unit) result) \<Rightarrow> (string \<Rightarrow> WebSocketConn) \<Rightarrow> (string, string) hmap \<Rightarrow> Identity
     \<Rightarrow> string \<Rightarrow> string \<Rightarrow> string option \<Rightarrow> ('vk, 'w) peer_state \<Rightarrow> (stop, outcome) result \<times> ('vk, 'w) peer_state" where
  "send_message E io rio own_key lan dial conn contacts ident rnid message ttl st =
     then_ok (failing (if is_public_service rnid then Inr REFLECTOR_FINGERPRINT
                       else case hm_get contacts rnid of
                              None \<Rightarrow> Inl (''unknown contact - add with '' @ [CHR 0x27] @ ''add-contact'' @ [CHR 0x27] @ '' first'')
                            | Some fp \<Rightarrow> Inr fp) st) (\<lambda>rfp st.
     case (if is_public_service rnid then fetch_public_service_addr (pe_dir E) rnid (ps_cache st) (ps_world st)
           else (case fetch_presence (pe_dir E) own_key ident rfp (ps_world st) of (a, w1) \<Rightarrow> (a, ps_cache st, w1))) of
       (addr, cache, w1) \<Rightarrow>
         let st1 = st\<lparr>ps_cache := cache, ps_world := w1\<rparr>
         in case addr of
              None \<Rightarrow>
                if is_public_service rnid then
                  (Inl (Fail (rnid @ '' is a public service but its address is not in the cert store (it may be offline or unpublished). Cannot deliver.'')), st1)
                else via_relay E rio ident rnid rfp message st1
            | Some a \<Rightarrow>
                (case try_candidates dial (connect_candidates lan (to_ws_url a)) P2P_TOTAL_TIMEOUT ''no candidate addresses'' of
                   Inl _ \<Rightarrow> via_relay E rio ident rnid rfp message st1
                 | Inr c \<Rightarrow>
                     then_ok (send_direct E io ident rnid rfp message ttl (st1\<lparr>ps_ws := conn c\<rparr>)) (\<lambda>ns st. (Inr (Direct ns), st))))"

section \<open>Incoming connections\<close>

lemma failing_Inr: "failing r st = (Inr x, st') \<longleftrightarrow> r = Inr x \<and> st' = st"
  by (cases r) (auto simp: failing_def)

lemma require_Inr: "require b m st = (Inr x, st') \<longleftrightarrow> b \<and> st' = st"
  by (simp add: require_def) blast

lemma snd_failing [simp]: "snd (failing r st) = st" "snd (require b m st) = st"
  by (simp_all add: failing_def require_def)

lemmas step_Inr = then_ok_Inr failing_Inr require_Inr

lemma claims_refused:
  assumes "frame_type hello \<noteq> Some ''p2p-hello'' \<or> \<not> known_peer contacts (hello_fp hello) \<or> unwrap_or [] (field_str hello ''sig'') = []"
  shows "\<exists>e. check_claims E io contacts hello st = (Inl e, st)"
  using assms
  by (cases "frame_type hello = Some ''p2p-hello''"; cases "known_peer contacts (hello_fp hello)")
    (auto simp: check_claims_def require_def Let_def)

lemma hello_refused:
  assumes "\<And>t hello. hello_text (ce_lossy (pe_client E)) o1 = Inr t \<Longrightarrow> ce_parse (pe_client E) t = Inr hello \<Longrightarrow>
    frame_type hello \<noteq> Some ''p2p-hello'' \<or> \<not> known_peer contacts (hello_fp hello) \<or> unwrap_or [] (field_str hello ''sig'') = []"
  shows "\<exists>e. check_peer_hello E io contacts o1 st = (Inl e, st)"
proof (cases "hello_text (ce_lossy (pe_client E)) o1")
  case (Inr t)
  show ?thesis
  proof (cases "ce_parse (pe_client E) t")
    case (Inr hello)
    from claims_refused [OF assms [OF \<open>hello_text (ce_lossy (pe_client E)) o1 = Inr t\<close> Inr], of E io st]
    show ?thesis using \<open>hello_text (ce_lossy (pe_client E)) o1 = Inr t\<close> Inr
      by (simp add: check_peer_hello_def failing_def)
  qed (simp add: check_peer_hello_def failing_def Inr)
qed (simp add: check_peer_hello_def failing_def)

text \<open>The contact lists that the command \<open>add-contact\<close> builds, whether its calls succeed or not.\<close>

inductive contacts_built :: "('ek, 'dk, 'vk, 'sg, 'w) dir_env \<Rightarrow> (string, string) hmap \<Rightarrow> bool" for E where
  built_none: "contacts_built E []"
| built_add: "contacts_built E contacts \<Longrightarrow> add_contact E err nid fp contacts w = (r, contacts', w') \<Longrightarrow> contacts_built E contacts'"

lemma add_contact_step:
  assumes "add_contact E err nid fp contacts w = (r, contacts', w')"
  shows "contacts' = contacts \<or> (\<exists>c. add_contact E None nid fp contacts w = (Inr c, contacts', w') \<and> contacts' = hm_insert nid c contacts)"
  using assms by (auto simp: add_contact_def split: if_splits prod.splits sum.splits option.splits)

lemma hm_insert_values: "snd ` set (hm_insert k v m) \<subseteq> insert v (snd ` set m)"
  unfolding hm_insert_def by (induction m) auto

lemma contacts_built_length:
  assumes "contacts_built E contacts" "fp \<in> snd ` set contacts"
    and "\<And>bs. length (b64_encode (de_crypto E) bs) = 4 * ((length bs + 2) div 3)" "\<And>bs. length (sha256 (de_crypto E) bs) = 32"
  shows "length fp = 12 \<or> length fp = 64"
  using assms(1,2)
proof induction
  case (built_add contacts err nid fp0 w r contacts' w')
  from add_contact_step[OF built_add.hyps(2)] show ?case
  proof
    assume "\<exists>c. add_contact E None nid fp0 contacts w = (Inr c, contacts', w') \<and> contacts' = hm_insert nid c contacts"
    then obtain c where c: "add_contact E None nid fp0 contacts w = (Inr c, contacts', w')" "contacts' = hm_insert nid c contacts" by blast
    have "fp = c \<or> fp \<in> snd ` set contacts"
      using built_add.prems hm_insert_values[of nid c contacts] unfolding c(2) by blast
    then show ?thesis using built_add.IH add_contact_length[OF c(1) assms(3,4)] by blast
  qed (use built_add in simp)
qed simp

lemma unusable_fingerprint:
  assumes "length fp \<noteq> 32" "length fp \<noteq> 40"
  shows "verify_signature cr now data s fp c = (False, c)"
  using assms by (simp add: verify_signature_def validate_fingerprint_def)

lemma learn_peer_key_ws: "ps_ws (snd (learn_peer_key E clk p fp st)) = ps_ws st"
  by (simp add: learn_peer_key_def split: prod.split sum.split option.split bool.split)

lemma learn_peer_key_store: "ps_store (snd (learn_peer_key E clk p fp st)) = ps_store st"
  by (simp add: learn_peer_key_def split: prod.split sum.split option.split bool.split)

lemma check_claims_store: "ps_store (snd (check_claims E io contacts hello st)) = ps_store st"
  unfolding check_claims_def Let_def
  by (intro then_ok_keeps[where J = "\<lambda>s. ps_store s = ps_store st"])
    (auto simp: learn_peer_key_store split: prod.split intro!: then_ok_keeps[where J = "\<lambda>s. ps_store s = ps_store st"])

lemma check_claims_ws: "ps_ws (snd (check_claims E io contacts hello st)) = ps_ws st"
  unfolding check_claims_def Let_def
  by (intro then_ok_keeps[where J = "\<lambda>s. ps_ws s = ps_ws st"])
    (auto simp: learn_peer_key_ws split: prod.split intro!: then_ok_keeps[where J = "\<lambda>s. ps_ws s = ps_ws st"])

lemma handle_ws:
  assumes "handle_incoming_connection E io contacts ident o1 st = (r, st')"
    and "r = Inr () \<or> ps_ws st' \<noteq> ps_ws st \<or> ps_store st' \<noteq> ps_store st"
  obtains t hello p fp st1 where "hello_text (ce_lossy (pe_client E)) o1 = Inr t" "ce_parse (pe_client E) t = Inr hello"
    "check_claims E io contacts hello st = (Inr (p, fp), st1)"
proof (cases "hello_text (ce_lossy (pe_client E)) o1")
  case (Inl e)
  then show thesis using assms by (auto simp: handle_incoming_connection_def check_peer_hello_def failing_def)
next
  case t: (Inr t)
  show thesis
  proof (cases "ce_parse (pe_client E) t")
    case (Inl e)
    then show thesis using assms t by (auto simp: handle_incoming_connection_def check_peer_hello_def failing_def)
  next
    case h: (Inr hello)
    obtain q st1 where q: "check_claims E io contacts hello st = (q, st1)" by fastforce
    show thesis
    proof (cases q)
      case (Inl e)
      with assms t h q check_claims_ws[of E io contacts hello st] check_claims_store[of E io contacts hello st] show thesis
        by (auto simp: handle_incoming_connection_def check_peer_hello_def failing_def)
    next
      case (Inr x)
      then show thesis using that[OF t h] q by (cases x) simp
    qed
  qed
qed

definition hello_verified ::
    "('ek, 'dk, 'vk, 'sg, 'w) peer_env \<Rightarrow> ('ek, 'dk) incoming_io \<Rightarrow> json \<Rightarrow> ('vk, 'w) peer_state \<Rightarrow> bool" where
  "hello_verified E io hello st =
     fst (verify_signature (de_crypto (pe_dir E)) (ii_clock io 3)
       (''p2p-hello:'' @ json_text (ce_keys (pe_client E)) (hello_payload hello) @ [CHR 0x0A])
       (unwrap_or [] (field_str hello ''sig'')) (hello_fp hello)
       (ps_cache (snd (learn_peer_key E (ii_clock io) (hello_payload hello) (hello_fp hello) st))))"

lemma claims_verified:
  assumes "check_claims E io contacts hello st = (Inr r, st')"
  shows "known_peer contacts (hello_fp hello)" "length (hello_fp hello) = 32 \<or> length (hello_fp hello) = 40"
    and "hello_verified E io hello st"
proof -
  show "known_peer contacts (hello_fp hello)" "length (hello_fp hello) = 32 \<or> length (hello_fp hello) = 40"
    using assms unusable_fingerprint
    by (force simp: check_claims_def Let_def step_Inr split: prod.splits)+
  obtain u st1 where l: "learn_peer_key E (ii_clock io) (hello_payload hello) (hello_fp hello) st = (Inr u, st1)"
    and v: "fst (verify_signature (de_crypto (pe_dir E)) (ii_clock io 3)
       (''p2p-hello:'' @ json_text (ce_keys (pe_client E)) (hello_payload hello) @ [CHR 0x0A])
       (unwrap_or [] (field_str hello ''sig'')) (hello_fp hello) (ps_cache st1))"
    using assms by (auto simp: check_claims_def Let_def step_Inr case_prod_beta)
  show "hello_verified E io hello st" unfolding hello_verified_def l snd_conv by (rule v)
qed

lemma changes_need_claims:
  assumes "handle_incoming_connection E io contacts ident o1 st = (r, st')" "r = Inr () \<or> st' \<noteq> st"
  obtains t hello where "hello_text (ce_lossy (pe_client E)) o1 = Inr t" "ce_parse (pe_client E) t = Inr hello"
    "frame_type hello = Some ''p2p-hello''" "unwrap_or [] (field_str hello ''sig'') \<noteq> []" "known_peer contacts (hello_fp hello)"
proof (rule ccontr)
  assume no: "\<not> thesis"
  have "\<exists>e. check_peer_hello E io contacts o1 st = (Inl e, st)"
    by (rule hello_refused) (use no that in blast)
  then obtain e where "handle_incoming_connection E io contacts ident o1 st = (Inl e, st)"
    by (auto simp: handle_incoming_connection_def)
  with assms show False by simp
qed

text \<open>C13: Nobody who is not a contact gets any work out of the listener. If an incoming connection is served to its end,
  or changes anything at all (the store, the pinned keys, the frames, the network), then its hello parsed, carries a
  signature, and claims the fingerprint of a contact or of the public service. If it is served to its end, a frame is
  sent or consumed, or the store changes, then the signature check over the payload of the hello has also
  succeeded, with the keys as they are after the key of the hello was learned.\<close>

theorem incoming_needs_consent:
  assumes "handle_incoming_connection E io contacts ident o1 st = (r, st')" "r = Inr () \<or> st' \<noteq> st"
  shows "\<exists>t hello. hello_text (ce_lossy (pe_client E)) o1 = Inr t \<and> ce_parse (pe_client E) t = Inr hello
    \<and> frame_type hello = Some ''p2p-hello'' \<and> unwrap_or [] (field_str hello ''sig'') \<noteq> []
    \<and> (hello_fp hello \<in> snd ` set contacts \<or> hello_fp hello = REFLECTOR_FINGERPRINT)
    \<and> (r = Inr () \<or> ps_ws st' \<noteq> ps_ws st \<or> ps_store st' \<noteq> ps_store st \<longrightarrow>
         fst (verify_signature (de_crypto (pe_dir E)) (ii_clock io 3)
           (''p2p-hello:'' @ json_text (ce_keys (pe_client E)) (hello_payload hello) @ [CHR 0x0A])
           (unwrap_or [] (field_str hello ''sig'')) (hello_fp hello)
           (ps_cache (snd (learn_peer_key E (ii_clock io) (hello_payload hello) (hello_fp hello) st)))))"
proof -
  obtain t hello where h: "hello_text (ce_lossy (pe_client E)) o1 = Inr t" "ce_parse (pe_client E) t = Inr hello"
    "frame_type hello = Some ''p2p-hello''" "unwrap_or [] (field_str hello ''sig'') \<noteq> []" "known_peer contacts (hello_fp hello)"
    using changes_need_claims[OF assms] by blast
  have "hello_verified E io hello st" if "r = Inr () \<or> ps_ws st' \<noteq> ps_ws st \<or> ps_store st' \<noteq> ps_store st"
    by (rule handle_ws[OF assms(1) that]) (use h(1,2) claims_verified(3) in force)
  moreover have "hello_fp hello \<in> snd ` set contacts \<or> hello_fp hello = REFLECTOR_FINGERPRINT"
    using h(5) by (simp add: known_peer_def is_public_service_fingerprint_def)
  ultimately show ?thesis using h(1-4) unfolding hello_verified_def by blast
qed

text \<open>C14: With a contact list that was built by \<open>add-contact\<close>, the listener serves no contact. If an incoming
  connection is served to its end, or gets as much as one frame in reply, then its hello claims the fingerprint of the
  public service: the entries of the list have 12 or 64 characters, and a signature is only checked for a fingerprint of
  32 or 40.\<close>

theorem incoming_only_reflector:
  assumes "contacts_built (pe_dir E) contacts"
    and "\<And>bs. length (b64_encode (de_crypto (pe_dir E)) bs) = 4 * ((length bs + 2) div 3)" "\<And>bs. length (sha256 (de_crypto (pe_dir E)) bs) = 32"
    and "handle_incoming_connection E io contacts ident o1 st = (r, st')" "r = Inr () \<or> ps_ws st' \<noteq> ps_ws st"
  shows "\<exists>t hello. hello_text (ce_lossy (pe_client E)) o1 = Inr t \<and> ce_parse (pe_client E) t = Inr hello
    \<and> hello_fp hello = REFLECTOR_FINGERPRINT"
proof -
  obtain t hello p fp st1 where h: "hello_text (ce_lossy (pe_client E)) o1 = Inr t" "ce_parse (pe_client E) t = Inr hello"
    "check_claims E io contacts hello st = (Inr (p, fp), st1)" using handle_ws[OF assms(4)] assms(5) by blast
  have "hello_fp hello \<notin> snd ` set contacts"
    using contacts_built_length[OF assms(1) _ assms(2,3)] claims_verified(2)[OF h(3)] by fastforce
  then show ?thesis using claims_verified(1)[OF h(3)] h by (auto simp: known_peer_def is_public_service_fingerprint_def)
qed

lemma sealed_too_long:
  assumes "\<And>ct ss. decapsulate (ce_prims (pe_client E)) dk ct = Inr ss \<Longrightarrow> length ss = 32"
    and "\<And>bs s. utf8 (ce_prims (pe_client E)) bs = Inr s \<Longrightarrow> length s \<le> length bs"
    and "field_str p ''sealed_identity'' = Some s" "s \<noteq> []" "length fp = 40"
  shows "check_sealed E dk ident fp p \<noteq> Inr ()"
proof
  assume "check_sealed E dk ident fp p = Inr ()"
  then obtain ct blob where b: "decapsulate (ce_prims (pe_client E)) dk ct = Inr blob"
      "utf8 (ce_prims (pe_client E)) (tl (dropWhile (\<lambda>b. b \<noteq> 0x7C) blob)) = Inr fp"
    using assms(3,4) by (auto simp: check_sealed_def Let_def and_then_def map_sum_Inr split: if_splits sum.splits)
  have "40 \<le> length (tl (dropWhile (\<lambda>b. b \<noteq> 0x7C) blob))" using assms(2)[OF b(2)] assms(5) by simp
  also have "\<dots> \<le> length blob" using length_dropWhile_le[of "\<lambda>b. b \<noteq> 0x7C" blob] by simp
  also have "\<dots> = 32" by (rule assms(1)[OF b(1)])
  finally show False by simp
qed

lemma claims_result:
  assumes "check_claims E io contacts hello st = (Inr (p, fp), st')"
  shows "p = hello_payload hello" "fp = hello_fp hello" "ps_ws st' = ps_ws st"
proof -
  show "p = hello_payload hello" "fp = hello_fp hello"
    using assms by (simp_all add: check_claims_def Let_def step_Inr case_prod_beta) blast+
  show "ps_ws st' = ps_ws st" using check_claims_ws[of E io contacts hello st] assms by simp
qed

text \<open>C15: A hello with a sealed identity is refused before anything is sent. The listener expects the shared secret of
  the key encapsulation, 32 bytes, to be the text of an identifier, a bar and the fingerprint of the peer, which alone
  has 40.\<close>

theorem sealed_hello_refused:
  assumes "hello_text (ce_lossy (pe_client E)) o1 = Inr t" "ce_parse (pe_client E) t = Inr hello"
    and "field_str (hello_payload hello) ''sealed_identity'' = Some s" "s \<noteq> []" "length (hello_fp hello) = 40"
    and "\<And>dk ct ss. decapsulate (ce_prims (pe_client E)) dk ct = Inr ss \<Longrightarrow> length ss = 32"
    and "\<And>bs s. utf8 (ce_prims (pe_client E)) bs = Inr s \<Longrightarrow> length s \<le> length bs"
  shows "\<exists>e st'. handle_incoming_connection E io contacts ident o1 st = (Inl e, st') \<and> ps_ws st' = ps_ws st"
proof -
  obtain q st1 where q: "check_claims E io contacts hello st = (q, st1)" by fastforce
  have start: "check_peer_hello E io contacts o1 st = (q, st1)" using assms(1,2) q by (simp add: check_peer_hello_def failing_def)
  show ?thesis
  proof (cases q)
    case (Inl e)
    then show ?thesis using start check_claims_ws[of E io contacts hello st] q by (simp add: handle_incoming_connection_def)
  next
    case (Inr x)
    then obtain p fp where x: "check_claims E io contacts hello st = (Inr (p, fp), st1)" using q by (cases x) simp
    note c = claims_result[OF x]
    have sealed: "check_sealed E dk ident fp p \<noteq> Inr ()" for dk
      by (rule sealed_too_long[OF assms(6,7) _ assms(4)]) (use assms(3,5) c(1,2) in simp_all)
    have start: "check_peer_hello E io contacts o1 st = (Inr (p, fp), st1)" using start q x by simp
    show ?thesis
    proof (cases "ii_kyber io")
      case (Inl e)
      then show ?thesis using start c(3) by (simp add: handle_incoming_connection_def failing_def)
    next
      case (Inr ks)
      then obtain dk ek where "ii_kyber io = Inr (dk, ek)" by (cases ks) simp
      moreover obtain e where "check_sealed E dk ident fp p = Inl e"
        using sealed[of dk] by (cases "check_sealed E dk ident fp p") auto
      ultimately show ?thesis using start c(3) by (simp add: handle_incoming_connection_def failing_def)
    qed
  qed
qed

section \<open>The session of a direct message\<close>

lemma failing_then: "then_ok (map_sum Fail id r, st) (\<lambda>c. Pair (Inr (f c))) = (map_sum Fail f r, st)"
  by (cases r) simp_all

lemma encrypt_direct_result:
  assumes "client_ok (pe_client E) ek dk" "has_session (pe_client E) (null_id (ce_prims (pe_client E)) rfp) R (ps_store st)"
    and "io_ok (di_load io)" "io_ok (di_save io)"
  obtains S1 where "has_session (pe_client E) (null_id (ce_prims (pe_client E)) rfp) R S1"
    "encrypt_direct E io ident rfp k message st =
       (case pad_message_bucket (di_pad io) message of
          None \<Rightarrow> (Inl Panics, st\<lparr>ps_store := S1\<rparr>)
        | Some padded \<Rightarrow>
            (map_sum Fail (\<lambda>c. (c, None)) (with_context []
               (fst (encrypt_message (ce_prims (pe_client E)) (di_msg_random io) (di_msg_nonce io) padded k R))), st\<lparr>ps_store := S1\<rparr>))"
proof -
  let ?C = "pe_client E"
  let ?n = "null_id (ce_prims ?C) rfp"
  obtain j where j: "sess_parse ?C j = Inr R" "load_session (ce_keys ?C) (di_load io) ?n (ps_store st) = Inr (Some j)" "sessions_unique (ps_store st)"
    using assms(2,3) unfolding has_session_def by blast
  obtain j1 S1 where s: "session_serialize ?C R = Inr j1" "save_session (ce_keys ?C) (di_save io) ?n j1 (ps_store st) = (Inr (), S1)" "has_session ?C ?n R S1"
    by (rule save_has_session[OF assms(1) j(3) assms(4)])
  show thesis
  proof (rule that[OF s(3)])
    show "encrypt_direct E io ident rfp k message st =
       (case pad_message_bucket (di_pad io) message of
          None \<Rightarrow> (Inl Panics, st\<lparr>ps_store := S1\<rparr>)
        | Some padded \<Rightarrow>
            (map_sum Fail (\<lambda>c. (c, None)) (with_context []
               (fst (encrypt_message (ce_prims (pe_client E)) (di_msg_random io) (di_msg_nonce io) padded k R))), st\<lparr>ps_store := S1\<rparr>))"
      using j s(1,2)
      by (simp add: encrypt_direct_def Let_def failing_def failing_then direct_session_def session_deserialize_def split: option.split)
  qed
qed

text \<open>C16: The ratchet of a direct session never advances. The session is stored before the message is encrypted, so
  that once it exists, every later message is encrypted exactly as it would have been without the messages in between.\<close>

theorem direct_ratchet_stuck:
  assumes "client_ok (pe_client E) ek dk" "has_session (pe_client E) (null_id (ce_prims (pe_client E)) rfp) R (ps_store st)"
    and "io_ok (di_load io)" "io_ok (di_save io)" "io_ok (di_load io')" "io_ok (di_save io')"
    and "encrypt_direct E io ident rfp k message st = (Inr (c, ict), st')"
  shows "fst (encrypt_direct E io' ident rfp k' m' st') = fst (encrypt_direct E io' ident rfp k' m' st)"
proof -
  obtain S1 where S1: "has_session (pe_client E) (null_id (ce_prims (pe_client E)) rfp) R S1" "ps_store st' = S1"
    by (rule encrypt_direct_result[OF assms(1-4), of ident k message]) (use assms(7) in \<open>auto split: option.splits\<close>)
  have h: "has_session (pe_client E) (null_id (ce_prims (pe_client E)) rfp) R (ps_store st')" using S1 by simp
  show ?thesis
    by (rule encrypt_direct_result[OF assms(1) h assms(5,6), of ident k' m'],
        rule encrypt_direct_result[OF assms(1,2,5,6), of ident k' m'])
      (simp split: option.split)
qed

section \<open>Candidate addresses\<close>

text \<open>The time that attempts take one after the other, and when an attempt succeeds.\<close>

fun attempts :: "(string \<Rightarrow> int \<times> (string, unit) result) \<Rightarrow> string list \<Rightarrow> int" where
  "attempts dial [] = 0"
| "attempts dial (c # cs) = min (fst (dial c)) CANDIDATE_TIMEOUT + attempts dial cs"

definition answers :: "(string \<Rightarrow> int \<times> (string, unit) result) \<Rightarrow> string \<Rightarrow> bool" where
  "answers dial c \<longleftrightarrow> fst (dial c) < CANDIDATE_TIMEOUT \<and> snd (dial c) = Inr ()"

lemma attempts_nonneg: "(\<And>c. 0 \<le> fst (dial c)) \<Longrightarrow> 0 \<le> attempts dial cs"
  by (induction cs) (auto simp: CANDIDATE_TIMEOUT_def min_def)

lemma split_first:
  "(\<exists>pre post. d # cs = pre @ c # post \<and> Q pre) \<longleftrightarrow> d = c \<and> Q [] \<or> (\<exists>pre post. cs = pre @ c # post \<and> Q (d # pre))"
  by (auto simp: Cons_eq_append_conv)

text \<open>C17: The connection goes to the first candidate that answers within its three seconds, provided that the attempts up
  to it fit into the total of five; in every other case there is none.\<close>

theorem try_candidates_exact:
  assumes "\<And>c. 0 \<le> fst (dial c)"
  shows "try_candidates dial cs left err = Inr c \<longleftrightarrow>
    (\<exists>pre post. cs = pre @ c # post \<and> (\<forall>d \<in> set pre. \<not> answers dial d) \<and> answers dial c \<and> attempts dial (pre @ [c]) \<le> left)"
    (is "_ \<longleftrightarrow> ?P cs left")
proof (induction cs arbitrary: left err)
  case (Cons d cs)
  obtain t r where d: "dial d = (t, r)" by fastforce
  have split: "?P (d # cs) left \<longleftrightarrow> (d = c \<and> answers dial c \<and> attempts dial [c] \<le> left)
      \<or> (\<not> answers dial d \<and> ?P cs (left - min t CANDIDATE_TIMEOUT))"
    unfolding split_first using d by (auto simp: le_diff_eq add.commute)
  have late: "\<not> ?P cs n" if "n < 0" for n
    using attempts_nonneg[OF assms] dual_order.strict_trans2[OF that] by (meson leD order.trans)
  show ?case
  proof (cases "left < min t CANDIDATE_TIMEOUT")
    case True
    then show ?thesis unfolding split using late[of "left - min t CANDIDATE_TIMEOUT"] d by (auto simp: answers_def)
  next
    case False
    then show ?thesis unfolding split using d Cons.IH
      by (cases "CANDIDATE_TIMEOUT \<le> t"; cases r) (auto simp: answers_def)
  qed
qed simp

text \<open>With two candidates that hang the third, which is the published address when the host has one in its network, is
  never tried.\<close>

lemma third_candidate_never_tried:
  assumes "CANDIDATE_TIMEOUT \<le> fst (dial c1)" "CANDIDATE_TIMEOUT \<le> fst (dial c2)"
  shows "\<exists>e. try_candidates dial (c1 # c2 # cs) P2P_TOTAL_TIMEOUT err = Inl e"
  using assms by (auto simp: CANDIDATE_TIMEOUT_def P2P_TOTAL_TIMEOUT_def split: prod.splits)

section \<open>Receipts\<close>

text \<open>The receipt of an honest peer never confirms a message. The peer puts the hash of the plaintext into it and
  the sender compares that with the hash of the ciphertext, so that it reports an unverified receipt or a mismatch.\<close>

theorem honest_receipt_never_confirms:
  assumes "json_get v ''msg_type'' = Some (JString ''p2p-receipt'')"
    and "json_get v ''payload'' = Some (payload (build_p2p_receipt uuid sent_at (sha_hex (de_crypto (pe_dir E)) (str_bytes plaintext)) received 1 sg))"
    and "\<And>bs. length (sha256 (de_crypto (pe_dir E)) bs) = 32"
    and "sha256 (de_crypto (pe_dir E)) (str_bytes plaintext) \<noteq> sha256 (de_crypto (pe_dir E)) c"
  shows "fst (peer_reply E now rfp (sha_hex (de_crypto (pe_dir E)) c) message v cache)
    \<in> {Inr ([ReceiptUnverified], False, True), Inr ([ReceiptMismatch], False, True)}"
proof -
  let ?h = "sha_hex (de_crypto (pe_dir E)) (str_bytes plaintext)"
  have ne: "?h \<noteq> sha_hex (de_crypto (pe_dir E)) c" using assms(4) hex_encode_inj unfolding sha_hex_def by blast
  have len: "length ?h = 64" by (simp add: sha_hex_def assms(3))
  have f: "frame_type v = Some ''p2p-receipt''" using assms(1) by (simp add: frame_type_def)
  have n: "nested_field as_str v ''msg_hash'' = Some ?h" "nested_field as_f64 v ''received_at'' = Some received"
    using assms(2) by (simp_all add: nested_field_def build_p2p_receipt_def json_get_def)
  show ?thesis using f n ne len by (simp add: peer_reply_def Let_def case_prod_beta)
qed


section \<open>A small instance\<close>

definition toy_hello :: json where
  "toy_hello =
     JObject [(''msg_type'', JString ''p2p-hello''), (''sig'', JString ''s''),
       (''payload'', JObject [(''public_key'', JString REFLECTOR_FINGERPRINT), (''sender_verifying_key'', JString ''k'')])]"

definition sealed_hello :: json where
  "sealed_hello =
     JObject [(''msg_type'', JString ''p2p-hello''), (''sig'', JString ''s''),
       (''payload'', JObject [(''public_key'', JString REFLECTOR_FINGERPRINT), (''sender_verifying_key'', JString ''k''),
          (''sealed_identity'', JString ''07'')])]"

definition toy_peer :: "json \<Rightarrow> (unit, unit, nat, nat, unit) peer_env" where
  "toy_peer hello = \<lparr>pe_client = toy_client\<lparr>ce_parse := \<lambda>_. Inr hello\<rparr>, pe_dir = found_dir, pe_sha512 = \<lambda>b. b\<rparr>"

definition toy_peer_state :: "(nat, unit) peer_state" where
  "toy_peer_state =
     \<lparr>ps_store = MessageStore_new, ps_cache = Some [(REFLECTOR_FINGERPRINT, 0, 0)], ps_ws = \<lparr>incoming = [], sent = [], send_errors = []\<rparr>, ps_world = (), ps_secrets = []\<rparr>"

definition toy_accept :: "(unit, unit) incoming_io" where
  "toy_accept =
     \<lparr>ii_kyber = Inr ((), ()), ii_vk = \<lambda>_. Inr ''k'', ii_clock = \<lambda>_. 0, ii_stamp = \<lambda>_. ([], 0), ii_chunk_stamp = \<lambda>_. ([], 0),
      ii_challenge = [], ii_random = [], ii_load = toy_io ''t'' 1, ii_save = toy_io ''t'' 1, ii_message = toy_io ''t'' 1,
      ii_status = toy_io ''t'' 1\<rparr>"

lemma reflector_usable: "validate_fingerprint REFLECTOR_FINGERPRINT"
  by (simp add: validate_fingerprint_def REFLECTOR_FINGERPRINT_def is_ascii_hexdigit_def)

lemma reflector_upper: "to_uppercase REFLECTOR_FINGERPRINT = REFLECTOR_FINGERPRINT"
  by (simp add: to_uppercase_def ascii_upper_def REFLECTOR_FINGERPRINT_def)

lemma toy_served:
  "\<exists>st'. handle_incoming_connection (toy_peer toy_hello) toy_accept [(''bob'', replicate 12 (CHR ''A''))] toy_alice (HelloText []) toy_peer_state
     = (Inl Waits, st') \<and> sent (ps_ws st') = [Text []]"
proof -
  let ?E = "toy_peer toy_hello"
  have h: "hello_fp toy_hello = REFLECTOR_FINGERPRINT" "frame_type toy_hello = Some ''p2p-hello''" "field_str toy_hello ''sig'' = Some ''s''"
    "hello_payload toy_hello = JObject [(''public_key'', JString REFLECTOR_FINGERPRINT), (''sender_verifying_key'', JString ''k'')]"
    by (simp_all add: hello_fp_def hello_payload_def toy_hello_def field_str_def json_get_def frame_type_def unwrap_or_def)
  have c: "get_cached_verifying_key 0 REFLECTOR_FINGERPRINT (Some [(REFLECTOR_FINGERPRINT, 0, 0)]) = (Some 0, Some [(REFLECTOR_FINGERPRINT, 0, 0)])"
    by (simp add: get_cached_verifying_key_def hm_get_def hm_insert_def reflector_upper)
  have v: "verify_signature (de_crypto found_dir) 0 d ''s'' REFLECTOR_FINGERPRINT (Some [(REFLECTOR_FINGERPRINT, 0, 0)])
      = (True, Some [(REFLECTOR_FINGERPRINT, 0, 0)])" for d
    by (simp add: verify_signature_def reflector_usable c is_ok_def pq_verify_def found_dir_def wide_crypto_def toy_crypto_def)
  have "check_claims ?E toy_accept [(''bob'', replicate 12 (CHR ''A''))] toy_hello toy_peer_state
      = (Inr (hello_payload toy_hello, REFLECTOR_FINGERPRINT), toy_peer_state)"
    unfolding check_claims_def Let_def h(1-3)
    by (simp add: require_def known_peer_def is_public_service_fingerprint_def learn_peer_key_def pin_embedded_def toy_peer_def
        toy_accept_def toy_peer_state_def c v unwrap_or_def)
  then have start: "check_peer_hello ?E toy_accept [(''bob'', replicate 12 (CHR ''A''))] (HelloText []) toy_peer_state
      = (Inr (hello_payload toy_hello, REFLECTOR_FINGERPRINT), toy_peer_state)"
    by (simp add: check_peer_hello_def failing_def hello_text_def toy_peer_def)
  have sealed: "check_sealed ?E () toy_alice REFLECTOR_FINGERPRINT (hello_payload toy_hello) = Inr ()"
    by (simp add: check_sealed_def h(4) field_str_def json_get_def)
  have ack: "send_hello_ack ?E toy_accept toy_alice k toy_peer_state = (Inr (), toy_peer_state\<lparr>ps_ws := \<lparr>incoming = [], sent = [Text []], send_errors = []\<rparr>\<rparr>)" for k
    by (simp add: send_hello_ack_def failing_def toy_accept_def toy_peer_def found_dir_def found_codec_def send_frame_def ws_send_def toy_peer_state_def)
  obtain a b r w where d: "discover_all_servers (de_net (pe_dir ?E)) (ps_world toy_peer_state) = ((a, b, r), w)" by (metis prod.exhaust)
  have k: "ii_kyber toy_accept = Inr ((), ())" by (simp add: toy_accept_def)
  have "json_get (hello_payload toy_hello) ''braid'' = None" by (simp add: h(4) json_get_def)
  then show ?thesis unfolding handle_incoming_connection_def start
    by (simp add: Let_def failing_def k sealed ack d)
qed

theorem incoming_needs_consent_witness:
  "\<exists>hello st'. handle_incoming_connection (toy_peer toy_hello) toy_accept [(''bob'', replicate 12 (CHR ''A''))] toy_alice (HelloText [])
      toy_peer_state = (Inl Waits, st') \<and> ps_ws st' \<noteq> ps_ws toy_peer_state
    \<and> ce_parse (pe_client (toy_peer toy_hello)) [] = Inr hello \<and> frame_type hello = Some ''p2p-hello''
    \<and> (hello_fp hello \<in> snd ` set [(''bob'', replicate 12 (CHR ''A''))] \<or> hello_fp hello = REFLECTOR_FINGERPRINT)
    \<and> fst (verify_signature (de_crypto (pe_dir (toy_peer toy_hello))) (ii_clock toy_accept 3)
           (''p2p-hello:'' @ json_text (ce_keys (pe_client (toy_peer toy_hello))) (hello_payload hello) @ [CHR 0x0A])
           (unwrap_or [] (field_str hello ''sig'')) (hello_fp hello)
           (ps_cache (snd (learn_peer_key (toy_peer toy_hello) (ii_clock toy_accept) (hello_payload hello) (hello_fp hello) toy_peer_state))))"
proof -
  obtain st' where s: "handle_incoming_connection (toy_peer toy_hello) toy_accept [(''bob'', replicate 12 (CHR ''A''))] toy_alice (HelloText [])
      toy_peer_state = (Inl Waits, st')" "sent (ps_ws st') = [Text []]" using toy_served by blast
  from s(2) have "ps_ws st' \<noteq> ps_ws toy_peer_state" "st' \<noteq> toy_peer_state" by (auto simp: toy_peer_state_def)
  with incoming_needs_consent[OF s(1)] s(1) show ?thesis by (fastforce simp: hello_text_def)
qed

theorem incoming_only_reflector_witness:
  "\<exists>t hello. hello_text (ce_lossy (pe_client (toy_peer toy_hello))) (HelloText []) = Inr t
    \<and> ce_parse (pe_client (toy_peer toy_hello)) t = Inr hello \<and> hello_fp hello = REFLECTOR_FINGERPRINT"
proof -
  obtain st' where s: "handle_incoming_connection (toy_peer toy_hello) toy_accept [(''bob'', replicate 12 (CHR ''A''))] toy_alice (HelloText [])
      toy_peer_state = (Inl Waits, st')" "sent (ps_ws st') = [Text []]" using toy_served by blast
  have d: "pe_dir (toy_peer toy_hello) = found_dir" by (simp add: toy_peer_def)
  show ?thesis
  proof (rule incoming_only_reflector[OF _ _ _ s(1)])
    show "contacts_built (pe_dir (toy_peer toy_hello)) [(''bob'', replicate 12 (CHR ''A''))]"
      unfolding d by (rule built_add[OF built_none found_contact])
    show "Inl Waits = Inr () \<or> ps_ws st' \<noteq> ps_ws toy_peer_state" using s(2) by (auto simp: toy_peer_state_def)
  qed (simp_all add: d found_dir_def wide_crypto_def)
qed

theorem sealed_hello_refused_witness:
  "\<exists>e st'. handle_incoming_connection (toy_peer sealed_hello) toy_accept [(''bob'', replicate 12 (CHR ''A''))] toy_alice (HelloText []) toy_peer_state
     = (Inl e, st') \<and> ps_ws st' = ps_ws toy_peer_state"
proof (rule sealed_hello_refused)
  show "hello_text (ce_lossy (pe_client (toy_peer sealed_hello))) (HelloText []) = Inr []" by (simp add: hello_text_def)
  show "ce_parse (pe_client (toy_peer sealed_hello)) [] = Inr sealed_hello" by (simp add: toy_peer_def)
  show "field_str (hello_payload sealed_hello) ''sealed_identity'' = Some ''07''" "length (hello_fp sealed_hello) = 40"
    by (simp_all add: hello_fp_def hello_payload_def sealed_hello_def field_str_def json_get_def unwrap_or_def REFLECTOR_FINGERPRINT_def)
qed (auto simp: toy_peer_def ce_prims_def toy_client_def toy_keys_def toy_prims_def bytes_str_def)

definition toy_direct :: "(unit, unit) direct_io" where
  "toy_direct =
     \<lparr>di_kyber = Inr ((), ()), di_vk = \<lambda>_. Inr ''k'', di_clock = \<lambda>_. 0, di_stamp = \<lambda>_. ([], 0), di_chunk_stamp = \<lambda>_. ([], 0),
      di_seal_random = [], di_init_random = [], di_msg_random = [], di_msg_nonce = replicate 12 0, di_pad = \<lambda>n. replicate n 0,
      di_load = toy_io ''t'' 1, di_save = toy_io ''t'' 1, di_message = toy_io ''t'' 1, di_secret_random = [], di_secret_error = None,
      di_reloaded = Inr toy_alice, di_token_time = 0\<rparr>"

definition toy_sender :: "(unit, unit, nat, nat, unit) peer_env" where
  "toy_sender = \<lparr>pe_client = toy_client, pe_dir = found_dir, pe_sha512 = \<lambda>b. b\<rparr>"

theorem direct_ratchet_stuck_witness:
  "\<exists>st c ict st'. encrypt_direct toy_sender toy_direct toy_alice ''BB'' () ''hi'' st = (Inr (c, ict), st')
     \<and> fst (encrypt_direct toy_sender toy_direct toy_alice ''BB'' () ''ho'' st') = fst (encrypt_direct toy_sender toy_direct toy_alice ''BB'' () ''ho'' st)"
proof -
  let ?n = "null_id (ce_prims (pe_client toy_sender)) ''BB''"
  have C: "client_ok (pe_client toy_sender) () ()" by (simp add: toy_sender_def toy_client_ok)
  have io: "io_ok (di_load toy_direct)" "io_ok (di_save toy_direct)" by (simp_all add: toy_direct_def toy_keys_ok(2))
  obtain S where "has_session (pe_client toy_sender) ?n (toy_session True) S"
    using save_has_session[OF C store_inv_new(3) toy_keys_ok(2)] by blast
  then have h: "has_session (pe_client toy_sender) ?n (toy_session True) (ps_store (toy_peer_state\<lparr>ps_store := S\<rparr>))" by simp
  obtain c where c: "fst (encrypt_message (ce_prims (pe_client toy_sender)) r n p () s) = Inr (c r n p s)" for r n p s
    by (atomize_elim, rule exI[of _ "\<lambda>r n p s. projr (fst (encrypt_message (ce_prims (pe_client toy_sender)) r n p () s))"])
      (simp add: encrypt_message_def toy_sender_def toy_client_prims toy_prims_def Let_def split: prod.split)
  obtain p where p: "pad_message_bucket (di_pad toy_direct) ''hi'' = Some p"
    by (simp add: pad_message_bucket_def bucket_size_def Let_def)
  obtain x ict st' where e: "encrypt_direct toy_sender toy_direct toy_alice ''BB'' () ''hi'' (toy_peer_state\<lparr>ps_store := S\<rparr>) = (Inr (x, ict), st')"
    by (rule encrypt_direct_result[OF C h io, of toy_alice "()" "''hi''"]) (simp add: p c)
  from direct_ratchet_stuck[OF C h io io e, of "()" "''ho''"] e show ?thesis by blast
qed

theorem try_candidates_exact_witness:
  "try_candidates (\<lambda>c. if c = ''a'' then (4000, Inl []) else (10, Inr ())) [''a'', ''b''] P2P_TOTAL_TIMEOUT [] = Inr ''b''"
  using try_candidates_exact[of "\<lambda>c. if c = ''a'' then (4000, Inl []) else (10, Inr ())" "[''a'', ''b'']" P2P_TOTAL_TIMEOUT "[]" "''b''"]
  by (auto simp: answers_def CANDIDATE_TIMEOUT_def P2P_TOTAL_TIMEOUT_def intro: exI[of _ "[''a'']"])

theorem honest_receipt_never_confirms_witness:
  "fst (peer_reply \<lparr>pe_client = toy_client, pe_dir = toy_dir, pe_sha512 = \<lambda>b. b\<rparr> 0 ''BB'' (sha_hex toy_crypto [1]) ''hi''
      (JObject [(''msg_type'', JString ''p2p-receipt''), (''payload'', payload (build_p2p_receipt [] 0 (sha_hex toy_crypto (str_bytes ''hi'')) 0 1 []))]) None)
    \<in> {Inr ([ReceiptUnverified], False, True), Inr ([ReceiptMismatch], False, True)}"
  using honest_receipt_never_confirms[of "JObject [(''msg_type'', JString ''p2p-receipt''), (''payload'', payload (build_p2p_receipt [] 0 (sha_hex toy_crypto (str_bytes ''hi'')) 0 1 []))]"
    "[]" 0 "\<lparr>pe_client = toy_client, pe_dir = toy_dir, pe_sha512 = \<lambda>b. b\<rparr>" "''hi''" 0 "[]" "[1]" 0 "''BB''" "''hi''" None]
  by (simp add: json_get_def toy_dir_def toy_crypto_def str_bytes_def)

end
