(* ===== verification/Reflector.thy ===== *)
theory Reflector
  imports P2pSession
begin

text \<open>
  The reflector, in \<open>bot/src/main.rs\<close> and \<open>bot/src/config.rs\<close>: a public service that publishes its address in the
  directory and echoes the messages of whoever connects.

  The properties compose it with the DHT nodes it publishes on and with the client that waits for its replies.
\<close>

section \<open>Definitions\<close>

subsection \<open>Configuration\<close>

record IdentityConfig =
  ic_key_dir :: string
  ic_null_id :: string
  ic_fingerprint :: string

record ReflectorConfig =
  rc_prefix :: string
  rc_default_ttl :: "string option"
  rc_known_bot_prefixes :: "string list"
  rc_inherit_ttl :: bool
  rc_send_read_receipts :: bool

record NetworkConfig =
  nc_bootstrap_url :: string
  nc_polling_interval :: u64

record BotConfig =
  bc_identity :: IdentityConfig
  bc_reflector :: ReflectorConfig
  bc_network :: NetworkConfig

definition default_bootstrap :: string where "default_bootstrap = ''wss://bootstrap-eu.gnoppix.org/ws''"

text \<open>The prefix starts with the four bytes of the robot face.\<close>

definition default_prefix :: string where
  "default_prefix = [CHR 0xF0, CHR 0x9F, CHR 0xA4, CHR 0x96] @ '' [Reflector Echo]: ''"

definition default_known_bots :: "string list" where "default_known_bots = [default_prefix]"

definition default_polling_interval :: u64 where "default_polling_interval = 30"

definition identity_default :: IdentityConfig where
  "identity_default = \<lparr>ic_key_dir = ''.add/bot'', ic_null_id = [], ic_fingerprint = []\<rparr>"

definition reflector_default :: ReflectorConfig where
  "reflector_default =
     \<lparr>rc_prefix = default_prefix, rc_default_ttl = None, rc_known_bot_prefixes = default_known_bots, rc_inherit_ttl = True,
      rc_send_read_receipts = True\<rparr>"

definition network_default :: NetworkConfig where
  "network_default = \<lparr>nc_bootstrap_url = default_bootstrap, nc_polling_interval = default_polling_interval\<rparr>"

definition BotConfig_default :: BotConfig where
  "BotConfig_default = \<lparr>bc_identity = identity_default, bc_reflector = reflector_default, bc_network = network_default\<rparr>"

text \<open>The files of the service: the configuration and the seed of its signing key, and what reading and
  writing each of them fails with. Errors of writing the seed are ignored.\<close>

record bot_disk =
  bd_config :: "string option"
  bd_seed :: "string option"
  bd_config_read_err :: "string option"
  bd_seed_read_err :: "string option"
  bd_config_err :: "string option"
  bd_seed_err :: "string option"

definition bot_save :: "(BotConfig \<Rightarrow> (string, string) result) \<Rightarrow> BotConfig \<Rightarrow> bot_disk \<Rightarrow> (string, unit) result \<times> bot_disk" where
  "bot_save to_toml cfg d =
     (case to_toml cfg of
        Inl e \<Rightarrow> (Inl e, d)
      | Inr t \<Rightarrow> (case bd_config_err d of Some e \<Rightarrow> (Inl e, d) | None \<Rightarrow> (Inr (), d\<lparr>bd_config := Some t\<rparr>)))"

definition bot_load ::
    "(string \<Rightarrow> (string, BotConfig) result) \<Rightarrow> (BotConfig \<Rightarrow> (string, string) result) \<Rightarrow> bot_disk \<Rightarrow> (string, BotConfig) result \<times> bot_disk" where
  "bot_load from_toml to_toml d =
     (case bd_config d of
        None \<Rightarrow> (case bot_save to_toml BotConfig_default d of (r, d1) \<Rightarrow> (map_sum id (\<lambda>_. BotConfig_default) r, d1))
      | Some t \<Rightarrow> (case bd_config_read_err d of Some e \<Rightarrow> (Inl e, d) | None \<Rightarrow> (from_toml t, d)))"

definition apply_overrides :: "string option \<Rightarrow> u64 option \<Rightarrow> BotConfig \<Rightarrow> BotConfig" where
  "apply_overrides pre ttl cfg =
     (let cfg1 = (case pre of None \<Rightarrow> cfg | Some p \<Rightarrow> cfg\<lparr>bc_reflector := (bc_reflector cfg)\<lparr>rc_prefix := p\<rparr>\<rparr>)
      in case ttl of
           None \<Rightarrow> cfg1
         | Some t \<Rightarrow> cfg1\<lparr>bc_reflector := (bc_reflector cfg1)\<lparr>rc_default_ttl := Some (show_nat (unat t))\<rparr>\<rparr>)"

subsection \<open>The signing key\<close>

record ('kp, 'vk, 'sg, 'w) bot_env =
  be_net :: "'w net"
  be_codec :: codec
  be_parse :: "string \<Rightarrow> (string, json) result"
  be_text :: "json \<Rightarrow> string"
  be_crypto :: "('vk, 'sg) crypto"
  be_hex :: key_env
  be_hkdf :: "bytes \<Rightarrow> string \<Rightarrow> nat \<Rightarrow> bytes"
  be_kyber_seed :: "bytes \<Rightarrow> (string, string) result"
  be_generate :: "(string, 'kp) result"
  be_from_seed :: "bytes \<Rightarrow> (string, 'kp) result"
  be_to_seed :: "'kp \<Rightarrow> bytes"
  be_vk :: "'kp \<Rightarrow> 'vk"
  be_sign :: "'kp \<Rightarrow> string \<Rightarrow> (string, string) result"
  be_argon :: argon
  be_elapsed :: "nat \<Rightarrow> real"

definition bot_vk_b64 :: "('kp, 'vk, 'sg, 'w) bot_env \<Rightarrow> 'kp \<Rightarrow> string" where
  "bot_vk_b64 B pair = b64_encode (be_crypto B) (vk_to_bytes (be_crypto B) (be_vk B pair))"

definition generate_signing_key ::
    "('kp, 'vk, 'sg, 'w) bot_env \<Rightarrow> bot_disk \<Rightarrow> (string, bytes \<times> string) result \<times> bot_disk" where
  "generate_signing_key B d =
     (case be_generate B of
        Inl e \<Rightarrow> (Inl e, d)
      | Inr pair \<Rightarrow>
          (Inr (be_to_seed B pair, bot_vk_b64 B pair),
           if bd_seed_err d = None then d\<lparr>bd_seed := Some (hex_encode (be_to_seed B pair))\<rparr> else d))"

definition load_reflector_signing_key ::
    "('kp, 'vk, 'sg, 'w) bot_env \<Rightarrow> bot_disk \<Rightarrow> (string, bytes \<times> string) result \<times> bot_disk" where
  "load_reflector_signing_key B d =
     (case bd_seed d of
        None \<Rightarrow> generate_signing_key B d
      | Some t \<Rightarrow>
          if bd_seed_read_err d \<noteq> None then (Inl (''seed read: '' @ the (bd_seed_read_err d)), d)
          else if length (str_trim t) \<noteq> 64 then generate_signing_key B d
          else (case hex_decode (be_hex B) (str_trim t) of
                  Inl _ \<Rightarrow> (Inl ''invalid hex'', d)
                | Inr bs \<Rightarrow>
                    if length bs \<noteq> 32 then (Inl ''invalid seed length'', d)
                    else (map_sum id (\<lambda>pair. (be_to_seed B pair, bot_vk_b64 B pair)) (be_from_seed B bs), d)))"

definition bot_sign :: "('kp, 'vk, 'sg, 'w) bot_env \<Rightarrow> bytes \<Rightarrow> string \<Rightarrow> (string, 'kp \<times> string) result" where
  "bot_sign B seed data =
     (if length seed \<noteq> 32 then Inl ''Invalid seed length''
      else and_then (be_from_seed B seed) (\<lambda>pair. map_sum id (\<lambda>sg. (pair, sg)) (be_sign B pair data)))"

subsection \<open>Publishing the address\<close>

definition BOT_NULL_ID :: string where "BOT_NULL_ID = ''NN-UFtv-8fHu''"

definition advertise_address :: "bytes option \<Rightarrow> bytes \<Rightarrow> u16 \<Rightarrow> string" where
  "advertise_address lan ip port =
     ''ws://'' @ dotted (if ip = [0, 0, 0, 0] then unwrap_or ip lan else ip) @ '':'' @ show_nat (unat port)"

definition service_bundle :: "string \<Rightarrow> string \<Rightarrow> string \<Rightarrow> json" where
  "service_bundle vk kyber_enc address =
     JObject [(''cert'', JString []), (''vk'', JString vk), (''kyber_enc'', JString kyber_enc),
              (''fp'', JString REFLECTOR_FINGERPRINT), (''address'', JString address)]"

definition service_put_request ::
    "string \<Rightarrow> string \<Rightarrow> string \<Rightarrow> string \<Rightarrow> string \<Rightarrow> u64 \<Rightarrow> string \<Rightarrow> real \<Rightarrow> WireEnvelope" where
  "service_put_request key v sg vk kyber_enc nonce uuid now =
     \<lparr>msg_type = ''blob-put'',
      payload = JObject
        [(''key'', JString key), (''value'', JString v), (''sig'', JString sg), (''publisher_fp'', JString REFLECTOR_FINGERPRINT),
         (''publisher_verifying_key'', JString vk), (''ttl'', JInt ADDR_TTL), (''nonce'', JInt (sint nonce)), (''vk'', JString vk),
         (''kyber_enc'', JString kyber_enc)],
      msg_id = uuid, ts = now, sig = sg\<rparr>"

definition service_kyber :: "('kp, 'vk, 'sg, 'w) bot_env \<Rightarrow> (string, string) result" where
  "service_kyber B =
     map_sum (\<lambda>e. ''kyber keypair from seed: '' @ e) id
       (be_kyber_seed B (be_hkdf B (sha256 (be_crypto B) (str_bytes BOT_NULL_ID)) ''add-sealed-sender-kyber-seed'' 64))"

definition service_pow :: "('kp, 'vk, 'sg, 'w) bot_env \<Rightarrow> string \<Rightarrow> string \<Rightarrow> (string, u64) result" where
  "service_pow B key v =
     (case pow_solve (be_argon B) (be_elapsed B) (key @ ''|'' @ v @ ''|'' @ REFLECTOR_FINGERPRINT @ ''|0'') ADDR_POW_DIFFICULTY 2000000
             (str_bytes REFLECTOR_FINGERPRINT) of
        Inl e \<Rightarrow> Inl (''PoW solve error: '' @ pow_error_text e)
      | Inr None \<Rightarrow> Inl ''Could not solve PoW in time''
      | Inr (Some n) \<Rightarrow> Inr n)"

text \<open>The request is sent and its answer never read.\<close>

definition publish_service_bundle ::
    "('kp, 'vk, 'sg, 'w) bot_env \<Rightarrow> string \<Rightarrow> string \<Rightarrow> bot_disk \<times> 'w \<Rightarrow> (string, unit) result \<times> bot_disk \<times> 'w" where
  "publish_service_bundle B url address s =
     (case s of (d, w) \<Rightarrow>
      case net_connect (be_net B) url w of
        (Inl e, w1) \<Rightarrow> (Inl (''Failed to connect to bootstrap: '' @ e), d, w1)
      | (Inr _, w1) \<Rightarrow>
          then_ok (service_kyber B, d, w1) (\<lambda>kyber_enc (d, w).
          case load_reflector_signing_key B d of (r, d1) \<Rightarrow>
          then_ok (r, d1, w) (\<lambda>(seed, vk) (d, w).
          let v = b64_encode (be_crypto B) (str_bytes (be_text B (service_bundle vk kyber_enc address)));
              key = cert_blob_key (be_crypto B) REFLECTOR_FINGERPRINT
          in then_ok (bot_sign B seed (key @ ''|'' @ v @ ''|'' @ REFLECTOR_FINGERPRINT), d, w) (\<lambda>(_, sg) s.
             then_ok (service_pow B key v, s) (\<lambda>nonce (d, w).
             case ask_open (be_net B) url (\<lambda>uuid now. to_json (be_codec B) (service_put_request key v sg vk kyber_enc nonce uuid now)) w of
               (NoText e, w1) \<Rightarrow> (Inl e, d, w1)
             | (NoSend e, w1) \<Rightarrow> (Inl e, d, w1)
             | (_, w1) \<Rightarrow> (Inr (), d, w1))))))"

definition bot_bootstraps :: "string list" where
  "bot_bootstraps =
     [''wss://bootstrap-eu.gnoppix.org/ws'', ''wss://bootstrap-asia.gnoppix.org/ws'', ''wss://bootstrap-us.gnoppix.org/ws'']"

text \<open>One round over the servers; failures are logged.\<close>

fun publish_round :: "('kp, 'vk, 'sg, 'w) bot_env \<Rightarrow> string \<Rightarrow> string list \<Rightarrow> bot_disk \<times> 'w \<Rightarrow> bot_disk \<times> 'w" where
  "publish_round B address [] s = s"
| "publish_round B address (url # urls) s = publish_round B address urls (snd (publish_service_bundle B url address s))"

subsection \<open>Echoing\<close>

record ('vk, 'w) bot_state =
  bs_ws :: WebSocketConn
  bs_disk :: bot_disk
  bs_cache :: "'vk vk_cache"

record bot_io =
  bi_uuid :: "nat \<Rightarrow> string"
  bi_now :: "nat \<Rightarrow> real"
  bi_kyber :: "(string, string) result"

definition bot_send :: "string \<Rightarrow> ('vk, 'w) bot_state \<Rightarrow> (stop, unit) result \<times> ('vk, 'w) bot_state" where
  "bot_send t st = (case ws_send (Text t) (bs_ws st) of (r, ws) \<Rightarrow> (map_sum Fail id r, st\<lparr>bs_ws := ws\<rparr>))"

definition bot_ack_payload :: "string \<Rightarrow> string \<Rightarrow> json" where
  "bot_ack_payload challenge kyber_enc =
     JObject [(''public_key'', JString REFLECTOR_FINGERPRINT), (''nonce'', JInt 1), (''pow_bits'', JInt 16),
              (''server_challenge'', JString challenge), (''kyber_enc_key'', JString kyber_enc), (''braid'', JBool False)]"

text \<open>The signature is made before the verifying key is put into the payload.\<close>

definition send_bot_ack ::
    "('kp, 'vk, 'sg, 'w) bot_env \<Rightarrow> bot_io \<Rightarrow> ('vk, 'w) bot_state \<Rightarrow> (stop, unit) result \<times> ('vk, 'w) bot_state" where
  "send_bot_ack B io st =
     then_ok (failing (map_sum (\<lambda>e. ''reflector kyber gen failed: '' @ e) id (bi_kyber io)) st) (\<lambda>kyber_enc st.
     let p = bot_ack_payload (bi_uuid io 0) kyber_enc
     in case load_reflector_signing_key B (bs_disk st) of (r, d) \<Rightarrow>
        then_ok (failing r (st\<lparr>bs_disk := d\<rparr>)) (\<lambda>(seed, vk) st.
        then_ok (failing (if length seed \<noteq> 32 then Inl ''Invalid seed length'' else be_from_seed B seed) st) (\<lambda>pair st.
        then_ok (failing (be_sign B pair (''p2p-hello-ack:'' @ be_text B p @ [CHR 0x0A]))
                   (st\<lparr>bs_cache := cache_verifying_key (bi_now io 1) REFLECTOR_FINGERPRINT (be_vk B pair) (bs_cache st)\<rparr>)) (\<lambda>sg st.
        then_ok (failing (to_json (be_codec B)
                   \<lparr>msg_type = ''p2p-hello-ack'', payload = set_field ''sender_verifying_key'' (JString vk) p,
                    msg_id = bi_uuid io 1, ts = bi_now io 0, sig = sg\<rparr>) st) (\<lambda>t st.
          bot_send t st)))))"

definition echo_json :: "string \<Rightarrow> string \<Rightarrow> string \<Rightarrow> json" where
  "echo_json pre ciphertext recipient =
     JObject [(''type'', JString ''p2p-message''), (''ciphertext'', JString (pre @ ciphertext)), (''recipient'', JString recipient)]"

definition bot_ack_json :: json where
  "bot_ack_json = JObject [(''type'', JString ''p2p-ack''), (''seq'', JInt 1)]"

definition bot_receipt_json :: "string \<Rightarrow> real \<Rightarrow> json" where
  "bot_receipt_json h now =
     JObject [(''type'', JString ''p2p-receipt''), (''msg_hash'', JString h), (''received_at'', JFloat now), (''seq'', JInt 1)]"

definition echo_values :: "('kp, 'vk, 'sg, 'w) bot_env \<Rightarrow> bot_io \<Rightarrow> string \<Rightarrow> string \<Rightarrow> string \<Rightarrow> json list" where
  "echo_values B io pre recipient ciphertext =
     [echo_json pre ciphertext recipient, bot_ack_json,
      bot_receipt_json (sha_hex (be_crypto B) (str_bytes ciphertext)) (bi_now io 2)]"

fun bot_send_all :: "string list \<Rightarrow> ('vk, 'w) bot_state \<Rightarrow> (stop, unit) result \<times> ('vk, 'w) bot_state" where
  "bot_send_all [] st = (Inr (), st)"
| "bot_send_all (t # rest) st = then_ok (bot_send t st) (\<lambda>_ st. bot_send_all rest st)"

text \<open>The loop over the frames after the hello: the ciphertext of the first message, if one comes before the
  connection ends.\<close>

fun next_message :: "(string \<Rightarrow> (string, json) result) \<Rightarrow> ws_event list \<Rightarrow> (stop, string option) result \<times> ws_event list" where
  "next_message parse [] = (Inl Waits, [])"
| "next_message parse (Frame (Text t) # es) =
     (case parse t of
        Inl _ \<Rightarrow> next_message parse es
      | Inr v \<Rightarrow>
          if frame_type v \<noteq> Some ''p2p-message'' then next_message parse es
          else (Inr (Some (unwrap_or [] (nested_field as_str v ''ciphertext''))), es))"
| "next_message parse (Frame Close # es) = (Inr None, es)"
| "next_message parse (StreamError e # es) = (Inr None, es)"
| "next_message parse (StreamEnd # es) = (Inr None, es)"
| "next_message parse (_ # es) = next_message parse es"

definition bot_handle_connection ::
    "('kp, 'vk, 'sg, 'w) bot_env \<Rightarrow> bot_io \<Rightarrow> BotConfig \<Rightarrow> first_event \<Rightarrow> ('vk, 'w) bot_state
     \<Rightarrow> (stop, unit) result \<times> ('vk, 'w) bot_state" where
  "bot_handle_connection B io cfg o1 st =
     (case o1 of
        NotAccepted e \<Rightarrow> (Inl (Fail e), st)
      | HelloText t \<Rightarrow>
          then_ok (failing (be_parse B t) st) (\<lambda>hello st.
          then_ok (require (frame_type hello = Some ''p2p-hello'') ''expected p2p-hello'' st) (\<lambda>_ st.
          let peer = unwrap_or ''unknown'' (field_str hello ''public_key'')
          in then_ok (send_bot_ack B io st) (\<lambda>_ st.
             case next_message (be_parse B) (incoming (bs_ws st)) of (r, es) \<Rightarrow>
               then_ok (r, st\<lparr>bs_ws := (bs_ws st)\<lparr>incoming := es\<rparr>\<rparr>) (\<lambda>m st.
                 case m of
                   None \<Rightarrow> (Inr (), st)
                 | Some c \<Rightarrow> bot_send_all (map (be_text B) (echo_values B io (rc_prefix (bc_reflector cfg)) peer c)) st))))
      | _ \<Rightarrow> (Inr (), st))"

section \<open>The published address\<close>

text \<open>A comparison of a fingerprint of a verifying key with that of the service fails.\<close>

definition tells_apart :: "('vk, 'sg) crypto \<Rightarrow> bool" where
  "tells_apart cr \<longleftrightarrow>
     (\<forall>bs. length (b64_encode cr bs) = 4 * ((length bs + 2) div 3)) \<and> (\<forall>bs. length (sha256 cr bs) = 32)
     \<and> (\<forall>x. length x = 12 \<longrightarrow> \<not> constant_time_compare cr x REFLECTOR_FINGERPRINT)"

lemma service_put_fields:
  assumes "env_agrees (service_put_request key v sg vk kb n uuid now) env"
  shows "msg_type env = ''blob-put''" "payload_str env ''key'' = Some key" "payload_str env ''publisher_fp'' = Some REFLECTOR_FINGERPRINT"
    "payload_str env ''publisher_verifying_key'' = Some vk" "payload_str env ''pq_publisher_fp'' = None"
    "payload_str env ''value'' = Some v"
  using assms by (simp_all add: env_agrees_def service_put_request_def payload_str_def payload_field_def)

lemma service_put_rejected:
  assumes "tells_apart (e_crypto E)" "env_agrees (service_put_request (cert_blob_key (e_crypto E) fp) v sg vk kb n uuid now) env"
  shows "nd_store (snd (dispatch E stealth ip env nd)) = nd_store nd"
    "\<exists>m \<in> {''value too large'', ''invalid cert bundle signature''}. \<exists>key. fst (dispatch E stealth ip env nd) = dht_error E key m"
proof -
  note f = service_put_fields[OF assms(2)]
  have "verify_dht_put_signature E data sg' REFLECTOR_FINGERPRINT env cache = (False, cache)" for data sg' cache
    using assms(1) fingerprint_length[of "e_crypto E"]
    by (auto simp: verify_dht_put_signature_def f Let_def tells_apart_def split: option.split)
  moreover have "starts_with ''cert:'' (cert_blob_key (e_crypto E) fp)" by (simp add: cert_blob_key_def starts_with_def)
  moreover have d: "dispatch E stealth ip env nd = handle_blob_put E env nd" using f(1) by (simp add: dispatch_def)
  ultimately show "nd_store (snd (dispatch E stealth ip env nd)) = nd_store nd"
    "\<exists>m \<in> {''value too large'', ''invalid cert bundle signature''}. \<exists>key. fst (dispatch E stealth ip env nd) = dht_error E key m"
    by (auto simp: d handle_blob_put_def f Let_def split: option.split)
qed

abbreviation stores :: "'vk world \<Rightarrow> string \<Rightarrow> DhtStore" where
  "stores w \<equiv> \<lambda>url. nd_store (wd_nodes w url)"

text \<open>The service publishes on DHT nodes that are ready and use its primitives.\<close>

definition bot_world :: "('kp, 'vk, 'sg, 'vk world) bot_env \<Rightarrow> bool" where
  "bot_world B \<longleftrightarrow>
     (\<exists>envs stealth ip records up. be_net B = dht_net (be_codec B) envs stealth ip records up
        \<and> (\<forall>i. dht_ready (envs i) \<and> e_crypto (envs i) = be_crypto B))
     \<and> wire_ok (be_codec B) \<and> tells_apart (be_crypto B)"

text \<open>The answer to a refused bundle.\<close>

definition bundle_refusal :: "WireEnvelope \<Rightarrow> bool" where
  "bundle_refusal r \<longleftrightarrow> msg_type r = ''dht-error''
     \<and> payload_str r ''message'' \<in> {Some ''value too large'', Some ''invalid cert bundle signature''}"

lemma dht_error_fields: "msg_type (dht_error E key m) = ''dht-error''" "payload_str (dht_error E key m) ''message'' = Some m"
  by (simp_all add: dht_error_def build_dht_error_def payload_str_def payload_field_def)

lemma bot_worldE:
  fixes B :: "('kp, 'vk, 'sg, 'vk world) bot_env"
  assumes "bot_world B"
  obtains envs :: "nat \<Rightarrow> ('vk, 'sg) dht_env" and stealth ip records up
  where "be_net B = dht_net (be_codec B) envs stealth ip records up" "\<And>i. dht_ready (envs i)" "\<And>i. e_crypto (envs i) = be_crypto B"
    "wire_ok (be_codec B)" "tells_apart (be_crypto B)"
  using assms unfolding bot_world_def by blast

lemma service_ask_refused:
  assumes "bot_world B"
  obtains t r w' where "ask_open (be_net B) url (\<lambda>uuid now. to_json (be_codec B)
     (service_put_request (cert_blob_key (be_crypto B) fp) v sg vk kb n uuid now)) w = (Answered (Frame (Text t)), w')"
    "from_json (be_codec B) t = Inr r" "bundle_refusal r" "stores w' = stores w"
proof -
  from assms obtain envs stealth ip records up where N: "be_net B = dht_net (be_codec B) envs stealth ip records up"
    "\<And>i. dht_ready (envs i)" "\<And>i. e_crypto (envs i) = be_crypto B" and C: "wire_ok (be_codec B)" "tells_apart (be_crypto B)"
    by (rule bot_worldE) blast
  let ?Ed = "envs (wd_tick w)"
  let ?req = "service_put_request (cert_blob_key (be_crypto B) fp) v sg vk kb n"
  have q: "e_now ?Ed \<in> \<rat>" using N(2) by (simp add: dht_ready_def)
  have rej: "nd_store (snd (dispatch ?Ed stealth ip env nd)) = nd_store nd" "rat_env (fst (dispatch ?Ed stealth ip env nd))"
    and refused: "\<exists>m \<in> {''value too large'', ''invalid cert bundle signature''}. \<exists>key. fst (dispatch ?Ed stealth ip env nd) = dht_error ?Ed key m"
    if "env_agrees (?req (e_uuid ?Ed) (e_now ?Ed)) env" for env nd
  proof -
    have a: "env_agrees (service_put_request (cert_blob_key (e_crypto ?Ed) fp) v sg vk kb n (e_uuid ?Ed) (e_now ?Ed)) env"
      using that by (simp add: N(3))
    have t: "tells_apart (e_crypto ?Ed)" using C(2) by (simp add: N(3))
    show "nd_store (snd (dispatch ?Ed stealth ip env nd)) = nd_store nd" by (rule service_put_rejected(1)[OF t a])
    show "\<exists>m \<in> {''value too large'', ''invalid cert bundle signature''}. \<exists>key. fst (dispatch ?Ed stealth ip env nd) = dht_error ?Ed key m"
      by (rule service_put_rejected(2)[OF t a])
    show "rat_env (fst (dispatch ?Ed stealth ip env nd))"
      using service_put_rejected(2)[OF t a, of stealth ip nd] q by (auto simp: dht_error_def build_dht_error_def rat_env_def)
  qed
  have rat: "rat_env (?req (e_uuid ?Ed) (e_now ?Ed))" using q by (simp add: rat_env_def service_put_request_def)
  have stamp: "ts (?req (e_uuid ?Ed) (e_now ?Ed)) = e_now ?Ed" by (simp add: service_put_request_def)
  obtain t r env where ag: "env_agrees (?req (e_uuid ?Ed) (e_now ?Ed)) env"
    and a: "ask_open (dht_net (be_codec B) envs stealth ip records up) url (\<lambda>uuid now. to_json (be_codec B) (?req uuid now)) w
       = (Answered (Frame (Text t)),
          \<lparr>wd_nodes = (wd_nodes w)(url := snd (dispatch ?Ed stealth ip env (wd_nodes w url))), wd_tick = Suc (wd_tick w)\<rparr>)"
    and t: "from_json (be_codec B) t = Inr r" "env_agrees (fst (dispatch ?Ed stealth ip env (wd_nodes w url))) r"
    by (rule ask_dht[where req = ?req and envs = envs and w = w and url = url, OF C(1) rat stamp rej(2)]) blast+
  obtain m key where "m = ''value too large'' \<or> m = ''invalid cert bundle signature''"
    "fst (dispatch ?Ed stealth ip env (wd_nodes w url)) = dht_error ?Ed key m" using refused[OF ag] by blast
  then have "bundle_refusal r"
    using t(2) by (auto simp: bundle_refusal_def env_agrees_def dht_error_fields)
  then show thesis using that[OF a[folded N(1)] t(1)] rej(1)[OF ag] by (simp add: fun_eq_iff)
qed

lemma service_ask_keeps:
  assumes "bot_world B"
  shows "stores (snd (ask_open (be_net B) url (\<lambda>uuid now. to_json (be_codec B)
     (service_put_request (cert_blob_key (be_crypto B) fp) v sg vk kb n uuid now)) w)) = stores w"
  by (rule service_ask_refused[OF assms, of url fp v sg vk kb n w]) simp

lemma publish_keeps_stores:
  assumes "bot_world B"
  shows "stores (snd (snd (publish_service_bundle B url address (d, w)))) = stores w"
proof -
  from assms obtain envs stealth ip records up where N: "be_net B = dht_net (be_codec B) envs stealth ip records up"
    "\<And>i. e_crypto (envs i) = be_crypto B" by (rule bot_worldE) blast
  have c: "net_connect (be_net B) url w = (if up url then Inr () else Inl ''unreachable'', w)" by (simp add: N(1))
  let ?J = "\<lambda>s. stores (snd s) = stores w"
  show ?thesis
  proof (cases "up url")
    case True
    have "?J (snd (publish_service_bundle B url address (d, w)))"
      unfolding publish_service_bundle_def prod.case c
      using service_ask_keeps[OF assms] True
      by (auto simp: Let_def split: prod.split ask.split intro!: then_ok_keeps[where J = ?J]) (metis snd_conv)+
    then show ?thesis .
  qed (simp add: publish_service_bundle_def c)
qed

lemma round_keeps_stores:
  assumes "bot_world B"
  shows "stores (snd (publish_round B address urls (d, w))) = stores w"
proof (induction urls arbitrary: d w)
  case (Cons url urls)
  obtain r d1 w1 where p: "publish_service_bundle B url address (d, w) = (r, d1, w1)" by (metis prod.exhaust)
  show ?case using Cons[of d1 w1] publish_keeps_stores[OF assms, of url address d w] p by simp
qed simp

text \<open>C18: The address of the reflector is never stored, and the service takes it for published. When a node is reached
  and the keys, the signature and the proof of work are there, the put of the bundle is sent and answered with an
  error, the stores of all nodes stay as they were, and publishing nevertheless succeeds: the answer is not read. And
  however often the service publishes and wherever, no store changes. The nodes compare the fingerprint of the
  enclosed verifying key, which has 12 characters, with the OpenPGP fingerprint of the service, which has 40.\<close>

theorem service_bundle_never_stored:
  assumes "bot_world B" "net_connect (be_net B) url w = (Inr (), w)" "service_kyber B = Inr kb"
    and "load_reflector_signing_key B d = (Inr (seed, vk), d1)"
    and "key = cert_blob_key (be_crypto B) REFLECTOR_FINGERPRINT"
    and "v = b64_encode (be_crypto B) (str_bytes (be_text B (service_bundle vk kb address)))"
    and "bot_sign B seed (key @ ''|'' @ v @ ''|'' @ REFLECTOR_FINGERPRINT) = Inr (pair, sg)" "service_pow B key v = Inr nonce"
  shows "(\<exists>t r w'. ask_open (be_net B) url (\<lambda>uuid now. to_json (be_codec B) (service_put_request key v sg vk kb nonce uuid now)) w
        = (Answered (Frame (Text t)), w')
      \<and> from_json (be_codec B) t = Inr r \<and> msg_type r = ''dht-error''
      \<and> payload_str r ''message'' \<in> {Some ''value too large'', Some ''invalid cert bundle signature''}
      \<and> publish_service_bundle B url address (d, w) = (Inr (), d1, w') \<and> stores w' = stores w)
    \<and> (\<forall>urls d0 w0. stores (snd (publish_round B address urls (d0, w0))) = stores w0)"
proof -
  obtain t r w' where a: "ask_open (be_net B) url (\<lambda>uuid now. to_json (be_codec B) (service_put_request key v sg vk kb nonce uuid now)) w
      = (Answered (Frame (Text t)), w')"
    and r: "from_json (be_codec B) t = Inr r" "bundle_refusal r" "stores w' = stores w"
    unfolding assms(5) by (rule service_ask_refused[OF assms(1)])
  have "publish_service_bundle B url address (d, w) = (Inr (), d1, w')"
    using assms(2-4,7,8) a by (simp add: publish_service_bundle_def Let_def assms(5)[symmetric] assms(6)[symmetric])
  with a r round_keeps_stores[OF assms(1)] show ?thesis unfolding bundle_refusal_def by blast
qed

section \<open>The signing key\<close>

text \<open>The service keeps its identity: when the seed can be written, every later start loads the signing key that the
  first one returned, and changes nothing on the disk.\<close>

theorem signing_key_persists:
  assumes "key_env_ok (be_hex B)" "\<And>pair. length (be_to_seed B pair) = 32" "\<And>pair. be_from_seed B (be_to_seed B pair) = Inr pair"
    and "bd_seed_err d = None" "bd_seed_read_err d = None" "load_reflector_signing_key B d = (Inr k, d')"
  shows "load_reflector_signing_key B d' = (Inr k, d')"
proof -
  have new: "load_reflector_signing_key B d' = (Inr k, d')" if gen: "generate_signing_key B d = (Inr k, d')"
  proof -
    obtain pair where "k = (be_to_seed B pair, bot_vk_b64 B pair)" "d' = d\<lparr>bd_seed := Some (hex_encode (be_to_seed B pair))\<rparr>"
      using gen assms(4) by (auto simp: generate_signing_key_def split: sum.splits)
    then show ?thesis
      using assms by (simp add: load_reflector_signing_key_def trim_hex key_env_okD)
  qed
  show ?thesis
  proof (cases "bd_seed d")
    case None
    then show ?thesis using new assms(6) by (simp add: load_reflector_signing_key_def)
  next
    case (Some t)
    then show ?thesis using new assms(5,6) by (cases "length (str_trim t) = 64") (auto simp: load_reflector_signing_key_def split: sum.splits if_splits)
  qed
qed

section \<open>The echo\<close>

text \<open>Frames the service reads over while it waits for the message.\<close>

fun skipped :: "(string \<Rightarrow> (string, json) result) \<Rightarrow> ws_event \<Rightarrow> bool" where
  "skipped parse (Frame (Text t)) = (case parse t of Inl _ \<Rightarrow> True | Inr v \<Rightarrow> frame_type v \<noteq> Some ''p2p-message'')"
| "skipped parse (Frame OtherFrame) = True"
| "skipped parse NoFrame = True"
| "skipped parse _ = False"

lemma next_message_skips: "\<forall>ev \<in> set evs. skipped parse ev \<Longrightarrow> next_message parse (evs @ es) = next_message parse es"
proof (induction evs)
  case (Cons ev evs)
  then show ?case by (cases "(parse, ev)" rule: skipped.cases) (auto split: sum.splits)
qed simp

lemma bot_send_all_sent:
  assumes "send_errors (bs_ws st) = []"
  shows "bot_send_all frames st = (Inr (), st\<lparr>bs_ws := (bs_ws st)\<lparr>sent := sent (bs_ws st) @ map Text frames\<rparr>\<rparr>)"
  using assms by (induction frames arbitrary: st) (simp_all add: bot_send_def ws_send_def)

lemma loopback_read:
  assumes "\<And>j. j \<in> set (echo_values B io pre peer c) \<Longrightarrow> ce_parse (pe_client E) (be_text B j) = Inr j"
  shows "await_delivery E clk rfp h message n (map (Frame \<circ> Text \<circ> be_text B) (echo_values B io pre peer c) @ rest) False False cache
    = (Inr [Echo message, Delivered, ReceiptUnverified], cache)"
  using assms
  by (simp add: echo_values_def echo_json_def bot_ack_json_def bot_receipt_json_def peer_reply_def frame_type_def json_get_def
      field_str_def verify_receipt_signature_def Let_def)

text \<open>C19: The loopback test from both sides, for every configuration: the prefixes of known bots and the switch for
  receipts are not consulted. The service reads over the frames before the message, sends the echo, the acknowledgement
  and the receipt, in this order, and is done. A client that reads them reports the echo of its own text, whatever came
  back, the delivery, and a receipt it could not verify, and stops waiting.\<close>

theorem reflector_loopback:
  assumes "be_parse B t = Inr hello" "frame_type hello = Some ''p2p-hello''"
    and "send_bot_ack B io st = (Inr (), st1)" "send_errors (bs_ws st1) = []"
    and "incoming (bs_ws st1) = evs @ Frame (Text m) # post" "\<forall>ev \<in> set evs. skipped (be_parse B) ev"
    and "be_parse B m = Inr v" "frame_type v = Some ''p2p-message''" "nested_field as_str v ''ciphertext'' = Some c"
    and "values = echo_values B io (rc_prefix (bc_reflector cfg)) (unwrap_or ''unknown'' (field_str hello ''public_key'')) c"
    and "\<And>j. j \<in> set values \<Longrightarrow> ce_parse (pe_client E) (be_text B j) = Inr j"
  shows "(\<exists>st2. bot_handle_connection B io cfg (HelloText t) st = (Inr (), st2)
        \<and> sent (bs_ws st2) = sent (bs_ws st1) @ map (Text \<circ> be_text B) values)
    \<and> await_delivery E clk rfp h message n (map (Frame \<circ> Text \<circ> be_text B) values @ rest) False False cache
        = (Inr [Echo message, Delivered, ReceiptUnverified], cache)"
proof
  have "next_message (be_parse B) (incoming (bs_ws st1)) = (Inr (Some c), post)"
    using assms(5-9) by (simp add: next_message_skips)
  then show "\<exists>st2. bot_handle_connection B io cfg (HelloText t) st = (Inr (), st2)
      \<and> sent (bs_ws st2) = sent (bs_ws st1) @ map (Text \<circ> be_text B) values"
    using assms(1-4,10) by (simp add: bot_handle_connection_def failing_def require_def Let_def bot_send_all_sent)
  show "await_delivery E clk rfp h message n (map (Frame \<circ> Text \<circ> be_text B) values @ rest) False False cache
      = (Inr [Echo message, Delivered, ReceiptUnverified], cache)"
    using assms(11) unfolding assms(10) by (rule loopback_read)
qed

section \<open>A small instance\<close>

definition toy_message :: json where
  "toy_message = JObject [(''msg_type'', JString ''p2p-message''), (''payload'', JObject [(''ciphertext'', JString ''c'')])]"

definition toy_values :: "json list" where
  "toy_values =
     [echo_json default_prefix ''c'' ''unknown'', bot_ack_json, bot_receipt_json (sha_hex wide_crypto (str_bytes ''c'')) 0]"

definition toy_line :: "json \<Rightarrow> string" where
  "toy_line j = (if j = toy_values ! 0 then ''e'' else if j = toy_values ! 1 then ''a'' else if j = toy_values ! 2 then ''r'' else ''x'')"

definition toy_read :: "string \<Rightarrow> (string, json) result" where
  "toy_read t =
     (if t = ''h'' then Inr toy_hello else if t = ''m'' then Inr toy_message else if t = ''e'' then Inr (toy_values ! 0)
      else if t = ''a'' then Inr (toy_values ! 1) else if t = ''r'' then Inr (toy_values ! 2) else Inl ''no JSON'')"

definition wide_dht_env :: "nat \<Rightarrow> (nat, nat) dht_env" where
  "wide_dht_env i = (toy_dht_env i)\<lparr>e_crypto := wide_crypto\<rparr>"

definition toy_bot :: "(unit, nat, nat, nat world) bot_env" where
  "toy_bot =
     \<lparr>be_net = dht_net nat_codec wide_dht_env False ''ip'' (\<lambda>_. None) (\<lambda>_. True), be_codec = nat_codec, be_parse = toy_read,
      be_text = toy_line, be_crypto = wide_crypto, be_hex = toy_key_env, be_hkdf = \<lambda>ikm label n. replicate n 0,
      be_kyber_seed = \<lambda>_. Inr ''ek'', be_generate = Inr (), be_from_seed = \<lambda>_. Inr (), be_to_seed = \<lambda>_. replicate 32 0,
      be_vk = \<lambda>_. 3, be_sign = \<lambda>_ _. Inr ''s'', be_argon = Inr (\<lambda>_ _. Inr (replicate 32 0)), be_elapsed = \<lambda>_. 0\<rparr>"

definition toy_disk :: bot_disk where
  "toy_disk =
     \<lparr>bd_config = None, bd_seed = None, bd_config_read_err = None, bd_seed_read_err = None, bd_config_err = None, bd_seed_err = None\<rparr>"

definition toy_bot_io :: bot_io where
  "toy_bot_io = \<lparr>bi_uuid = \<lambda>_. [], bi_now = \<lambda>_. 0, bi_kyber = Inr ''ek''\<rparr>"

definition toy_bot_state :: "(nat, nat world) bot_state" where
  "toy_bot_state =
     \<lparr>bs_ws = \<lparr>incoming = [Frame OtherFrame, Frame (Text ''token''), Frame (Text ''m'')], sent = [], send_errors = []\<rparr>,
      bs_disk = toy_disk, bs_cache = None\<rparr>"

lemma toy_bot_world: "bot_world toy_bot"
proof -
  have "dht_ready (wide_dht_env i)" for i using toy_dht_ready(1)[of i] by (simp add: dht_ready_def wide_dht_env_def)
  moreover have "tells_apart wide_crypto"
    using str_bytes_inj by (fastforce simp: tells_apart_def wide_crypto_def toy_crypto_def constant_time_compare_def REFLECTOR_FINGERPRINT_def)
  moreover have "e_crypto (wide_dht_env i) = wide_crypto" for i by (simp add: wide_dht_env_def)
  ultimately show ?thesis unfolding bot_world_def using nat_codec_wire_ok by (fastforce simp: toy_bot_def)
qed

lemma toy_key: "load_reflector_signing_key toy_bot toy_disk
    = (Inr (replicate 32 0, bot_vk_b64 toy_bot ()), toy_disk\<lparr>bd_seed := Some (hex_encode (replicate 32 0))\<rparr>)"
  by (simp add: load_reflector_signing_key_def generate_signing_key_def toy_bot_def toy_disk_def)

lemma toy_pow: "service_pow toy_bot key v = Inr 0"
  using zero_hash_bits
  by (simp add: service_pow_def toy_bot_def pow_solve_def solve_loop.simps[of _ _ _ _ _ 0] ADDR_POW_DIFFICULTY_def MIN_POW_DIFFICULTY_def)

theorem service_bundle_never_stored_witness:
  "\<exists>w'. publish_service_bundle toy_bot default_bootstrap ''ws://a'' (toy_disk, toy_world)
      = (Inr (), toy_disk\<lparr>bd_seed := Some (hex_encode (replicate 32 0))\<rparr>, w') \<and> stores w' = stores toy_world
   \<and> stores (snd (publish_round toy_bot ''ws://a'' bot_bootstraps (toy_disk, toy_world))) = stores toy_world"
proof -
  have c: "net_connect (be_net toy_bot) u w = (Inr (), w)" "service_kyber toy_bot = Inr ''ek''" "bot_sign toy_bot (replicate 32 0) x = Inr ((), ''s'')" for u w x
    by (simp_all add: toy_bot_def service_kyber_def bot_sign_def and_then_def)
  show ?thesis
    using service_bundle_never_stored[OF toy_bot_world c(1,2) toy_key refl refl c(3) toy_pow] by blast
qed

theorem signing_key_persists_witness:
  "load_reflector_signing_key toy_bot (toy_disk\<lparr>bd_seed := Some (hex_encode (replicate 32 0))\<rparr>)
     = (Inr (replicate 32 0, bot_vk_b64 toy_bot ()), toy_disk\<lparr>bd_seed := Some (hex_encode (replicate 32 0))\<rparr>)"
  by (rule signing_key_persists[OF _ _ _ _ _ toy_key]) (simp_all add: toy_bot_def toy_key_env_ok toy_disk_def)

lemma toy_acked: "\<exists>t st1. send_bot_ack toy_bot toy_bot_io toy_bot_state = (Inr (), st1)
    \<and> bs_ws st1 = (bs_ws toy_bot_state)\<lparr>sent := [Text t]\<rparr>"
proof -
  define code where "code = (\<lambda>env. replicate (to_nat_on (Collect rat_env) env) (CHR ''a''))"
  have d: "bs_disk toy_bot_state = toy_disk" "bi_kyber toy_bot_io = Inr ''ek''" "be_from_seed toy_bot x = Inr ()" "be_sign toy_bot y z = Inr ''s''"
    "to_json (be_codec toy_bot) env = Inr (code env)" for x y z env
    by (simp_all add: toy_bot_state_def toy_bot_io_def toy_bot_def nat_codec_def code_def)
  show ?thesis
    by (simp add: send_bot_ack_def failing_def d toy_key Let_def bot_send_def ws_send_def) (simp add: toy_bot_state_def)
qed

lemma toy_lines: "j \<in> set toy_values \<Longrightarrow> toy_read (toy_line j) = Inr j"
  by (auto simp: toy_values_def toy_line_def toy_read_def)

theorem reflector_loopback_witness:
  "\<exists>t st2. bot_handle_connection toy_bot toy_bot_io BotConfig_default (HelloText ''h'') toy_bot_state = (Inr (), st2)
     \<and> sent (bs_ws st2) = [Text t, Text ''e'', Text ''a'', Text ''r'']
     \<and> fst (await_delivery (toy_sender\<lparr>pe_client := toy_client\<lparr>ce_parse := toy_read\<rparr>\<rparr>) (\<lambda>_. 0) ''BB'' [] ''hi'' 0
         [Frame (Text ''e''), Frame (Text ''a''), Frame (Text ''r'')] False False None) = Inr [Echo ''hi'', Delivered, ReceiptUnverified]"
proof -
  let ?E = "toy_sender\<lparr>pe_client := toy_client\<lparr>ce_parse := toy_read\<rparr>\<rparr>"
  obtain t st1 where st1: "send_bot_ack toy_bot toy_bot_io toy_bot_state = (Inr (), st1)" "bs_ws st1 = (bs_ws toy_bot_state)\<lparr>sent := [Text t]\<rparr>"
    using toy_acked by blast
  have i: "incoming (bs_ws st1) = [Frame OtherFrame, Frame (Text ''token'')] @ Frame (Text ''m'') # []" "send_errors (bs_ws st1) = []"
    by (simp_all add: st1(2) toy_bot_state_def)
  have v: "toy_values = echo_values toy_bot toy_bot_io (rc_prefix (bc_reflector BotConfig_default)) (unwrap_or ''unknown'' (field_str toy_hello ''public_key'')) ''c''"
    by (simp add: toy_values_def echo_values_def toy_bot_def toy_bot_io_def BotConfig_default_def reflector_default_def toy_hello_def field_str_def json_get_def)
  have m: "frame_type toy_message = Some ''p2p-message''" "nested_field as_str toy_message ''ciphertext'' = Some ''c''"
    by (simp_all add: toy_message_def frame_type_def nested_field_def json_get_def)
  have h: "frame_type toy_hello = Some ''p2p-hello''" by (simp add: toy_hello_def frame_type_def json_get_def)
  have p: "be_parse toy_bot ''h'' = Inr toy_hello" "be_parse toy_bot ''m'' = Inr toy_message" "be_parse toy_bot ''token'' = Inl ''no JSON''"
    by (simp_all add: toy_bot_def toy_read_def)
  have s: "\<forall>ev \<in> set [Frame OtherFrame, Frame (Text ''token'')]. skipped (be_parse toy_bot) ev" by (simp add: p)
  have r: "ce_parse (pe_client ?E) (be_text toy_bot j) = Inr j" if "j \<in> set toy_values" for j
    using toy_lines[OF that] by (simp add: toy_bot_def)
  have l: "map (Text \<circ> be_text toy_bot) toy_values = [Text ''e'', Text ''a'', Text ''r'']"
    "map (Frame \<circ> Text \<circ> be_text toy_bot) toy_values = [Frame (Text ''e''), Frame (Text ''a''), Frame (Text ''r'')]"
    by (simp_all add: toy_values_def toy_bot_def toy_line_def echo_json_def bot_ack_json_def bot_receipt_json_def)
  have "sent (bs_ws st1) = [Text t]" by (simp add: st1(2))
  with reflector_loopback[OF p(1) h st1(1) i(2,1) s p(2) m v r, of "\<lambda>_. 0" "''BB''" "[]" "''hi''" 0 "[]" None] show ?thesis
    unfolding l append_Nil2 by (metis append_Cons append_Nil fst_conv)
qed

end
