(* ===== verification/Spec2Isabelle.thy ===== *)
theory Spec2Isabelle
  imports SnapshotDefense HelloHandshake PeerManager PinCache DoubleRatchet RelayHandlers PqRatchet Cbnp Reflector
begin

text \<open>
  A verification of the services of the Add messenger: the Rust crates under \<open>src/\<close>.

  \<^bold>\<open>The program.\<close> A client (\<open>src/client\<close>) keeps an identity, contacts, ratchet sessions and an encrypted message
  store. It finds peers through a DHT of bootstrap nodes (\<open>src/dht-core\<close>, started by \<open>src/bootstrap\<close>), talks to them
  directly over WebSockets (\<open>src/p2p\<close>) or leaves messages at a relay (\<open>src/relay\<close>), which stores them until they are
  fetched and forwards them to other relays of its federation. All parties exchange signed JSON envelopes
  (\<open>src/protocol\<close>); messages are encrypted by a double ratchet (\<open>src/crypto\<close>), and a second, post-quantum ratchet is
  provided by \<open>src/crypto-pq\<close>. Proofs of work guard the hello handshake and the DHT. A reflector (\<open>src/bot\<close>) echoes
  messages for loopback tests.

  \<^bold>\<open>How it is modelled.\<close> Every function is a HOL function over the state it reads and returns, with one branch
  for each early return; a \<open>Result\<close> is a sum (\<open>Inl\<close> the error), an \<open>Option\<close> an option, a \<open>HashMap\<close> an association
  list with the laws of \<open>Prelude\<close>, a machine integer a word of its width, or an integer where its range is
  checked. Cryptography, Base64, UTF-8, SQLite, the age format, TLS chain validation, clocks and randomness are
  arguments; what the code relies on is stated as a predicate (\<open>prims_ok\<close>, \<open>key_env_ok\<close>, \<open>keys_ok\<close>, \<open>pq_ok\<close>, \<open>vault_ok\<close>, \<open>client_ok\<close>, ...)
  of which each property that needs it has an instance in its witness. A database query, a file or a socket can fail
  wherever the code handles it: the failure is an argument too.

  \<^bold>\<open>Theories\<close>, in the order of their dependencies, with the code they model:
  \<^item> \<open>Prelude\<close>: bytes, strings, hash maps, JSON values, big-endian numbers, and the lemmas the other theories share.
  \<^item> \<open>Envelope\<close>: \<open>protocol/src/envelope.rs\<close>, \<open>constants.rs\<close>; envelopes and the data that is signed.
  \<^item> \<open>Pow\<close>: \<open>protocol/src/pow.rs\<close>; the count of leading zero bits and the bounded solver.
  \<^item> \<open>Braid\<close>: \<open>protocol/src/braid.rs\<close>; a key split in chunks and reassembled in any order of arrival.
  \<^item> \<open>Transport\<close>: \<open>p2p/src/transport.rs\<close>, \<open>protocol.rs\<close>, \<open>braid_handshake.rs\<close>; the socket as a list of events, message
    builders, and the exchange of braided keys over whole and split connections with its check against the signed key.
  \<^item> \<open>HelloHandshake\<close>: \<open>p2p/src/handshake.rs\<close>; \<open>PeerManager\<close>: \<open>p2p/src/peer.rs\<close>.
  \<^item> \<open>SnapshotDefense\<close>: \<open>crypto/src/snapshot_defense.rs\<close>; GF(256), two-of-three sharing, the share files.
  \<^item> \<open>RateLimit\<close>, \<open>DhtStore\<close>, \<open>CryptoHelpers\<close>, \<open>PinCache\<close>, \<open>DhtNode\<close>: \<open>dht-core/src\<close> \<open>ratelimit.rs\<close>,
    \<open>sqlite_store.rs\<close>, \<open>crypto_helpers.rs\<close>, \<open>pin_cache.rs\<close>, \<open>dht_node.rs\<close>; \<open>Pir\<close>: \<open>crypto/src/pir.rs\<close>.
  \<^item> \<open>DoubleRatchet\<close>: \<open>crypto/src/lib.rs\<close>; sessions, encryption, decryption with skipped keys.
  \<^item> \<open>Mailbox\<close>, \<open>RelayState\<close>, \<open>RelayHandlers\<close>: \<open>relay/src/main.rs\<close>; mailboxes and nonce windows, storage in memory
    and in SQLite with blind tags, and every arm of \<open>handle_message\<close>, federation included.
  \<^item> \<open>ClientCrypto\<close>: helpers of \<open>client/src/main.rs\<close> (database key and its file, padding, safety numbers, routing
    tags, certificate pins) and \<open>crypto/src/delivery_tokens.rs\<close>; \<open>MessageStore\<close>: the encrypted store of the client
    with an abstract plaintext store beside it.
  \<^item> \<open>Vault\<close>: \<open>crypto/src\<close> \<open>tpm_vault.rs\<close>, \<open>kyber.rs\<close>, \<open>hardware_keys.rs\<close>; the sealed vault with its attempt
    counter and self-destruction, the ML-KEM key files, the passphrase file.
  \<^item> \<open>ClientRelay\<close>: \<open>send_via_relay\<close>, \<open>relay_decrypt_message\<close> and the \<open>read\<close> command of \<open>client/src/main.rs\<close>, with the
    listing of stored messages, composed with the ratchet, the store and the relay.
  \<^item> \<open>PqKem\<close>, \<open>PqRatchet\<close>: \<open>crypto-pq/src\<close> \<open>hybrid_kem.rs\<close>, \<open>kem.rs\<close>, \<open>pqxdh.rs\<close>, \<open>ratchet_pq.rs\<close>.
  \<^item> \<open>NatTraversal\<close>, \<open>Upnp\<close>: \<open>p2p/src\<close> \<open>nat.rs\<close>, \<open>upnp.rs\<close>; \<open>Cbnp\<close>: \<open>crypto/src/cbnp.rs\<close>, cover traffic.
  \<^item> \<open>ClientNet\<close>: server discovery and the request-reply exchange of \<open>client/src/main.rs\<close>; \<open>WireCodec\<close>: what is assumed of
    the JSON codec between two parties.
  \<^item> \<open>ClientDirectory\<close>: publishing, fetching and resolving certificates, contacts and registration of the client, over
    a network of the nodes of \<open>DhtNode\<close>; \<open>Presence\<close>: \<open>client/src/presence.rs\<close> over the same network.
  \<^item> \<open>P2pSession\<close>: \<open>send_message\<close> and \<open>handle_incoming_connection\<close> of \<open>client/src/main.rs\<close>, composed with the handshake,
    the braid, the ratchet, the store and the directory.
  \<^item> \<open>Reflector\<close>: \<open>bot/src\<close> \<open>main.rs\<close>, \<open>config.rs\<close>, composed with the DHT nodes and the waiting client.

  \<^bold>\<open>Interfaces\<close> are locales, each interpreted on the definitions that provide it: \<open>bounded_queues\<close> (\<open>BoundedQueue\<close>;
  pending messages of the peer manager), \<open>replay_guard\<close> (\<open>ReplayGuard\<close>; the nonce log of the DHT store),
  \<open>nonce_window\<close> (\<open>Mailbox\<close>; the three replay windows of the relay), \<open>xor_additive\<close> (\<open>SnapshotDefense\<close>; the linear
  maps of the field), \<open>keyed_store\<close> (\<open>KeyedStore\<close>; hash maps and the session table of the client), and \<open>blob_service\<close>
  (\<open>BlobService\<close>; the dispatcher of the DHT node, on which the directory and presence rest).

  \<^bold>\<open>What is proved.\<close> Round trips of the wire formats, files, braids, shares and both ratchets; refinement of the
  plaintext message store and of the session map by the encrypted ones; bounds of mailboxes, queues, windows, caches
  and key stores in every reachable state; the guards that an accepted DHT put, relay fetch or hello has passed;
  equivalence of the zero-bit count, of the HMAC comparison and of the routing tags with their references; that
  receiving terminates; and, where the code does not do what it means to, what it does instead (forged signatures,
  replays, reflected authentication, unreachable messages, shared message keys). Across components: a message sent
  through a relay within its epochs decrypts at its recipient to the text sent, with some of the padding behind it where
  the padding is long; certificates published on DHT nodes are found by other clients, and the copy under the OpenPGP
  fingerprint although its signature is for another key; presence can be forged, and with contacts as \<open>add-contact\<close>
  stores them honest presence lies where nobody looks; the listener serves nobody without consent and a checked
  signature, and with those contacts nobody but the reflector, whose address no node ever stores; the loopback of a
  message through the reflector. Replay protection of the DHT store is stated over histories of all its operations.

  \<^bold>\<open>Loops and bounds.\<close> Loops over data are structural; the solvers recurse on their attempt limit; the receiving
  loop of the post-quantum ratchet is a \<open>partial_function\<close>, whose termination is a property; the socket loops
  recurse on the finite list of events a peer sends. No definition has fuel that the code does not have.

  \<^bold>\<open>Not modelled\<close>: the command line, prompts and printed output; sockets, TLS sessions and the WebSocket protocol itself;
  the desktop user interface; identity creation and the calls of the OpenPGP, TPM and ML-DSA libraries; memory locking
  and zeroing, which do not change values; start-up of the servers and background tasks that only wait and send again,
  the refresh of the listener's address among them; and concurrency beyond the interleaving of a check and a write in
  \<open>DhtStore\<close>. What remains is input and output around the operations that are modelled.
\<close>

end
